(* ===== verification/Prelude.thy ===== *)
theory Prelude
  imports Main
begin

text \<open>
  Generic lemmas and proof collections that the component theories share: facts on lists,
  options and bounded integers, and the \<^theory_text>\<open>named_theorems\<close> through which the
  components hand their rewrite rules to the proofs of the components that call them.
\<close>

named_theorems handler_defs \<open>definitions of request handlers, unfolded in branch proofs\<close>
named_theorems conserve \<open>conservation and bound facts of stateful components\<close>

section \<open>Machine integers as bounded ints\<close>

text \<open>
  Go's \<open>int\<close> is 64 bits wide on the platforms the program is built for, and \<open>int64\<close>
  always is. Where the code's arithmetic can leave the range the model writes the wrap-around
  out with \<open>wrap64\<close>.
\<close>

definition max_int64 :: int where
  "max_int64 = 9223372036854775807"

definition min_int64 :: int where
  "min_int64 = - 9223372036854775808"

definition is_int64 :: "int \<Rightarrow> bool" where
  "is_int64 x \<longleftrightarrow> min_int64 \<le> x \<and> x \<le> max_int64"

definition wrap64 :: "int \<Rightarrow> int" where
  "wrap64 x = (x + 9223372036854775808) mod 18446744073709551616 - 9223372036854775808"

lemma wrap64_id: "is_int64 x \<Longrightarrow> wrap64 x = x"
  by (simp add: wrap64_def is_int64_def min_int64_def max_int64_def)

lemma wrap64_range: "is_int64 (wrap64 x)"
proof -
  have "0 \<le> (x + 9223372036854775808) mod 18446744073709551616"
    and "(x + 9223372036854775808) mod 18446744073709551616 < 18446744073709551616"
    by simp_all
  then show ?thesis
    by (simp add: wrap64_def is_int64_def min_int64_def max_int64_def)
qed

section \<open>Lists\<close>

lemma take_drop_slice: "a \<le> b \<Longrightarrow> take (b - a) (drop a xs) @ drop b xs = drop a xs"
proof -
  assume "a \<le> b"
  then have "drop b xs = drop (b - a) (drop a xs)" by simp
  then show ?thesis by (simp only: append_take_drop_id)
qed

lemma foldl_invariant:
  assumes "P s" and "\<And>s x. P s \<Longrightarrow> x \<in> set xs \<Longrightarrow> P (f s x)"
  shows "P (foldl f s xs)"
  using assms by (induction xs arbitrary: s) auto

lemma find_SomeD: "find P xs = Some x \<Longrightarrow> x \<in> set xs \<and> P x"
  by (induction xs) (auto split: if_splits)

lemma option_bind_SomeE:
  assumes "(case x of None \<Rightarrow> None | Some y \<Rightarrow> f y) = Some z"
  obtains y where "x = Some y" and "f y = Some z"
  using assms by (cases x) auto

text \<open>The value an association list holds for a key, the first pair winning.\<close>

abbreviation lookup :: "('k \<times> 'v) list \<Rightarrow> 'k \<Rightarrow> 'v option" where
  "lookup xs k \<equiv> map_of xs k"

section \<open>Transition systems\<close>

inductive reachable :: "('s \<Rightarrow> bool) \<Rightarrow> ('s \<Rightarrow> 's \<Rightarrow> bool) \<Rightarrow> 's \<Rightarrow> bool"
  for start :: "'s \<Rightarrow> bool" and step :: "'s \<Rightarrow> 's \<Rightarrow> bool" where
  reachable_start: "start s \<Longrightarrow> reachable start step s"
| reachable_step: "reachable start step s \<Longrightarrow> step s s' \<Longrightarrow> reachable start step s'"

lemma reachable_invariant:
  assumes "reachable start step s" and "\<And>s. start s \<Longrightarrow> P s"
    and "\<And>s s'. P s \<Longrightarrow> step s s' \<Longrightarrow> P s'"
  shows "P s"
  using assms by (induction rule: reachable.induct) blast+

text \<open>
  Data refinement by an abstraction function: every step of the program is a step of the
  specification or leaves the abstract state alone, as long as \<open>good\<close> holds.
\<close>

locale refinement =
  fixes start :: "'s \<Rightarrow> bool" and step :: "'s \<Rightarrow> 's \<Rightarrow> bool"
    and spec_start :: "'a \<Rightarrow> bool" and spec_step :: "'a \<Rightarrow> 'a \<Rightarrow> bool"
    and abstract :: "'s \<Rightarrow> 'a" and good :: "'s \<Rightarrow> bool"
  assumes start_inv: "start s \<Longrightarrow> good s"
    and start_sim: "start s \<Longrightarrow> spec_start (abstract s)"
    and step_inv: "good s \<Longrightarrow> step s s' \<Longrightarrow> good s'"
    and step_sim: "good s \<Longrightarrow> step s s' \<Longrightarrow> abstract s' = abstract s \<or> spec_step (abstract s) (abstract s')"
begin

lemma invariant: "reachable start step s \<Longrightarrow> good s"
  by (erule reachable_invariant [where P = good]) (auto intro: start_inv step_inv)

lemma simulates:
  "reachable start step s \<Longrightarrow> step s s' \<Longrightarrow> abstract s' = abstract s \<or> spec_step (abstract s) (abstract s')"
  by (rule step_sim) (rule invariant)

lemma refines: "reachable start step s \<Longrightarrow> reachable spec_start spec_step (abstract s)"
proof (induction rule: reachable.induct)
  case (reachable_step s s')
  from simulates [OF reachable_step.hyps(1,2)] show ?case
    using reachable_step.IH by (auto intro: reachable.reachable_step)
qed (simp add: reachable.reachable_start start_sim)

end

end
