(* ===== verification/Request_Limits.thy ===== *)
theory Request_Limits
  imports Prelude
begin

text \<open>
  The admission policy for request bodies (\<open>internal/platform/request_limit_source.go\<close>) and
  the size of the audit's text buffer (\<open>internal/platform/audit_text_limit.go\<close>). Byte
  counts are Go \<open>int64\<close> values, kept as \<open>int\<close>; \<open>is_int64\<close> states the range where
  overflow matters.
\<close>

section \<open>Request body limits\<close>

definition defaultRequestHardMaxBytes :: int where
  "defaultRequestHardMaxBytes = 64 * 1024 * 1024"

definition maximumConfigurableRequestHardMaxBytes :: int where
  "maximumConfigurableRequestHardMaxBytes = 256 * 1024 * 1024"

datatype limit_mode = Configured | AutoActualSize | AutoHardCeiling

record requestBodyLimitPolicy =
  Mode :: limit_mode
  EffectiveLimitBytes :: int
  HardLimitBytes :: int
  ConfiguredLimitBytes :: int

definition resolveRequestBodyLimit :: "int \<Rightarrow> int \<Rightarrow> int \<Rightarrow> requestBodyLimitPolicy" where
  "resolveRequestBodyLimit configuredLimit hardLimit contentLength =
     (let hard = (if hardLimit \<le> 0 then defaultRequestHardMaxBytes else hardLimit) in
      if configuredLimit > 0 then
        (let conf = (if configuredLimit > hard then hard else configuredLimit) in
         \<lparr>Mode = Configured, EffectiveLimitBytes = conf, HardLimitBytes = hard,
          ConfiguredLimitBytes = conf\<rparr>)
      else if contentLength \<ge> 0 \<and> contentLength \<le> hard then
        (let effective = (if contentLength < 1 then 1 else contentLength) in
         \<lparr>Mode = AutoActualSize, EffectiveLimitBytes = effective, HardLimitBytes = hard,
          ConfiguredLimitBytes = 0\<rparr>)
      else
        \<lparr>Mode = AutoHardCeiling, EffectiveLimitBytes = hard, HardLimitBytes = hard,
         ConfiguredLimitBytes = 0\<rparr>)"

definition ExceedsKnownLength :: "requestBodyLimitPolicy \<Rightarrow> int \<Rightarrow> bool" where
  "ExceedsKnownLength policy contentLength \<longleftrightarrow>
     contentLength \<ge> 0 \<and> contentLength > EffectiveLimitBytes policy"

definition requestBodyNeedsLargeSlot :: "int \<Rightarrow> int \<Rightarrow> bool" where
  "requestBodyNeedsLargeSlot contentLength threshold \<longleftrightarrow>
     contentLength < 0 \<or> contentLength > threshold"

definition recommendedRequestMaxBytes :: "int \<Rightarrow> int \<Rightarrow> int" where
  "recommendedRequestMaxBytes requestBytes hardLimit =
     (let hard = (if hardLimit \<le> 0 then defaultRequestHardMaxBytes else hardLimit) in
      if requestBytes \<le> 0 \<or> requestBytes > hard then 0 else requestBytes)"

section \<open>The audit text buffer\<close>

definition automaticAuditTextOverheadBytes :: int where
  "automaticAuditTextOverheadBytes = 64 * 1024"

text \<open>The boolean stands for the mode string: \<open>True\<close> for \<open>configured\<close>.\<close>

definition resolveAuditTextMaxBytes :: "int \<Rightarrow> int \<Rightarrow> int \<times> bool" where
  "resolveAuditTextMaxBytes configured requestHardMaxBytes =
     (if configured > 0 then (configured, True)
      else
        (let hard = (if requestHardMaxBytes \<le> 0 then defaultRequestHardMaxBytes
                     else requestHardMaxBytes);
             resolved = wrap64 (hard + automaticAuditTextOverheadBytes)
         in (if resolved > max_int64 then max_int64 else resolved, False)))"

section \<open>Lemmas\<close>

lemma hard_limit_positive: "0 < HardLimitBytes (resolveRequestBodyLimit c h n)"
  by (simp add: resolveRequestBodyLimit_def Let_def defaultRequestHardMaxBytes_def)

lemma effective_limit_range:
  "1 \<le> EffectiveLimitBytes (resolveRequestBodyLimit c h n)
   \<and> EffectiveLimitBytes (resolveRequestBodyLimit c h n)
       \<le> HardLimitBytes (resolveRequestBodyLimit c h n)"
  by (simp add: resolveRequestBodyLimit_def Let_def defaultRequestHardMaxBytes_def)

end
