(* ===== verification/Go_Text.thy ===== *)
theory Go_Text
  imports Prelude
begin

text \<open>
  The part of Go's \<open>strings\<close>, \<open>bytes\<close> and \<open>unicode/utf8\<close> packages the program uses, on byte
  strings (\<open>string\<close> is a list of \<open>char\<close>, one per byte, so \<open>length\<close> is Go's \<open>len\<close>).
  Case mapping is exact on ASCII and on the few non-ASCII runes whose image is ASCII; the
  other runes, which no comparison of the program's ASCII constants can tell apart, keep
  their encoding.
\<close>

section \<open>UTF-8\<close>

abbreviation byte :: "char \<Rightarrow> nat" where
  "byte c \<equiv> of_char c"

text \<open>\<open>utf8.RuneStart\<close>: the byte is not a continuation byte.\<close>

definition rune_start :: "char \<Rightarrow> bool" where
  "rune_start c \<longleftrightarrow> byte c < 128 \<or> 192 \<le> byte c"

definition cont_byte :: "char \<Rightarrow> bool" where
  "cont_byte c \<longleftrightarrow> 128 \<le> byte c \<and> byte c < 192"

lemma rune_start_iff: "rune_start c \<longleftrightarrow> \<not> cont_byte c"
  by (auto simp: rune_start_def cont_byte_def)

text \<open>
  \<open>utf8.DecodeRune\<close> on a non-empty string: the code point, or \<open>None\<close> for an invalid
  encoding (overlong forms, surrogates and values above \<open>0x10FFFF\<close> included), which has
  width 1.
\<close>

definition decode_rune :: "string \<Rightarrow> nat option \<times> nat" where
  "decode_rune s =
     (case s of [] \<Rightarrow> (None, 0) | c # r \<Rightarrow>
        (let b0 = byte c in
         if b0 < 128 then (Some b0, 1)
         else if 194 \<le> b0 \<and> b0 < 224 then
           (case r of c1 # _ \<Rightarrow>
              if cont_byte c1 then (Some ((b0 - 192) * 64 + (byte c1 - 128)), 2) else (None, 1)
            | [] \<Rightarrow> (None, 1))
         else if 224 \<le> b0 \<and> b0 < 240 then
           (case r of c1 # c2 # _ \<Rightarrow>
              if cont_byte c1 \<and> cont_byte c2 \<and> (b0 = 224 \<longrightarrow> 160 \<le> byte c1)
                 \<and> (b0 = 237 \<longrightarrow> byte c1 < 160)
              then (Some ((b0 - 224) * 4096 + (byte c1 - 128) * 64 + (byte c2 - 128)), 3)
              else (None, 1)
            | _ \<Rightarrow> (None, 1))
         else if 240 \<le> b0 \<and> b0 < 245 then
           (case r of c1 # c2 # c3 # _ \<Rightarrow>
              if cont_byte c1 \<and> cont_byte c2 \<and> cont_byte c3 \<and> (b0 = 240 \<longrightarrow> 144 \<le> byte c1)
                 \<and> (b0 = 244 \<longrightarrow> byte c1 < 144)
              then (Some ((b0 - 240) * 262144 + (byte c1 - 128) * 4096
                          + (byte c2 - 128) * 64 + (byte c3 - 128)), 4)
              else (None, 1)
            | _ \<Rightarrow> (None, 1))
         else (None, 1)))"

lemma decode_rune_width: "s \<noteq> [] \<Longrightarrow> 1 \<le> snd (decode_rune s) \<and> snd (decode_rune s) \<le> length s"
  by (auto simp: decode_rune_def Let_def split: list.splits)

text \<open>\<open>utf8.ValidString\<close>, and the runes of a string as Go's \<open>range\<close> yields them.\<close>

function runes :: "string \<Rightarrow> nat option list" where
  "runes s = (if s = [] then [] else
     fst (decode_rune s) # runes (drop (snd (decode_rune s)) s))"
  by pat_completeness auto
termination
  by (relation "measure length") (use decode_rune_width in \<open>fastforce simp: less_le_trans\<close>)+

declare runes.simps [simp del]

definition valid_utf8 :: "string \<Rightarrow> bool" where
  "valid_utf8 s \<longleftrightarrow> None \<notin> set (runes s)"

lemma runes_ascii: "byte c < 128 \<Longrightarrow> runes (c # s) = Some (byte c) # runes s"
  by (subst runes.simps) (simp add: decode_rune_def Let_def)

lemma valid_utf8_ascii: "byte c < 128 \<Longrightarrow> valid_utf8 (c # s) = valid_utf8 s"
  by (simp add: valid_utf8_def runes_ascii)

lemma valid_utf8_replicate: "byte c < 128 \<Longrightarrow> valid_utf8 (replicate n c @ s) = valid_utf8 s"
  by (induction n) (simp_all add: valid_utf8_ascii)

text \<open>\<open>utf8.RuneCountInString\<close>.\<close>

definition rune_count :: "string \<Rightarrow> nat" where
  "rune_count s = length (runes s)"

text \<open>\<open>strings.ToValidUTF8(s, "")\<close>: runs of invalid bytes are dropped.\<close>

function to_valid_utf8 :: "string \<Rightarrow> string" where
  "to_valid_utf8 s = (if s = [] then [] else
     (if fst (decode_rune s) = None then [] else take (snd (decode_rune s)) s)
       @ to_valid_utf8 (drop (snd (decode_rune s)) s))"
  by pat_completeness auto
termination
  by (relation "measure length") (use decode_rune_width in \<open>fastforce simp: less_le_trans\<close>)+

declare to_valid_utf8.simps [simp del]

section \<open>White space\<close>

text \<open>The encodings of the runes for which \<open>unicode.IsSpace\<close> holds.\<close>

definition space_encodings :: "string list" where
  "space_encodings =
    [[CHR 0x09], [CHR 0x0A], [CHR 0x0B], [CHR 0x0C], [CHR 0x0D], [CHR 0x20],
     [CHR 0xC2, CHR 0x85], [CHR 0xC2, CHR 0xA0], [CHR 0xE1, CHR 0x9A, CHR 0x80],
     [CHR 0xE2, CHR 0x80, CHR 0x80], [CHR 0xE2, CHR 0x80, CHR 0x81],
     [CHR 0xE2, CHR 0x80, CHR 0x82], [CHR 0xE2, CHR 0x80, CHR 0x83],
     [CHR 0xE2, CHR 0x80, CHR 0x84], [CHR 0xE2, CHR 0x80, CHR 0x85],
     [CHR 0xE2, CHR 0x80, CHR 0x86], [CHR 0xE2, CHR 0x80, CHR 0x87],
     [CHR 0xE2, CHR 0x80, CHR 0x88], [CHR 0xE2, CHR 0x80, CHR 0x89],
     [CHR 0xE2, CHR 0x80, CHR 0x8A], [CHR 0xE2, CHR 0x80, CHR 0xA8],
     [CHR 0xE2, CHR 0x80, CHR 0xA9], [CHR 0xE2, CHR 0x80, CHR 0xAF],
     [CHR 0xE2, CHR 0x81, CHR 0x9F], [CHR 0xE3, CHR 0x80, CHR 0x80]]"

fun is_prefix :: "string \<Rightarrow> string \<Rightarrow> bool" where
  "is_prefix [] s = True"
| "is_prefix (p # ps) [] = False"
| "is_prefix (p # ps) (c # s) = (p = c \<and> is_prefix ps s)"

lemma is_prefix_iff: "is_prefix p s \<longleftrightarrow> (\<exists>t. s = p @ t)"
  by (induction p s rule: is_prefix.induct) auto

lemma is_prefix_take: "is_prefix p s \<longleftrightarrow> take (length p) s = p"
  by (induction p s rule: is_prefix.induct) auto

definition is_suffix :: "string \<Rightarrow> string \<Rightarrow> bool" where
  "is_suffix p s \<longleftrightarrow> is_prefix (rev p) (rev s)"

text \<open>
  \<open>strip_leading encs s\<close> drops, as long as it can, a leading member of \<open>encs\<close>. With the
  encodings reversed it works on the reversed string, which is what \<open>DecodeLastRune\<close> does.
\<close>

function strip_leading :: "string list \<Rightarrow> string \<Rightarrow> string" where
  "strip_leading encs s =
     (case find (\<lambda>e. e \<noteq> [] \<and> is_prefix e s) encs of
        None \<Rightarrow> s
      | Some e \<Rightarrow> strip_leading encs (drop (length e) s))"
  by pat_completeness auto
termination
proof (relation "measure (\<lambda>(encs, s). length s)", simp, goal_cases)
  case (1 encs s e)
  then have "e \<noteq> []" and "is_prefix e s"
    by (auto simp: find_Some_iff)
  then show ?case by (auto simp: is_prefix_iff)
qed

declare strip_leading.simps [simp del]

definition trim_left_space :: "string \<Rightarrow> string" where
  "trim_left_space s = strip_leading space_encodings s"

definition trim_right_space :: "string \<Rightarrow> string" where
  "trim_right_space s = rev (strip_leading (map rev space_encodings) (rev s))"

text \<open>\<open>strings.TrimSpace\<close>.\<close>

definition trim_space :: "string \<Rightarrow> string" where
  "trim_space s = trim_right_space (trim_left_space s)"

lemma strip_leading_suffix: "\<exists>t. s = t @ strip_leading encs s"
proof (induction encs s rule: strip_leading.induct)
  case (1 encs s)
  show ?case
  proof (cases "find (\<lambda>e. e \<noteq> [] \<and> is_prefix e s) encs")
    case None
    then show ?thesis by (simp add: strip_leading.simps [of encs s])
  next
    case (Some e)
    from 1 [OF Some] obtain t where "drop (length e) s = t @ strip_leading encs (drop (length e) s)"
      by blast
    then have "s = (take (length e) s @ t) @ strip_leading encs (drop (length e) s)"
      by (metis append.assoc append_take_drop_id)
    with Some show ?thesis
      by (intro exI [of _ "take (length e) s @ t"]) (simp add: strip_leading.simps [of encs s])
  qed
qed

lemma length_strip_leading: "length (strip_leading encs s) \<le> length s"
  using strip_leading_suffix [of s encs] by (metis length_append le_add2)

lemma length_trim_space: "length (trim_space s) \<le> length s"
  using length_strip_leading [of space_encodings s]
    length_strip_leading [of "map rev space_encodings" "rev (strip_leading space_encodings s)"]
  by (simp add: trim_space_def trim_left_space_def trim_right_space_def)

lemma trim_space_Nil [simp]: "trim_space [] = []"
  using length_trim_space [of "[]"] by simp

section \<open>Case mapping\<close>

definition is_upper :: "char \<Rightarrow> bool" where
  "is_upper c \<longleftrightarrow> 65 \<le> byte c \<and> byte c \<le> 90"

definition is_lower :: "char \<Rightarrow> bool" where
  "is_lower c \<longleftrightarrow> 97 \<le> byte c \<and> byte c \<le> 122"

definition is_digit :: "char \<Rightarrow> bool" where
  "is_digit c \<longleftrightarrow> 48 \<le> byte c \<and> byte c \<le> 57"

definition lower_char :: "char \<Rightarrow> char" where
  "lower_char c = (if is_upper c then char_of (byte c + 32) else c)"

definition upper_char :: "char \<Rightarrow> char" where
  "upper_char c = (if is_lower c then char_of (byte c - 32) else c)"

text \<open>
  \<open>strings.ToLower\<close>. The only non-ASCII runes with an ASCII image are U+0130 (to \<open>i\<close>) and
  U+212A (to \<open>k\<close>).
\<close>

fun to_lower :: "string \<Rightarrow> string" where
  "to_lower [] = []"
| "to_lower (c # s) =
     (if c = CHR 0xC4 \<and> is_prefix [CHR 0xB0] s then CHR ''i'' # to_lower (drop 1 s)
      else if c = CHR 0xE2 \<and> is_prefix [CHR 0x84, CHR 0xAA] s then CHR ''k'' # to_lower (drop 2 s)
      else lower_char c # to_lower s)"

text \<open>\<open>strings.ToUpper\<close>: U+0131 goes to \<open>I\<close> and U+017F to \<open>S\<close>.\<close>

fun to_upper :: "string \<Rightarrow> string" where
  "to_upper [] = []"
| "to_upper (c # s) =
     (if c = CHR 0xC4 \<and> is_prefix [CHR 0xB1] s then CHR ''I'' # to_upper (drop 1 s)
      else if c = CHR 0xC5 \<and> is_prefix [CHR 0xBF] s then CHR ''S'' # to_upper (drop 1 s)
      else upper_char c # to_upper s)"

text \<open>
  \<open>strings.EqualFold\<close> through a folding key: U+212A folds with \<open>k\<close>, U+017F with \<open>s\<close>.
\<close>

fun fold_key :: "string \<Rightarrow> string" where
  "fold_key [] = []"
| "fold_key (c # s) =
     (if c = CHR 0xC5 \<and> is_prefix [CHR 0xBF] s then CHR ''s'' # fold_key (drop 1 s)
      else if c = CHR 0xE2 \<and> is_prefix [CHR 0x84, CHR 0xAA] s then CHR ''k'' # fold_key (drop 2 s)
      else lower_char c # fold_key s)"

definition equal_fold :: "string \<Rightarrow> string \<Rightarrow> bool" where
  "equal_fold s t \<longleftrightarrow> fold_key s = fold_key t"

section \<open>Searching, splitting, joining\<close>

text \<open>\<open>strings.Contains\<close> and \<open>strings.Index\<close>.\<close>

fun find_index :: "string \<Rightarrow> string \<Rightarrow> nat option" where
  "find_index p [] = (if p = [] then Some 0 else None)"
| "find_index p (c # s) = (if is_prefix p (c # s) then Some 0 else map_option Suc (find_index p s))"

definition contains :: "string \<Rightarrow> string \<Rightarrow> bool" where
  "contains s p \<longleftrightarrow> find_index p s \<noteq> None"

lemma contains_iff: "contains s p \<longleftrightarrow> (\<exists>a b. s = a @ p @ b)"
proof (induction s)
  case Nil
  then show ?case by (auto simp: contains_def)
next
  case (Cons c s)
  show ?case
  proof (cases "is_prefix p (c # s)")
    case True
    then obtain t where "c # s = p @ t" by (auto simp: is_prefix_iff)
    then have "\<exists>a b. c # s = a @ p @ b" by (metis append_Nil)
    with True show ?thesis by (simp add: contains_def)
  next
    case False
    then have "(\<exists>a b. c # s = a @ p @ b) \<longleftrightarrow> (\<exists>a b. s = a @ p @ b)"
      by (auto simp: is_prefix_iff) (metis append_Nil list.sel(3) tl_append2, metis append_Cons)
    with False Cons.IH show ?thesis by (simp add: contains_def)
  qed
qed

text \<open>\<open>strings.TrimPrefix\<close>; \<open>strings.TrimLeft\<close> and \<open>TrimRight\<close> with a one-byte cutset.\<close>

definition trim_prefix :: "string \<Rightarrow> string \<Rightarrow> string" where
  "trim_prefix s p = (if is_prefix p s then drop (length p) s else s)"

definition trim_left_byte :: "char \<Rightarrow> string \<Rightarrow> string" where
  "trim_left_byte b s = dropWhile (\<lambda>c. c = b) s"

definition trim_right_byte :: "char \<Rightarrow> string \<Rightarrow> string" where
  "trim_right_byte b s = rev (dropWhile (\<lambda>c. c = b) (rev s))"

text \<open>\<open>strings.Split\<close> with a one-byte separator, and \<open>strings.Join\<close>.\<close>

fun split_byte :: "char \<Rightarrow> string \<Rightarrow> string list" where
  "split_byte b [] = [[]]"
| "split_byte b (c # s) =
     (if c = b then [] # split_byte b s
      else (case split_byte b s of [] \<Rightarrow> [[c]] | x # xs \<Rightarrow> (c # x) # xs))"

fun join :: "string \<Rightarrow> string list \<Rightarrow> string" where
  "join sep [] = []"
| "join sep [x] = x"
| "join sep (x # y # ys) = x @ sep @ join sep (y # ys)"

lemma split_byte_nonempty [simp]: "split_byte b s \<noteq> []"
  by (induction s) (auto split: list.splits)

lemma join_Cons: "xs \<noteq> [] \<Longrightarrow> join sep (x # xs) = x @ sep @ join sep xs"
  by (cases xs) auto

lemma join_split: "join [b] (split_byte b s) = s"
proof (induction s)
  case (Cons c s)
  then show ?case
    by (cases "split_byte b s") (auto simp: join_Cons neq_Nil_conv, (metis join.simps(2,3) append_Cons
        neq_Nil_conv)+)
qed simp

section \<open>Decimal numbers\<close>

text \<open>\<open>strconv.FormatInt(i, 10)\<close>.\<close>

fun dec_nat :: "nat \<Rightarrow> string" where
  "dec_nat n = (if n < 10 then [char_of (48 + n)] else dec_nat (n div 10) @ [char_of (48 + n mod 10)])"

declare dec_nat.simps [simp del]

definition dec_int :: "int \<Rightarrow> string" where
  "dec_int i = (if i < 0 then ''-'' @ dec_nat (nat (- i)) else dec_nat (nat i))"

lemma dec_nat_nonempty [simp]: "dec_nat n \<noteq> []"
  by (subst dec_nat.simps) simp

section \<open>Helpers of the program's own\<close>

text \<open>\<open>truncateString\<close> and \<open>firstNonEmpty\<close> of \<open>internal/platform/gateway.go\<close>.\<close>

definition truncateString :: "string \<Rightarrow> nat \<Rightarrow> string" where
  "truncateString s maximum = (if maximum < length s then take maximum s else s)"

fun firstNonEmpty :: "string list \<Rightarrow> string" where
  "firstNonEmpty [] = []"
| "firstNonEmpty (v # vs) = (if v \<noteq> [] then v else firstNonEmpty vs)"

lemma length_truncateString: "length (truncateString s n) \<le> n"
  by (simp add: truncateString_def)

lemma truncateString_id: "length s \<le> n \<Longrightarrow> truncateString s n = s"
  by (simp add: truncateString_def)

lemma firstNonEmpty_Nil_iff: "firstNonEmpty vs = [] \<longleftrightarrow> (\<forall>v \<in> set vs. v = [])"
  by (induction vs) auto

lemma firstNonEmpty_in: "firstNonEmpty vs \<noteq> [] \<Longrightarrow> firstNonEmpty vs \<in> set vs"
  by (induction vs) auto

end
