(* ===== verification/Trace_Event.thy ===== *)
theory Trace_Event
  imports Go_Text Complex_Main
begin

text \<open>
  The trace record of a request (\<open>TraceEvent\<close> of \<open>internal/platform/types.go\<close>) and the
  timeline rules of \<open>internal/platform/trace_timeline.go\<close>. A Go \<open>time.Time\<close> is an
  \<open>int\<close>: nanoseconds since 1 January of year 1, so that the zero time is 0 and \<open>IsZero\<close> is
  the test for 0. A \<open>time.Duration\<close> is an \<open>int64\<close> number of nanoseconds; products that can
  leave that range are wrapped.
\<close>

type_synonym time = int
type_synonym duration = int

definition millisecond :: duration where "millisecond = 1000000"
definition second :: duration where "second = 1000000000"
definition minute :: duration where "minute = 60 * second"
definition hour :: duration where "hour = 60 * minute"

section \<open>Metadata values\<close>

datatype mval =
    MNil
  | MBool bool
  | MInt int
  | MRat rat
  | MStr string
  | MList "mval list"
  | MMap "(string \<times> mval) list"

type_synonym metadata = "string \<rightharpoonup> mval"

section \<open>Records\<close>

record TraceEvent =
  te_RequestID :: string
  te_ExternalEventID :: string
  te_Source :: string
  te_RouteSlug :: string
  te_NewAPIRequestID :: string
  te_ExternalUserID :: string
  te_Model :: string
  te_Endpoint :: string
  te_Decision :: string
  te_RiskCode :: string
  te_HTTPStatus :: int
  te_UpstreamStatus :: int
  te_LatencyMS :: int
  te_AuditLatencyMS :: int
  te_RequestBytes :: int
  te_ResponseBytes :: int
  te_PromptHMAC :: string
  te_RequestPayloadCiphertext :: string
  te_Metadata :: metadata
  te_StartedAt :: time
  te_CompletedAt :: time
  te_IngestedAt :: time
  te_CreatedAt :: time

definition empty_trace :: TraceEvent where
  "empty_trace = \<lparr>te_RequestID = [], te_ExternalEventID = [], te_Source = [], te_RouteSlug = [],
     te_NewAPIRequestID = [], te_ExternalUserID = [], te_Model = [], te_Endpoint = [],
     te_Decision = [], te_RiskCode = [], te_HTTPStatus = 0, te_UpstreamStatus = 0,
     te_LatencyMS = 0, te_AuditLatencyMS = 0, te_RequestBytes = 0, te_ResponseBytes = 0,
     te_PromptHMAC = [], te_RequestPayloadCiphertext = [], te_Metadata = Map.empty,
     te_StartedAt = 0, te_CompletedAt = 0, te_IngestedAt = 0, te_CreatedAt = 0\<rparr>"

record TrackingEvent =
  tk_EventID :: string
  tk_RequestID :: string
  tk_RouteSlug :: string
  tk_NewAPIRequestID :: string
  tk_ExternalUserID :: string
  tk_Model :: string
  tk_Endpoint :: string
  tk_Decision :: string
  tk_RiskCode :: string
  tk_HTTPStatus :: int
  tk_UpstreamStatus :: int
  tk_LatencyMS :: int
  tk_AuditLatencyMS :: int
  tk_RequestBytes :: int
  tk_ResponseBytes :: int
  tk_PromptHMAC :: string
  tk_StartedAt :: time
  tk_CompletedAt :: time
  tk_OccurredAt :: time
  tk_Metadata :: "(string \<times> mval) list"

section \<open>The timeline of a gateway trace\<close>

definition maxInt64Value :: "int \<Rightarrow> int \<Rightarrow> int" where
  "maxInt64Value value minimum = (if value < minimum then minimum else value)"

text \<open>\<open>now0\<close> is the argument \<open>now\<close>; a zero one is replaced by the clock, \<open>clock\<close>.\<close>

definition normalizeTraceTimeline :: "time \<Rightarrow> TraceEvent \<Rightarrow> time \<Rightarrow> TraceEvent" where
  "normalizeTraceTimeline clock event now0 =
     (let now = (if now0 = 0 then clock else now0);
          started =
            (if te_StartedAt event = 0 then
               (if te_CreatedAt event \<noteq> 0 then te_CreatedAt event
                else if te_CompletedAt event \<noteq> 0 \<and> te_LatencyMS event > 0 then
                  te_CompletedAt event + wrap64 (wrap64 (- te_LatencyMS event) * millisecond)
                else now)
             else te_StartedAt event);
          completed1 =
            (if te_CompletedAt event = 0 then
               started + wrap64 (maxInt64Value (te_LatencyMS event) 0 * millisecond)
             else te_CompletedAt event);
          completed = (if completed1 < started then started else completed1);
          created = (if te_CreatedAt event = 0 then started else te_CreatedAt event);
          ingested = (if te_IngestedAt event = 0 then now else te_IngestedAt event)
      in event\<lparr>te_StartedAt := started, te_CompletedAt := completed,
               te_CreatedAt := created, te_IngestedAt := ingested\<rparr>)"

section \<open>The timeline of a tracking event\<close>

record trackingTimeline =
  tl_StartedAt :: time
  tl_CompletedAt :: time
  tl_IngestedAt :: time
  tl_Source :: string
  tl_ClockOffset :: duration

text \<open>\<open>Time.Sub\<close> saturates at the bounds of a \<open>Duration\<close>.\<close>

definition time_sub :: "time \<Rightarrow> time \<Rightarrow> duration" where
  "time_sub t u = max min_int64 (min max_int64 (t - u))"

text \<open>
  The completion time and where it was taken from: reported, occurred or received, and moved to
  the time of receipt when it lies outside the searchable window.
\<close>

definition trackingCompletedAt :: "TrackingEvent \<Rightarrow> time \<Rightarrow> time \<times> string" where
  "trackingCompletedAt event receivedAt =
     (let (completed1, source1) =
            (if tk_CompletedAt event = 0 then
               (tk_OccurredAt event,
                if tk_OccurredAt event \<noteq> 0 then ''occurred_at'' else ''received_at'')
             else (tk_CompletedAt event, ''completed_at''));
          completed2 = (if completed1 = 0 then receivedAt else completed1)
      in if completed2 > receivedAt + 5 * minute \<or> completed2 < receivedAt - 366 * 24 * hour
         then (receivedAt, source1 @ ''_clamped'') else (completed2, source1))"

definition deriveTrackingTimeline :: "time \<Rightarrow> TrackingEvent \<Rightarrow> time \<Rightarrow> trackingTimeline" where
  "deriveTrackingTimeline clock event receivedAt0 =
     (let receivedAt = (if receivedAt0 = 0 then clock else receivedAt0);
          completedAt = fst (trackingCompletedAt event receivedAt);
          source2 = snd (trackingCompletedAt event receivedAt);
          (started1, source3) =
            (if tk_StartedAt event = 0 then
               (completedAt + wrap64 (- maxInt64Value (tk_LatencyMS event) 0 * millisecond),
                source2 @ ''+latency'')
             else (tk_StartedAt event, source2 @ ''+started_at''));
          (startedAt, source) =
            (if started1 > completedAt then (completedAt, source3 @ ''_normalized'')
             else (started1, source3))
      in \<lparr>tl_StartedAt = startedAt, tl_CompletedAt = completedAt, tl_IngestedAt = receivedAt,
          tl_Source = source, tl_ClockOffset = time_sub receivedAt completedAt\<rparr>)"

definition traceTimeExpression :: "string \<Rightarrow> string" where
  "traceTimeExpression basis =
     (if basis = ''started'' then ''COALESCE(started_at, created_at)''
      else if basis = ''ingested'' then ''COALESCE(ingested_at, created_at)''
      else ''COALESCE(completed_at, created_at)'')"

section \<open>Lemmas\<close>

lemma timeline_ordered:
  "te_StartedAt (normalizeTraceTimeline clk e now)
     \<le> te_CompletedAt (normalizeTraceTimeline clk e now)"
  by (simp add: normalizeTraceTimeline_def Let_def)

lemma timeline_frame:
  "te_Decision (normalizeTraceTimeline clk e now) = te_Decision e"
  "te_Metadata (normalizeTraceTimeline clk e now) = te_Metadata e"
  "te_RequestID (normalizeTraceTimeline clk e now) = te_RequestID e"
  by (simp_all add: normalizeTraceTimeline_def Let_def)

lemma tracking_completed_window:
  "r - 366 * 24 * hour \<le> fst (trackingCompletedAt e r) \<and> fst (trackingCompletedAt e r) \<le> r + 5 * minute"
proof -
  have "0 \<le> 366 * 24 * hour" and "0 \<le> 5 * minute"
    by (simp_all add: hour_def minute_def second_def)
  then show ?thesis
    by (simp add: trackingCompletedAt_def Let_def split: prod.split)
qed

lemma tracking_fields:
  "tl_IngestedAt (deriveTrackingTimeline clk e r) = (if r = 0 then clk else r)"
  "tl_CompletedAt (deriveTrackingTimeline clk e r)
     = fst (trackingCompletedAt e (if r = 0 then clk else r))"
  "tl_ClockOffset (deriveTrackingTimeline clk e r)
     = time_sub (tl_IngestedAt (deriveTrackingTimeline clk e r))
                (tl_CompletedAt (deriveTrackingTimeline clk e r))"
  by (simp_all add: deriveTrackingTimeline_def Let_def split: prod.split)

lemma tracking_ordered:
  "tl_StartedAt (deriveTrackingTimeline clk e r) \<le> tl_CompletedAt (deriveTrackingTimeline clk e r)"
  by (simp add: deriveTrackingTimeline_def Let_def)

lemma tracking_window:
  "tl_IngestedAt (deriveTrackingTimeline clk e r) - 366 * 24 * hour
     \<le> tl_CompletedAt (deriveTrackingTimeline clk e r)
   \<and> tl_CompletedAt (deriveTrackingTimeline clk e r)
     \<le> tl_IngestedAt (deriveTrackingTimeline clk e r) + 5 * minute"
  by (simp only: tracking_fields tracking_completed_window)

lemma time_sub_exact:
  "- (366 * 24 * hour) \<le> t - u \<Longrightarrow> t - u \<le> 366 * 24 * hour \<Longrightarrow> time_sub t u = t - u"
  by (simp add: time_sub_def min_int64_def max_int64_def hour_def minute_def second_def)

lemma tracking_offset_exact:
  "tl_ClockOffset (deriveTrackingTimeline clk e r)
     = tl_IngestedAt (deriveTrackingTimeline clk e r) - tl_CompletedAt (deriveTrackingTimeline clk e r)"
proof -
  let ?i = "tl_IngestedAt (deriveTrackingTimeline clk e r)"
  let ?c = "tl_CompletedAt (deriveTrackingTimeline clk e r)"
  have "5 * minute \<le> 366 * 24 * hour"
    by (simp add: hour_def minute_def second_def)
  with tracking_window [of clk e r] have "- (366 * 24 * hour) \<le> ?i - ?c" "?i - ?c \<le> 366 * 24 * hour"
    by linarith+
  then show ?thesis by (simp only: tracking_fields(3) time_sub_exact)
qed

end
