(* ===== verification/Go_Json.thy ===== *)
theory Go_Json
  imports Go_Text Complex_Main
begin

text \<open>
  The part of Go's \<open>encoding/json\<close> the program uses: decoding of a body into \<open>any\<close> with
  \<open>Unmarshal\<close> (the whole input, numbers as \<open>float64\<close>) or with \<open>Decoder.Decode\<close> after
  \<open>UseNumber\<close> (the first value, numbers kept as literals). A decoded object is an association
  list with distinct keys; the last of several members with one key wins, as in a Go map.
\<close>

datatype json =
    JNull
  | JBool bool
  | JNum string
  | JStr string
  | JArr "json list"
  | JObj "(string \<times> json) list"

section \<open>Lexical structure\<close>

definition json_ws :: "char \<Rightarrow> bool" where
  "json_ws c \<longleftrightarrow> byte c = 32 \<or> byte c = 9 \<or> byte c = 10 \<or> byte c = 13"

definition skip_ws :: "string \<Rightarrow> string" where
  "skip_ws s = dropWhile json_ws s"

lemma length_skip_ws: "length (skip_ws s) \<le> length s"
  by (simp add: skip_ws_def length_dropWhile_le)

lemma skip_ws_ConsD: "skip_ws s = c # r \<Longrightarrow> length r < length s"
  using length_skip_ws [of s] by simp

definition replacement :: string where
  "replacement = [CHR 0xEF, CHR 0xBF, CHR 0xBD]"

definition encode_rune :: "nat \<Rightarrow> string" where
  "encode_rune r =
     (if r < 128 then [char_of r]
      else if r < 2048 then [char_of (192 + r div 64), char_of (128 + r mod 64)]
      else if 55296 \<le> r \<and> r < 57344 then replacement
      else if r < 65536 then
        [char_of (224 + r div 4096), char_of (128 + r div 64 mod 64), char_of (128 + r mod 64)]
      else if r < 1114112 then
        [char_of (240 + r div 262144), char_of (128 + r div 4096 mod 64),
         char_of (128 + r div 64 mod 64), char_of (128 + r mod 64)]
      else replacement)"

definition hex_digit :: "char \<Rightarrow> nat option" where
  "hex_digit c =
     (let b = byte c in
      if 48 \<le> b \<and> b \<le> 57 then Some (b - 48)
      else if 97 \<le> b \<and> b \<le> 102 then Some (b - 87)
      else if 65 \<le> b \<and> b \<le> 70 then Some (b - 55)
      else None)"

definition hex4 :: "string \<Rightarrow> nat option" where
  "hex4 s =
     (case s of a # b # c # d # _ \<Rightarrow>
        (case (hex_digit a, hex_digit b, hex_digit c, hex_digit d) of
           (Some w, Some x, Some y, Some z) \<Rightarrow> Some (w * 4096 + x * 256 + y * 16 + z)
         | _ \<Rightarrow> None)
      | _ \<Rightarrow> None)"

text \<open>
  One element of a string body: the bytes it stands for and the rest of the input. The closing
  quote is handled by the caller.
\<close>

definition low_surrogate :: "string \<Rightarrow> nat option" where
  "low_surrogate s =
     (case s of b # u # t \<Rightarrow>
        if b = CHR 0x5C \<and> u = CHR ''u'' then
          (case hex4 t of Some l \<Rightarrow> if 56320 \<le> l \<and> l < 57344 then Some l else None | None \<Rightarrow> None)
        else None
      | _ \<Rightarrow> None)"

definition string_element :: "string \<Rightarrow> (string \<times> nat) option" where
  "string_element s =
     (case s of [] \<Rightarrow> None
      | c # r \<Rightarrow>
        if byte c < 32 then None
        else if c = CHR 0x5C then
          (case r of [] \<Rightarrow> None
           | e # t \<Rightarrow>
             if e = CHR 0x22 \<or> e = CHR 0x5C \<or> e = CHR ''/'' then Some ([e], 2)
             else if e = CHR ''b'' then Some ([CHR 0x08], 2)
             else if e = CHR ''f'' then Some ([CHR 0x0C], 2)
             else if e = CHR ''n'' then Some ([CHR 0x0A], 2)
             else if e = CHR ''r'' then Some ([CHR 0x0D], 2)
             else if e = CHR ''t'' then Some ([CHR 0x09], 2)
             else if e = CHR ''u'' then
               (case hex4 t of None \<Rightarrow> None
                | Some h \<Rightarrow>
                  if 55296 \<le> h \<and> h < 56320 then
                    (case low_surrogate (drop 4 t) of
                       Some l \<Rightarrow> Some (encode_rune (65536 + (h - 55296) * 1024 + (l - 56320)), 12)
                     | None \<Rightarrow> Some (replacement, 6))
                  else Some (encode_rune h, 6))
             else None)
        else (case decode_rune s of
                (Some _, n) \<Rightarrow> Some (take n s, n)
              | (None, n) \<Rightarrow> Some (replacement, 1)))"

lemma string_element_width: "string_element s = Some (x, n) \<Longrightarrow> 0 < n"
  using decode_rune_width [of s]
  by (auto simp: string_element_def split: list.splits if_splits option.splits prod.splits)

function parse_string :: "string \<Rightarrow> (string \<times> string) option" where
  "parse_string s =
     (case s of [] \<Rightarrow> None
      | c # r \<Rightarrow>
        if c = CHR 0x22 then Some ([], r)
        else (case string_element s of None \<Rightarrow> None
              | Some (x, n) \<Rightarrow>
                (case parse_string (drop n s) of None \<Rightarrow> None
                 | Some (y, rest) \<Rightarrow> Some (x @ y, rest))))"
  by pat_completeness auto
termination
  by (relation "measure length") (auto dest: string_element_width)

declare parse_string.simps [simp del]

lemma parse_string_shorter: "parse_string s = Some (x, rest) \<Longrightarrow> length rest < length s"
proof (induction s arbitrary: x rest rule: parse_string.induct)
  case (1 s)
  show ?case
  proof (cases s)
    case Nil
    with 1 show ?thesis by (simp add: parse_string.simps)
  next
    case (Cons c r)
    with 1 show ?thesis
      by (subst (asm) (2) parse_string.simps) (fastforce split: if_splits option.splits)
  qed
qed

section \<open>Numbers\<close>

text \<open>The longest run of digits and the rest.\<close>

definition digits :: "string \<Rightarrow> string \<times> string" where
  "digits s = (takeWhile is_digit s, dropWhile is_digit s)"

definition parse_int_part :: "string \<Rightarrow> (string \<times> string) option" where
  "parse_int_part s =
     (case digits s of
        ([], _) \<Rightarrow> None
      | (d # ds, rest) \<Rightarrow> if d = CHR ''0'' then Some ([d], ds @ rest) else Some (d # ds, rest))"

definition parse_frac :: "string \<Rightarrow> (string \<times> string) option" where
  "parse_frac s =
     (case s of c # r \<Rightarrow>
        if c = CHR ''.'' then (case digits r of ([], _) \<Rightarrow> None | (ds, rest) \<Rightarrow> Some (c # ds, rest))
        else Some ([], s)
      | [] \<Rightarrow> Some ([], s))"

definition parse_exp :: "string \<Rightarrow> (string \<times> string) option" where
  "parse_exp s =
     (case s of c # r \<Rightarrow>
        if c = CHR ''e'' \<or> c = CHR ''E'' then
          (case (case r of g # t \<Rightarrow> if g = CHR ''+'' \<or> g = CHR ''-'' then ([g], t) else ([], r)
                 | [] \<Rightarrow> ([], r)) of (sg, t) \<Rightarrow>
             (case digits t of ([], _) \<Rightarrow> None | (ds, rest) \<Rightarrow> Some (c # sg @ ds, rest)))
        else Some ([], s)
      | [] \<Rightarrow> Some ([], s))"

definition parse_number :: "string \<Rightarrow> (string \<times> string) option" where
  "parse_number s =
     (case (case s of c # r \<Rightarrow> if c = CHR ''-'' then ([c], r) else ([], s) | [] \<Rightarrow> ([], s)) of (sg, t) \<Rightarrow>
        (case parse_int_part t of None \<Rightarrow> None
         | Some (i, t1) \<Rightarrow>
           (case parse_frac t1 of None \<Rightarrow> None
            | Some (f, t2) \<Rightarrow>
              (case parse_exp t2 of None \<Rightarrow> None
               | Some (e, t3) \<Rightarrow> Some (sg @ i @ f @ e, t3)))))"

fun dec_value :: "nat \<Rightarrow> string \<Rightarrow> nat" where
  "dec_value acc [] = acc"
| "dec_value acc (c # s) = dec_value (acc * 10 + (byte c - 48)) s"

text \<open>\<open>json.Number.Int64\<close>: \<open>strconv.ParseInt\<close> of the literal, base 10, 64 bits.\<close>

definition parse_int64 :: "string \<Rightarrow> int option" where
  "parse_int64 s =
     (case (case s of c # r \<Rightarrow> if c = CHR ''-'' then (- 1, r) else if c = CHR ''+'' then (1, r) else (1, s)
            | [] \<Rightarrow> (1, s)) of (sg, ds) \<Rightarrow>
        if ds = [] \<or> \<not> list_all is_digit ds then None
        else (let v = sg * int (dec_value 0 ds) in if is_int64 v then Some v else None))"

lemma parse_int64_range: "parse_int64 s = Some v \<Longrightarrow> is_int64 v"
  by (auto simp: parse_int64_def Let_def split: if_splits list.splits prod.splits)

text \<open>The exact value of a number literal, and whether \<open>ParseFloat\<close> keeps it finite.\<close>

definition exponent_value :: "string \<Rightarrow> int" where
  "exponent_value s =
     (case s of [] \<Rightarrow> 0
      | _ # c # r \<Rightarrow>
        if c = CHR ''-'' then - int (dec_value 0 r)
        else if c = CHR ''+'' then int (dec_value 0 r)
        else int (dec_value 0 (c # r))
      | _ # [] \<Rightarrow> 0)"

definition num_value :: "string \<Rightarrow> rat" where
  "num_value lit =
     (let neg = is_prefix ''-'' lit; s = (if neg then drop 1 lit else lit);
          i = takeWhile is_digit s; t = dropWhile is_digit s;
          f = (case t of c # r \<Rightarrow> if c = CHR ''.'' then takeWhile is_digit r else [] | [] \<Rightarrow> []);
          u = (case t of c # r \<Rightarrow> if c = CHR ''.'' then dropWhile is_digit r else t | [] \<Rightarrow> []);
          e = exponent_value u - int (length f);
          m = rat_of_nat (dec_value 0 (i @ f));
          v = (if 0 \<le> e then m * 10 ^ nat e else m / 10 ^ nat (- e))
      in if neg then - v else v)"

definition float_finite :: "string \<Rightarrow> bool" where
  "float_finite lit \<longleftrightarrow> \<bar>num_value lit\<bar> < 2 ^ 1024 - 2 ^ 970"

section \<open>Values\<close>

text \<open>
  The recursive-descent parser. \<open>d\<close> is the nesting that is still allowed
  (\<open>encoding/json\<close> stops at 10000). The guards on lengths only make the recursion visibly
  well founded: \<open>parse_value_shorter\<close> below shows that they always hold.
\<close>

definition literal_value :: "string \<Rightarrow> (json \<times> string) option" where
  "literal_value s =
     (if is_prefix ''true'' s then Some (JBool True, drop 4 s)
      else if is_prefix ''false'' s then Some (JBool False, drop 5 s)
      else if is_prefix ''null'' s then Some (JNull, drop 4 s)
      else map_option (\<lambda>(l, r). (JNum l, r)) (parse_number s))"

fun keep_last :: "(string \<times> json) list \<Rightarrow> (string \<times> json) list" where
  "keep_last [] = []"
| "keep_last ((k, v) # xs) = (if k \<in> fst ` set xs then keep_last xs else (k, v) # keep_last xs)"

function (sequential)
    parse_value :: "nat \<Rightarrow> string \<Rightarrow> (json \<times> string) option"
and parse_elems :: "nat \<Rightarrow> string \<Rightarrow> (json list \<times> string) option"
and parse_members :: "nat \<Rightarrow> string \<Rightarrow> ((string \<times> json) list \<times> string) option" where
  "parse_value d s =
     (case skip_ws s of [] \<Rightarrow> None
      | c # r \<Rightarrow>
        if c = CHR ''{'' then
          (if d = 0 then None
           else (case skip_ws r of [] \<Rightarrow> None
                 | c2 # r2 \<Rightarrow>
                   if c2 = CHR ''}'' then Some (JObj [], r2)
                   else map_option (\<lambda>(ms, t). (JObj (keep_last ms), t)) (parse_members (d - 1) r)))
        else if c = CHR ''['' then
          (if d = 0 then None
           else (case skip_ws r of [] \<Rightarrow> None
                 | c2 # r2 \<Rightarrow>
                   if c2 = CHR '']'' then Some (JArr [], r2)
                   else map_option (\<lambda>(vs, t). (JArr vs, t)) (parse_elems (d - 1) r)))
        else if c = CHR 0x22 then map_option (\<lambda>(x, t). (JStr x, t)) (parse_string r)
        else literal_value (c # r))"
| "parse_elems d s =
     (case parse_value d s of None \<Rightarrow> None
      | Some (v, t) \<Rightarrow>
        (case skip_ws t of [] \<Rightarrow> None
         | c # r \<Rightarrow>
           if c = CHR '']'' then Some ([v], r)
           else if c = CHR '','' \<and> length r < length s then
             map_option (\<lambda>(vs, t'). (v # vs, t')) (parse_elems d r)
           else None))"
| "parse_members d s =
     (case skip_ws s of [] \<Rightarrow> None
      | q # r0 \<Rightarrow>
        if q \<noteq> CHR 0x22 then None
        else (case parse_string r0 of None \<Rightarrow> None
              | Some (k, t0) \<Rightarrow>
                (case skip_ws t0 of [] \<Rightarrow> None
                 | cl # r1 \<Rightarrow>
                   if cl \<noteq> CHR '':'' then None
                   else (case parse_value d r1 of None \<Rightarrow> None
                         | Some (v, t) \<Rightarrow>
                           (case skip_ws t of [] \<Rightarrow> None
                            | c # r \<Rightarrow>
                              if c = CHR ''}'' then Some ([(k, v)], r)
                              else if c = CHR '','' \<and> length r < length s then
                                map_option (\<lambda>(ms, t'). ((k, v) # ms, t')) (parse_members d r)
                              else None)))))"
  by pat_completeness auto
termination
proof (relation "measure (case_sum (\<lambda>(d, s). 2 * length s)
         (case_sum (\<lambda>(d, s). 2 * length s + 1) (\<lambda>(d, s). 2 * length s + 1)))", goal_cases)
  case (2 d s c r c2 r2)
  then show ?case by (auto dest: skip_ws_ConsD)
next
  case (3 d s c r c2 r2)
  then show ?case by (auto dest: skip_ws_ConsD)
next
  case (6 d s q r0 p k t0 cl r1)
  then have "length t0 < length r0" by (metis parse_string_shorter)
  moreover from 6 have "length r0 < length s" "length r1 < length t0"
    by (auto dest: skip_ws_ConsD)
  ultimately show ?case by simp
qed auto

declare parse_value.simps [simp del] parse_elems.simps [simp del] parse_members.simps [simp del]

text \<open>Every parse consumes something, so the guards of the recursion hold.\<close>

lemma drop_while_length [simp]: "length (dropWhile p s) \<le> length s"
  by (rule length_dropWhile_le)

lemma digits_shorter: "digits s = (ds, t) \<Longrightarrow> length t + length ds = length s"
  by (auto simp: digits_def) (metis add.commute length_append takeWhile_dropWhile_id)

lemma parse_int_part_shorter: "parse_int_part s = Some (i, t) \<Longrightarrow> length t < length s"
  by (auto simp: parse_int_part_def split: prod.splits list.splits if_splits dest!: digits_shorter)

lemma parse_frac_shorter: "parse_frac s = Some (f, t) \<Longrightarrow> length t \<le> length s"
  by (auto simp: parse_frac_def split: prod.splits list.splits if_splits dest!: digits_shorter)

lemma parse_exp_shorter: "parse_exp s = Some (e, t) \<Longrightarrow> length t \<le> length s"
  by (auto simp: parse_exp_def split: prod.splits list.splits if_splits dest!: digits_shorter)

lemma parse_number_shorter: "parse_number s = Some (l, t) \<Longrightarrow> length t < length s"
proof -
  assume a: "parse_number s = Some (l, t)"
  define u where "u = snd (case s of c # r \<Rightarrow> if c = CHR ''-'' then ([c], r) else ([], s) | [] \<Rightarrow> ([], s))"
  have "length u \<le> length s" by (auto simp: u_def split: list.split)
  moreover obtain i t1 f t2 e where "parse_int_part u = Some (i, t1)" "parse_frac t1 = Some (f, t2)" "parse_exp t2 = Some (e, t)"
    using a by (auto simp: parse_number_def u_def split: prod.splits option.splits)
  ultimately show ?thesis
    using parse_int_part_shorter [of u i t1] parse_frac_shorter [of t1 f t2] parse_exp_shorter [of t2 e t] by linarith
qed

lemma literal_value_shorter: "literal_value s = Some (v, t) \<Longrightarrow> length t < length s"
  by (auto simp: literal_value_def is_prefix_iff split: if_splits dest: parse_number_shorter)

lemma parse_valueE:
  assumes "parse_value d s = Some (v, t)"
  obtains (empty) r r2 where "skip_ws s = CHR ''{'' # r \<or> skip_ws s = CHR ''['' # r" "skip_ws r = CHR ''}'' # r2 \<or> skip_ws r = CHR '']'' # r2" "t = r2"
  | (object) r ms where "skip_ws s = CHR ''{'' # r" "parse_members (d - 1) r = Some (ms, t)"
  | (array) r vs where "skip_ws s = CHR ''['' # r" "parse_elems (d - 1) r = Some (vs, t)"
  | (str) r x where "skip_ws s = CHR 0x22 # r" "parse_string r = Some (x, t)"
  | (literal) c r where "skip_ws s = c # r" "literal_value (c # r) = Some (v, t)"
  using assms unfolding parse_value.simps [of d s] by (auto split: if_splits list.splits option.splits)

lemma parse_elemsE:
  assumes "parse_elems d s = Some (vs, t)"
  obtains (final) v t1 where "parse_value d s = Some (v, t1)" "skip_ws t1 = CHR '']'' # t"
  | (item) v t1 r ws where "parse_value d s = Some (v, t1)" "skip_ws t1 = CHR '','' # r" "length r < length s"
      "parse_elems d r = Some (ws, t)"
  using assms unfolding parse_elems.simps [of d s]
  by (auto split: if_splits list.splits option.splits prod.splits)

lemma parse_membersE:
  assumes "parse_members d s = Some (ms, t)"
  obtains (final) r1 v t1 where "length r1 < length s" "parse_value d r1 = Some (v, t1)" "skip_ws t1 = CHR ''}'' # t"
  | (item) r1 v t1 r ws where "length r1 < length s" "parse_value d r1 = Some (v, t1)" "skip_ws t1 = CHR '','' # r"
      "length r < length s" "parse_members d r = Some (ws, t)"
proof -
  have s: "length r1 < length s"
    if "skip_ws s = q # r0" "parse_string r0 = Some (k, t0)" "skip_ws t0 = cl # r1" for q r0 k t0 cl r1
    using skip_ws_ConsD [OF that(1)] parse_string_shorter [OF that(2)] skip_ws_ConsD [OF that(3)] by linarith
  show ?thesis
    using assms final item unfolding parse_members.simps [of d s]
    by (auto split: if_splits list.splits option.splits prod.splits dest: s)
qed

lemma parse_shorter:
  "(\<forall>d s v t. length s \<le> n \<longrightarrow> parse_value d s = Some (v, t) \<longrightarrow> length t < length s)
   \<and> (\<forall>d s vs t. length s \<le> n \<longrightarrow> parse_elems d s = Some (vs, t) \<longrightarrow> length t < length s)
   \<and> (\<forall>d s ms t. length s \<le> n \<longrightarrow> parse_members d s = Some (ms, t) \<longrightarrow> length t < length s)"
proof (induction n)
  case 0
  have v: "parse_value d [] = None" for d by (simp add: parse_value.simps [of d] skip_ws_def)
  moreover have "parse_elems d [] = None" for d by (simp add: parse_elems.simps [of d] v)
  moreover have "parse_members d [] = None" for d by (simp add: parse_members.simps [of d] skip_ws_def)
  ultimately show ?case by auto
next
  case (Suc n)
  note ih = Suc.IH [THEN conjunct1, rule_format] Suc.IH [THEN conjunct2, THEN conjunct1, rule_format]
    Suc.IH [THEN conjunct2, THEN conjunct2, rule_format]
  have v: "length t < length s" if "length s \<le> Suc n" "parse_value d s = Some (v, t)" for d s v t
    using that(2)
  proof (cases rule: parse_valueE)
    case (empty r r2)
    then have "length r < length s" "length r2 < length r" by (auto dest: skip_ws_ConsD)
    with empty show ?thesis by simp
  next
    case (object r ms)
    with skip_ws_ConsD [OF object(1)] that(1) ih(3) [of r "d - 1" ms t] show ?thesis by simp
  next
    case (array r vs)
    with skip_ws_ConsD [OF array(1)] that(1) ih(2) [of r "d - 1" vs t] show ?thesis by simp
  next
    case (str r x)
    with skip_ws_ConsD [OF str(1)] parse_string_shorter [OF str(2)] show ?thesis by simp
  next
    case (literal c r)
    with length_skip_ws [of s] literal_value_shorter [OF literal(2)] show ?thesis by simp
  qed
  have e: "length t < length s" if "length s \<le> Suc n" "parse_elems d s = Some (vs, t)" for d s vs t
    using that(2)
  proof (cases rule: parse_elemsE)
    case (final v t1)
    with v [OF that(1) final(1)] skip_ws_ConsD [OF final(2)] show ?thesis by simp
  next
    case (item v t1 r ws)
    with ih(2) [OF _ item(4)] that(1) show ?thesis by simp
  qed
  have m: "length t < length s" if "length s \<le> Suc n" "parse_members d s = Some (ms, t)" for d s ms t
    using that(2)
  proof (cases rule: parse_membersE)
    case (final r1 v t1)
    then have "length t1 < length r1" using ih(1) [of r1 d v t1] that(1) by simp
    with skip_ws_ConsD [OF final(3)] final(1) show ?thesis by simp
  next
    case (item r1 v t1 r ws)
    with ih(3) [OF _ item(5)] that(1) show ?thesis by simp
  qed
  from v e m show ?case by blast
qed

lemma parse_value_shorter: "parse_value d s = Some (v, t) \<Longrightarrow> length t < length s"
  using parse_shorter [of "length s", THEN conjunct1] by blast

text \<open>Every number of a value fits a \<open>float64\<close>; \<open>Unmarshal\<close> into \<open>any\<close> fails otherwise.\<close>

fun numbers_finite :: "json \<Rightarrow> bool" where
  "numbers_finite (JNum l) = float_finite l"
| "numbers_finite (JArr vs) = (\<forall>v \<in> set vs. numbers_finite v)"
| "numbers_finite (JObj ms) = (\<forall>m \<in> set ms. numbers_finite (snd m))"
| "numbers_finite _ = True"

definition json_depth :: nat where
  "json_depth = 10000"

definition json_decode_first :: "string \<Rightarrow> json option" where
  "json_decode_first s = map_option fst (parse_value json_depth s)"

definition json_unmarshal :: "string \<Rightarrow> json option" where
  "json_unmarshal s =
     (case parse_value json_depth s of
        Some (v, t) \<Rightarrow> if skip_ws t = [] \<and> numbers_finite v then Some v else None
      | None \<Rightarrow> None)"

text \<open>
  \<open>Unmarshal\<close> into a \<open>map[string]any\<close>: an object, or \<open>null\<close>, which leaves a nil map in which
  every lookup misses.
\<close>

definition json_object :: "string \<Rightarrow> (string \<times> json) list option" where
  "json_object s =
     (case json_unmarshal s of
        Some (JObj ms) \<Rightarrow> Some ms
      | Some JNull \<Rightarrow> Some []
      | _ \<Rightarrow> None)"

section \<open>Access and the simplest facts\<close>

definition json_str :: "json option \<Rightarrow> string" where
  "json_str v = (case v of Some (JStr s) \<Rightarrow> s | _ \<Rightarrow> [])"

lemma distinct_keep_last: "distinct (map fst (keep_last ms))"
proof -
  have keys: "fst ` set (keep_last ms) = fst ` set ms" for ms
    by (induction ms rule: keep_last.induct) auto
  show ?thesis
  proof (induction ms rule: keep_last.induct)
    case (2 k v xs)
    then show ?case using keys [of xs] by simp
  qed simp
qed

end
