(* ===== verification/Token_Usage.thy ===== *)
theory Token_Usage
  imports Go_Json Trace_Event "HOL-Library.Multiset"
begin

text \<open>
  Token accounting and stream observation (\<open>internal/platform/upstream_usage.go\<close>): the usage
  record and its \<open>Merge\<close>, the walk over a decoded payload, the terminal-event rules and the
  classification of read errors. The members of a \<open>JObj\<close> are listed in the order in which
  Go's map iteration happens to yield them; \<open>reorder\<close> below relates two such orders, and the
  counts are shown not to depend on it. Counters are \<open>int64\<close>: sums wrap.
\<close>

section \<open>Usage records\<close>

record upstreamTokenUsage =
  InputTokens :: int
  OutputTokens :: int
  TotalTokens :: int
  CachedTokens :: int
  CacheCreationTokens :: int
  ReasoningTokens :: int
  Source :: string
  Exact :: bool

definition no_usage :: upstreamTokenUsage where
  "no_usage = \<lparr>InputTokens = 0, OutputTokens = 0, TotalTokens = 0, CachedTokens = 0,
     CacheCreationTokens = 0, ReasoningTokens = 0, Source = [], Exact = False\<rparr>"

definition HasAny :: "upstreamTokenUsage \<Rightarrow> bool" where
  "HasAny u \<longleftrightarrow> InputTokens u > 0 \<or> OutputTokens u > 0 \<or> TotalTokens u > 0 \<or>
     CachedTokens u > 0 \<or> CacheCreationTokens u > 0 \<or> ReasoningTokens u > 0"

definition maxInt64 :: "int \<Rightarrow> int \<Rightarrow> int" where
  "maxInt64 left right = (if right > left then right else left)"

lemma maxInt64_max [simp]: "maxInt64 a b = max a b"
  by (simp add: maxInt64_def max_def)

definition Merge :: "upstreamTokenUsage \<Rightarrow> upstreamTokenUsage \<Rightarrow> upstreamTokenUsage" where
  "Merge u other =
     (if \<not> HasAny other then u
      else
        (let u1 = u\<lparr>InputTokens := maxInt64 (InputTokens u) (InputTokens other),
                   OutputTokens := maxInt64 (OutputTokens u) (OutputTokens other),
                   TotalTokens := maxInt64 (TotalTokens u) (TotalTokens other),
                   CachedTokens := maxInt64 (CachedTokens u) (CachedTokens other),
                   CacheCreationTokens := maxInt64 (CacheCreationTokens u) (CacheCreationTokens other),
                   ReasoningTokens := maxInt64 (ReasoningTokens u) (ReasoningTokens other),
                   Source := (if Source u = [] then Source other else Source u),
                   Exact := (Exact u \<or> Exact other)\<rparr>;
             computed = wrap64 (InputTokens u1 + OutputTokens u1)
         in if computed > TotalTokens u1 then u1\<lparr>TotalTokens := computed\<rparr> else u1))"

section \<open>Reading one object\<close>

text \<open>A decoded number is a \<open>json.Number\<close>; the other numeric cases of the Go switch do not arise.\<close>

definition tokenInt64 :: "json option \<Rightarrow> int" where
  "tokenInt64 v =
     (case v of Some (JNum lit) \<Rightarrow>
        (case parse_int64 lit of Some i \<Rightarrow> if i > 0 then i else 0 | None \<Rightarrow> 0)
      | _ \<Rightarrow> 0)"

definition maxTokenValue :: "(string \<times> json) list \<Rightarrow> string list \<Rightarrow> int" where
  "maxTokenValue values keys =
     foldl (\<lambda>m key. if tokenInt64 (lookup values key) > m then tokenInt64 (lookup values key) else m)
       0 keys"

definition hasAnyUsageKey :: "(string \<times> json) list \<Rightarrow> string list \<Rightarrow> bool" where
  "hasAnyUsageKey values keys \<longleftrightarrow> (\<exists>key \<in> set keys. lookup values key \<noteq> None)"

definition normalizeUsageKey :: "string \<Rightarrow> string" where
  "normalizeUsageKey value =
     filter (\<lambda>c. c \<noteq> CHR ''_'' \<and> c \<noteq> CHR ''-'' \<and> c \<noteq> CHR '' '') (to_lower (trim_space value))"

definition isUsageContainer :: "string \<Rightarrow> bool" where
  "isUsageContainer key \<longleftrightarrow>
     (let normalized = normalizeUsageKey key in
      normalized = ''usage'' \<or> normalized = ''usagemetadata'' \<or>
      normalized = ''tokenusage'' \<or> normalized = ''tokenusageinfo'')"

definition hasTokenUsageSignature :: "(string \<times> json) list \<Rightarrow> bool" where
  "hasTokenUsageSignature values \<longleftrightarrow>
     (let input = hasAnyUsageKey values [''prompt_tokens'', ''input_tokens'', ''promptTokenCount''];
          output = hasAnyUsageKey values [''completion_tokens'', ''output_tokens'', ''candidatesTokenCount''];
          total = hasAnyUsageKey values [''total_tokens'', ''totalTokenCount'']
      in (input \<and> (output \<or> total)) \<or> (output \<and> total))"

text \<open>The tokens of a details object under \<open>key\<close>, 0 when the value is no object.\<close>

definition detailTokens :: "(string \<times> json) list \<Rightarrow> string \<Rightarrow> string list \<Rightarrow> int" where
  "detailTokens values key names =
     (case lookup values key of Some (JObj details) \<Rightarrow> maxTokenValue details names | _ \<Rightarrow> 0)"

definition usageSource :: "(string \<times> json) list \<Rightarrow> string \<Rightarrow> string" where
  "usageSource values parentKey =
     (if normalizeUsageKey parentKey = ''usagemetadata''
         \<or> hasAnyUsageKey values [''promptTokenCount'', ''candidatesTokenCount'']
      then ''gemini_usage_metadata''
      else if hasAnyUsageKey values [''cache_read_input_tokens'', ''cache_creation_input_tokens'']
      then ''anthropic_usage''
      else if hasAnyUsageKey values [''prompt_tokens'', ''completion_tokens''] then ''openai_chat_usage''
      else if hasAnyUsageKey values [''input_tokens'', ''output_tokens''] then ''responses_usage''
      else ''upstream_usage'')"

definition tokenUsageFromMap :: "(string \<times> json) list \<Rightarrow> string \<Rightarrow> upstreamTokenUsage" where
  "tokenUsageFromMap values parentKey =
     (let cached = foldl (\<lambda>c key. maxInt64 c (detailTokens values key
                            [''cached_tokens'', ''cache_read_input_tokens'']))
                     (maxTokenValue values [''cached_tokens'', ''cache_read_input_tokens'',
                                            ''cachedContentTokenCount''])
                     [''prompt_tokens_details'', ''input_tokens_details''];
          reasoning = foldl (\<lambda>c key. maxInt64 c (detailTokens values key [''reasoning_tokens'']))
                        (maxTokenValue values [''reasoning_tokens'', ''thoughtsTokenCount''])
                        [''completion_tokens_details'', ''output_tokens_details''];
          usage = \<lparr>InputTokens = maxTokenValue values [''prompt_tokens'', ''input_tokens'', ''promptTokenCount''],
                   OutputTokens = maxTokenValue values [''completion_tokens'', ''output_tokens'', ''candidatesTokenCount''],
                   TotalTokens = maxTokenValue values [''total_tokens'', ''totalTokenCount''],
                   CachedTokens = cached,
                   CacheCreationTokens = maxTokenValue values [''cache_creation_input_tokens''],
                   ReasoningTokens = reasoning,
                   Source = usageSource values parentKey,
                   Exact = True\<rparr>
      in if \<not> HasAny usage then usage\<lparr>Exact := False\<rparr> else usage)"

section \<open>Walking a payload\<close>

definition is_composite :: "json \<Rightarrow> bool" where
  "is_composite v = (case v of JObj _ \<Rightarrow> True | JArr _ \<Rightarrow> True | _ \<Rightarrow> False)"

fun walkUsagePayload :: "json \<Rightarrow> string \<Rightarrow> upstreamTokenUsage \<Rightarrow> upstreamTokenUsage" where
  "walkUsagePayload (JObj typed) parentKey result =
     foldl (\<lambda>acc m. if is_composite (snd m) then walkUsagePayload (snd m) (fst m) acc else acc)
       (if isUsageContainer parentKey \<or> hasTokenUsageSignature typed
        then Merge result (tokenUsageFromMap typed parentKey) else result)
       typed"
| "walkUsagePayload (JArr typed) parentKey result =
     foldl (\<lambda>acc child. walkUsagePayload child parentKey acc) result typed"
| "walkUsagePayload v parentKey result = result"

definition usage_of_root :: "json option \<Rightarrow> upstreamTokenUsage" where
  "usage_of_root payload =
     (case payload of None \<Rightarrow> no_usage
      | Some r \<Rightarrow>
        (let result = walkUsagePayload r ''root'' no_usage in
         if TotalTokens result = 0 \<and> (InputTokens result > 0 \<or> OutputTokens result > 0)
         then result\<lparr>TotalTokens := wrap64 (InputTokens result + OutputTokens result)\<rparr>
         else result))"

definition parseUpstreamTokenUsage :: "string \<Rightarrow> upstreamTokenUsage" where
  "parseUpstreamTokenUsage body = usage_of_root (json_decode_first body)"

section \<open>Terminal events\<close>

definition terminalEventName :: "string \<Rightarrow> bool" where
  "terminalEventName value \<longleftrightarrow>
     to_lower (trim_space value) \<in> {''done'', ''completed'', ''completion'', ''message_stop'',
       ''response.completed'', ''response.done''}"

definition stringValue :: "json option \<Rightarrow> string" where
  "stringValue value = trim_space (json_str value)"

definition choiceFinishReason :: "json \<Rightarrow> string" where
  "choiceFinishReason rawChoice =
     (case rawChoice of JObj choice \<Rightarrow> stringValue (lookup choice ''finish_reason'') | _ \<Rightarrow> [])"

text \<open>The semantics label of a terminal payload, \<open>None\<close> when it is not terminal.\<close>

definition terminalPayload :: "(string \<times> json) list \<Rightarrow> string option" where
  "terminalPayload payload =
     (if terminalEventName (json_str (lookup payload ''type''))
      then Some (to_lower (trim_space (json_str (lookup payload ''type''))))
      else if equal_fold (trim_space (json_str (lookup payload ''status''))) ''completed''
      then Some ''status_completed''
      else if lookup payload ''done'' = Some (JBool True) then Some ''done_true''
      else if (case lookup payload ''response'' of
                 Some (JObj response) \<Rightarrow>
                   equal_fold (trim_space (json_str (lookup response ''status''))) ''completed''
               | _ \<Rightarrow> False)
      then Some ''response_completed''
      else if stringValue (lookup payload ''finish_reason'') \<noteq> []
      then Some (''finish_reason:'' @ to_lower (stringValue (lookup payload ''finish_reason'')))
      else (case lookup payload ''choices'' of
              Some (JArr choices) \<Rightarrow>
                (case find (\<lambda>c. choiceFinishReason c \<noteq> []) choices of
                   Some c \<Rightarrow> Some (''finish_reason:'' @ to_lower (choiceFinishReason c))
                 | None \<Rightarrow> None)
            | _ \<Rightarrow> None))"

text \<open>The event name and the data lines of an SSE event.\<close>

fun sse_fields :: "string list \<Rightarrow> string \<Rightarrow> string list \<Rightarrow> string \<times> string list" where
  "sse_fields [] eventName dataLines = (eventName, dataLines)"
| "sse_fields (line # rest) eventName dataLines =
     (let trimmed = trim_space line; lower = to_lower trimmed in
      if is_prefix ''event:'' lower then sse_fields rest (trim_space (drop 6 trimmed)) dataLines
      else if is_prefix ''data:'' lower
      then sse_fields rest eventName (dataLines @ [trim_space (drop 5 trimmed)])
      else sse_fields rest eventName dataLines)"

definition parseSSEObservation :: "string list \<Rightarrow> upstreamTokenUsage \<times> bool \<times> string" where
  "parseSSEObservation lines =
     (case sse_fields lines [] [] of (eventName, dataLines) \<Rightarrow>
        (let joined = trim_space (join [CHR 0x0A] dataLines) in
         if equal_fold joined ''[DONE]'' then (no_usage, True, ''data_done'')
         else
           (let usage = parseUpstreamTokenUsage joined in
            if terminalEventName eventName then (usage, True, to_lower (trim_space eventName))
            else if joined = [] then (usage, False, [])
            else (case json_decode_first joined of
                    Some (JObj payload) \<Rightarrow>
                      (case terminalPayload payload of
                         Some semantics \<Rightarrow> (usage, True, semantics)
                       | None \<Rightarrow> (usage, False, []))
                  | _ \<Rightarrow> (usage, False, [])))))"

section \<open>The observation of a response\<close>

record upstreamResponseObservation =
  ob_Usage :: upstreamTokenUsage
  ob_CompletionObserved :: bool
  ob_CompletionSemantics :: string
  ob_TransportClosedAfterTerminal :: bool
  ob_ReadError :: string
  ob_Duration :: duration

definition no_observation :: upstreamResponseObservation where
  "no_observation = \<lparr>ob_Usage = no_usage, ob_CompletionObserved = False,
     ob_CompletionSemantics = [], ob_TransportClosedAfterTerminal = False, ob_ReadError = [],
     ob_Duration = 0\<rparr>"

definition ObserveSSEEvent :: "upstreamResponseObservation \<Rightarrow> string list \<Rightarrow> upstreamResponseObservation" where
  "ObserveSSEEvent ob lines =
     (case parseSSEObservation lines of (usage, terminal, semantics) \<Rightarrow>
        (let o1 = ob\<lparr>ob_Usage := Merge (ob_Usage ob) usage\<rparr> in
         if terminal then
           o1\<lparr>ob_CompletionObserved := True,
              ob_CompletionSemantics := (if semantics \<noteq> [] then semantics else ob_CompletionSemantics o1)\<rparr>
         else o1))"

definition ObserveBufferedBody ::
    "upstreamResponseObservation \<Rightarrow> string \<Rightarrow> bool \<Rightarrow> upstreamResponseObservation" where
  "ObserveBufferedBody ob body isComplete =
     (if \<not> isComplete then ob
      else ob\<lparr>ob_Usage := Merge (ob_Usage ob) (parseUpstreamTokenUsage body),
             ob_CompletionObserved := True,
             ob_CompletionSemantics := ''buffered_response_complete''\<rparr>)"

text \<open>
  \<open>math.Round(rate*100)/100\<close> rounds half away from zero; rates here are positive. The rate is an
  exact rational, where the code rounds to \<open>float64\<close>.
\<close>

definition round_cents :: "rat \<Rightarrow> rat" where
  "round_cents r = rat_of_int \<lfloor>r * 100 + 1 / 2\<rfloor> / 100"

definition set_if :: "bool \<Rightarrow> string \<Rightarrow> mval \<Rightarrow> metadata \<Rightarrow> metadata" where
  "set_if b key v m = (if b then m(key \<mapsto> v) else m)"

definition auditDiagnosticTextLimit :: nat where
  "auditDiagnosticTextLimit = 700"

definition recordUpstreamObservationMetadata ::
    "TraceEvent \<Rightarrow> upstreamResponseObservation \<Rightarrow> TraceEvent" where
  "recordUpstreamObservationMetadata trace ob =
     (let usage = ob_Usage ob; m0 = te_Metadata trace;
          m1 = set_if (InputTokens usage > 0) ''upstream_input_tokens'' (MInt (InputTokens usage)) m0;
          m2 = set_if (OutputTokens usage > 0) ''upstream_output_tokens'' (MInt (OutputTokens usage)) m1;
          m3 = set_if (TotalTokens usage > 0) ''upstream_total_tokens'' (MInt (TotalTokens usage)) m2;
          m4 = set_if (CachedTokens usage > 0) ''upstream_cached_tokens'' (MInt (CachedTokens usage)) m3;
          m5 = set_if (CacheCreationTokens usage > 0) ''upstream_cache_creation_tokens''
                 (MInt (CacheCreationTokens usage)) m4;
          m6 = set_if (ReasoningTokens usage > 0) ''upstream_reasoning_tokens'' (MInt (ReasoningTokens usage)) m5;
          m7 = set_if (HasAny usage) ''upstream_usage_exact'' (MBool (Exact usage)) m6;
          m8 = set_if (HasAny usage) ''upstream_usage_source''
                 (MStr (firstNonEmpty [Source usage, ''upstream_response''])) m7;
          m9 = set_if (ob_Duration ob > 0) ''upstream_response_duration_ms''
                 (MInt (ob_Duration ob div millisecond)) m8;
          m10 = set_if (ob_Duration ob > 0 \<and> OutputTokens usage > 0 \<and> ob_Duration ob \<ge> 10 * millisecond)
                  ''upstream_output_tokens_per_second''
                  (MRat (round_cents (rat_of_int (OutputTokens usage * second) / rat_of_int (ob_Duration ob)))) m9;
          m11 = set_if (ob_CompletionSemantics ob \<noteq> []) ''upstream_completion_semantics''
                  (MStr (ob_CompletionSemantics ob)) m10;
          m12 = set_if (ob_TransportClosedAfterTerminal ob) ''upstream_transport_closed_after_terminal''
                  (MBool True) m11;
          m13 = set_if (ob_ReadError ob \<noteq> []) ''upstream_stream_read_error''
                  (MStr (truncateString (ob_ReadError ob) auditDiagnosticTextLimit)) m12
      in trace\<lparr>te_Metadata := m13\<rparr>)"

section \<open>Read errors\<close>

text \<open>
  The cancellation cause of the upstream request's context, as \<open>errors.Is\<close> tells it apart;
  \<open>NoCause\<close> is a context that is still open.
\<close>

datatype cancel_cause =
  NoCause | StreamIdleTimeout | RequestTimeout | DeadlineExceeded | Canceled | OtherCause

definition classifyUpstreamStreamReadError :: "cancel_cause \<Rightarrow> string \<Rightarrow> string \<times> string" where
  "classifyUpstreamStreamReadError cause readError =
     (case cause of
        StreamIdleTimeout \<Rightarrow>
          (''UPSTREAM_STREAM_TIMEOUT'',
           ''upstream stream idle timeout: no SSE event arrived before the configured route timeout'')
      | RequestTimeout \<Rightarrow>
          (''UPSTREAM_STREAM_TIMEOUT'',
           ''upstream stream request deadline expired while reading SSE data'')
      | DeadlineExceeded \<Rightarrow>
          (''UPSTREAM_STREAM_TIMEOUT'',
           ''upstream stream request deadline expired while reading SSE data'')
      | Canceled \<Rightarrow> (''CLIENT_DISCONNECT'', [])
      | _ \<Rightarrow> (''UPSTREAM_STREAM_INTERRUPTED'', ''upstream SSE read failed: '' @ readError))"

section \<open>Folding merges in any order\<close>

text \<open>
  A fold whose steps commute on the states and elements at hand gives the same result for every
  arrangement of its elements: the interface between a component that folds and one that only
  promises a multiset, such as an iteration over a Go map.
\<close>

locale permutation_fold =
  fixes f :: "'s \<Rightarrow> 'x \<Rightarrow> 's" and good :: "'s \<Rightarrow> bool" and okay :: "'x \<Rightarrow> bool"
  assumes good_step: "good s \<Longrightarrow> okay x \<Longrightarrow> good (f s x)"
    and commute: "good s \<Longrightarrow> okay x \<Longrightarrow> okay y \<Longrightarrow> f (f s x) y = f (f s y) x"
begin

lemma good_foldl: "good s \<Longrightarrow> \<forall>x \<in> set xs. okay x \<Longrightarrow> good (foldl f s xs)"
  by (induction xs arbitrary: s) (auto simp: good_step)

lemma foldl_move:
  "good s \<Longrightarrow> okay x \<Longrightarrow> \<forall>y \<in> set ys. okay y \<Longrightarrow> foldl f (f s x) ys = f (foldl f s ys) x"
  by (induction ys arbitrary: s) (simp_all add: commute good_step)

lemma foldl_permute:
  "good s \<Longrightarrow> mset xs = mset ys \<Longrightarrow> \<forall>x \<in> set xs. okay x \<Longrightarrow> foldl f s xs = foldl f s ys"
proof (induction xs arbitrary: ys s)
  case Nil
  then show ?case by simp
next
  case (Cons x xs)
  from Cons.prems(2) have "x \<in> set ys"
    by (metis list.set_intros(1) set_mset_mset)
  then obtain as bs where ys: "ys = as @ x # bs" by (meson split_list)
  with Cons.prems(2) have rest: "mset xs = mset (as @ bs)" by simp
  have all: "\<forall>z \<in> set (as @ x # bs). okay z"
    using Cons.prems(2,3) ys by (metis set_mset_mset)
  have "foldl f s (x # xs) = foldl f (f s x) xs" by simp
  also have "\<dots> = foldl f (f s x) (as @ bs)"
    by (rule Cons.IH) (use Cons.prems rest good_step in auto)
  also have "\<dots> = foldl f (f (foldl f s as) x) bs"
    using all Cons.prems by (simp add: foldl_move)
  finally show ?case by (simp add: ys)
qed

end

definition strip_source :: "upstreamTokenUsage \<Rightarrow> upstreamTokenUsage" where
  "strip_source u = u\<lparr>Source := []\<rparr>"

text \<open>Counts are non-negative, and input and output counts leave room for their sum.\<close>

definition moderate :: "upstreamTokenUsage \<Rightarrow> bool" where
  "moderate u \<longleftrightarrow> 0 \<le> InputTokens u \<and> InputTokens u < 2 ^ 62 \<and> 0 \<le> OutputTokens u \<and> OutputTokens u < 2 ^ 62"

lemma Merge_strip: "strip_source (Merge u x) = Merge (strip_source u) (strip_source x)"
proof (cases "HasAny x")
  case True
  then have "HasAny (strip_source x)" by (simp add: HasAny_def strip_source_def)
  with True show ?thesis
    by (simp add: Merge_def Let_def strip_source_def del: maxInt64_max)
next
  case False
  then have "\<not> HasAny (strip_source x)" by (simp add: HasAny_def strip_source_def)
  with False show ?thesis by (simp add: Merge_def)
qed

text \<open>Without overflow a merge takes maxima and keeps the total at least the sum of both sides.\<close>

lemma Merge_moderate:
  assumes "moderate u" and "moderate x" and "HasAny x"
  shows "Merge u x =
    \<lparr>InputTokens = max (InputTokens u) (InputTokens x),
     OutputTokens = max (OutputTokens u) (OutputTokens x),
     TotalTokens = max (max (TotalTokens u) (TotalTokens x))
       (max (InputTokens u) (InputTokens x) + max (OutputTokens u) (OutputTokens x)),
     CachedTokens = max (CachedTokens u) (CachedTokens x),
     CacheCreationTokens = max (CacheCreationTokens u) (CacheCreationTokens x),
     ReasoningTokens = max (ReasoningTokens u) (ReasoningTokens x),
     Source = (if Source u = [] then Source x else Source u),
     Exact = (Exact u \<or> Exact x)\<rparr>"
proof -
  let ?sum = "max (InputTokens u) (InputTokens x) + max (OutputTokens u) (OutputTokens x)"
  have "0 \<le> ?sum" and "?sum < 2 ^ 63"
    using assms(1,2) by (auto simp: moderate_def)
  then have "wrap64 ?sum = ?sum"
    by (intro wrap64_id) (simp add: is_int64_def min_int64_def max_int64_def)
  with assms(3) show ?thesis
    by (simp add: Merge_def Let_def max_def)
qed

lemma Merge_idle: "\<not> HasAny x \<Longrightarrow> Merge u x = u"
  by (simp add: Merge_def)

lemma moderate_Merge: "moderate u \<Longrightarrow> moderate x \<Longrightarrow> moderate (Merge u x)"
  by (cases "HasAny x") (auto simp: Merge_moderate Merge_idle, auto simp: moderate_def)

lemma max_absorb_sum:
  assumes "a \<le> (b::int)"
  shows "max (max (max (max t x) a) y) b = max (max (max t x) y) b"
proof -
  have "max (max (max (max t x) a) y) b = max (max (max t x) y) (max a b)"
    by (simp only: max.assoc max.commute max.left_commute)
  also have "max a b = b" using assms by (rule max_absorb2)
  finally show ?thesis .
qed

lemma swap3: "max (max (a::int) b) c = max (max a c) b"
  by (simp only: max.assoc max.commute max.left_commute)

lemma Merge_commute:
  assumes "moderate u" "moderate x" "moderate y" "Source x = []" "Source y = []"
  shows "Merge (Merge u x) y = Merge (Merge u y) x"
proof (cases "HasAny x \<and> HasAny y")
  case True
  then have x: "HasAny x" and y: "HasAny y" by simp_all
  let ?I = "max (max (InputTokens u) (InputTokens x)) (InputTokens y)"
  let ?O = "max (max (OutputTokens u) (OutputTokens x)) (OutputTokens y)"
  have I: "max (max (InputTokens u) (InputTokens y)) (InputTokens x) = ?I"
    and O: "max (max (OutputTokens u) (OutputTokens y)) (OutputTokens x) = ?O"
    and T0: "max (max (TotalTokens u) (TotalTokens y)) (TotalTokens x)
      = max (max (TotalTokens u) (TotalTokens x)) (TotalTokens y)"
    by (simp_all only: max.assoc max.commute max.left_commute)
  have ix: "max (InputTokens u) (InputTokens x) + max (OutputTokens u) (OutputTokens x) \<le> ?I + ?O"
    by (intro add_mono max.cobounded1)
  have iy: "max (InputTokens u) (InputTokens y) + max (OutputTokens u) (OutputTokens y) \<le> ?I + ?O"
    by (subst I [symmetric], subst O [symmetric], intro add_mono max.cobounded1)
  have mx: "moderate (Merge u x)" and my: "moderate (Merge u y)"
    using assms by (simp_all add: moderate_Merge)
  have T: "TotalTokens (Merge (Merge u x) y) = TotalTokens (Merge (Merge u y) x)"
    unfolding Merge_moderate [OF mx assms(3) y] Merge_moderate [OF my assms(2) x]
    by (simp add: Merge_moderate assms x y I O T0 max_absorb_sum [OF ix] max_absorb_sum [OF iy])
  show ?thesis
  proof (rule upstreamTokenUsage.equality)
    show "TotalTokens (Merge (Merge u x) y) = TotalTokens (Merge (Merge u y) x)" by (rule T)
  qed (unfold Merge_moderate [OF mx assms(3) y] Merge_moderate [OF my assms(2) x],
      simp_all only: Merge_moderate [OF assms(1,2) x] Merge_moderate [OF assms(1,3) y]
        upstreamTokenUsage.simps I O swap3 assms(4,5) if_cancel disj_ac)
next
  case False
  then show ?thesis by (auto simp: Merge_idle)
qed

interpretation usage_fold: permutation_fold Merge
    "\<lambda>u. moderate u" "\<lambda>x. moderate x \<and> Source x = []"
  by unfold_locales (auto simp: moderate_Merge Merge_commute)

section \<open>The walk as a fold over the usage objects it meets\<close>

fun usage_objects :: "json \<Rightarrow> string \<Rightarrow> upstreamTokenUsage list" where
  "usage_objects (JObj typed) parentKey =
     (if isUsageContainer parentKey \<or> hasTokenUsageSignature typed
      then [tokenUsageFromMap typed parentKey] else [])
     @ concat (map (\<lambda>m. if is_composite (snd m) then usage_objects (snd m) (fst m) else []) typed)"
| "usage_objects (JArr typed) parentKey = concat (map (\<lambda>child. usage_objects child parentKey) typed)"
| "usage_objects v parentKey = []"

lemma foldl_concat_map:
  "(\<And>x s. x \<in> set xs \<Longrightarrow> g s x = foldl f s (h x)) \<Longrightarrow> foldl g s xs = foldl f s (concat (map h xs))"
  by (induction xs arbitrary: s) auto

lemma walk_is_fold: "walkUsagePayload v pk r = foldl Merge r (usage_objects v pk)"
proof (induction v arbitrary: pk r)
  case (JObj typed)
  have "foldl (\<lambda>acc m. if is_composite (snd m) then walkUsagePayload (snd m) (fst m) acc else acc) s typed
      = foldl Merge s (concat (map (\<lambda>m. if is_composite (snd m) then usage_objects (snd m) (fst m) else []) typed))"
    for s
    by (rule foldl_concat_map) (use JObj in \<open>force simp: prod_set_defs\<close>)
  then show ?case by simp
next
  case (JArr typed)
  have "foldl (\<lambda>acc child. walkUsagePayload child pk acc) r typed
      = foldl Merge r (concat (map (\<lambda>child. usage_objects child pk) typed))"
    by (rule foldl_concat_map) (use JArr in simp)
  then show ?case by simp
qed simp_all

text \<open>
  Two decodings of one payload that differ only in the order of object members, at any depth.
\<close>

inductive reorder :: "json \<Rightarrow> json \<Rightarrow> bool" where
  reorder_refl: "reorder v v"
| reorder_trans: "reorder u v \<Longrightarrow> reorder v w \<Longrightarrow> reorder u w"
| reorder_members: "distinct (map fst ms) \<Longrightarrow> mset ms = mset ms' \<Longrightarrow> reorder (JObj ms) (JObj ms')"
| reorder_field: "reorder v v' \<Longrightarrow> reorder (JObj (xs @ (k, v) # ys)) (JObj (xs @ (k, v') # ys))"
| reorder_elem: "reorder v v' \<Longrightarrow> reorder (JArr (xs @ v # ys)) (JArr (xs @ v' # ys))"

lemma map_of_reordered:
  assumes "distinct (map fst ms)" and "mset ms = mset ms'"
  shows "map_of ms = map_of ms'"
proof -
  from assms(2) have "mset (map fst ms) = mset (map fst ms')" by simp
  with assms(1) have "distinct (map fst ms')" using mset_eq_imp_distinct_iff by blast
  with assms show ?thesis by (metis map_of_inject_set mset_eq_setD)
qed

definition detail_of :: "json option \<Rightarrow> string list \<Rightarrow> int" where
  "detail_of v names = (case v of Some (JObj details) \<Rightarrow> maxTokenValue details names | _ \<Rightarrow> 0)"

lemma detailTokens_of: "detailTokens m key names = detail_of (lookup m key) names"
  by (simp add: detailTokens_def detail_of_def)

text \<open>What one usage object shows of its members.\<close>

definition usage_alike :: "(string \<times> json) list \<Rightarrow> (string \<times> json) list \<Rightarrow> bool" where
  "usage_alike a b \<longleftrightarrow>
     (\<forall>k. tokenInt64 (lookup a k) = tokenInt64 (lookup b k) \<and> (lookup a k = None \<longleftrightarrow> lookup b k = None)
          \<and> (\<forall>names. detail_of (lookup a k) names = detail_of (lookup b k) names))"

lemma usage_alike_same: "map_of a = map_of b \<Longrightarrow> usage_alike a b"
  by (simp add: usage_alike_def)

lemma maxTokenValue_alike: "usage_alike a b \<Longrightarrow> maxTokenValue a ks = maxTokenValue b ks"
  by (simp add: usage_alike_def maxTokenValue_def cong: if_cong)

lemma hasAnyUsageKey_alike: "usage_alike a b \<Longrightarrow> hasAnyUsageKey a ks = hasAnyUsageKey b ks"
  by (auto simp: usage_alike_def hasAnyUsageKey_def)

lemma detailTokens_alike: "usage_alike a b \<Longrightarrow> detailTokens a k ks = detailTokens b k ks"
  by (simp add: usage_alike_def detailTokens_of)

lemma signature_alike: "usage_alike a b \<Longrightarrow> hasTokenUsageSignature a = hasTokenUsageSignature b"
  by (simp add: hasTokenUsageSignature_def hasAnyUsageKey_alike)

lemma usage_from_map_alike:
  assumes "usage_alike a b"
  shows "tokenUsageFromMap a pk = tokenUsageFromMap b pk"
  unfolding tokenUsageFromMap_def usageSource_def
  by (simp only: hasAnyUsageKey_alike [OF assms] maxTokenValue_alike [OF assms]
      detailTokens_alike [OF assms])

lemma usage_alike_field:
  assumes "tokenInt64 (Some v) = tokenInt64 (Some v')"
    and "\<And>names. detail_of (Some v) names = detail_of (Some v') names"
  shows "usage_alike (xs @ (k, v) # ys) (xs @ (k, v') # ys)"
  using assms by (auto simp: usage_alike_def map_add_def split: option.split)

lemma mset_concat_map: "mset ms = mset ms' \<Longrightarrow> mset (concat (map h ms)) = mset (concat (map h ms'))"
  by (simp add: mset_concat comp_def flip: sum_mset_sum_list)

definition same_view :: "json \<Rightarrow> json \<Rightarrow> bool" where
  "same_view v v' \<longleftrightarrow>
     tokenInt64 (Some v) = tokenInt64 (Some v') \<and> is_composite v = is_composite v'
     \<and> (\<forall>names. detail_of (Some v) names = detail_of (Some v') names)
     \<and> (\<forall>pk. mset (usage_objects v pk) = mset (usage_objects v' pk))"

lemma same_view_object:
  assumes "usage_alike a b"
    and "mset (concat (map (\<lambda>m. if is_composite (snd m) then usage_objects (snd m) (fst m) else []) a))
       = mset (concat (map (\<lambda>m. if is_composite (snd m) then usage_objects (snd m) (fst m) else []) b))"
  shows "same_view (JObj a) (JObj b)"
  using assms
  by (simp add: same_view_def is_composite_def detail_of_def tokenInt64_def maxTokenValue_alike
      signature_alike usage_from_map_alike)

lemma reorder_same_view: "reorder v v' \<Longrightarrow> same_view v v'"
proof (induction rule: reorder.induct)
  case (reorder_members ms ms')
  then show ?case
    by (intro same_view_object usage_alike_same map_of_reordered mset_concat_map)
next
  case (reorder_field v v' xs k ys)
  then show ?case
    by (intro same_view_object usage_alike_field) (simp_all add: same_view_def)
next
  case (reorder_elem v v' xs ys)
  then show ?case by (simp add: same_view_def is_composite_def detail_of_def tokenInt64_def)
qed (simp_all add: same_view_def)

lemma counts_of_fold: "strip_source (foldl Merge r us) = foldl Merge (strip_source r) (map strip_source us)"
  by (induction us arbitrary: r) (simp_all add: Merge_strip)

lemma moderate_strip [simp]: "moderate (strip_source u) = moderate u" "Source (strip_source u) = []"
  by (simp_all add: strip_source_def moderate_def)

lemma walk_reordered:
  assumes "reorder v v'" and "moderate r" and "\<forall>u \<in> set (usage_objects v pk). moderate u"
  shows "strip_source (walkUsagePayload v pk r) = strip_source (walkUsagePayload v' pk r)"
proof -
  have "mset (usage_objects v pk) = mset (usage_objects v' pk)"
    using reorder_same_view [OF assms(1)] by (simp add: same_view_def)
  then have "mset (map strip_source (usage_objects v pk)) = mset (map strip_source (usage_objects v' pk))"
    by simp
  then have "foldl Merge (strip_source r) (map strip_source (usage_objects v pk))
      = foldl Merge (strip_source r) (map strip_source (usage_objects v' pk))"
    using assms(2,3) by (intro usage_fold.foldl_permute) auto
  then show ?thesis by (simp add: walk_is_fold counts_of_fold)
qed

text \<open>Usage objects never hold a negative count, and a merge never loses one.\<close>

lemma tokenInt64_nonneg: "0 \<le> tokenInt64 v"
  by (simp add: tokenInt64_def split: option.split json.split)

lemma maxTokenValue_nonneg: "0 \<le> maxTokenValue m ks"
  unfolding maxTokenValue_def by (rule foldl_invariant) (auto simp: tokenInt64_nonneg)

lemma Merge_monotone:
  "InputTokens u \<le> InputTokens (Merge u x)" "OutputTokens u \<le> OutputTokens (Merge u x)"
  "TotalTokens u \<le> TotalTokens (Merge u x)" "CachedTokens u \<le> CachedTokens (Merge u x)"
  "ReasoningTokens u \<le> ReasoningTokens (Merge u x)"
  by (simp_all add: Merge_def Let_def)

end
