(* ===== verification/Net_Guard.thy ===== *)
theory Net_Guard
  imports Go_Text "HOL-Library.Word"
begin

unbundle bit_operations_syntax

text \<open>
  The guard against forwarding to internal addresses (\<open>isForbiddenIP\<close>,
  \<open>forbiddenNetworks\<close>, \<open>ValidateUpstreamURL\<close> and the dialer of \<open>NewSafeTransport\<close> in
  \<open>internal/platform/gateway.go\<close>). A Go \<open>net.IP\<close> is its byte slice: 4 or 16 bytes, or
  empty for nil. DNS resolution, URL parsing and the connection itself are arguments.
\<close>

type_synonym u8 = "8 word"
type_synonym ip = "u8 list"

section \<open>Package net\<close>

text \<open>\<open>IP.To4\<close>: an IPv4-mapped IPv6 address becomes its four bytes.\<close>

definition To4 :: "ip \<Rightarrow> ip option" where
  "To4 ip =
     (if length ip = 4 then Some ip
      else if length ip = 16 \<and> take 10 ip = replicate 10 0 \<and> ip ! 10 = 255 \<and> ip ! 11 = 255
      then Some (drop 12 ip)
      else None)"

definition loopback6 :: ip where
  "loopback6 = replicate 15 0 @ [1]"

definition unspecified6 :: ip where
  "unspecified6 = replicate 16 0"

definition IsUnspecified :: "ip \<Rightarrow> bool" where
  "IsUnspecified ip \<longleftrightarrow> To4 ip = Some [0, 0, 0, 0] \<or> ip = unspecified6"

definition IsLoopback :: "ip \<Rightarrow> bool" where
  "IsLoopback ip \<longleftrightarrow>
     (case To4 ip of Some ip4 \<Rightarrow> ip4 ! 0 = 127 | None \<Rightarrow> ip = loopback6)"

definition IsPrivate :: "ip \<Rightarrow> bool" where
  "IsPrivate ip \<longleftrightarrow>
     (case To4 ip of
        Some ip4 \<Rightarrow> ip4 ! 0 = 10 \<or> (ip4 ! 0 = 172 \<and> ip4 ! 1 AND 240 = 16) \<or> (ip4 ! 0 = 192 \<and> ip4 ! 1 = 168)
      | None \<Rightarrow> length ip = 16 \<and> ip ! 0 AND 254 = 252)"

definition IsMulticast :: "ip \<Rightarrow> bool" where
  "IsMulticast ip \<longleftrightarrow>
     (case To4 ip of Some ip4 \<Rightarrow> ip4 ! 0 AND 240 = 224 | None \<Rightarrow> length ip = 16 \<and> ip ! 0 = 255)"

definition IsLinkLocalUnicast :: "ip \<Rightarrow> bool" where
  "IsLinkLocalUnicast ip \<longleftrightarrow>
     (case To4 ip of
        Some ip4 \<Rightarrow> ip4 ! 0 = 169 \<and> ip4 ! 1 = 254
      | None \<Rightarrow> length ip = 16 \<and> ip ! 0 = 254 \<and> ip ! 1 AND 192 = 128)"

definition IsLinkLocalMulticast :: "ip \<Rightarrow> bool" where
  "IsLinkLocalMulticast ip \<longleftrightarrow>
     (case To4 ip of
        Some ip4 \<Rightarrow> ip4 ! 0 = 224 \<and> ip4 ! 1 = 0 \<and> ip4 ! 2 = 0
      | None \<Rightarrow> length ip = 16 \<and> ip ! 0 = 255 \<and> ip ! 1 AND 15 = 2)"

text \<open>\<open>ParseCIDR\<close> of a literal and \<open>IPNet.Contains\<close>: the mask is applied byte by byte.\<close>

record ipnet =
  net_IP :: ip
  net_Mask :: ip

definition cidr_mask :: "nat \<Rightarrow> nat \<Rightarrow> ip" where
  "cidr_mask ones bytes =
     map (\<lambda>i. if 8 * (i + 1) \<le> ones then 255
              else if ones \<le> 8 * i then 0
              else NOT (mask (8 - (ones - 8 * i)))) [0..<bytes]"

definition cidr :: "ip \<Rightarrow> nat \<Rightarrow> ipnet" where
  "cidr ip ones = \<lparr>net_IP = map2 (AND) ip (cidr_mask ones (length ip)),
                   net_Mask = cidr_mask ones (length ip)\<rparr>"

definition net_contains :: "ipnet \<Rightarrow> ip \<Rightarrow> bool" where
  "net_contains n ip =
     (let x = (case To4 ip of Some ip4 \<Rightarrow> ip4 | None \<Rightarrow> ip) in
      length x = length (net_IP n)
      \<and> map2 (AND) (net_IP n) (net_Mask n) = map2 (AND) x (net_Mask n))"

section \<open>Forbidden addresses\<close>

definition v6 :: "u8 list \<Rightarrow> ip" where
  "v6 head = head @ replicate (16 - length head) 0"

definition forbiddenNetworks :: "ipnet list" where
  "forbiddenNetworks =
     [cidr [0, 0, 0, 0] 8, cidr [10, 0, 0, 0] 8, cidr [100, 64, 0, 0] 10, cidr [127, 0, 0, 0] 8,
      cidr [169, 254, 0, 0] 16, cidr [172, 16, 0, 0] 12, cidr [192, 0, 0, 0] 24, cidr [192, 168, 0, 0] 16,
      cidr [198, 18, 0, 0] 15, cidr [198, 51, 100, 0] 24, cidr [203, 0, 113, 0] 24, cidr [224, 0, 0, 0] 4,
      cidr [240, 0, 0, 0] 4, cidr unspecified6 128, cidr loopback6 128, cidr (v6 [252]) 7,
      cidr (v6 [254, 128]) 10, cidr (v6 [255]) 8, cidr (v6 [32, 1, 13, 184]) 32]"

definition isForbiddenIP :: "ip \<Rightarrow> bool" where
  "isForbiddenIP ip \<longleftrightarrow>
     ip = [] \<or> IsUnspecified ip \<or> IsLoopback ip \<or> IsPrivate ip \<or> IsMulticast ip
     \<or> IsLinkLocalUnicast ip \<or> IsLinkLocalMulticast ip
     \<or> (\<exists>network \<in> set forbiddenNetworks. net_contains network ip)"

section \<open>Validation and dialing\<close>

record parsed_url =
  url_Scheme :: string
  url_Hostname :: string
  url_HasUser :: bool
  url_Fragment :: string

datatype url_error =
  InvalidURL | BadScheme | BadHost | PlainHTTP | ResolveFailed | NoAddress | ForbiddenAddress ip

text \<open>\<open>parse\<close> is \<open>url.Parse\<close> and \<open>resolve\<close> the resolver; \<open>None\<close> is success.\<close>

definition ValidateUpstreamURL ::
    "(string \<Rightarrow> parsed_url option) \<Rightarrow> (string \<Rightarrow> ip list option) \<Rightarrow> string \<Rightarrow> bool \<Rightarrow> url_error option" where
  "ValidateUpstreamURL parse resolve rawURL allowPrivate =
     (case parse rawURL of
        None \<Rightarrow> Some InvalidURL
      | Some parsed \<Rightarrow>
        if url_Scheme parsed \<noteq> ''https'' \<and> url_Scheme parsed \<noteq> ''http'' then Some BadScheme
        else if url_Hostname parsed = [] \<or> url_HasUser parsed \<or> url_Fragment parsed \<noteq> [] then Some BadHost
        else if url_Scheme parsed = ''http'' \<and> \<not> allowPrivate then Some PlainHTTP
        else if allowPrivate then None
        else (case resolve (url_Hostname parsed) of
                None \<Rightarrow> Some ResolveFailed
              | Some addresses \<Rightarrow>
                if addresses = [] then Some NoAddress
                else (case find isForbiddenIP addresses of
                        Some a \<Rightarrow> Some (ForbiddenAddress a)
                      | None \<Rightarrow> None)))"

datatype dial_error = LookupFailed | DialBlocked ip | DialFailed ip | NoUsableAddress

text \<open>
  The address loop of \<open>DialContext\<close>: \<open>connect\<close> says whether a connection to the address
  can be made; the result is the address connected to.
\<close>

fun dial_addresses :: "bool \<Rightarrow> (ip \<Rightarrow> bool) \<Rightarrow> ip list \<Rightarrow> dial_error option \<Rightarrow> dial_error + ip" where
  "dial_addresses allowPrivate connect [] lastError =
     Inl (case lastError of None \<Rightarrow> NoUsableAddress | Some e \<Rightarrow> e)"
| "dial_addresses allowPrivate connect (candidate # rest) lastError =
     (if \<not> allowPrivate \<and> isForbiddenIP candidate
      then dial_addresses allowPrivate connect rest (Some (DialBlocked candidate))
      else if connect candidate then Inr candidate
      else dial_addresses allowPrivate connect rest (Some (DialFailed candidate)))"

definition DialContext ::
    "bool \<Rightarrow> (string \<Rightarrow> ip list option) \<Rightarrow> (ip \<Rightarrow> bool) \<Rightarrow> string \<Rightarrow> dial_error + ip" where
  "DialContext allowPrivate resolve connect host =
     (case resolve host of
        None \<Rightarrow> Inl LookupFailed
      | Some addresses \<Rightarrow> dial_addresses allowPrivate connect addresses None)"

section \<open>Lemmas\<close>

lemma dial_addresses_safe:
  "dial_addresses allowPrivate connect addrs e = Inr a \<Longrightarrow>
     a \<in> set addrs \<and> connect a \<and> (allowPrivate \<or> \<not> isForbiddenIP a)"
  by (induction addrs arbitrary: e) (auto split: if_splits)

lemma dial_addresses_complete:
  "\<exists>a \<in> set addrs. connect a \<and> (allowPrivate \<or> \<not> isForbiddenIP a) \<Longrightarrow>
     \<exists>a. dial_addresses allowPrivate connect addrs e = Inr a"
  by (induction addrs arbitrary: e) (auto, blast+)

lemma forbiddenNetworks_eval:
  "forbiddenNetworks =
     [\<lparr>net_IP = [0, 0, 0, 0], net_Mask = [255, 0, 0, 0]\<rparr>,
      \<lparr>net_IP = [10, 0, 0, 0], net_Mask = [255, 0, 0, 0]\<rparr>,
      \<lparr>net_IP = [100, 64, 0, 0], net_Mask = [255, 192, 0, 0]\<rparr>,
      \<lparr>net_IP = [127, 0, 0, 0], net_Mask = [255, 0, 0, 0]\<rparr>,
      \<lparr>net_IP = [169, 254, 0, 0], net_Mask = [255, 255, 0, 0]\<rparr>,
      \<lparr>net_IP = [172, 16, 0, 0], net_Mask = [255, 240, 0, 0]\<rparr>,
      \<lparr>net_IP = [192, 0, 0, 0], net_Mask = [255, 255, 255, 0]\<rparr>,
      \<lparr>net_IP = [192, 168, 0, 0], net_Mask = [255, 255, 0, 0]\<rparr>,
      \<lparr>net_IP = [198, 18, 0, 0], net_Mask = [255, 254, 0, 0]\<rparr>,
      \<lparr>net_IP = [198, 51, 100, 0], net_Mask = [255, 255, 255, 0]\<rparr>,
      \<lparr>net_IP = [203, 0, 113, 0], net_Mask = [255, 255, 255, 0]\<rparr>,
      \<lparr>net_IP = [224, 0, 0, 0], net_Mask = [240, 0, 0, 0]\<rparr>,
      \<lparr>net_IP = [240, 0, 0, 0], net_Mask = [240, 0, 0, 0]\<rparr>,
      \<lparr>net_IP = [0, 0, 0, 0, 0, 0, 0, 0, 0, 0, 0, 0, 0, 0, 0, 0],
        net_Mask = [255, 255, 255, 255, 255, 255, 255, 255, 255, 255, 255, 255, 255, 255, 255, 255]\<rparr>,
      \<lparr>net_IP = [0, 0, 0, 0, 0, 0, 0, 0, 0, 0, 0, 0, 0, 0, 0, 1],
        net_Mask = [255, 255, 255, 255, 255, 255, 255, 255, 255, 255, 255, 255, 255, 255, 255, 255]\<rparr>,
      \<lparr>net_IP = [252, 0, 0, 0, 0, 0, 0, 0, 0, 0, 0, 0, 0, 0, 0, 0],
        net_Mask = [254, 0, 0, 0, 0, 0, 0, 0, 0, 0, 0, 0, 0, 0, 0, 0]\<rparr>,
      \<lparr>net_IP = [254, 128, 0, 0, 0, 0, 0, 0, 0, 0, 0, 0, 0, 0, 0, 0],
        net_Mask = [255, 192, 0, 0, 0, 0, 0, 0, 0, 0, 0, 0, 0, 0, 0, 0]\<rparr>,
      \<lparr>net_IP = [255, 0, 0, 0, 0, 0, 0, 0, 0, 0, 0, 0, 0, 0, 0, 0],
        net_Mask = [255, 0, 0, 0, 0, 0, 0, 0, 0, 0, 0, 0, 0, 0, 0, 0]\<rparr>,
      \<lparr>net_IP = [32, 1, 13, 184, 0, 0, 0, 0, 0, 0, 0, 0, 0, 0, 0, 0],
        net_Mask = [255, 255, 255, 255, 0, 0, 0, 0, 0, 0, 0, 0, 0, 0, 0, 0]\<rparr>]"
  by code_simp

lemma and_255 [simp]: "(x :: u8) AND 255 = x" "255 AND (x :: u8) = x"
proof -
  have m: "(255 :: u8) = - 1" by simp
  show "x AND 255 = x" "255 AND x = x" by (simp_all only: m and.right_neutral and.left_neutral)
qed

text \<open>What the list of networks says about an IPv4 address, byte by byte.\<close>

definition forbidden4 :: "u8 \<Rightarrow> u8 \<Rightarrow> u8 \<Rightarrow> bool" where
  "forbidden4 a b c \<longleftrightarrow>
     a = 0 \<or> a = 10 \<or> (a = 100 \<and> b AND 192 = 64) \<or> a = 127 \<or> (a = 169 \<and> b = 254)
     \<or> (a = 172 \<and> b AND 240 = 16) \<or> (a = 192 \<and> b = 0 \<and> c = 0) \<or> (a = 192 \<and> b = 168)
     \<or> (a = 198 \<and> b AND 254 = 18) \<or> (a = 198 \<and> b = 51 \<and> c = 100) \<or> (a = 203 \<and> b = 0 \<and> c = 113)
     \<or> a AND 240 = 224 \<or> a AND 240 = 240"

lemma To4_length: "To4 ip = Some x \<Longrightarrow> length x = 4"
  by (auto simp: To4_def split: if_splits)

lemma net_contains4:
  assumes "To4 ip = Some [a, b, c, d]"
  shows "net_contains \<lparr>net_IP = [n0, n1, n2, n3], net_Mask = [m0, m1, m2, m3]\<rparr> ip \<longleftrightarrow>
    a AND m0 = n0 AND m0 \<and> b AND m1 = n1 AND m1 \<and> c AND m2 = n2 AND m2 \<and> d AND m3 = n3 AND m3"
  using assms by (auto simp: net_contains_def)

lemma net_contains_length:
  "To4 ip = Some x \<Longrightarrow> length (net_IP n) \<noteq> 4 \<Longrightarrow> \<not> net_contains n ip"
  by (auto simp: net_contains_def dest: To4_length)

lemma networks4:
  assumes "To4 ip = Some [a, b, c, d]"
  shows "(\<exists>n \<in> set forbiddenNetworks. net_contains n ip) \<longleftrightarrow> forbidden4 a b c"
  unfolding forbiddenNetworks_eval forbidden4_def
  by (simp add: net_contains4 [OF assms] net_contains_length [OF assms])

lemma list4E:
  assumes "length x = 4" obtains a b c d where "x = [a, b, c, d]"
  using assms by (auto simp: eval_nat_numeral length_Suc_conv)

lemma classes4:
  assumes "To4 ip = Some [a, b, c, d]"
  shows "IsUnspecified ip \<or> IsLoopback ip \<or> IsPrivate ip \<or> IsMulticast ip
    \<or> IsLinkLocalUnicast ip \<or> IsLinkLocalMulticast ip \<Longrightarrow> forbidden4 a b c"
proof -
  have "To4 unspecified6 = None"
    by (simp add: To4_def unspecified6_def)
  with assms have "ip \<noteq> unspecified6" by auto
  moreover have "(224 :: u8) AND 240 = 224" by simp
  ultimately show "IsUnspecified ip \<or> IsLoopback ip \<or> IsPrivate ip \<or> IsMulticast ip
    \<or> IsLinkLocalUnicast ip \<or> IsLinkLocalMulticast ip \<Longrightarrow> forbidden4 a b c"
    using assms
    by (auto simp: IsUnspecified_def IsLoopback_def IsPrivate_def IsMulticast_def
        IsLinkLocalUnicast_def IsLinkLocalMulticast_def forbidden4_def)
qed

text \<open>For an IPv4 address, mapped or not, the decision is the table of networks.\<close>

lemma isForbiddenIP4:
  assumes "To4 ip = Some [a, b, c, d]"
  shows "isForbiddenIP ip \<longleftrightarrow> forbidden4 a b c"
proof -
  have "ip \<noteq> []" using assms by (auto simp: To4_def)
  then show ?thesis
    using classes4 [OF assms] networks4 [OF assms] by (auto simp: isForbiddenIP_def)
qed

text \<open>The IPv6 side: the first bytes decide, but for the two single addresses.\<close>

definition forbidden6 :: "ip \<Rightarrow> bool" where
  "forbidden6 x \<longleftrightarrow>
     x = unspecified6 \<or> x = loopback6 \<or> x ! 0 AND 254 = 252 \<or> (x ! 0 = 254 \<and> x ! 1 AND 192 = 128)
     \<or> x ! 0 = 255 \<or> (x ! 0 = 32 \<and> x ! 1 = 1 \<and> x ! 2 = 13 \<and> x ! 3 = 184)"

lemma list16E:
  assumes "length x = 16"
  obtains a0 a1 a2 a3 a4 a5 a6 a7 a8 a9 a10 a11 a12 a13 a14 a15
  where "x = [a0, a1, a2, a3, a4, a5, a6, a7, a8, a9, a10, a11, a12, a13, a14, a15]"
  using assms by (auto simp: eval_nat_numeral length_Suc_conv)

lemma net_contains6:
  "To4 ip = None \<Longrightarrow> net_contains \<lparr>net_IP = ns, net_Mask = ms\<rparr> ip \<longleftrightarrow>
     length ip = length ns \<and> map2 (AND) ip ms = map2 (AND) ns ms"
  by (auto simp: net_contains_def)

lemma isForbiddenIP6:
  assumes "To4 ip = None" and "length ip = 16"
  shows "isForbiddenIP ip \<longleftrightarrow> forbidden6 ip"
proof -
  obtain a0 a1 a2 a3 a4 a5 a6 a7 a8 a9 a10 a11 a12 a13 a14 a15
    where ip: "ip = [a0, a1, a2, a3, a4, a5, a6, a7, a8, a9, a10, a11, a12, a13, a14, a15]"
    using assms(2) by (rule list16E)
  have lit: "unspecified6 = [0, 0, 0, 0, 0, 0, 0, 0, 0, 0, 0, 0, 0, 0, 0, 0]"
    "loopback6 = [0, 0, 0, 0, 0, 0, 0, 0, 0, 0, 0, 0, 0, 0, 0, 1]"
    by (simp_all add: unspecified6_def loopback6_def eval_nat_numeral)
  have nets: "(\<exists>n \<in> set forbiddenNetworks. net_contains n ip) \<longleftrightarrow> forbidden6 ip"
    unfolding forbiddenNetworks_eval forbidden6_def lit
    by (simp add: net_contains6 [OF assms(1) [unfolded ip]] ip)
  have "IsUnspecified ip \<or> IsLoopback ip \<or> IsPrivate ip \<or> IsMulticast ip
    \<or> IsLinkLocalUnicast ip \<or> IsLinkLocalMulticast ip \<Longrightarrow> forbidden6 ip"
    using assms by (auto simp: IsUnspecified_def IsLoopback_def IsPrivate_def IsMulticast_def
        IsLinkLocalUnicast_def IsLinkLocalMulticast_def forbidden6_def)
  with nets show ?thesis by (auto simp: isForbiddenIP_def ip)
qed

end
