(* ===== verification/Gateway_Http.thy ===== *)
theory Gateway_Http
  imports Go_Json "HOL-Library.AList"
begin

text \<open>
  HTTP plumbing of \<open>internal/platform/gateway.go\<close>: header maps and their filtering,
  the response writer, the two error envelopes, request identifiers, credentials and the
  upstream request. A header map is an association list with distinct canonical keys.
\<close>

section \<open>Package net/http: header maps\<close>

type_synonym headers = "(string \<times> string list) list"

definition token_char :: "char \<Rightarrow> bool" where
  "token_char c \<longleftrightarrow> is_upper c \<or> is_lower c \<or> is_digit c \<or> c \<in> set ''!#$%&*+-.^_`|~'' \<or> byte c = 39"

fun canonical_from :: "bool \<Rightarrow> string \<Rightarrow> string" where
  "canonical_from up [] = []"
| "canonical_from up (c # s) = (if up then upper_char c else lower_char c) # canonical_from (c = CHR ''-'') s"

definition canonical_key :: "string \<Rightarrow> string" where
  "canonical_key k = (if list_all token_char k then canonical_from True k else k)"

definition header_get :: "headers \<Rightarrow> string \<Rightarrow> string" where
  "header_get h k = (case lookup h (canonical_key k) of Some (v # _) \<Rightarrow> v | _ \<Rightarrow> [])"

definition header_set :: "string \<Rightarrow> string \<Rightarrow> headers \<Rightarrow> headers" where
  "header_set k v h = AList.update (canonical_key k) [v] h"

definition header_add :: "string \<Rightarrow> string \<Rightarrow> headers \<Rightarrow> headers" where
  "header_add k v h =
     AList.update (canonical_key k)
       ((case lookup h (canonical_key k) of Some vs \<Rightarrow> vs | None \<Rightarrow> []) @ [v]) h"

definition header_del :: "string \<Rightarrow> headers \<Rightarrow> headers" where
  "header_del k h = AList.delete (canonical_key k) h"

section \<open>Header filtering\<close>

definition isHopByHopHeader :: "string \<Rightarrow> bool" where
  "isHopByHopHeader key \<longleftrightarrow>
     to_lower key \<in> {''connection'', ''proxy-connection'', ''keep-alive'', ''proxy-authenticate'',
       ''proxy-authorization'', ''te'', ''trailer'', ''transfer-encoding'', ''upgrade''}"

definition add_all :: "string \<Rightarrow> string list \<Rightarrow> headers \<Rightarrow> headers" where
  "add_all key vals h = foldl (\<lambda>h v. header_add key v h) h vals"

definition copyRequestHeaders :: "headers \<Rightarrow> headers \<Rightarrow> headers" where
  "copyRequestHeaders destination source =
     foldl (\<lambda>h (key, vals).
        if isHopByHopHeader key \<or> equal_fold key ''Content-Length'' then h else add_all key vals h)
       destination source"

definition copyResponseHeaders :: "headers \<Rightarrow> headers \<Rightarrow> headers" where
  "copyResponseHeaders destination source =
     foldl (\<lambda>h (key, vals).
        if isHopByHopHeader key \<or> equal_fold key ''Content-Length'' \<or> equal_fold key ''Set-Cookie''
           \<or> equal_fold key ''Server'' \<or> equal_fold key ''Alt-Svc''
        then h else add_all key vals h)
       destination source"

section \<open>The response writer\<close>

text \<open>
  \<open>rw_sent\<close> holds the status and headers once they are on the wire (\<open>WriteHeader\<close> acts
  once; a write sends an implicit 200), \<open>rw_body\<close> the body bytes the client received.
  \<open>rw_room\<close> is the number of bytes the client still takes before its connection fails;
  \<open>None\<close> is a client that stays.
\<close>

record response_writer =
  rw_headers :: headers
  rw_sent :: "(int \<times> headers) option"
  rw_body :: string
  rw_room :: "nat option"

definition fresh_writer :: "nat option \<Rightarrow> response_writer" where
  "fresh_writer room = \<lparr>rw_headers = [], rw_sent = None, rw_body = [], rw_room = room\<rparr>"

definition write_header :: "int \<Rightarrow> response_writer \<Rightarrow> response_writer" where
  "write_header status w =
     (case rw_sent w of None \<Rightarrow> w\<lparr>rw_sent := Some (status, rw_headers w)\<rparr> | Some _ \<Rightarrow> w)"

text \<open>\<open>io.WriteString\<close>: the writer, the count written, and whether it succeeded.\<close>

definition write_string :: "string \<Rightarrow> response_writer \<Rightarrow> response_writer \<times> nat \<times> bool" where
  "write_string s w0 =
     (let w = write_header 200 w0 in
      case rw_room w of
        None \<Rightarrow> (w\<lparr>rw_body := rw_body w @ s\<rparr>, length s, True)
      | Some r \<Rightarrow>
        (let n = min r (length s) in
         (w\<lparr>rw_body := rw_body w @ take n s, rw_room := Some (r - n)\<rparr>, n, length s \<le> r)))"

definition set_header :: "string \<Rightarrow> string \<Rightarrow> response_writer \<Rightarrow> response_writer" where
  "set_header k v w = w\<lparr>rw_headers := header_set k v (rw_headers w)\<rparr>"

section \<open>JSON output\<close>

definition hex_char :: "nat \<Rightarrow> char" where
  "hex_char n = char_of (if n < 10 then 48 + n else 87 + n)"

definition u_escape :: "nat \<Rightarrow> string" where
  "u_escape r = [CHR 0x5C, CHR ''u'', hex_char (r div 4096 mod 16), hex_char (r div 256 mod 16),
     hex_char (r div 16 mod 16), hex_char (r mod 16)]"

text \<open>The escape of the first rune of a string by \<open>json.Encoder\<close>, and the rune's width.\<close>

definition quote_rune :: "string \<Rightarrow> string \<times> nat" where
  "quote_rune s =
     (case decode_rune s of
        (None, _) \<Rightarrow> (u_escape 65533, 1)
      | (Some r, n) \<Rightarrow>
        if r = 34 \<or> r = 92 then ([CHR 0x5C, char_of r], n)
        else if r = 8 then ([CHR 0x5C, CHR ''b''], n)
        else if r = 12 then ([CHR 0x5C, CHR ''f''], n)
        else if r = 10 then ([CHR 0x5C, CHR ''n''], n)
        else if r = 13 then ([CHR 0x5C, CHR ''r''], n)
        else if r = 9 then ([CHR 0x5C, CHR ''t''], n)
        else if r < 32 \<or> r = 60 \<or> r = 62 \<or> r = 38 \<or> r = 8232 \<or> r = 8233 then (u_escape r, n)
        else (take n s, n))"

lemma quote_rune_width: "s \<noteq> [] \<Longrightarrow> 0 < snd (quote_rune s)"
  using decode_rune_width [of s]
  by (auto simp: quote_rune_def split: prod.splits option.splits)

function quote_body :: "string \<Rightarrow> string" where
  "quote_body s = (if s = [] then [] else
     fst (quote_rune s) @ quote_body (drop (snd (quote_rune s)) s))"
  by pat_completeness auto
termination
  by (relation "measure length") (auto simp: quote_rune_width)

declare quote_body.simps [simp del]

definition json_quote :: "string \<Rightarrow> string" where
  "json_quote s = [CHR 0x22] @ quote_body s @ [CHR 0x22]"

text \<open>One object member; keys of the program's own bodies need no escape.\<close>

definition member :: "string \<Rightarrow> string \<Rightarrow> string" where
  "member k v = [CHR 0x22] @ k @ [CHR 0x22, CHR '':''] @ v"

definition object :: "string list \<Rightarrow> string" where
  "object ms = ''{'' @ join '','' ms @ ''}''"

section \<open>Error envelopes\<close>

definition risk_error_body :: "string \<Rightarrow> string \<Rightarrow> string \<Rightarrow> string" where
  "risk_error_body requestID riskCode message =
     object [member ''error'' (object
       [member ''code'' ''555'', member ''message'' (json_quote message),
        member ''request_id'' (json_quote requestID), member ''risk_code'' (json_quote riskCode),
        member ''type'' (json_quote ''risk_control_error'')])] @ [CHR 0x0A]"

definition writeRiskError ::
    "response_writer \<Rightarrow> int \<Rightarrow> string \<Rightarrow> string \<Rightarrow> string \<Rightarrow> response_writer" where
  "writeRiskError w status requestID riskCode message =
     (let w1 = set_header ''Content-Type'' ''application/json; charset=utf-8'' w;
          w2 = set_header ''Cache-Control'' ''no-store'' w1;
          w3 = set_header ''X-Risk-Request-ID'' requestID w2;
          w4 = set_header ''X-Oneapi-Request-Id'' requestID w3;
          w5 = set_header ''X-Risk-Error-Code'' ''555'' w4
      in fst (write_string (risk_error_body requestID riskCode message) (write_header status w5)))"

definition gateway_error_body :: "string \<Rightarrow> string \<Rightarrow> string \<Rightarrow> string" where
  "gateway_error_body requestID code message =
     object [member ''error'' (object
       [member ''code'' (json_quote code), member ''message'' (json_quote message),
        member ''request_id'' (json_quote requestID), member ''type'' (json_quote ''gateway_error'')])]
     @ [CHR 0x0A]"

definition writeGatewayError ::
    "response_writer \<Rightarrow> int \<Rightarrow> string \<Rightarrow> string \<Rightarrow> string \<Rightarrow> response_writer" where
  "writeGatewayError w status requestID code message =
     (let w1 = set_header ''Content-Type'' ''application/json; charset=utf-8'' w;
          w2 = set_header ''Cache-Control'' ''no-store'' w1;
          w3 = set_header ''X-Risk-Request-ID'' requestID w2;
          w4 = set_header ''X-Oneapi-Request-Id'' requestID w3
      in fst (write_string (gateway_error_body requestID code message) (write_header status w4)))"

section \<open>Identifiers and credentials\<close>

definition request_id_char :: "char \<Rightarrow> bool" where
  "request_id_char c \<longleftrightarrow> is_upper c \<or> is_lower c \<or> is_digit c \<or> c \<in> set ''._:-''"

text \<open>\<open>requestIDPattern\<close> is a non-empty run of these characters.\<close>

definition normalizeRequestID :: "string \<Rightarrow> string" where
  "normalizeRequestID value =
     (let v = trim_space value in
      if v = [] \<or> length v > 128 \<or> \<not> list_all request_id_char v then [] else v)"

definition normalizeIdentifier :: "string \<Rightarrow> string" where
  "normalizeIdentifier value = truncateString (trim_space value) 200"

definition bearerToken :: "string \<Rightarrow> string" where
  "bearerToken header =
     (let h = trim_space header in
      if length h < 7 \<or> \<not> equal_fold (take 7 h) ''bearer '' then [] else trim_space (drop 7 h))"

text \<open>\<open>net.SplitHostPort\<close>: the host, or \<open>None\<close> for an address it rejects.\<close>

fun last_index :: "char \<Rightarrow> string \<Rightarrow> nat option" where
  "last_index b [] = None"
| "last_index b (c # s) =
     (case last_index b s of Some i \<Rightarrow> Some (Suc i) | None \<Rightarrow> if c = b then Some 0 else None)"

definition split_host :: "string \<Rightarrow> string option" where
  "split_host hp =
     (case last_index CHR '':'' hp of
        None \<Rightarrow> None
      | Some i \<Rightarrow>
        if is_prefix ''['' hp then
          (case find_index '']'' hp of
             None \<Rightarrow> None
           | Some e \<Rightarrow>
             if e + 1 = i then
               (let host = take (e - 1) (drop 1 hp) in
                if contains (drop 1 hp) ''['' \<or> contains (drop (e + 1) hp) '']'' then None else Some host)
             else None)
        else
          (let host = take i hp in
           if contains host '':'' \<or> contains hp ''['' \<or> contains hp '']'' then None else Some host))"

definition remoteIP :: "string \<Rightarrow> string" where
  "remoteIP remoteAddr = (case split_host remoteAddr of Some host \<Rightarrow> host | None \<Rightarrow> remoteAddr)"

definition joinURLPath :: "string \<Rightarrow> string \<Rightarrow> string" where
  "joinURLPath basePath requestPath =
     (let b = (if basePath = [] then ''/'' else basePath) in
      trim_right_byte CHR ''/'' b @ ''/'' @ trim_left_byte CHR ''/'' requestPath)"

section \<open>Error envelopes of the upstream\<close>

definition error_member :: "(string \<times> json) list \<Rightarrow> bool" where
  "error_member payload \<longleftrightarrow>
     (case lookup payload ''error'' of None \<Rightarrow> False | Some v \<Rightarrow> v \<noteq> JNull)"

definition object_is_error_envelope :: "(string \<times> json) list \<Rightarrow> bool" where
  "object_is_error_envelope payload \<longleftrightarrow>
     error_member payload
     \<or> equal_fold (json_str (lookup payload ''type'')) ''error''
     \<or> is_suffix ''_error'' (to_lower (json_str (lookup payload ''type'')))
     \<or> (lookup payload ''success'' = Some (JBool False) \<and> lookup payload ''message'' \<noteq> None)"

definition responseContainsErrorEnvelope :: "string \<Rightarrow> bool" where
  "responseContainsErrorEnvelope body =
     (let trimmed = trim_space body in
      if trimmed = [] \<or> \<not> is_prefix ''{'' trimmed then False
      else (case json_object trimmed of None \<Rightarrow> False | Some payload \<Rightarrow> object_is_error_envelope payload))"

section \<open>Query strings (net/url)\<close>

fun query_unescape :: "string \<Rightarrow> string option" where
  "query_unescape [] = Some []"
| "query_unescape (c # s) =
     (if c = CHR ''%'' then
        (case s of a # b # t \<Rightarrow>
           (case (hex_digit a, hex_digit b) of
              (Some x, Some y) \<Rightarrow> map_option (\<lambda>r. char_of (16 * x + y) # r) (query_unescape t)
            | _ \<Rightarrow> None)
         | _ \<Rightarrow> None)
      else if c = CHR ''+'' then map_option (\<lambda>r. CHR '' '' # r) (query_unescape s)
      else map_option (\<lambda>r. c # r) (query_unescape s))"

definition cut_byte :: "char \<Rightarrow> string \<Rightarrow> string \<times> string" where
  "cut_byte b s = (takeWhile (\<lambda>c. c \<noteq> b) s, drop 1 (dropWhile (\<lambda>c. c \<noteq> b) s))"

text \<open>\<open>ParseQuery\<close> keeps the pairs it can read; \<open>URL.Query\<close> drops its error.\<close>

definition parse_pair :: "string \<Rightarrow> (string \<times> string) option" where
  "parse_pair piece =
     (if piece = [] \<or> contains piece '';'' then None
      else (case cut_byte CHR ''='' piece of (k, v) \<Rightarrow>
              (case (query_unescape k, query_unescape v) of
                 (Some k', Some v') \<Rightarrow> Some (k', v') | _ \<Rightarrow> None)))"

definition parse_query :: "string \<Rightarrow> (string \<times> string) list" where
  "parse_query q = List.map_filter parse_pair (split_byte CHR ''&'' q)"

definition unreserved :: "char \<Rightarrow> bool" where
  "unreserved c \<longleftrightarrow> is_upper c \<or> is_lower c \<or> is_digit c \<or> c \<in> set ''-_.~''"

definition upper_hex :: "nat \<Rightarrow> char" where
  "upper_hex n = char_of (if n < 10 then 48 + n else 55 + n)"

definition query_escape :: "string \<Rightarrow> string" where
  "query_escape s = concat (map (\<lambda>c.
     if unreserved c then [c] else if c = CHR '' '' then ''+''
     else [CHR ''%'', upper_hex (byte c div 16), upper_hex (byte c mod 16)]) s)"

fun str_less_eq :: "string \<Rightarrow> string \<Rightarrow> bool" where
  "str_less_eq [] t = True"
| "str_less_eq (c # s) [] = False"
| "str_less_eq (c # s) (d # t) = (if byte c = byte d then str_less_eq s t else byte c < byte d)"

fun insert_key :: "string \<Rightarrow> string list \<Rightarrow> string list" where
  "insert_key k [] = [k]"
| "insert_key k (x # xs) = (if str_less_eq k x then k # x # xs else x # insert_key k xs)"

text \<open>\<open>Values.Encode\<close>: keys in order, the values of a key in their own order.\<close>

definition encode_query :: "(string \<times> string) list \<Rightarrow> string" where
  "encode_query ps =
     (let keys = foldr insert_key (remdups (map fst ps)) [] in
      join ''&'' (concat (map (\<lambda>k. map (\<lambda>p. query_escape k @ ''='' @ query_escape (snd p))
                                       (filter (\<lambda>p. fst p = k) ps)) keys)))"

text \<open>\<open>Values.Set\<close> replaces every value of the key.\<close>

definition set_query :: "string \<Rightarrow> string \<Rightarrow> string \<Rightarrow> string" where
  "set_query k v q = encode_query (filter (\<lambda>p. fst p \<noteq> k) (parse_query q) @ [(k, v)])"

section \<open>Routes and requests\<close>

record Route =
  rt_ID :: int
  rt_Slug :: string
  rt_Name :: string
  rt_BaseURL :: string
  rt_Provider :: string
  rt_AuthMode :: string
  rt_SecretHeader :: string
  rt_AuditProfileID :: "int option"
  rt_Enabled :: bool
  rt_FailClosed :: bool
  rt_RequestTimeoutMS :: int
  rt_MaxConcurrency :: int
  rt_RateLimitRPS :: rat
  rt_RateLimitBurst :: int
  rt_UpstreamSecretCiphertext :: string
  rt_InboundKeyDigest :: string

record url =
  u_Scheme :: string
  u_Host :: string
  u_Path :: string
  u_RawQuery :: string

text \<open>
  An inbound request: \<open>rq_Route\<close> and \<open>rq_Wildcard\<close> are the router's URL parameters,
  \<open>rq_ContentLength\<close> is -1 when unknown, and \<open>rq_BodyError\<close> a read error met after the
  bytes of \<open>rq_Body\<close>.
\<close>

record http_request =
  rq_Method :: string
  rq_RawQuery :: string
  rq_Headers :: headers
  rq_RemoteAddr :: string
  rq_Route :: string
  rq_Wildcard :: string
  rq_ContentLength :: int
  rq_Body :: string
  rq_BodyError :: "string option"

record upstream_request =
  up_Method :: string
  up_URL :: url
  up_Headers :: headers
  up_Body :: string

section \<open>The upstream request\<close>

definition stripped_headers :: "string list" where
  "stripped_headers =
     [''Authorization'', ''X-API-Key'', ''X-Goog-Api-Key'', ''Api-Key'', ''X-Risk-Gateway-Key'',
      ''X-NewAPI-User-ID'', ''X-User-ID'', ''Cookie'', ''Forwarded'', ''X-Forwarded-For'',
      ''X-Forwarded-Host'', ''X-Forwarded-Proto'', ''Accept-Encoding'']"

text \<open>The headers before credentials are added: filtered, stripped and tagged.\<close>

definition base_headers :: "http_request \<Rightarrow> string \<Rightarrow> headers" where
  "base_headers inbound requestID =
     (let copied = copyRequestHeaders [] (rq_Headers inbound);
          stripped = foldl (\<lambda>h k. header_del k h) copied stripped_headers;
          tagged = header_set ''X-Risk-Request-ID'' requestID stripped
      in if header_get (rq_Headers inbound) ''X-Request-ID'' = []
         then header_set ''X-Request-ID'' requestID tagged else tagged)"

datatype build_error =
  BadBaseURL | BadRequest | DecryptFailed | PassthroughNeedsHeaders | SecretHeaderRequired
  | UnsupportedAuthMode string

definition add_credentials ::
    "Route \<Rightarrow> http_request \<Rightarrow> string \<Rightarrow> upstream_request \<Rightarrow> build_error + upstream_request" where
  "add_credentials route inbound secret request =
     (let mode = to_lower (rt_AuthMode route); h = up_Headers request;
          inboundAuthorization = header_get (copyRequestHeaders [] (rq_Headers inbound)) ''Authorization''
      in if mode = [] \<or> mode = ''none'' then
           Inr (request\<lparr>up_Headers := header_del ''Authorization'' h\<rparr>)
         else if mode = ''passthrough'' then
           (if header_get (rq_Headers inbound) ''X-Risk-Gateway-Key'' = [] \<or> inboundAuthorization = []
            then Inl PassthroughNeedsHeaders
            else Inr (request\<lparr>up_Headers := header_set ''Authorization'' inboundAuthorization h\<rparr>))
         else if mode = ''bearer'' then
           Inr (request\<lparr>up_Headers := header_set ''Authorization'' (''Bearer '' @ secret) h\<rparr>)
         else if mode = ''anthropic'' then
           (let h1 = header_set ''X-API-Key'' secret (header_del ''Authorization'' h) in
            Inr (request\<lparr>up_Headers :=
              (if header_get h1 ''Anthropic-Version'' = []
               then header_set ''Anthropic-Version'' ''2023-06-01'' h1 else h1)\<rparr>))
         else if mode = ''gemini'' then
           Inr (request\<lparr>up_Headers :=
             header_set ''X-Goog-Api-Key'' secret (header_del ''Authorization'' h)\<rparr>)
         else if mode = ''header'' then
           (if rt_SecretHeader route = [] then Inl SecretHeaderRequired
            else Inr (request\<lparr>up_Headers := header_set (rt_SecretHeader route) secret h\<rparr>))
         else if mode = ''query'' then
           (let parameter = (if rt_SecretHeader route = [] then ''key'' else rt_SecretHeader route);
                u = up_URL request
            in Inr (request\<lparr>up_URL := u\<lparr>u_RawQuery := set_query parameter secret (u_RawQuery u)\<rparr>\<rparr>))
         else Inl (UnsupportedAuthMode (rt_AuthMode route)))"

text \<open>
  \<open>parse\<close> is \<open>url.Parse\<close>; \<open>new_request\<close> is the check of \<open>http.NewRequest\<close> on the method and
  the rendered URL; \<open>decrypt\<close> is \<open>Security.Decrypt\<close>, \<open>None\<close> on error.
\<close>

definition buildUpstreamRequest ::
    "(string \<Rightarrow> url option) \<Rightarrow> (string \<Rightarrow> url \<Rightarrow> bool) \<Rightarrow> (string \<Rightarrow> string \<Rightarrow> string option) \<Rightarrow>
     http_request \<Rightarrow> Route \<Rightarrow> string \<Rightarrow> string \<Rightarrow> build_error + upstream_request" where
  "buildUpstreamRequest parse new_request decrypt inbound route body requestID =
     (case parse (rt_BaseURL route) of
        None \<Rightarrow> Inl BadBaseURL
      | Some base0 \<Rightarrow>
        (let wildcard = (if rq_Wildcard inbound = [] then ''/'' else rq_Wildcard inbound);
             base = base0\<lparr>u_Path := joinURLPath (u_Path base0) wildcard,
                          u_RawQuery := rq_RawQuery inbound\<rparr>
         in if \<not> new_request (rq_Method inbound) base then Inl BadRequest
            else (case decrypt ''route-upstream-secret-v1'' (rt_UpstreamSecretCiphertext route) of
                    None \<Rightarrow> Inl DecryptFailed
                  | Some secret \<Rightarrow>
                      add_credentials route inbound secret
                        \<lparr>up_Method = rq_Method inbound, up_URL = base,
                         up_Headers = base_headers inbound requestID, up_Body = body\<rparr>)))"

section \<open>Lemmas on header maps\<close>

lemma header_get_set [simp]:
  "header_get (header_set k v h) j = (if canonical_key j = canonical_key k then v else header_get h j)"
  by (simp add: header_get_def header_set_def update_conv')

lemma header_get_del [simp]:
  "header_get (header_del k h) j = (if canonical_key j = canonical_key k then [] else header_get h j)"
  by (simp add: header_get_def header_del_def delete_conv')

lemma lookup_header_set:
  "lookup (header_set k v h) j = (if j = canonical_key k then Some [v] else lookup h j)"
  by (simp add: header_set_def update_conv')

lemma lookup_header_del:
  "lookup (header_del k h) j = (if j = canonical_key k then None else lookup h j)"
  by (simp add: header_del_def delete_conv')

lemma lookup_header_add:
  "lookup (header_add k v h) j =
    (if j = canonical_key k then Some ((case lookup h j of Some vs \<Rightarrow> vs | None \<Rightarrow> []) @ [v]) else lookup h j)"
  by (simp add: header_add_def update_conv')

lemma lookup_add_all:
  "j \<noteq> canonical_key k \<Longrightarrow> lookup (add_all k vs h) j = lookup h j"
  unfolding add_all_def by (induction vs arbitrary: h) (simp_all add: lookup_header_add)

lemma lookup_fold_del:
  "lookup (foldl (\<lambda>h k. header_del k h) h ks) j
     = (if j \<in> canonical_key ` set ks then None else lookup h j)"
  by (induction ks arbitrary: h) (auto simp: lookup_header_del)

section \<open>What reaches the upstream\<close>

lemma token_char_ascii: "token_char c \<Longrightarrow> byte c < (128::nat)"
  by (auto simp: token_char_def is_upper_def is_lower_def is_digit_def)

lemma lower_char_idem:
  "lower_char (lower_char c) = lower_char c" "lower_char (upper_char c) = lower_char c"
  by (auto simp: lower_char_def upper_char_def is_upper_def is_lower_def)

lemma lower_char_ascii: "byte c < (128::nat) \<Longrightarrow> byte (lower_char c) < (128::nat)"
  by (auto simp: lower_char_def is_upper_def)

lemma upper_char_ascii: "byte c < (128::nat) \<Longrightarrow> byte (upper_char c) < (128::nat)"
  by (auto simp: upper_char_def is_lower_def)

lemma to_lower_ascii: "list_all (\<lambda>c. byte c < (128::nat)) s \<Longrightarrow> to_lower s = map lower_char s"
  by (induction s) auto

lemma canonical_from_ascii:
  "list_all (\<lambda>c. byte c < (128::nat)) s \<Longrightarrow> list_all (\<lambda>c. byte c < (128::nat)) (canonical_from up s)"
  by (induction s arbitrary: up) (auto simp: lower_char_ascii upper_char_ascii)

lemma map_lower_canonical: "map lower_char (canonical_from up s) = map lower_char s"
  by (induction s arbitrary: up) (auto simp: lower_char_idem)

lemma to_lower_canonical: "to_lower (canonical_key k) = to_lower k"
proof (cases "list_all token_char k")
  case True
  then have a: "list_all (\<lambda>c. byte c < (128::nat)) k"
    by (simp add: list_all_iff token_char_ascii)
  with True show ?thesis
    by (simp add: canonical_key_def to_lower_ascii canonical_from_ascii map_lower_canonical)
next
  case False
  then show ?thesis by (simp add: canonical_key_def)
qed

lemma hop_by_hop_canonical: "isHopByHopHeader (canonical_key k) = isHopByHopHeader k"
  by (simp add: isHopByHopHeader_def to_lower_canonical)

lemma copy_no_hop_by_hop:
  assumes "isHopByHopHeader j"
  shows "lookup (copyRequestHeaders h source) j = lookup h j"
proof -
  have "j \<noteq> canonical_key k" if "\<not> isHopByHopHeader k" for k
    using that assms hop_by_hop_canonical by metis
  then show ?thesis
    unfolding copyRequestHeaders_def
    by (induction source arbitrary: h) (auto simp: lookup_add_all)
qed

lemma base_headers_lookup:
  "lookup (base_headers inbound requestID) j =
    (if j = canonical_key ''X-Request-ID'' \<and> header_get (rq_Headers inbound) ''X-Request-ID'' = []
     then Some [requestID]
     else if j = canonical_key ''X-Risk-Request-ID'' then Some [requestID]
     else if j \<in> canonical_key ` set stripped_headers then None
     else lookup (copyRequestHeaders [] (rq_Headers inbound)) j)"
  by (simp add: base_headers_def Let_def lookup_header_set lookup_fold_del)

lemma tag_keys:
  "canonical_key ''X-Request-ID'' = ''X-Request-Id''"
  "canonical_key ''X-Risk-Request-ID'' = ''X-Risk-Request-Id''"
  by code_simp+

lemma stripped_keys:
  "canonical_key ` set stripped_headers =
    {''Authorization'', ''X-Api-Key'', ''X-Goog-Api-Key'', ''Api-Key'', ''X-Risk-Gateway-Key'',
     ''X-Newapi-User-Id'', ''X-User-Id'', ''Cookie'', ''Forwarded'', ''X-Forwarded-For'',
     ''X-Forwarded-Host'', ''X-Forwarded-Proto'', ''Accept-Encoding''}"
proof -
  have m: "map canonical_key stripped_headers =
    [''Authorization'', ''X-Api-Key'', ''X-Goog-Api-Key'', ''Api-Key'', ''X-Risk-Gateway-Key'',
     ''X-Newapi-User-Id'', ''X-User-Id'', ''Cookie'', ''Forwarded'', ''X-Forwarded-For'',
     ''X-Forwarded-Host'', ''X-Forwarded-Proto'', ''Accept-Encoding'']"
    by code_simp
  show ?thesis by (simp only: set_map [symmetric] m list.set)
qed

lemma base_headers_stripped:
  "j \<in> canonical_key ` set stripped_headers \<Longrightarrow> lookup (base_headers inbound requestID) j = None"
  unfolding base_headers_lookup stripped_keys tag_keys by auto

lemma base_headers_no_hop_by_hop:
  assumes "isHopByHopHeader j"
  shows "lookup (base_headers inbound requestID) j = None"
proof -
  have "\<not> isHopByHopHeader ''X-Request-Id''" "\<not> isHopByHopHeader ''X-Risk-Request-Id''"
    by code_simp+
  with assms have "j \<noteq> ''X-Request-Id''" "j \<noteq> ''X-Risk-Request-Id''" by auto
  with assms show ?thesis
    by (simp add: base_headers_lookup tag_keys copy_no_hop_by_hop)
qed

text \<open>
  Credentials only ever add the route's secret, except in passthrough mode, where the one
  inbound \<open>Authorization\<close> value is put back.
\<close>

lemma add_credentials_lookup:
  assumes "add_credentials route inbound secret request = Inr up"
  shows "lookup (up_Headers up) j = lookup (up_Headers request) j
    \<or> lookup (up_Headers up) j \<in> {None, Some [secret], Some [''Bearer '' @ secret]}
    \<or> (j = ''Anthropic-Version'' \<and> lookup (up_Headers up) j = Some [''2023-06-01''])
    \<or> (j = ''Authorization'' \<and> to_lower (rt_AuthMode route) = ''passthrough''
       \<and> header_get (rq_Headers inbound) ''X-Risk-Gateway-Key'' \<noteq> [])"
proof -
  have "canonical_key ''Anthropic-Version'' = ''Anthropic-Version''"
    and "canonical_key ''Authorization'' = ''Authorization''"
    by code_simp+
  with assms show ?thesis
    by (auto simp: add_credentials_def Let_def lookup_header_set lookup_header_del split: if_splits)
qed

end
