(* ===== verification/Stream_Proxy.thy ===== *)
theory Stream_Proxy
  imports Gateway_Http Token_Usage
begin

text \<open>
  Relaying the upstream response (\<open>proxySSE\<close>, \<open>proxyBuffered\<close> and the SSE helpers of
  \<open>internal/platform/gateway.go\<close>). The select loops of \<open>proxySSE\<close> become a state machine:
  an input says which channel fired, in any interleaving, and a step is one iteration.
  The client is the \<open>response_writer\<close>; it may fail at any byte.
\<close>

section \<open>SSE events\<close>

definition adaptiveProviderErrorLimit :: nat where
  "adaptiveProviderErrorLimit = 8192"

definition isMeaningfulSSEEvent :: "string list \<Rightarrow> bool" where
  "isMeaningfulSSEEvent lines \<longleftrightarrow>
     (\<exists>line \<in> set lines. is_prefix ''data:'' (trim_space line) \<or> is_prefix ''event:'' (trim_space line))"

definition sseEventSize :: "string list \<Rightarrow> int" where
  "sseEventSize lines = (\<Sum>line \<leftarrow> lines. int (length line) + 1)"

definition sseEventEvidence :: "string list \<Rightarrow> string" where
  "sseEventEvidence lines =
     (let text = join [CHR 0x0A] lines in
      if length text > adaptiveProviderErrorLimit then take adaptiveProviderErrorLimit text else text)"

definition data_is_error :: "string \<Rightarrow> bool" where
  "data_is_error data \<longleftrightarrow>
     (if data = [] \<or> data = ''[DONE]'' then False
      else (case json_object data of
              None \<Rightarrow> False
            | Some payload \<Rightarrow>
                error_member payload \<or> equal_fold (json_str (lookup payload ''type'')) ''error''))"

definition isSSEErrorEvent :: "string list \<Rightarrow> bool" where
  "isSSEErrorEvent lines \<longleftrightarrow>
     (\<exists>line \<in> set lines.
        (let trimmed = trim_space line in
         equal_fold trimmed ''event: error''
         \<or> (is_prefix ''data:'' trimmed \<and> data_is_error (trim_space (trim_prefix trimmed ''data:'')))))"

text \<open>
  \<open>nextSSEEvent\<close> on the lines the scanner still has; \<open>err\<close> is the scanner's error after
  them. The result is the event, the \<open>ok\<close> flag or the error, and the lines left.
\<close>

datatype sse_read = SseEvent "string list" | SseEnd | SseError string

fun nextSSEEvent :: "string list \<Rightarrow> string list \<Rightarrow> string option \<Rightarrow> sse_read \<times> string list" where
  "nextSSEEvent acc [] err =
     (case err of Some e \<Rightarrow> (SseError e, [])
      | None \<Rightarrow> if acc \<noteq> [] then (SseEvent (acc @ [[]]), []) else (SseEnd, []))"
| "nextSSEEvent acc (line # rest) err =
     (if line = [] then (SseEvent (acc @ [line]), rest) else nextSSEEvent (acc @ [line]) rest err)"

text \<open>The reading goroutine: events until the end or an error.\<close>

function read_events :: "string list \<Rightarrow> string option \<Rightarrow> sse_read list" where
  "read_events lines err =
     (case nextSSEEvent [] lines err of
        (SseEvent e, rest) \<Rightarrow>
          if length rest < length lines then SseEvent e # read_events rest err else [SseEvent e]
      | (r, _) \<Rightarrow> [r])"
  by pat_completeness auto
termination by (relation "measure (\<lambda>(lines, err). length lines)") auto

declare read_events.simps [simp del]

section \<open>The state of proxySSE\<close>

record sse_env =
  se_StatusCode :: int
  se_Headers :: headers
  se_RequestID :: string
  se_ErrorHTTPStatus :: int
  se_Heartbeat :: bool

record sse_state =
  ss_w :: response_writer
  ss_total :: int
  ss_committed :: bool
  ss_pending :: "string list list"
  ss_pendingBytes :: int
  ss_obs :: upstreamResponseObservation

record sse_result =
  sr_total :: int
  sr_riskCode :: string
  sr_status :: int
  sr_evidence :: string
  sr_committed :: bool

datatype sse_input =
    HeartbeatTick
  | CtxDone cancel_cause string
  | NextEvent "string list"
  | ReadFailed cancel_cause string
  | EndOfStream
  | ResultsClosed

datatype sse_phase = Initial | Streaming | Finished sse_result

definition commit :: "sse_env \<Rightarrow> sse_state \<Rightarrow> sse_state" where
  "commit env st =
     (if ss_committed st then st
      else
        (let w0 = ss_w st;
             w1 = w0\<lparr>rw_headers := copyResponseHeaders (rw_headers w0) (se_Headers env)\<rparr>;
             w2 = set_header ''X-Risk-Request-ID'' (se_RequestID env) w1;
             w3 = set_header ''X-Oneapi-Request-Id'' (se_RequestID env) w2;
             w4 = set_header ''X-Accel-Buffering'' ''no'' w3;
             w5 = set_header ''Cache-Control'' ''no-cache'' w4
         in st\<lparr>ss_w := write_header (se_StatusCode env) w5, ss_committed := True\<rparr>))"

fun write_each :: "string list \<Rightarrow> sse_state \<Rightarrow> sse_state \<times> bool" where
  "write_each [] st = (st, True)"
| "write_each (line # rest) st =
     (case write_string (line @ [CHR 0x0A]) (ss_w st) of (w, n, ok) \<Rightarrow>
        (let st' = st\<lparr>ss_w := w, ss_total := ss_total st + int n\<rparr> in
         if ok then write_each rest st' else (st', False)))"

definition writeLines :: "sse_env \<Rightarrow> string list \<Rightarrow> sse_state \<Rightarrow> sse_state \<times> bool" where
  "writeLines env lines st = write_each lines (commit env st)"

definition heartbeat_lines :: "string list" where
  "heartbeat_lines = ['': risk-gateway-keepalive'', []]"

fun write_events :: "sse_env \<Rightarrow> string list list \<Rightarrow> sse_state \<Rightarrow> sse_state \<times> bool" where
  "write_events env [] st = (st, True)"
| "write_events env (event # rest) st =
     (case writeLines env event st of (st', ok) \<Rightarrow>
        if ok then write_events env rest st' else (st', False))"

definition observe_event :: "string list \<Rightarrow> sse_state \<Rightarrow> sse_state" where
  "observe_event event st = st\<lparr>ss_obs := ObserveSSEEvent (ss_obs st) event\<rparr>"

definition note_read_error :: "string \<Rightarrow> sse_state \<Rightarrow> sse_state" where
  "note_read_error err st = st\<lparr>ss_obs := (ss_obs st)\<lparr>ob_ReadError := err\<rparr>\<rparr>"

definition clean_eof :: "sse_state \<Rightarrow> sse_state" where
  "clean_eof st =
     (if ob_CompletionSemantics (ss_obs st) = []
      then st\<lparr>ss_obs := (ss_obs st)\<lparr>ob_CompletionSemantics := ''clean_eof''\<rparr>\<rparr> else st)"

definition logical_error_event :: "string \<Rightarrow> string \<Rightarrow> string" where
  "logical_error_event requestID riskCode =
     ''event: error'' @ [CHR 0x0A] @ ''data: '' @
     object [member ''error'' (object
       [member ''code'' ''555'', member ''message'' (json_quote ''upstream model stream failed''),
        member ''request_id'' (json_quote requestID), member ''risk_code'' (json_quote riskCode),
        member ''type'' (json_quote ''upstream_error'')])] @ [CHR 0x0A, CHR 0x0A]"

definition writeSSELogicalError :: "sse_env \<Rightarrow> string \<Rightarrow> sse_state \<Rightarrow> sse_state" where
  "writeSSELogicalError env riskCode st =
     (case write_string (logical_error_event (se_RequestID env) riskCode) (ss_w st) of (w, n, ok) \<Rightarrow>
        st\<lparr>ss_w := w, ss_total := ss_total st + int n\<rparr>)"

definition finish_with ::
    "sse_state \<Rightarrow> string \<Rightarrow> int \<Rightarrow> string \<Rightarrow> bool \<Rightarrow> sse_phase \<times> sse_state" where
  "finish_with st riskCode status evidence isCommitted =
     (Finished \<lparr>sr_total = ss_total st, sr_riskCode = riskCode, sr_status = status,
                sr_evidence = evidence, sr_committed = isCommitted\<rparr>, st)"

text \<open>A failed write ends the relay as a client disconnect.\<close>

definition client_gone :: "sse_env \<Rightarrow> sse_state \<Rightarrow> sse_phase \<times> sse_state" where
  "client_gone env st = finish_with st ''CLIENT_DISCONNECT'' (se_StatusCode env) [] True"

section \<open>One iteration of each loop\<close>

definition fail_before_start ::
    "sse_env \<Rightarrow> cancel_cause \<Rightarrow> string \<Rightarrow> sse_state \<Rightarrow> sse_phase \<times> sse_state" where
  "fail_before_start env cause err st0 =
     (let st = note_read_error err st0 in
      case classifyUpstreamStreamReadError cause err of (riskCode, evidence) \<Rightarrow>
        (let st' = (if riskCode \<noteq> ''CLIENT_DISCONNECT''
                    then st\<lparr>ss_w := writeRiskError (ss_w st) (se_ErrorHTTPStatus env) (se_RequestID env)
                                     riskCode ''upstream stream failed before starting''\<rparr>
                    else st)
         in finish_with st' riskCode (se_ErrorHTTPStatus env) evidence False))"

definition initial_step :: "sse_env \<Rightarrow> sse_input \<Rightarrow> sse_state \<Rightarrow> sse_phase \<times> sse_state" where
  "initial_step env input st =
     (case input of
        HeartbeatTick \<Rightarrow>
          (if \<not> se_Heartbeat env then (Initial, st)
           else (case writeLines env heartbeat_lines st of (st1, ok1) \<Rightarrow>
                   if \<not> ok1 then client_gone env st1
                   else (case write_events env (ss_pending st) st1 of (st2, ok2) \<Rightarrow>
                           if \<not> ok2 then client_gone env st2 else (Streaming, st2))))
      | CtxDone cause err \<Rightarrow> fail_before_start env cause err st
      | ResultsClosed \<Rightarrow>
          (case write_events env (ss_pending st) (commit env st) of (st1, ok) \<Rightarrow>
             if \<not> ok then client_gone env st1
             else finish_with (clean_eof st1) [] (se_StatusCode env) [] True)
      | ReadFailed cause err \<Rightarrow> fail_before_start env cause err st
      | EndOfStream \<Rightarrow> finish_with (commit env st) [] (se_StatusCode env) [] True
      | NextEvent event \<Rightarrow>
          (let st1 = observe_event event st in
           if isSSEErrorEvent event then
             finish_with
               (st1\<lparr>ss_w := writeRiskError (ss_w st1) (se_ErrorHTTPStatus env) (se_RequestID env)
                             ''UPSTREAM_STREAM_ERROR'' ''upstream model returned a stream error''\<rparr>)
               ''UPSTREAM_STREAM_ERROR'' (se_ErrorHTTPStatus env) (sseEventEvidence event) False
           else
             (let st2 = st1\<lparr>ss_pending := ss_pending st1 @ [event],
                            ss_pendingBytes := ss_pendingBytes st1 + sseEventSize event\<rparr> in
              if isMeaningfulSSEEvent event \<or> length (ss_pending st2) \<ge> 16
                 \<or> ss_pendingBytes st2 \<ge> 64 * 1024
              then (case write_events env (ss_pending st2) (commit env st2) of (st3, ok) \<Rightarrow>
                      if \<not> ok then client_gone env st3 else (Streaming, st3))
              else (Initial, st2))))"

definition fail_streaming ::
    "sse_env \<Rightarrow> cancel_cause \<Rightarrow> string \<Rightarrow> sse_state \<Rightarrow> sse_phase \<times> sse_state" where
  "fail_streaming env cause err st0 =
     (let st = note_read_error err st0 in
      case classifyUpstreamStreamReadError cause err of (riskCode, evidence) \<Rightarrow>
        if riskCode = ''CLIENT_DISCONNECT'' then finish_with st riskCode (se_StatusCode env) [] True
        else finish_with (writeSSELogicalError env riskCode st) riskCode (se_StatusCode env) evidence True)"

definition streaming_step :: "sse_env \<Rightarrow> sse_input \<Rightarrow> sse_state \<Rightarrow> sse_phase \<times> sse_state" where
  "streaming_step env input st =
     (case input of
        HeartbeatTick \<Rightarrow>
          (if \<not> se_Heartbeat env then (Streaming, st)
           else (case writeLines env heartbeat_lines st of (st1, ok) \<Rightarrow>
                   if \<not> ok then client_gone env st1 else (Streaming, st1)))
      | CtxDone cause err \<Rightarrow> fail_streaming env cause err st
      | ResultsClosed \<Rightarrow> finish_with (clean_eof st) [] (se_StatusCode env) [] True
      | ReadFailed cause err \<Rightarrow>
          (if ob_CompletionObserved (ss_obs st) then
             (let ob = ss_obs st;
                  ob' = ob\<lparr>ob_ReadError := err, ob_TransportClosedAfterTerminal := True,
                           ob_CompletionSemantics :=
                             (if ob_CompletionSemantics ob \<noteq> []
                              then ob_CompletionSemantics ob @ ''_then_transport_close''
                              else ob_CompletionSemantics ob)\<rparr>
              in finish_with (st\<lparr>ss_obs := ob'\<rparr>) [] (se_StatusCode env) [] True)
           else fail_streaming env cause err st)
      | EndOfStream \<Rightarrow> finish_with (clean_eof st) [] (se_StatusCode env) [] True
      | NextEvent event \<Rightarrow>
          (let st1 = observe_event event st in
           if isSSEErrorEvent event then
             finish_with (writeSSELogicalError env ''UPSTREAM_STREAM_ERROR'' st1)
               ''UPSTREAM_STREAM_ERROR'' (se_StatusCode env) (sseEventEvidence event) True
           else (case writeLines env event st1 of (st2, ok) \<Rightarrow>
                   if \<not> ok then client_gone env st2 else (Streaming, st2))))"

fun sse_step :: "sse_env \<Rightarrow> sse_phase \<times> sse_state \<Rightarrow> sse_input \<Rightarrow> sse_phase \<times> sse_state" where
  "sse_step env (Initial, st) input = initial_step env input st"
| "sse_step env (Streaming, st) input = streaming_step env input st"
| "sse_step env (Finished r, st) input = (Finished r, st)"

definition sse_start :: "response_writer \<Rightarrow> sse_phase \<times> sse_state" where
  "sse_start w = (Initial, \<lparr>ss_w = w, ss_total = 0, ss_committed = False, ss_pending = [],
     ss_pendingBytes = 0, ss_obs = no_observation\<rparr>)"

definition proxySSE :: "sse_env \<Rightarrow> response_writer \<Rightarrow> sse_input list \<Rightarrow> sse_phase \<times> sse_state" where
  "proxySSE env w inputs = foldl (sse_step env) (sse_start w) inputs"

section \<open>The buffered response\<close>

text \<open>
  \<open>data\<close> is what the upstream body yields and \<open>err\<close> its read error, if it ends in one. The
  error text is what \<open>err.Error()\<close> renders; durations are left to the caller.
\<close>

record buffered_result =
  br_total :: int
  br_riskCode :: string
  br_status :: int
  br_evidence :: string

definition proxyBuffered ::
    "int \<Rightarrow> sse_env \<Rightarrow> response_writer \<Rightarrow> string \<Rightarrow> string option \<Rightarrow> upstreamResponseObservation \<Rightarrow>
     buffered_result \<times> response_writer \<times> upstreamResponseObservation" where
  "proxyBuffered inspectMax env w data err ob =
     (let limit = nat (inspectMax + 1);
          prefix = take limit data
      in if length data < limit \<and> err \<noteq> None then
           (\<lparr>br_total = 0, br_riskCode = ''UPSTREAM_READ_ERROR'', br_status = se_ErrorHTTPStatus env,
             br_evidence = ''upstream buffered response read failed: '' @ the err\<rparr>,
            writeRiskError w (se_ErrorHTTPStatus env) (se_RequestID env) ''UPSTREAM_READ_ERROR''
              ''upstream model response failed'',
            ob\<lparr>ob_ReadError := the err\<rparr>)
         else
           (let completeBody = (int (length prefix) \<le> inspectMax);
                ob1 = ObserveBufferedBody ob prefix completeBody
            in if completeBody \<and> responseContainsErrorEnvelope prefix then
                 (\<lparr>br_total = 0, br_riskCode = ''UPSTREAM_MODEL_ERROR'', br_status = se_ErrorHTTPStatus env,
                   br_evidence = prefix\<rparr>,
                  writeRiskError w (se_ErrorHTTPStatus env) (se_RequestID env) ''UPSTREAM_MODEL_ERROR''
                    ''upstream model returned an error'', ob1)
               else
                 (let w1 = w\<lparr>rw_headers := copyResponseHeaders (rw_headers w) (se_Headers env)\<rparr>;
                      w2 = set_header ''X-Risk-Request-ID'' (se_RequestID env) w1;
                      w3 = set_header ''X-Oneapi-Request-Id'' (se_RequestID env) w2;
                      w4 = write_header (se_StatusCode env) w3;
                      (w5, written, ok) = write_string prefix w4;
                      (w6, copied, ok2) =
                        (if ok \<and> \<not> completeBody then write_string (drop limit data) w5 else (w5, 0, ok));
                      failed = (\<not> ok2 \<or> (ok \<and> \<not> completeBody \<and> err \<noteq> None));
                      ob2 = (if ok \<and> \<not> completeBody \<and> \<not> failed
                             then ob1\<lparr>ob_CompletionObserved := True,
                                      ob_CompletionSemantics := ''buffered_response_streamed''\<rparr>
                             else ob1)
                  in (\<lparr>br_total = int written + int copied,
                       br_riskCode = (if failed then ''CLIENT_DISCONNECT'' else []),
                       br_status = se_StatusCode env, br_evidence = []\<rparr>, w6, ob2))))"

section \<open>Lemmas: what reaches the client\<close>

text \<open>One relayed item is a heartbeat or an upstream event.\<close>

datatype relay_item = Heartbeat | Relayed "string list"

definition render :: "string list \<Rightarrow> string" where
  "render lines = concat (map (\<lambda>line. line @ [CHR 0x0A]) lines)"

fun render_item :: "relay_item \<Rightarrow> string" where
  "render_item Heartbeat = render heartbeat_lines"
| "render_item (Relayed e) = render e"

fun relayed_events :: "relay_item list \<Rightarrow> string list list" where
  "relayed_events [] = []"
| "relayed_events (Heartbeat # xs) = relayed_events xs"
| "relayed_events (Relayed e # xs) = e # relayed_events xs"

lemma relayed_events_append: "relayed_events (xs @ ys) = relayed_events xs @ relayed_events ys"
  by (induction xs rule: relayed_events.induct) auto

lemma relayed_events_map: "relayed_events (map Relayed es) = es"
  by (induction es) auto

lemma write_header_facts [simp]:
  "rw_room (write_header c w) = rw_room w" "rw_body (write_header c w) = rw_body w"
  "rw_sent (write_header c w) \<noteq> None"
  "rw_sent w = Some sh \<Longrightarrow> rw_sent (write_header c w) = Some sh"
  by (auto simp: write_header_def split: option.split)

lemma set_header_facts [simp]:
  "rw_room (set_header k v w) = rw_room w" "rw_body (set_header k v w) = rw_body w"
  "rw_sent (set_header k v w) = rw_sent w"
  by (simp_all add: set_header_def)

text \<open>A client that stays receives every write whole.\<close>

lemma write_string_stays:
  assumes "rw_room w = None" and "write_string s w = (w', n, ok)"
  shows "ok \<and> n = length s \<and> rw_body w' = rw_body w @ s \<and> rw_room w' = None"
  using assms by (auto simp: write_string_def Let_def)

lemma write_string_sent:
  assumes "rw_sent w = Some sh" and "write_string s w = (w', n, ok)"
  shows "rw_sent w' = Some sh"
  using assms by (auto simp: write_string_def Let_def split: option.splits)

lemma commit_facts [simp]:
  "ss_committed (commit env st)" "ss_pending (commit env st) = ss_pending st"
  "ss_total (commit env st) = ss_total st" "rw_body (ss_w (commit env st)) = rw_body (ss_w st)"
  "rw_room (ss_w (commit env st)) = rw_room (ss_w st)" "ss_obs (commit env st) = ss_obs st"
  by (simp_all add: commit_def Let_def)

lemma commit_again [simp]: "ss_committed st \<Longrightarrow> commit env st = st"
  by (simp add: commit_def)

lemma write_each_stays:
  "rw_room (ss_w st) = None \<Longrightarrow> write_each lines st = (st', ok) \<Longrightarrow>
     ok \<and> rw_body (ss_w st') = rw_body (ss_w st) @ render lines \<and> rw_room (ss_w st') = None
     \<and> ss_committed st' = ss_committed st \<and> ss_pending st' = ss_pending st"
proof (induction lines st arbitrary: st' ok rule: write_each.induct)
  case (1 st)
  then show ?case by (auto simp: render_def)
next
  case (2 line rest st)
  obtain w n b where w: "write_string (line @ [CHR 0x0A]) (ss_w st) = (w, n, b)"
    by (metis prod_cases3)
  with write_string_stays [OF 2(2) w] 2(1) 2(3) show ?case
    by (fastforce simp: render_def)
qed

lemma writeLines_stays:
  assumes "rw_room (ss_w st) = None" and "writeLines env lines st = (st', ok)"
  shows "ok \<and> rw_body (ss_w st') = rw_body (ss_w st) @ render lines \<and> rw_room (ss_w st') = None
     \<and> ss_committed st' \<and> ss_pending st' = ss_pending st"
  using write_each_stays [of "commit env st" lines st' ok] assms by (simp add: writeLines_def)

lemma write_events_stays:
  "rw_room (ss_w st) = None \<Longrightarrow> write_events env es st = (st', ok) \<Longrightarrow>
     ok \<and> rw_body (ss_w st') = rw_body (ss_w st) @ concat (map render es) \<and> rw_room (ss_w st') = None
     \<and> (ss_committed st \<longrightarrow> ss_committed st') \<and> ss_pending st' = ss_pending st"
proof (induction env es st arbitrary: st' ok rule: write_events.induct)
  case (1 env st)
  then show ?case by simp
next
  case (2 env event rest st)
  obtain s b where s: "writeLines env event st = (s, b)" by fastforce
  with writeLines_stays [OF 2(2) s] 2(1) 2(3) show ?case by fastforce
qed

section \<open>Invariants of the relay\<close>

lemma commit_sent:
  assumes "rw_sent (ss_w st) = None" and "\<not> ss_committed st"
  shows "\<exists>h. rw_sent (ss_w (commit env st)) = Some (se_StatusCode env, h)"
  using assms by (simp add: commit_def Let_def write_header_def set_header_def)

lemma write_each_sent:
  "rw_sent (ss_w st) = Some sh \<Longrightarrow> write_each lines st = (st', ok) \<Longrightarrow>
     rw_sent (ss_w st') = Some sh \<and> ss_committed st' = ss_committed st"
proof (induction lines st arbitrary: st' ok rule: write_each.induct)
  case (2 line rest st)
  obtain w n b where w: "write_string (line @ [CHR 0x0A]) (ss_w st) = (w, n, b)"
    by (metis prod_cases3)
  from write_string_sent [OF 2(2) w] 2(1) 2(3) show ?case
    by (auto simp: w Let_def split: if_splits)
qed simp

text \<open>\<open>live env st\<close>: the upstream's status is on the wire.\<close>

definition live :: "sse_env \<Rightarrow> sse_state \<Rightarrow> bool" where
  "live env st \<longleftrightarrow> ss_committed st \<and> (\<exists>h. rw_sent (ss_w st) = Some (se_StatusCode env, h))"

definition untouched :: "sse_state \<Rightarrow> bool" where
  "untouched st \<longleftrightarrow> \<not> ss_committed st \<and> rw_sent (ss_w st) = None \<and> rw_body (ss_w st) = []"

lemma live_commit: "untouched st \<or> live env st \<Longrightarrow> live env (commit env st)"
  using commit_sent [of st env] by (auto simp: live_def untouched_def)

lemma live_writeLines:
  "untouched st \<or> live env st \<Longrightarrow> writeLines env lines st = (st', ok) \<Longrightarrow> live env st'"
  using live_commit [of st env] write_each_sent [of "commit env st" _ lines st' ok]
  by (auto simp: live_def writeLines_def)

lemma live_write_events:
  "live env st \<Longrightarrow> write_events env es st = (st', ok) \<Longrightarrow> live env st'"
proof (induction env es st arbitrary: st' ok rule: write_events.induct)
  case (2 env event rest st)
  obtain s b where s: "writeLines env event st = (s, b)" by fastforce
  with 2(2) have "live env s" by (blast intro: live_writeLines)
  with s 2(1) 2(3) show ?case by (auto split: if_splits)
qed simp

lemma live_frame [simp]:
  "live env (observe_event e st) = live env st" "live env (note_read_error x st) = live env st"
  "live env (clean_eof st) = live env st" "untouched (observe_event e st) = untouched st"
  "untouched (note_read_error x st) = untouched st"
  by (simp_all add: live_def untouched_def observe_event_def note_read_error_def clean_eof_def)

lemma live_logical_error: "live env st \<Longrightarrow> live env (writeSSELogicalError env code st)"
  by (auto simp: live_def writeSSELogicalError_def dest: write_string_sent split: prod.splits)

text \<open>An error answer on an untouched writer: the error status and one envelope, or a prefix
  of it when the client fails.\<close>

definition error_answer :: "sse_env \<Rightarrow> string \<Rightarrow> response_writer \<Rightarrow> bool" where
  "error_answer env code w \<longleftrightarrow>
     (\<exists>h msg n. rw_sent w = Some (se_ErrorHTTPStatus env, h)
        \<and> rw_body w = take n (risk_error_body (se_RequestID env) code msg))"

lemma error_answer_written:
  assumes "rw_sent w = None" and "rw_body w = []"
  shows "error_answer env code (writeRiskError w (se_ErrorHTTPStatus env) (se_RequestID env) code msg)"
proof -
  let ?b = "risk_error_body (se_RequestID env) code msg"
  have "\<exists>n. (?b = take n ?b)" by (metis order_refl take_all)
  with assms show ?thesis
    unfolding error_answer_def
    by (auto simp: writeRiskError_def Let_def write_string_def write_header_def set_header_def
        split: option.split)
qed

fun status_inv :: "sse_env \<Rightarrow> sse_phase \<times> sse_state \<Rightarrow> bool" where
  "status_inv env (Initial, st) \<longleftrightarrow> untouched st \<and> ss_total st = 0"
| "status_inv env (Streaming, st) \<longleftrightarrow> live env st"
| "status_inv env (Finished r, st) \<longleftrightarrow>
     (if sr_committed r then live env st \<and> sr_status r = se_StatusCode env
      else sr_status r = se_ErrorHTTPStatus env \<and> sr_total r = 0 \<and>
           (if sr_riskCode r = ''CLIENT_DISCONNECT'' then untouched st
            else error_answer env (sr_riskCode r) (ss_w st)))"

lemma status_inv_committed:
  "live env st \<Longrightarrow> status_inv env (finish_with st code (se_StatusCode env) ev True)"
  by (simp add: finish_with_def)

lemma status_inv_gone: "live env st \<Longrightarrow> status_inv env (client_gone env st)"
  by (simp add: client_gone_def status_inv_committed)

lemma not_client_disconnect: "''UPSTREAM_STREAM_ERROR'' \<noteq> ''CLIENT_DISCONNECT''"
  by simp

lemma fail_before_start_inv:
  assumes "untouched st" and "ss_total st = 0"
  shows "status_inv env (fail_before_start env cause err st)"
proof -
  obtain code ev where c: "classifyUpstreamStreamReadError cause err = (code, ev)" by fastforce
  with assms show ?thesis
    by (auto simp: fail_before_start_def Let_def finish_with_def error_answer_written
        untouched_def note_read_error_def)
qed

lemma initial_step_inv:
  assumes "untouched st" and "ss_total st = 0"
  shows "status_inv env (initial_step env input st)"
proof (cases input)
  case HeartbeatTick
  obtain s1 b1 where w1: "writeLines env heartbeat_lines st = (s1, b1)" by fastforce
  obtain s2 b2 where w2: "write_events env (ss_pending st) s1 = (s2, b2)" by fastforce
  have "live env s1" using assms(1) w1 by (blast intro: live_writeLines)
  with w2 have "live env s2" by (blast intro: live_write_events)
  with \<open>live env s1\<close> HeartbeatTick w1 w2 assms show ?thesis
    by (simp add: initial_step_def status_inv_gone)
next
  case (NextEvent event)
  let ?st1 = "observe_event event st"
  let ?st2 = "?st1\<lparr>ss_pending := ss_pending ?st1 @ [event],
      ss_pendingBytes := ss_pendingBytes ?st1 + sseEventSize event\<rparr>"
  obtain s3 b3 where w3: "write_events env (ss_pending ?st2) (commit env ?st2) = (s3, b3)" by fastforce
  have u: "untouched ?st2" using assms(1) by (simp add: untouched_def observe_event_def)
  then have "live env s3" using w3 by (blast intro: live_write_events live_commit)
  with u NextEvent w3 assms show ?thesis
    by (auto simp: initial_step_def Let_def status_inv_gone finish_with_def error_answer_written
        observe_event_def untouched_def)
next
  case ResultsClosed
  obtain s1 b1 where w1: "write_events env (ss_pending st) (commit env st) = (s1, b1)" by fastforce
  then have "live env s1" using assms(1) by (blast intro: live_write_events live_commit)
  with ResultsClosed w1 show ?thesis
    by (simp add: initial_step_def status_inv_gone status_inv_committed)
qed (use assms in \<open>simp_all add: initial_step_def fail_before_start_inv status_inv_committed live_commit\<close>)

lemma streaming_step_inv:
  assumes "live env st"
  shows "status_inv env (streaming_step env input st)"
proof -
  have f: "status_inv env (fail_streaming env cause err st)" for cause err
    using assms by (auto simp: fail_streaming_def Let_def status_inv_committed live_logical_error
        split: prod.split)
  have o: "live env (st\<lparr>ss_obs := ob\<rparr>)" for ob
    using assms by (simp add: live_def)
  have w: "live env s'" if "writeLines env ls s = (s', b)" and "live env s" for ls s s' b
    using that by (blast intro: live_writeLines)
  show ?thesis
    using assms f o
    by (cases input) (auto simp: streaming_step_def Let_def status_inv_committed live_logical_error
        split: prod.split intro: w intro!: status_inv_gone)
qed

lemma sse_step_inv:
  assumes "status_inv env ps"
  shows "status_inv env (sse_step env ps input)"
proof (cases ps)
  case (Pair ph st)
  with assms show ?thesis
    by (cases ph) (auto simp: initial_step_inv streaming_step_inv)
qed

lemma proxySSE_status:
  assumes "rw_sent w = None" and "rw_body w = []"
  shows "status_inv env (proxySSE env w inputs)"
  unfolding proxySSE_def
  by (rule foldl_invariant) (use assms in \<open>simp_all add: sse_start_def untouched_def sse_step_inv\<close>)

section \<open>What is relayed, and in which order\<close>

text \<open>The upstream events an input list delivers.\<close>

fun received :: "sse_input list \<Rightarrow> string list list" where
  "received [] = []"
| "received (NextEvent e # xs) = e # received xs"
| "received (_ # xs) = received xs"

lemma received_append: "received (xs @ ys) = received xs @ received ys"
  by (induction xs rule: received.induct) auto

definition relays :: "response_writer \<Rightarrow> string list list \<Rightarrow> bool" where
  "relays w es \<longleftrightarrow>
     (\<exists>items. rw_body w = concat (map render_item items) \<and> relayed_events items = es)"

definition stays :: "sse_state \<Rightarrow> bool" where
  "stays st \<longleftrightarrow> rw_room (ss_w st) = None"

definition clean :: "string list list \<Rightarrow> bool" where
  "clean es \<longleftrightarrow> (\<forall>e \<in> set es. \<not> isSSEErrorEvent e)"

text \<open>The client's view when the relay is over: the events of a prefix of what was received,
  whole and in order, and at most one closing error event.\<close>

definition delivered :: "sse_env \<Rightarrow> response_writer \<Rightarrow> string list list \<Rightarrow> bool" where
  "delivered env w es \<longleftrightarrow>
     (\<exists>items tail rest. rw_body w = concat (map render_item items) @ tail
        \<and> (tail = [] \<or> (\<exists>code. tail = logical_error_event (se_RequestID env) code))
        \<and> es = relayed_events items @ rest \<and> clean (relayed_events items))"

fun relay_inv :: "sse_env \<Rightarrow> string list list \<Rightarrow> sse_phase \<times> sse_state \<Rightarrow> bool" where
  "relay_inv env es (Initial, st) \<longleftrightarrow>
     stays st \<and> clean es \<and> rw_body (ss_w st) = [] \<and> ss_pending st = es"
| "relay_inv env es (Streaming, st) \<longleftrightarrow> stays st \<and> clean es \<and> relays (ss_w st) es"
| "relay_inv env es (Finished r, st) \<longleftrightarrow> (sr_committed r \<longrightarrow> delivered env (ss_w st) es)"

lemma relays_item:
  assumes "relays w es" and "rw_body w' = rw_body w @ render_item i"
  shows "relays w' (es @ relayed_events [i])"
proof -
  obtain items where "rw_body w = concat (map render_item items)" "relayed_events items = es"
    using assms(1) by (auto simp: relays_def)
  with assms(2) show ?thesis
    by (auto simp: relays_def relayed_events_append intro!: exI [of _ "items @ [i]"])
qed

lemma relays_events:
  "relays w es \<Longrightarrow> rw_body w' = rw_body w @ concat (map render xs) \<Longrightarrow> relays w' (es @ xs)"
proof (induction xs arbitrary: w es)
  case Nil
  then show ?case by (simp add: relays_def)
next
  case (Cons x xs)
  have "relays (w\<lparr>rw_body := rw_body w @ render x\<rparr>) (es @ [x])"
    using relays_item [OF Cons(2), of _ "Relayed x"] by simp
  from Cons(1) [OF this] Cons(3) show ?case by simp
qed

lemma relays_nil: "rw_body w = [] \<Longrightarrow> relays w []"
  by (auto simp: relays_def intro!: exI [of _ "[]"])

lemma relays_delivered_more:
  assumes "relays w es" and "clean es"
  shows "delivered env w (es @ rest)"
proof -
  obtain items where "rw_body w = concat (map render_item items)" "relayed_events items = es"
    using assms(1) by (auto simp: relays_def)
  with assms(2) show ?thesis
    unfolding delivered_def by (intro exI [of _ items] exI [of _ "[]"] exI [of _ rest]) simp
qed

lemmas relays_delivered = relays_delivered_more [where rest = "[]", simplified]

lemma delivered_later: "delivered env w es \<Longrightarrow> delivered env w (es @ rest)"
  by (fastforce simp: delivered_def)

lemma relays_logical_error:
  assumes "relays (ss_w st) es" and "clean es" and "stays st"
  shows "delivered env (ss_w (writeSSELogicalError env code st)) (es @ rest)"
proof -
  obtain w n ok where w: "write_string (logical_error_event (se_RequestID env) code) (ss_w st) = (w, n, ok)"
    by (metis prod_cases3)
  from assms(3) have "rw_room (ss_w st) = None" by (simp add: stays_def)
  from write_string_stays [OF this w] assms(1,2) w show ?thesis
    by (fastforce simp: writeSSELogicalError_def relays_def delivered_def)
qed

lemma stays_frame [simp]:
  "stays (observe_event e st) = stays st" "stays (note_read_error x st) = stays st"
  "stays (clean_eof st) = stays st" "stays (commit env st) = stays st"
  "ss_w (observe_event e st) = ss_w st" "ss_w (note_read_error x st) = ss_w st"
  "ss_w (clean_eof st) = ss_w st" "ss_pending (observe_event e st) = ss_pending st"
  by (simp_all add: stays_def observe_event_def note_read_error_def clean_eof_def)

lemma initial_step_relay:
  assumes "stays st" and "clean es" and "rw_body (ss_w st) = []" and "ss_pending st = es"
  shows "relay_inv env (es @ received [input]) (initial_step env input st)"
proof (cases input)
  case HeartbeatTick
  obtain s1 b1 where w1: "writeLines env heartbeat_lines st = (s1, b1)" by fastforce
  obtain s2 b2 where w2: "write_events env (ss_pending st) s1 = (s2, b2)" by fastforce
  from writeLines_stays [OF _ w1] assms(1) have 1: "b1" "stays s1"
    "rw_body (ss_w s1) = rw_body (ss_w st) @ render_item Heartbeat" by (auto simp: stays_def)
  from write_events_stays [OF _ w2] 1(2) have 2: "b2" "stays s2"
    "rw_body (ss_w s2) = rw_body (ss_w s1) @ concat (map render (ss_pending st))"
    by (auto simp: stays_def)
  from relays_item [OF relays_nil [OF assms(3)] 1(3)] have "relays (ss_w s1) []" by simp
  from relays_events [OF this 2(3)] assms HeartbeatTick w1 w2 1 2 show ?thesis
    by (simp add: initial_step_def)
next
  case (NextEvent event)
  let ?st1 = "observe_event event st"
  let ?st2 = "?st1\<lparr>ss_pending := ss_pending ?st1 @ [event],
      ss_pendingBytes := ss_pendingBytes ?st1 + sseEventSize event\<rparr>"
  obtain s3 b3 where w3: "write_events env (ss_pending ?st2) (commit env ?st2) = (s3, b3)" by fastforce
  have st2: "stays ?st2" "rw_body (ss_w ?st2) = []" "ss_pending ?st2 = es @ [event]"
    using assms by (simp_all add: stays_def observe_event_def)
  from write_events_stays [OF _ w3] st2 have 3: "b3" "stays s3"
    "rw_body (ss_w s3) = [] @ concat (map render (es @ [event]))" by (auto simp: stays_def)
  have "relays (ss_w s3) (es @ [event])"
    using relays_events [of "ss_w ?st2" "[]" "ss_w s3" "es @ [event]"] relays_nil [of "ss_w ?st2"] st2 3
    by simp
  with assms st2 3 w3 NextEvent show ?thesis
    by (auto simp: initial_step_def Let_def finish_with_def clean_def observe_event_def)
next
  case ResultsClosed
  obtain s1 b1 where w1: "write_events env (ss_pending st) (commit env st) = (s1, b1)" by fastforce
  from write_events_stays [OF _ w1] assms have 1: "b1"
    "rw_body (ss_w s1) = rw_body (ss_w st) @ concat (map render es)" by (auto simp: stays_def)
  from relays_events [OF relays_nil [OF assms(3)] 1(2)] assms 1 w1 ResultsClosed show ?thesis
    by (simp add: initial_step_def finish_with_def relays_delivered)
next
  case EndOfStream
  have "relays (ss_w (commit env st)) []" using assms(3) by (simp add: relays_nil)
  from relays_delivered_more [OF this, of env es] EndOfStream show ?thesis
    by (simp add: initial_step_def finish_with_def clean_def)
qed (auto simp: initial_step_def fail_before_start_def Let_def finish_with_def split: prod.split)

lemma streaming_step_relay:
  assumes "stays st" and "clean es" and "relays (ss_w st) es"
  shows "relay_inv env (es @ received [input]) (streaming_step env input st)"
proof -
  have f: "relay_inv env es (fail_streaming env cause err st)" for cause err
    using assms relays_logical_error [of "note_read_error err st" es env _ "[]"]
    by (auto simp: fail_streaming_def Let_def finish_with_def relays_delivered split: prod.split)
  show ?thesis
  proof (cases input)
    case HeartbeatTick
    obtain s b where w: "writeLines env heartbeat_lines st = (s, b)" by fastforce
    from writeLines_stays [OF _ w] assms(1) have "b" "stays s"
      "rw_body (ss_w s) = rw_body (ss_w st) @ render_item Heartbeat" by (auto simp: stays_def)
    with relays_item [OF assms(3) this(3)] w assms HeartbeatTick show ?thesis
      by (simp add: streaming_step_def)
  next
    case (NextEvent event)
    obtain s b where w: "writeLines env event (observe_event event st) = (s, b)" by fastforce
    from writeLines_stays [OF _ w] assms(1) have "b" "stays s"
      "rw_body (ss_w s) = rw_body (ss_w st) @ render_item (Relayed event)" by (auto simp: stays_def)
    with relays_item [OF assms(3) this(3)] w assms NextEvent
      relays_logical_error [of "observe_event event st" es env _ "[event]"] show ?thesis
      by (auto simp: streaming_step_def Let_def finish_with_def clean_def)
  qed (use assms f in \<open>auto simp: streaming_step_def finish_with_def relays_delivered Let_def\<close>)
qed

lemma sse_step_relay:
  assumes "relay_inv env es ps"
  shows "relay_inv env (es @ received [input]) (sse_step env ps input)"
proof (cases ps)
  case (Pair ph st)
  with assms show ?thesis
    by (cases ph) (auto simp: initial_step_relay streaming_step_relay delivered_later)
qed

lemma proxySSE_relay:
  assumes "rw_room w = None" and "rw_body w = []"
  shows "relay_inv env (received inputs) (proxySSE env w inputs)"
proof (induction inputs rule: rev_induct)
  case Nil
  with assms show ?case by (simp add: proxySSE_def sse_start_def stays_def clean_def)
next
  case (snoc x xs)
  from sse_step_relay [OF this, of x] show ?case
    by (simp add: proxySSE_def received_append)
qed

lemma finish_started [simp]:
  "fst (finish_with st code status ev c) \<noteq> Initial" "fst (client_gone env st) \<noteq> Initial"
  by (simp_all add: finish_with_def client_gone_def)

lemma streaming_step_started: "fst (streaming_step env input st) \<noteq> Initial"
  by (cases input)
    (simp_all add: streaming_step_def fail_streaming_def Let_def split: prod.split)

lemma initial_step_held:
  assumes "length (ss_pending st) < 16 \<and> ss_pendingBytes st < 64 * 1024"
    and "fst (initial_step env input st) = Initial"
  shows "length (ss_pending (snd (initial_step env input st))) < 16
    \<and> ss_pendingBytes (snd (initial_step env input st)) < 64 * 1024"
proof (cases input)
  case (NextEvent event)
  with assms(2) show ?thesis
    by (simp add: initial_step_def Let_def observe_event_def split: prod.splits if_splits)
next
  case HeartbeatTick
  with assms show ?thesis
    by (simp add: initial_step_def Let_def split: prod.splits if_splits)
qed (use assms(2) in \<open>simp_all add: initial_step_def fail_before_start_def Let_def split: prod.splits if_splits\<close>)

text \<open>Before anything is committed, fewer than 16 events and 64 KiB are held back.\<close>

definition held :: "sse_phase \<times> sse_state \<Rightarrow> bool" where
  "held ps \<longleftrightarrow> (fst ps = Initial \<longrightarrow>
     length (ss_pending (snd ps)) < 16 \<and> ss_pendingBytes (snd ps) < 64 * 1024)"

lemma initial_bounded:
  assumes "proxySSE env w inputs = (Initial, st)"
  shows "length (ss_pending st) < 16 \<and> ss_pendingBytes st < 64 * 1024"
proof -
  have step: "held (sse_step env ps input)" if "held ps" for ps input
  proof (cases ps)
    case (Pair ph st)
    show ?thesis
    proof (cases ph)
      case Initial
      with that Pair initial_step_held [of st env input] show ?thesis by (simp add: held_def)
    qed (use that Pair streaming_step_started [of env input st] in \<open>simp_all add: held_def\<close>)
  qed
  have "held (sse_start w)" by (simp add: sse_start_def held_def)
  then have "held (proxySSE env w inputs)"
    unfolding proxySSE_def by (rule foldl_invariant) (rule step)
  with assms show ?thesis by (simp add: held_def)
qed

text \<open>An event without a \<open>data:\<close> or \<open>event:\<close> line waits in \<open>pending\<close>; if the stream then ends,
  the two ends of the result channel treat it differently.\<close>

lemma held_event_end:
  assumes "\<not> isMeaningfulSSEEvent e" and "\<not> isSSEErrorEvent e" and "sseEventSize e < 64 * 1024"
    and "rw_room w = None" and "rw_body w = []"
  shows "rw_body (ss_w (snd (proxySSE env w [NextEvent e, EndOfStream]))) = []"
    and "rw_body (ss_w (snd (proxySSE env w [NextEvent e, ResultsClosed]))) = render e"
proof -
  let ?st1 = "observe_event e (snd (sse_start w))"
  let ?st = "?st1\<lparr>ss_pending := [e], ss_pendingBytes := sseEventSize e\<rparr>"
  have st: "sse_step env (sse_start w) (NextEvent e) = (Initial, ?st)"
    using assms(1-3) by (simp add: sse_start_def initial_step_def observe_event_def Let_def)
  show "rw_body (ss_w (snd (proxySSE env w [NextEvent e, EndOfStream]))) = []"
    using st assms(5)
    by (simp add: proxySSE_def initial_step_def finish_with_def observe_event_def sse_start_def)
  obtain s b where w: "write_events env [e] (commit env ?st) = (s, b)" by fastforce
  have "rw_room (ss_w (commit env ?st)) = None" "rw_body (ss_w (commit env ?st)) = []"
    using assms(4,5) by (simp_all add: observe_event_def sse_start_def)
  with write_events_stays [OF _ w] have "b" "rw_body (ss_w s) = render e" by auto
  with st w show "rw_body (ss_w (snd (proxySSE env w [NextEvent e, ResultsClosed]))) = render e"
    by (simp add: proxySSE_def initial_step_def finish_with_def)
qed

end
