(* ===== verification/Rate_Guard.thy ===== *)
theory Rate_Guard
  imports Prelude Complex_Main "HOL-Library.Word"
begin

text \<open>
  The rate limiter, the concurrency slots and the nonce register (\<open>internal/platform/redis.go\<close>
  and \<open>UseNonceFallback\<close> of \<open>store.go\<close>). Each guard has two implementations, the Lua scripts
  the program sends to Redis and the process-local fallback; whether a Redis call succeeds is
  an input. Rates and token counts are exact rationals where the code has \<open>float64\<close>;
  times are integers, milliseconds for Redis and nanoseconds for the local clock. The key
  space of Redis is a map with an expiry per key, as its documentation describes it.
\<close>

section \<open>State\<close>

type_synonym 'v keyspace = "string \<rightharpoonup> 'v \<times> int"

definition redis_get :: "'v keyspace \<Rightarrow> int \<Rightarrow> string \<Rightarrow> 'v option" where
  "redis_get db now key =
     (case db key of None \<Rightarrow> None | Some (v, expires) \<Rightarrow> if now < expires then Some v else None)"

record redis_db =
  rd_rate :: "(rat \<times> int) keyspace"
  rd_sem :: "(string \<times> int) list keyspace"
  rd_nonce :: "unit keyspace"

record localBucket =
  lb_tokens :: rat
  lb_last :: int

record RedisGuard =
  rg_client :: "redis_db option"
  rg_available :: bool
  rg_buckets :: "string \<rightharpoonup> localBucket"
  rg_semaphores :: "string \<rightharpoonup> int"
  rg_operations :: "64 word"
  rg_streamMax :: int

section \<open>The token bucket\<close>

definition tokenBucketScript ::
    "(rat \<times> int) keyspace \<Rightarrow> string \<Rightarrow> int \<Rightarrow> rat \<Rightarrow> rat \<Rightarrow> int \<Rightarrow> (rat \<times> int) keyspace \<times> bool" where
  "tokenBucketScript db key now rate burst ttl =
     (let stored = redis_get db now key;
          tokens = (case stored of None \<Rightarrow> burst | Some (t, ts) \<Rightarrow> t);
          timestamp = (case stored of None \<Rightarrow> now | Some (t, ts) \<Rightarrow> ts);
          elapsed = of_int (max 0 (now - timestamp)) / 1000;
          tokens1 = min burst (tokens + elapsed * rate);
          allowed = (tokens1 \<ge> 1);
          tokens2 = (if allowed then tokens1 - 1 else tokens1)
      in (db(key \<mapsto> ((tokens2, now), now + ttl)), allowed))"

definition rate_ttl :: "rat \<Rightarrow> int \<Rightarrow> int" where
  "rate_ttl rate burst = \<lfloor>of_int burst / rate * 2000\<rfloor> + 1000"

definition evict_idle :: "int \<Rightarrow> (string \<rightharpoonup> localBucket) \<Rightarrow> (string \<rightharpoonup> localBucket)" where
  "evict_idle now buckets =
     (let cutoff = now - 10 * 60 * 1000000000 in
      (\<lambda>k. case buckets k of None \<Rightarrow> None
           | Some b \<Rightarrow> if lb_last b < cutoff then None else Some b))"

definition swept :: "64 word \<Rightarrow> int \<Rightarrow> (string \<rightharpoonup> localBucket) \<Rightarrow> (string \<rightharpoonup> localBucket)" where
  "swept ops now buckets = (if ops mod 1024 = 0 then evict_idle now buckets else buckets)"

definition allowLocal :: "int \<Rightarrow> string \<Rightarrow> rat \<Rightarrow> int \<Rightarrow> RedisGuard \<Rightarrow> RedisGuard \<times> bool" where
  "allowLocal now key rate burst g =
     (let ops = rg_operations g + 1;
          buckets = swept ops now (rg_buckets g);
          bucket = (case buckets key of None \<Rightarrow> \<lparr>lb_tokens = of_int burst, lb_last = now\<rparr> | Some b \<Rightarrow> b);
          elapsed = of_int (now - lb_last bucket) / 1000000000;
          tokens1 = lb_tokens bucket + elapsed * rate;
          tokens2 = (if tokens1 > of_int burst then of_int burst else tokens1)
      in if tokens2 < 1
         then (g\<lparr>rg_operations := ops, rg_buckets := buckets(key \<mapsto> \<lparr>lb_tokens = tokens2, lb_last = now\<rparr>)\<rparr>, False)
         else (g\<lparr>rg_operations := ops, rg_buckets := buckets(key \<mapsto> \<lparr>lb_tokens = tokens2 - 1, lb_last = now\<rparr>)\<rparr>, True))"

text \<open>\<open>up\<close> says whether the Redis call succeeds; the two clock readings are of one instant.\<close>

definition Allow :: "bool \<Rightarrow> int \<Rightarrow> int \<Rightarrow> string \<Rightarrow> rat \<Rightarrow> int \<Rightarrow> RedisGuard \<Rightarrow> RedisGuard \<times> bool" where
  "Allow up nowMs nowNs key rate burst g =
     (if rate \<le> 0 \<or> burst \<le> 0 then (g, True)
      else
        (case rg_client g of
           None \<Rightarrow> allowLocal nowNs key rate burst g
         | Some db \<Rightarrow>
             if up then
               (case tokenBucketScript (rd_rate db) (''risk:rate:'' @ key) nowMs rate (of_int burst)
                       (rate_ttl rate burst) of
                  (rates, allowed) \<Rightarrow>
                    (g\<lparr>rg_client := Some (db\<lparr>rd_rate := rates\<rparr>), rg_available := True\<rparr>, allowed))
             else allowLocal nowNs key rate burst (g\<lparr>rg_available := False\<rparr>)))"

section \<open>Concurrency slots\<close>

definition acquireSemaphoreScript ::
    "(string \<times> int) list keyspace \<Rightarrow> string \<Rightarrow> int \<Rightarrow> int \<Rightarrow> int \<Rightarrow> string \<Rightarrow>
     (string \<times> int) list keyspace \<times> bool" where
  "acquireSemaphoreScript db key now expires limit token =
     (let stored = (case redis_get db now key of None \<Rightarrow> [] | Some z \<Rightarrow> z);
          keyExpiry = (case db key of None \<Rightarrow> 0 | Some (z, x) \<Rightarrow> x);
          live = filter (\<lambda>(t, score). now < score) stored
      in if int (length live) \<ge> limit
         then (db(key := (if live = [] then None else Some (live, keyExpiry))), False)
         else (db(key \<mapsto> ((token, expires) # filter (\<lambda>(t, score). t \<noteq> token) live,
                            now + max 1000 (expires - now))), True))"

datatype slot = NoSlot | RedisSlot string string | LocalSlot string

definition acquireLocal :: "string \<Rightarrow> int \<Rightarrow> RedisGuard \<Rightarrow> RedisGuard \<times> slot option" where
  "acquireLocal key limit g =
     (let held = (case rg_semaphores g key of None \<Rightarrow> 0 | Some n \<Rightarrow> n) in
      if held \<ge> limit then (g, None)
      else (g\<lparr>rg_semaphores := (rg_semaphores g)(key \<mapsto> held + 1)\<rparr>, Some (LocalSlot key)))"

definition Acquire ::
    "bool \<Rightarrow> int \<Rightarrow> string \<Rightarrow> string \<Rightarrow> int \<Rightarrow> int \<Rightarrow> RedisGuard \<Rightarrow> RedisGuard \<times> slot option" where
  "Acquire up nowMs token key limit ttlMs g =
     (if limit \<le> 0 then (g, Some NoSlot)
      else
        (case rg_client g of
           None \<Rightarrow> acquireLocal key limit g
         | Some db \<Rightarrow>
             if up then
               (case acquireSemaphoreScript (rd_sem db) (''risk:sem:'' @ key) nowMs (nowMs + ttlMs)
                       limit token of
                  (sems, granted) \<Rightarrow>
                    (g\<lparr>rg_client := Some (db\<lparr>rd_sem := sems\<rparr>), rg_available := True\<rparr>,
                     if granted then Some (RedisSlot key token) else None))
             else acquireLocal key limit (g\<lparr>rg_available := False\<rparr>)))"

definition releaseLocal :: "string \<Rightarrow> RedisGuard \<Rightarrow> RedisGuard" where
  "releaseLocal key g =
     (case rg_semaphores g key of
        None \<Rightarrow> g
      | Some n \<Rightarrow> if n > 1 then g\<lparr>rg_semaphores := (rg_semaphores g)(key \<mapsto> n - 1)\<rparr>
                  else g\<lparr>rg_semaphores := (rg_semaphores g)(key := None)\<rparr>)"

definition zrem :: "(string \<times> int) list keyspace \<Rightarrow> string \<Rightarrow> string \<Rightarrow> (string \<times> int) list keyspace" where
  "zrem db key token =
     (case db key of None \<Rightarrow> db
      | Some (z, x) \<Rightarrow>
          (let z' = filter (\<lambda>(t, score). t \<noteq> token) z
           in db(key := (if z' = [] then None else Some (z', x)))))"

definition release_slot :: "bool \<Rightarrow> slot \<Rightarrow> RedisGuard \<Rightarrow> RedisGuard" where
  "release_slot up s g =
     (case s of
        NoSlot \<Rightarrow> g
      | RedisSlot key token \<Rightarrow>
          (case rg_client g of None \<Rightarrow> g
           | Some db \<Rightarrow> if up then g\<lparr>rg_client := Some (db\<lparr>rd_sem := zrem (rd_sem db) (''risk:sem:'' @ key) token\<rparr>)\<rparr>
                        else g)
      | LocalSlot key \<Rightarrow> releaseLocal key g)"

text \<open>The closure \<open>Acquire\<close> returns: the \<open>sync.Once\<close> is the flag.\<close>

definition call_release :: "bool \<Rightarrow> slot \<times> bool \<Rightarrow> RedisGuard \<Rightarrow> (slot \<times> bool) \<times> RedisGuard" where
  "call_release up closure g =
     (case closure of (s, spent) \<Rightarrow>
        if s = NoSlot \<or> spent then ((s, spent), g) else ((s, True), release_slot up s g))"

section \<open>Nonces, the dead-letter streams and the status\<close>

text \<open>The table \<open>tracking_nonces\<close>: rows of key, nonce and expiry, unique on the first two.\<close>

type_synonym nonce_table = "(string \<times> string) \<rightharpoonup> int"

definition UseNonceFallback :: "bool \<Rightarrow> string \<Rightarrow> string \<Rightarrow> int \<Rightarrow> nonce_table \<Rightarrow> nonce_table \<times> (string + bool)" where
  "UseNonceFallback dbUp keyID nonce expiresAt table =
     (if \<not> dbUp then (table, Inl ''database unavailable'')
      else if table (keyID, nonce) \<noteq> None then (table, Inr False)
      else (table((keyID, nonce) \<mapsto> expiresAt), Inr True))"

definition UseNonce ::
    "bool \<Rightarrow> bool \<Rightarrow> int \<Rightarrow> string \<Rightarrow> string \<Rightarrow> int \<Rightarrow> RedisGuard \<times> nonce_table \<Rightarrow>
     (RedisGuard \<times> nonce_table) \<times> (string + bool)" where
  "UseNonce up dbUp nowMs keyID nonce ttlMs s =
     (case s of (g, table) \<Rightarrow>
        (let fallback = (\<lambda>g'. case UseNonceFallback dbUp keyID nonce (nowMs + ttlMs) table of
                                (table', r) \<Rightarrow> ((g', table'), r))
         in case rg_client g of
              None \<Rightarrow> fallback g
            | Some db \<Rightarrow>
                if up then
                  (let key = ''risk:nonce:'' @ keyID @ '':'' @ nonce;
                       g' = g\<lparr>rg_available := True\<rparr>
                   in if redis_get (rd_nonce db) nowMs key \<noteq> None then ((g', table), Inr False)
                      else ((g'\<lparr>rg_client := Some (db\<lparr>rd_nonce := (rd_nonce db)(key \<mapsto> ((), nowMs + ttlMs))\<rparr>)\<rparr>, table),
                            Inr True))
                else fallback (g\<lparr>rg_available := False\<rparr>)))"

text \<open>\<open>PushDLQ\<close>: the entry that reaches the stream, when the call succeeds.\<close>

definition PushDLQ :: "bool \<Rightarrow> string \<Rightarrow> 'f \<Rightarrow> RedisGuard \<Rightarrow> RedisGuard \<times> (string \<times> 'f) option" where
  "PushDLQ up stream entry g =
     (case rg_client g of
        None \<Rightarrow> (g, None)
      | Some db \<Rightarrow> if up then (g\<lparr>rg_available := True\<rparr>, Some (''risk:dlq:'' @ stream, entry))
                   else (g\<lparr>rg_available := False\<rparr>, None))"

definition SetStreamMaxLen :: "int \<Rightarrow> RedisGuard \<Rightarrow> RedisGuard" where
  "SetStreamMaxLen value g = (if value > 0 then g\<lparr>rg_streamMax := value\<rparr> else g)"

definition guard_status :: "RedisGuard \<Rightarrow> string" where
  "guard_status g =
     (if rg_client g \<noteq> None \<and> rg_available g then ''available''
      else if rg_client g \<noteq> None then ''degraded'' else ''disabled'')"

section \<open>Contract of a token limiter\<close>

text \<open>
  What a client of a limiter relies on: \<open>credit p t s\<close> is what the bucket of \<open>p\<close> holds at
  time \<open>t\<close>. A call is granted exactly when a whole token is there, takes one token, and
  leaves the buckets of other keys alone; credit refills linearly up to the cap.
\<close>

locale token_limiter =
  fixes take_token :: "'p \<Rightarrow> int \<Rightarrow> 's \<Rightarrow> 's \<times> bool"
    and credit :: "'p \<Rightarrow> int \<Rightarrow> 's \<Rightarrow> rat"
    and key_of :: "'p \<Rightarrow> string"
    and cap :: "'p \<Rightarrow> rat"
    and per_tick :: "'p \<Rightarrow> rat"
    and valid :: "'p \<Rightarrow> bool"
    and good :: "'p \<Rightarrow> int \<Rightarrow> 's \<Rightarrow> bool"
  assumes good_take: "good p t s \<Longrightarrow> t \<le> t' \<Longrightarrow> valid p \<Longrightarrow> valid q \<Longrightarrow>
      q = p \<or> key_of p \<noteq> key_of q \<Longrightarrow> good p t' (fst (take_token q t' s))"
    and decides: "good p t s \<Longrightarrow> t \<le> t' \<Longrightarrow> valid p \<Longrightarrow> snd (take_token p t' s) \<longleftrightarrow> 1 \<le> credit p t' s"
    and spends: "good p t s \<Longrightarrow> t \<le> t' \<Longrightarrow> valid p \<Longrightarrow>
      credit p t' (fst (take_token p t' s)) = credit p t' s - (if snd (take_token p t' s) then 1 else 0)"
    and others: "good p t s \<Longrightarrow> t \<le> t' \<Longrightarrow> valid p \<Longrightarrow> valid q \<Longrightarrow> key_of p \<noteq> key_of q \<Longrightarrow>
      credit p t' (fst (take_token q t' s)) = credit p t' s"
    and refill: "good p t s \<Longrightarrow> t \<le> t' \<Longrightarrow> valid p \<Longrightarrow>
      credit p t' s = min (cap p) (credit p t s + of_int (t' - t) * per_tick p)"
    and credit_nonneg: "good p t s \<Longrightarrow> valid p \<Longrightarrow> 0 \<le> credit p t s"
    and rate_nonneg: "valid p \<Longrightarrow> 0 \<le> per_tick p"

text \<open>A sequence of calls, the verdicts that concern one client, and the ideal bucket.\<close>

fun in_order :: "int \<Rightarrow> ('p \<times> int) list \<Rightarrow> bool" where
  "in_order t [] = True"
| "in_order t ((q, t') # cs) = (t \<le> t' \<and> in_order t' cs)"

fun verdicts :: "('p \<Rightarrow> int \<Rightarrow> 's \<Rightarrow> 's \<times> bool) \<Rightarrow> 'p \<Rightarrow> ('p \<times> int) list \<Rightarrow> 's \<Rightarrow> bool list" where
  "verdicts f p [] s = []"
| "verdicts f p ((q, t) # cs) s =
     (case f q t s of (s', ok) \<Rightarrow> (if q = p then ok # verdicts f p cs s' else verdicts f p cs s'))"

fun times_of :: "'p \<Rightarrow> ('p \<times> int) list \<Rightarrow> int list" where
  "times_of p [] = []"
| "times_of p ((q, t) # cs) = (if q = p then t # times_of p cs else times_of p cs)"

fun ideal_bucket :: "rat \<Rightarrow> rat \<Rightarrow> rat \<Rightarrow> int \<Rightarrow> int list \<Rightarrow> bool list" where
  "ideal_bucket cap r level t [] = []"
| "ideal_bucket cap r level t (t' # ts) =
     (let l = min cap (level + of_int (t' - t) * r)
      in if 1 \<le> l then True # ideal_bucket cap r (l - 1) t' ts else False # ideal_bucket cap r l t' ts)"

lemma ideal_bucket_wait:
  assumes "t \<le> t'" and "0 \<le> r" and "\<forall>x \<in> set ts. t' \<le> x"
  shows "ideal_bucket cap r (min cap (level + of_int (t' - t) * r)) t' ts = ideal_bucket cap r level t ts"
proof (cases ts)
  case (Cons x xs)
  with assms have "0 \<le> of_int (x - t') * r" by simp
  moreover have "of_int (x - t') * r + of_int (t' - t) * r = of_int (x - t) * r"
    by (simp add: algebra_simps)
  ultimately have "min cap (min cap (level + of_int (t' - t) * r) + of_int (x - t') * r)
      = min cap (level + of_int (x - t) * r)" by linarith
  with Cons show ?thesis by (simp add: Let_def)
qed simp

lemma in_order_times: "in_order t cs \<Longrightarrow> \<forall>x \<in> set (times_of p cs). t \<le> x"
proof (induction p cs arbitrary: t rule: times_of.induct)
  case (2 p q t' cs)
  then have "t \<le> t'" "in_order t' cs" by auto
  with 2(1,2) [of t'] show ?case by (cases "q = p") (auto intro: order_trans)
qed simp

text \<open>The window bound of the ideal bucket.\<close>

definition last_time :: "int \<Rightarrow> int list \<Rightarrow> int" where
  "last_time t ts = (if ts = [] then t else last ts)"

lemma ideal_bucket_bound:
  assumes "0 \<le> r" and "level \<le> cap" and "0 \<le> level" and "sorted (t # ts)"
  shows "of_nat (length (filter id (ideal_bucket cap r level t ts)))
    \<le> level + of_int (last_time t ts - t) * r"
  using assms(2-4)
proof (induction ts arbitrary: level t)
  case (Cons x xs)
  define l where "l = min cap (level + of_int (x - t) * r)"
  have d: "0 \<le> of_int (x - t) * r" using assms(1) Cons(4) by simp
  then have l: "0 \<le> l" "l \<le> cap" "l \<le> level + of_int (x - t) * r"
    using Cons(2,3) by (auto simp: l_def)
  have e: "of_int (last_time t (x # xs) - t) * r
      = of_int (last_time x xs - x) * r + of_int (x - t) * r"
    by (simp add: last_time_def algebra_simps)
  have s: "sorted (x # xs)" using Cons(4) by simp
  have run: "ideal_bucket cap r level t (x # xs)
      = (if 1 \<le> l then True # ideal_bucket cap r (l - 1) x xs else False # ideal_bucket cap r l x xs)"
    unfolding ideal_bucket.simps Let_def l_def ..
  show ?case
  proof (cases "1 \<le> l")
    case True
    then have "l - 1 \<le> cap" "0 \<le> l - 1" using l by auto
    from Cons(1) [OF this s] True l(3) show ?thesis unfolding run e by simp
  next
    case False
    from Cons(1) [OF l(2,1) s] False l(3) show ?thesis unfolding run e by simp
  qed
qed (simp add: last_time_def)

context token_limiter
begin

text \<open>Whatever other keys do in between, the verdicts are those of the ideal bucket.\<close>

lemma verdicts_ideal:
  assumes "good p t s" and "in_order t cs" and "valid p"
    and "\<forall>(q, x) \<in> set cs. valid q \<and> (q = p \<or> key_of p \<noteq> key_of q)"
  shows "verdicts take_token p cs s = ideal_bucket (cap p) (per_tick p) (credit p t s) t (times_of p cs)"
  using assms
proof (induction cs arbitrary: s t)
  case (Cons c cs)
  obtain q t' where c: "c = (q, t')" by fastforce
  obtain s' ok where s': "take_token q t' s = (s', ok)" by fastforce
  from Cons(3) c have t: "t \<le> t'" and o: "in_order t' cs" by auto
  from Cons(5) c have q: "valid q" "q = p \<or> key_of p \<noteq> key_of q" by auto
  have g: "good p t' s'" using good_take [OF Cons(2) t Cons(4) q] s' by simp
  from Cons(5) have all: "\<forall>(q, x) \<in> set cs. valid q \<and> (q = p \<or> key_of p \<noteq> key_of q)" by simp
  note IH = Cons(1) [OF g o Cons(4) all]
  show ?case
  proof (cases "q = p")
    case True
    from decides [OF Cons(2) t Cons(4)] spends [OF Cons(2) t Cons(4)] refill [OF Cons(2) t Cons(4)]
    show ?thesis using s' IH c True by (auto simp: Let_def)
  next
    case False
    with q have "credit p t' s' = credit p t' s"
      using others [OF Cons(2) t Cons(4) q(1)] s' by simp
    moreover have "\<forall>x \<in> set (times_of p cs). t' \<le> x" using in_order_times [OF o] .
    ultimately show ?thesis
      using ideal_bucket_wait [OF t rate_nonneg [OF Cons(4)], of "times_of p cs" "cap p" "credit p t s"]
        IH c False s' refill [OF Cons(2) t Cons(4)]
      by simp
  qed
qed simp

lemma times_sorted: "in_order t cs \<Longrightarrow> sorted (t # times_of p cs)"
proof (induction p cs arbitrary: t rule: times_of.induct)
  case (2 p q t' cs)
  then have "t \<le> t'" "in_order t' cs" by auto
  with 2(1,2) [of t'] show ?case by (cases "q = p") (auto intro: order_trans)
qed simp

lemma window_bound:
  assumes "good p t s" and "in_order t cs" and "valid p"
    and "\<forall>(q, x) \<in> set cs. valid q \<and> (q = p \<or> key_of p \<noteq> key_of q)"
  shows "of_nat (length (filter id (verdicts take_token p cs s)))
    \<le> credit p t s + of_int (last_time t (times_of p cs) - t) * per_tick p"
proof -
  have "credit p t s \<le> cap p"
    using refill [OF assms(1) order_refl assms(3)] by simp
  with ideal_bucket_bound [OF rate_nonneg [OF assms(3)] _ credit_nonneg [OF assms(1,3)]
      times_sorted [OF assms(2)]] show ?thesis
    unfolding verdicts_ideal [OF assms] by blast
qed

end

section \<open>Both buckets meet the contract\<close>

type_synonym limiter = "string \<times> rat \<times> int"

definition limiter_key :: "limiter \<Rightarrow> string" where
  "limiter_key p = fst p"

definition local_take :: "limiter \<Rightarrow> int \<Rightarrow> RedisGuard \<Rightarrow> RedisGuard \<times> bool" where
  "local_take p t g = (case p of (key, rate, burst) \<Rightarrow> allowLocal t key rate burst g)"

definition local_credit :: "limiter \<Rightarrow> int \<Rightarrow> RedisGuard \<Rightarrow> rat" where
  "local_credit p t g =
     (case p of (key, rate, burst) \<Rightarrow>
        (case rg_buckets g key of
           None \<Rightarrow> of_int burst
         | Some b \<Rightarrow> min (of_int burst) (lb_tokens b + of_int (t - lb_last b) / 1000000000 * rate)))"

text \<open>Idle buckets are dropped after ten minutes; a valid limiter is full again by then.\<close>

definition local_valid :: "limiter \<Rightarrow> bool" where
  "local_valid p = (case p of (key, rate, burst) \<Rightarrow> 0 < rate \<and> 0 < burst \<and> of_int burst \<le> 600 * rate)"

definition local_good :: "limiter \<Rightarrow> int \<Rightarrow> RedisGuard \<Rightarrow> bool" where
  "local_good p t g \<longleftrightarrow>
     (\<forall>k b. rg_buckets g k = Some b \<longrightarrow> lb_last b \<le> t \<and> 0 \<le> lb_tokens b)"

lemma evict_idle_other: "evict_idle t bs k = (case bs k of None \<Rightarrow> None
    | Some b \<Rightarrow> if lb_last b < t - 600000000000 then None else Some b)"
  by (simp add: evict_idle_def Let_def)

lemma evicted_is_full:
  assumes "0 < rate" and "of_int burst \<le> 600 * rate" and "0 \<le> lb_tokens b"
    and "lb_last b < t - 600000000000"
  shows "of_int burst \<le> lb_tokens b + of_int (t - lb_last b) / 1000000000 * rate"
proof -
  have "600000000000 \<le> t - lb_last b" using assms(4) by simp
  then have "(600000000000::rat) \<le> of_int (t - lb_last b)" by (metis of_int_le_iff of_int_numeral)
  then have "(600::rat) \<le> of_int (t - lb_last b) / 1000000000" by simp
  then have "600 * rate \<le> of_int (t - lb_last b) / 1000000000 * rate"
    using assms(1) by (intro mult_right_mono) auto
  with assms(2,3) show ?thesis by linarith
qed

text \<open>The credit a bucket map gives, before and after the sweep.\<close>

definition map_credit :: "rat \<Rightarrow> int \<Rightarrow> int \<Rightarrow> localBucket option \<Rightarrow> rat" where
  "map_credit rate burst t bo =
     (case bo of None \<Rightarrow> of_int burst
      | Some b \<Rightarrow> min (of_int burst) (lb_tokens b + of_int (t - lb_last b) / 1000000000 * rate))"

lemma local_credit_map: "local_credit (k, r, b) t g = map_credit r b t (rg_buckets g k)"
  by (simp add: local_credit_def map_credit_def)

lemma map_credit_evict:
  assumes "0 < rate" and "of_int burst \<le> 600 * rate"
    and "\<And>b. bs k = Some b \<Longrightarrow> 0 \<le> lb_tokens b"
  shows "map_credit rate burst t (evict_idle t bs k) = map_credit rate burst t (bs k)"
  using assms evicted_is_full [of rate burst _ t]
  by (auto simp: map_credit_def evict_idle_other min_def split: option.split)

lemma allowLocal_cases:
  fixes g key t rate burst
  defines "bs \<equiv> swept (rg_operations g + 1) t (rg_buckets g)"
  defines "c \<equiv> map_credit rate burst t (bs key)"
  shows "snd (allowLocal t key rate burst g) \<longleftrightarrow> 1 \<le> c" (is ?A)
    and "rg_buckets (fst (allowLocal t key rate burst g)) =
      bs(key \<mapsto> \<lparr>lb_tokens = (if 1 \<le> c then c - 1 else c), lb_last = t\<rparr>)" (is ?B)
proof -
  have "?A \<and> ?B"
    unfolding allowLocal_def bs_def [symmetric] Let_def c_def map_credit_def
    by (cases "bs key") (simp_all add: min_def)
  then show ?A ?B by blast+
qed

lemma swept_credit:
  assumes "local_good p t g" and "t \<le> t'" and "local_valid (k, r, b)"
  shows "map_credit r b t' (swept ops t' (rg_buckets g) k) = map_credit r b t' (rg_buckets g k)"
  using assms map_credit_evict [of r b "rg_buckets g" k t']
  unfolding local_good_def local_valid_def swept_def by auto

lemma map_credit_nonneg:
  assumes "0 < r" and "0 < b" and "\<And>x. bo = Some x \<Longrightarrow> lb_last x \<le> t \<and> 0 \<le> lb_tokens x"
  shows "0 \<le> map_credit r b t bo"
  using assms by (auto simp: map_credit_def split: option.split)

lemma min_refill:
  fixes b x c d e :: rat
  shows "0 \<le> d \<Longrightarrow> e = c + d \<Longrightarrow> min b (x + e) = min b (min b (x + c) + d)"
  by linarith

lemma map_credit_refill:
  assumes "0 < r" and "t \<le> t'"
  shows "map_credit r b t' bo = min (of_int b) (map_credit r b t bo + of_int (t' - t) * (r / 1000000000))"
proof (cases bo)
  case None
  have "0 \<le> of_int (t' - t) * (r / 1000000000)" using assms by simp
  with None show ?thesis by (simp add: map_credit_def)
next
  case (Some x)
  have "0 \<le> of_int (t' - t) * (r / 1000000000)" using assms by simp
  moreover have "of_int (t' - lb_last x) / 1000000000 * r
      = of_int (t - lb_last x) / 1000000000 * r + of_int (t' - t) * (r / 1000000000)"
    by (simp add: field_simps)
  ultimately show ?thesis unfolding map_credit_def Some option.case by (intro min_refill)
qed

lemma sweep_good:
  assumes "local_good p t g" and "t \<le> t'" and "swept ops t' (rg_buckets g) k = Some b"
  shows "lb_last b \<le> t' \<and> 0 \<le> lb_tokens b"
proof -
  have "rg_buckets g k = Some b"
    using assms(3) unfolding swept_def evict_idle_other by (auto split: if_splits option.splits)
  with assms(1,2) show ?thesis unfolding local_good_def by (meson order_trans)
qed

lemma local_take_facts:
  assumes "local_good p t g" and "t \<le> t'" and "local_valid (k, r, b)"
  shows "snd (local_take (k, r, b) t' g) \<longleftrightarrow> 1 \<le> local_credit (k, r, b) t' g"
    and "local_credit (k, r, b) t' (fst (local_take (k, r, b) t' g))
      = local_credit (k, r, b) t' g - (if snd (local_take (k, r, b) t' g) then 1 else 0)"
proof -
  let ?c = "map_credit r b t' (swept (rg_operations g + 1) t' (rg_buckets g) k)"
  have c: "?c = local_credit (k, r, b) t' g"
    using swept_credit [OF assms] by (simp add: local_credit_map)
  have le: "?c \<le> of_int b" by (simp add: map_credit_def split: option.split)
  show 1: "snd (local_take (k, r, b) t' g) \<longleftrightarrow> 1 \<le> local_credit (k, r, b) t' g"
    by (simp add: local_take_def allowLocal_cases c)
  have "rg_buckets (fst (local_take (k, r, b) t' g)) k
      = Some \<lparr>lb_tokens = (if 1 \<le> ?c then ?c - 1 else ?c), lb_last = t'\<rparr>"
    by (simp add: local_take_def allowLocal_cases)
  with le have "local_credit (k, r, b) t' (fst (local_take (k, r, b) t' g)) = (if 1 \<le> ?c then ?c - 1 else ?c)"
    by (simp add: local_credit_map map_credit_def)
  with 1 c show "local_credit (k, r, b) t' (fst (local_take (k, r, b) t' g))
      = local_credit (k, r, b) t' g - (if snd (local_take (k, r, b) t' g) then 1 else 0)" by simp
qed

lemma local_take_good:
  assumes "local_good p t g" and "t \<le> t'" and "local_valid q"
  shows "local_good p t' (fst (local_take q t' g))"
proof -
  obtain k r b where q: "q = (k, r, b)" by (metis prod_cases3)
  let ?bs = "swept (rg_operations g + 1) t' (rg_buckets g)"
  have "0 \<le> map_credit r b t' (?bs k)"
    using assms q sweep_good [OF assms(1,2)] by (intro map_credit_nonneg) (auto simp: local_valid_def)
  then show ?thesis
    using sweep_good [OF assms(1,2)]
    by (auto simp: local_good_def local_take_def q allowLocal_cases split: if_splits)
qed

lemma local_take_other:
  assumes "local_good p t g" and "t \<le> t'" and "local_valid p" and "limiter_key p \<noteq> limiter_key q"
  shows "local_credit p t' (fst (local_take q t' g)) = local_credit p t' g"
proof -
  obtain k r b where p: "p = (k, r, b)" by (metis prod_cases3)
  obtain k' r' b' where q: "q = (k', r', b')" by (metis prod_cases3)
  have v: "local_valid (k, r, b)" using assms(3) p by simp
  show ?thesis
    using assms(4) swept_credit [OF assms(1,2) v]
    by (simp add: p q limiter_key_def local_take_def local_credit_map allowLocal_cases)
qed

interpretation local_limiter: token_limiter
  local_take local_credit limiter_key "\<lambda>p. of_int (snd (snd p))"
  "\<lambda>p. fst (snd p) / 1000000000" local_valid local_good
proof (unfold_locales, goal_cases)
  case (1 p t s t' q)
  then show ?case by (intro local_take_good)
next
  case (2 p t s t')
  then show ?case using local_take_facts(1) [of p t s t'] by (cases p) auto
next
  case (3 p t s t')
  then show ?case using local_take_facts(2) [of p t s t'] by (cases p) auto
next
  case (4 p t s t' q)
  then show ?case by (intro local_take_other)
next
  case (5 p t s t')
  then show ?case by (cases p) (simp add: local_credit_map map_credit_refill local_valid_def)
next
  case (6 p t s)
  then show ?case
    by (cases p) (auto simp: local_credit_map local_valid_def local_good_def intro!: map_credit_nonneg)
next
  case (7 p)
  then show ?case by (cases p) (simp add: local_valid_def)
qed

subsection \<open>The Redis script\<close>

definition redis_take :: "limiter \<Rightarrow> int \<Rightarrow> (rat \<times> int) keyspace \<Rightarrow> (rat \<times> int) keyspace \<times> bool" where
  "redis_take p t db =
     (case p of (key, rate, burst) \<Rightarrow> tokenBucketScript db key t rate (of_int burst) (rate_ttl rate burst))"

definition redis_credit :: "limiter \<Rightarrow> int \<Rightarrow> (rat \<times> int) keyspace \<Rightarrow> rat" where
  "redis_credit p t db =
     (case p of (key, rate, burst) \<Rightarrow>
        (case redis_get db t key of
           None \<Rightarrow> of_int burst
         | Some (tokens, ts) \<Rightarrow> min (of_int burst) (tokens + of_int (max 0 (t - ts)) / 1000 * rate)))"

definition redis_valid :: "limiter \<Rightarrow> bool" where
  "redis_valid p = (case p of (key, rate, burst) \<Rightarrow> 0 < rate \<and> 0 < burst)"

text \<open>The bucket of \<open>p\<close> was last written by \<open>p\<close>, at or before \<open>t\<close>.\<close>

definition redis_good :: "limiter \<Rightarrow> int \<Rightarrow> (rat \<times> int) keyspace \<Rightarrow> bool" where
  "redis_good p t db =
     (case p of (key, rate, burst) \<Rightarrow>
        (\<forall>tokens ts expires. db key = Some ((tokens, ts), expires) \<longrightarrow>
           0 \<le> tokens \<and> ts \<le> t \<and> expires = ts + rate_ttl rate burst))"

text \<open>A key expires only after its bucket is full again.\<close>

lemma expired_is_full:
  assumes "0 < rate" and "0 < burst" and "0 \<le> tokens" and "ts + rate_ttl rate burst \<le> t"
  shows "of_int burst \<le> tokens + of_int (t - ts) / 1000 * rate"
proof -
  define w where "w = of_int burst / rate"
  have "w * 2000 < of_int (rate_ttl rate burst)"
    unfolding rate_ttl_def w_def by linarith
  moreover have "(of_int (rate_ttl rate burst) :: rat) \<le> of_int (t - ts)"
    using assms(4) by linarith
  moreover have "0 < w" using assms(1,2) by (simp add: w_def)
  ultimately have "w * 1000 \<le> of_int (t - ts)" by linarith
  then have "of_int burst / rate * 1000 \<le> of_int (t - ts)" by (simp only: w_def)
  then have "of_int burst \<le> of_int (t - ts) / 1000 * rate"
    using assms(1) by (simp add: field_simps)
  with assms(3) show ?thesis by linarith
qed

definition entry_credit :: "rat \<Rightarrow> int \<Rightarrow> int \<Rightarrow> (rat \<times> int) option \<Rightarrow> rat" where
  "entry_credit rate burst t eo =
     (case eo of None \<Rightarrow> of_int burst
      | Some (tokens, ts) \<Rightarrow> min (of_int burst) (tokens + of_int (t - ts) / 1000 * rate))"

lemma redis_credit_entry:
  assumes "redis_good (k, r, b) t db" and "t \<le> t'" and "redis_valid (k, r, b)"
  shows "redis_credit (k, r, b) t' db = entry_credit r b t' (map_option fst (db k))"
proof (cases "db k")
  case (Some e)
  obtain tokens ts x where e: "e = ((tokens, ts), x)" by (metis prod.collapse)
  with assms Some have "0 \<le> tokens" "ts \<le> t'" "x = ts + rate_ttl r b" "0 < r" "0 < b"
    by (auto simp: redis_good_def redis_valid_def)
  with Some e expired_is_full [of r b tokens ts t'] show ?thesis
    by (auto simp: redis_credit_def entry_credit_def redis_get_def max_def min_def not_less)
qed (simp add: redis_credit_def entry_credit_def redis_get_def)

lemma tokenBucketScript_cases:
  assumes "redis_good (k, r, b) t db" and "t \<le> t'" and "redis_valid (k, r, b)"
  defines "c \<equiv> entry_credit r b t' (map_option fst (db k))"
  shows "redis_take (k, r, b) t' db =
    (db(k \<mapsto> ((if 1 \<le> c then c - 1 else c, t'), t' + rate_ttl r b)), 1 \<le> c)"
proof -
  have c: "c = redis_credit (k, r, b) t' db" using redis_credit_entry assms by simp
  show ?thesis
  proof (cases "redis_get db t' k")
    case None
    with c have "c = min (of_int b) (of_int b + of_int (max 0 (t' - t')) / 1000 * r)"
      by (simp add: redis_credit_def)
    with None show ?thesis
      unfolding redis_take_def tokenBucketScript_def Let_def by (simp only: prod.case option.case)
  next
    case (Some e)
    obtain tok ts where e: "e = (tok, ts)" by fastforce
    with c Some have "c = min (of_int b) (tok + of_int (max 0 (t' - ts)) / 1000 * r)"
      by (simp add: redis_credit_def)
    with Some e show ?thesis
      unfolding redis_take_def tokenBucketScript_def Let_def by (simp only: prod.case option.case)
  qed
qed

lemma redis_take_facts:
  assumes "redis_good (k, r, b) t db" and "t \<le> t'" and "redis_valid (k, r, b)"
  shows "snd (redis_take (k, r, b) t' db) \<longleftrightarrow> 1 \<le> redis_credit (k, r, b) t' db"
    and "redis_credit (k, r, b) t' (fst (redis_take (k, r, b) t' db))
      = redis_credit (k, r, b) t' db - (if snd (redis_take (k, r, b) t' db) then 1 else 0)"
    and "redis_good (k, r, b) t' (fst (redis_take (k, r, b) t' db))"
proof -
  let ?c = "entry_credit r b t' (map_option fst (db k))"
  note take = tokenBucketScript_cases [OF assms]
  have c: "redis_credit (k, r, b) t' db = ?c" using redis_credit_entry [OF assms] .
  show 1: "snd (redis_take (k, r, b) t' db) \<longleftrightarrow> 1 \<le> redis_credit (k, r, b) t' db"
    by (simp add: take c)
  have "0 \<le> ?c" and le: "?c \<le> of_int b"
    using assms by (auto simp: entry_credit_def redis_good_def redis_valid_def split: option.split)
  then show g: "redis_good (k, r, b) t' (fst (redis_take (k, r, b) t' db))"
    by (simp add: take redis_good_def)
  from redis_credit_entry [OF g order_refl assms(3)] le
  show "redis_credit (k, r, b) t' (fst (redis_take (k, r, b) t' db))
      = redis_credit (k, r, b) t' db - (if snd (redis_take (k, r, b) t' db) then 1 else 0)"
    by (simp add: take c entry_credit_def)
qed

lemma redis_take_frame:
  assumes "limiter_key p \<noteq> limiter_key q"
  shows "fst (redis_take q t db) (limiter_key p) = db (limiter_key p)"
  using assms by (auto simp: redis_take_def tokenBucketScript_def Let_def limiter_key_def split: prod.split)

lemma entry_credit_refill:
  assumes "0 < r" and "t \<le> t'"
  shows "entry_credit r b t' eo = min (of_int b) (entry_credit r b t eo + of_int (t' - t) * (r / 1000))"
proof -
  have d: "0 \<le> of_int (t' - t) * (r / 1000)" using assms by simp
  show ?thesis
  proof (cases eo)
    case None
    with d show ?thesis by (simp add: entry_credit_def)
  next
    case (Some e)
    obtain x ts where e: "e = (x, ts)" by fastforce
    have "of_int (t' - ts) / 1000 * r = of_int (t - ts) / 1000 * r + of_int (t' - t) * (r / 1000)"
      by (simp add: field_simps)
    with d show ?thesis
      unfolding entry_credit_def Some e option.case prod.case by (intro min_refill)
  qed
qed

lemma redis_good_later: "redis_good p t db \<Longrightarrow> t \<le> t' \<Longrightarrow> redis_good p t' db"
  by (fastforce simp: redis_good_def split: prod.splits)

interpretation redis_limiter: token_limiter
  redis_take redis_credit limiter_key "\<lambda>p. of_int (snd (snd p))"
  "\<lambda>p. fst (snd p) / 1000" redis_valid redis_good
proof (unfold_locales, goal_cases)
  case (1 p t s t' q)
  show ?case
  proof (cases "q = p")
    case True
    with 1 redis_take_facts(3) [of "fst p" "fst (snd p)" "snd (snd p)" t s t'] show ?thesis by simp
  next
    case False
    with 1 have "fst (redis_take q t' s) (limiter_key p) = s (limiter_key p)"
      by (intro redis_take_frame) auto
    with redis_good_later [OF 1(1,2)] show ?thesis
      by (simp add: redis_good_def limiter_key_def split: prod.splits)
  qed
next
  case (2 p t s t')
  then show ?case using redis_take_facts(1) [of "fst p" "fst (snd p)" "snd (snd p)" t s t'] by simp
next
  case (3 p t s t')
  then show ?case using redis_take_facts(2) [of "fst p" "fst (snd p)" "snd (snd p)" t s t'] by simp
next
  case (4 p t s t' q)
  then have "fst (redis_take q t' s) (limiter_key p) = s (limiter_key p)"
    by (intro redis_take_frame)
  then show ?case
    by (cases p) (simp add: redis_credit_def redis_get_def limiter_key_def)
next
  case (5 p t s t')
  then show ?case
    using entry_credit_refill [of "fst (snd p)" t t' "snd (snd p)"]
      redis_credit_entry [of "fst p" "fst (snd p)" "snd (snd p)" t s t']
      redis_credit_entry [of "fst p" "fst (snd p)" "snd (snd p)" t s t]
    by (simp add: redis_valid_def split: prod.splits)
next
  case (6 p t s)
  then show ?case
    using redis_credit_entry [of "fst p" "fst (snd p)" "snd (snd p)" t s t]
    by (auto simp: entry_credit_def redis_good_def redis_valid_def split: prod.splits option.splits)
next
  case (7 p)
  then show ?case by (simp add: redis_valid_def split: prod.splits)
qed

section \<open>Contract of a slot pool\<close>

text \<open>
  A pool of slots per key: \<open>in_use p s\<close> is what the pool counts. A grant keeps the count within
  the limit, a refusal means the pool is full, a release never raises the count, and the pools
  of other keys are not touched.
\<close>

locale slot_pool =
  fixes acquire :: "'p \<Rightarrow> 'c \<Rightarrow> 's \<Rightarrow> 's \<times> bool"
    and release :: "'p \<Rightarrow> 'c \<Rightarrow> 's \<Rightarrow> 's"
    and in_use :: "'p \<Rightarrow> 's \<Rightarrow> int"
    and limit_of :: "'p \<Rightarrow> int"
    and pool_key :: "'p \<Rightarrow> string"
  assumes granted: "0 < limit_of p \<Longrightarrow> acquire p c s = (s', True) \<Longrightarrow> in_use p s' \<le> limit_of p"
    and refused: "acquire p c s = (s', False) \<Longrightarrow> limit_of p \<le> in_use p s' \<and> in_use p s' \<le> in_use p s"
    and released: "in_use p (release p c s) \<le> in_use p s"
    and acquire_other: "pool_key p \<noteq> pool_key q \<Longrightarrow> in_use p (fst (acquire q c s)) = in_use p s"
    and release_other: "pool_key p \<noteq> pool_key q \<Longrightarrow> in_use p (release q c s) = in_use p s"

datatype ('p, 'c) pool_call = AcquireCall 'p 'c | ReleaseCall 'p 'c

fun pool_client :: "('p, 'c) pool_call \<Rightarrow> 'p" where
  "pool_client (AcquireCall p c) = p"
| "pool_client (ReleaseCall p c) = p"

fun pool_step :: "('p \<Rightarrow> 'c \<Rightarrow> 's \<Rightarrow> 's \<times> bool) \<Rightarrow> ('p \<Rightarrow> 'c \<Rightarrow> 's \<Rightarrow> 's) \<Rightarrow> 's \<Rightarrow> ('p, 'c) pool_call \<Rightarrow> 's" where
  "pool_step acq rel s (AcquireCall p c) = fst (acq p c s)"
| "pool_step acq rel s (ReleaseCall p c) = rel p c s"

context slot_pool
begin

lemma step_within:
  assumes "0 < limit_of p" and "in_use p s \<le> limit_of p"
    and "pool_client call = p \<or> pool_key p \<noteq> pool_key (pool_client call)"
  shows "in_use p (pool_step acquire release s call) \<le> limit_of p"
proof (cases call)
  case (AcquireCall q c)
  obtain s' ok where r: "acquire q c s = (s', ok)" by fastforce
  show ?thesis
  proof (cases "q = p")
    case True
    with r AcquireCall assms(1,2) granted [of p c s s'] refused [of p c s s'] show ?thesis
      by (cases ok) auto
  next
    case False
    with AcquireCall assms acquire_other [of p q c s] show ?thesis by simp
  qed
next
  case (ReleaseCall q c)
  show ?thesis
  proof (cases "q = p")
    case True
    with ReleaseCall assms(2) released [of p c s] show ?thesis by simp
  next
    case False
    with ReleaseCall assms release_other [of p q c s] show ?thesis by simp
  qed
qed

lemma within_limit:
  assumes "0 < limit_of p" and "in_use p s \<le> limit_of p"
    and "\<forall>call \<in> set calls. pool_client call = p \<or> pool_key p \<noteq> pool_key (pool_client call)"
  shows "in_use p (foldl (pool_step acquire release) s calls) \<le> limit_of p"
  by (rule foldl_invariant [of "\<lambda>x. in_use p x \<le> limit_of p"]) (use assms step_within in auto)

lemma refused_only_when_full: "acquire p c s = (s', False) \<Longrightarrow> limit_of p \<le> in_use p s"
  using refused by force

end

section \<open>Both semaphores meet the contract\<close>

type_synonym pool = "string \<times> int"

definition local_acquire :: "pool \<Rightarrow> unit \<Rightarrow> RedisGuard \<Rightarrow> RedisGuard \<times> bool" where
  "local_acquire p c g = (case acquireLocal (fst p) (snd p) g of (g', s) \<Rightarrow> (g', s \<noteq> None))"

definition local_release :: "pool \<Rightarrow> unit \<Rightarrow> RedisGuard \<Rightarrow> RedisGuard" where
  "local_release p c g = releaseLocal (fst p) g"

definition local_in_use :: "pool \<Rightarrow> RedisGuard \<Rightarrow> int" where
  "local_in_use p g = (case rg_semaphores g (fst p) of None \<Rightarrow> 0 | Some n \<Rightarrow> max 0 n)"

interpretation local_pool: slot_pool local_acquire local_release local_in_use snd fst
  by unfold_locales
    (auto simp: local_acquire_def acquireLocal_def local_release_def releaseLocal_def local_in_use_def
      Let_def split: option.splits if_splits prod.splits)

definition redis_acquire ::
    "pool \<Rightarrow> int \<times> int \<times> string \<Rightarrow> (string \<times> int) list keyspace \<Rightarrow> (string \<times> int) list keyspace \<times> bool" where
  "redis_acquire p c db =
     (case c of (now, ttl, token) \<Rightarrow> acquireSemaphoreScript db (fst p) now (now + ttl) (snd p) token)"

definition redis_release ::
    "pool \<Rightarrow> int \<times> int \<times> string \<Rightarrow> (string \<times> int) list keyspace \<Rightarrow> (string \<times> int) list keyspace" where
  "redis_release p c db = (case c of (now, ttl, token) \<Rightarrow> zrem db (fst p) token)"

definition entries :: "(string \<times> int) list keyspace \<Rightarrow> string \<Rightarrow> (string \<times> int) list" where
  "entries db key = (case db key of None \<Rightarrow> [] | Some (z, x) \<Rightarrow> z)"

definition redis_in_use :: "pool \<Rightarrow> (string \<times> int) list keyspace \<Rightarrow> int" where
  "redis_in_use p db = int (length (entries db (fst p)))"

lemma live_entries:
  "length (filter P (case redis_get db now key of None \<Rightarrow> [] | Some z \<Rightarrow> z)) \<le> length (entries db key)"
  by (auto simp: redis_get_def entries_def intro: le_trans [OF length_filter_le] split: option.split)

interpretation redis_pool: slot_pool redis_acquire redis_release redis_in_use snd fst
proof (unfold_locales, goal_cases)
  case (1 p c s s')
  obtain now ttl token where c: "c = (now, ttl, token)" by (metis prod_cases3)
  let ?live = "filter (\<lambda>(t, score). now < score) (case redis_get s now (fst p) of None \<Rightarrow> [] | Some z \<Rightarrow> z)"
  have "length (filter (\<lambda>(t, score). t \<noteq> token) ?live) \<le> length ?live" by (rule length_filter_le)
  with 1 c show ?case
    by (auto simp: redis_acquire_def acquireSemaphoreScript_def Let_def redis_in_use_def entries_def
        split: if_splits)
next
  case (2 p c s s')
  obtain now ttl token where c: "c = (now, ttl, token)" by (metis prod_cases3)
  with 2 live_entries [of "\<lambda>(t, score). now < score" s now "fst p"] show ?case
    by (auto simp: redis_acquire_def acquireSemaphoreScript_def Let_def redis_in_use_def entries_def
        split: if_splits)
next
  case (3 p c s)
  then show ?case
    by (cases c) (auto simp: redis_release_def zrem_def Let_def redis_in_use_def entries_def
        intro: length_filter_le split: option.split prod.split)
next
  case (4 p q c s)
  then show ?case
    by (cases c) (simp add: redis_acquire_def acquireSemaphoreScript_def Let_def redis_in_use_def entries_def)
next
  case (5 p q c s)
  obtain now ttl token where c: "c = (now, ttl, token)" by (metis prod_cases3)
  show ?case
  proof (cases "s (fst q)")
    case None
    with c show ?thesis by (simp add: redis_release_def zrem_def)
  next
    case (Some e)
    with c 5 show ?thesis
      by (cases e) (simp add: redis_release_def zrem_def Let_def redis_in_use_def entries_def)
  qed
qed

text \<open>
  A granted slot stays counted until it is released or its expiry: the calls of one route use
  one \<open>ttl\<close>, and \<open>sem_inv\<close> says no entry outlives the key.
\<close>

definition sem_inv :: "int \<Rightarrow> int \<Rightarrow> string \<Rightarrow> (string \<times> int) list keyspace \<Rightarrow> bool" where
  "sem_inv ttl t key db \<longleftrightarrow>
     (\<forall>z x. db key = Some (z, x) \<longrightarrow> (\<forall>(tok, e) \<in> set z. e \<le> x \<and> e \<le> t + ttl))"

datatype sem_call = SemAcquire int string int | SemRelease int string

fun sem_time :: "sem_call \<Rightarrow> int" where
  "sem_time (SemAcquire now tok limit) = now"
| "sem_time (SemRelease now tok) = now"

fun sem_token :: "sem_call \<Rightarrow> string" where
  "sem_token (SemAcquire now tok limit) = tok"
| "sem_token (SemRelease now tok) = tok"

fun sem_step :: "int \<Rightarrow> string \<Rightarrow> (string \<times> int) list keyspace \<Rightarrow> sem_call \<Rightarrow> (string \<times> int) list keyspace" where
  "sem_step ttl key db (SemAcquire now tok limit) =
     fst (acquireSemaphoreScript db key now (now + ttl) limit tok)"
| "sem_step ttl key db (SemRelease now tok) = zrem db key tok"

lemma sem_step_keeps:
  assumes "sem_inv ttl t key db" and "t \<le> sem_time call" and "0 \<le> ttl"
    and "(tok, e) \<in> set (entries db key)" and "sem_time call < e" and "sem_token call \<noteq> tok"
  shows "sem_inv ttl (sem_time call) key (sem_step ttl key db call)"
    and "(tok, e) \<in> set (entries (sem_step ttl key db call) key)"
proof -
  obtain z x where z: "db key = Some (z, x)" "(tok, e) \<in> set z"
  proof (cases "db key")
    case (Some e)
    with assms(4) that show ?thesis by (cases e) (auto simp: entries_def)
  qed (use assms(4) in \<open>simp add: entries_def\<close>)
  with assms(1) have e: "e \<le> x" by (auto simp: sem_inv_def)
  show "sem_inv ttl (sem_time call) key (sem_step ttl key db call)"
    using assms z e
    by (cases call)
      (fastforce simp: sem_inv_def acquireSemaphoreScript_def zrem_def Let_def redis_get_def
        split: if_splits)+
  show "(tok, e) \<in> set (entries (sem_step ttl key db call) key)"
  proof (cases call)
    case (SemAcquire now tok' limit)
    with assms z e show ?thesis
      by (auto simp: entries_def acquireSemaphoreScript_def Let_def redis_get_def filter_empty_conv)
  next
    case (SemRelease now tok')
    with assms(6) z(2) have "(tok, e) \<in> set (filter (\<lambda>(t, score). t \<noteq> tok') z)" by auto
    moreover from this have "filter (\<lambda>(t, score). t \<noteq> tok') z \<noteq> []" by (metis empty_iff list.set(1))
    ultimately show ?thesis
      using SemRelease z(1) by (simp add: entries_def zrem_def Let_def)
  qed
qed

lemma slot_survives:
  assumes "sem_inv ttl t key db" and "0 \<le> ttl" and "(tok, e) \<in> set (entries db key)"
    and "sorted (t # map sem_time calls)"
    and "\<forall>call \<in> set calls. sem_time call < e \<and> sem_token call \<noteq> tok"
  shows "(tok, e) \<in> set (entries (foldl (sem_step ttl key) db calls) key)"
  using assms
proof (induction calls arbitrary: db t)
  case (Cons call calls)
  then have "t \<le> sem_time call" "sem_time call < e" "sem_token call \<noteq> tok" by auto
  note keeps = sem_step_keeps [OF Cons(2) this(1) Cons(3,4) this(2,3)]
  from Cons.IH [OF keeps(1) Cons(3) keeps(2)] Cons(5,6) show ?case by simp
qed simp

section \<open>The closure and the nonces\<close>

text \<open>Calling the release closure again changes nothing.\<close>

lemma call_release_once:
  assumes "call_release up c g = (c', g')"
  shows "call_release up' c' g'' = (c', g'')"
  using assms by (auto simp: call_release_def split: prod.splits if_splits)

text \<open>While one register answers, a nonce passes once.\<close>

lemma UseNonce_redis_once:
  assumes "rg_client g \<noteq> None" and "UseNonce True d now k n ttl (g, tab) = (s', Inr b)"
    and "now' < now + ttl" and "b"
  shows "snd (UseNonce True d' now' k n ttl' s') = Inr False"
  using assms by (auto simp: UseNonce_def Let_def redis_get_def split: if_splits prod.splits)

lemma UseNonce_table_once:
  assumes "UseNonceFallback d k n x tab = (tab', Inr b)"
  shows "tab' (k, n) \<noteq> None"
  using assms by (auto simp: UseNonceFallback_def split: if_splits)

lemma UseNonce_fallback_once:
  assumes "UseNonce False d now k n ttl (g, tab) = ((g', tab'), Inr b)"
  shows "snd (UseNonce False True now' k n ttl' (g', tab')) = Inr False"
proof -
  have "UseNonceFallback d k n (now + ttl) tab = (tab', Inr b)" and "rg_client g' = rg_client g"
    using assms unfolding UseNonce_def Let_def by (auto split: option.splits prod.splits)
  with UseNonce_table_once [OF this(1)] show ?thesis
    by (simp add: UseNonce_def UseNonceFallback_def split: option.split)
qed

text \<open>The two registers do not share what they have seen.\<close>

lemma nonce_forgotten_by_fallback:
  assumes "rg_client g = Some db" and "redis_get (rd_nonce db) now (''risk:nonce:'' @ k @ '':'' @ n) = None"
    and "tab (k, n) = None"
  shows "\<exists>s'. UseNonce True True now k n ttl (g, tab) = (s', Inr True)
     \<and> snd (UseNonce False True now' k n ttl s') = Inr True"
  using assms by (simp add: UseNonce_def UseNonceFallback_def Let_def)

section \<open>Allow\<close>

text \<open>\<open>Allow\<close> is the limiter of the register that answers.\<close>

lemma Allow_redis:
  assumes "0 < rate" and "0 < burst" and "rg_client g = Some db"
  shows "snd (Allow True ms ns key rate burst g) =
    snd (redis_take (''risk:rate:'' @ key, rate, burst) ms (rd_rate db))"
  using assms by (simp add: Allow_def redis_take_def split: prod.split)

lemma Allow_local:
  assumes "0 < rate" and "0 < burst" and "rg_client g = None"
  shows "Allow up ms ns key rate burst g = local_take (key, rate, burst) ns g"
  using assms by (simp add: Allow_def local_take_def)

text \<open>The ideal bucket does not depend on the unit of time.\<close>

lemma ideal_bucket_scale:
  assumes "0 < u"
  shows "ideal_bucket cap (r / of_int u) level (u * t) (map ((*) u) ts) = ideal_bucket cap r level t ts"
proof (induction ts arbitrary: level t)
  case (Cons t' ts)
  have "(of_int (u * t' - u * t) :: rat) = of_int u * of_int (t' - t)"
    by (simp only: right_diff_distrib [symmetric] of_int_mult)
  with assms have e: "of_int (u * t' - u * t) * (r / of_int u) = of_int (t' - t) * r"
    by simp
  show ?case unfolding list.map ideal_bucket.simps Let_def e Cons.IH ..
qed simp

end
