(* ===== verification/Batch_Worker.thy ===== *)
theory Batch_Worker
  imports Prelude "HOL-Library.Multiset"
begin

text \<open>
  The batching goroutines, shared by \<open>TraceWriter.worker\<close> (\<open>trace_writer.go\<close>) and
  \<open>EventSink.writeWorker\<close> (\<open>kafka.go\<close>): the two loops have the same select, over the
  context, the queue and a timer, and differ only in what a flush does to the outside world.
  An input is one iteration of one worker; any interleaving of the workers is a list of inputs.
\<close>

section \<open>The workers of one queue\<close>

datatype worker_mode = Running | Draining | Stopped

record ('e, 'w) workers =
  bw_queue :: "'e list"
  bw_batch :: "'e list list"
  bw_mode :: "worker_mode list"
  bw_world :: 'w

datatype 'o worker_input =
    ContextDone nat
  | Received nat 'o
  | TimerFired nat 'o
  | DrainIteration nat 'o

definition flush_batch ::
    "('o \<Rightarrow> 'e list \<Rightarrow> 'w \<Rightarrow> 'w) \<Rightarrow> 'o \<Rightarrow> nat \<Rightarrow> ('e, 'w) workers \<Rightarrow> ('e, 'w) workers" where
  "flush_batch flush out i p =
     (let batch = bw_batch p ! i in
      if batch = [] then p
      else p\<lparr>bw_batch := (bw_batch p)[i := []], bw_world := flush out batch (bw_world p)\<rparr>)"

definition take_event ::
    "nat \<Rightarrow> ('o \<Rightarrow> 'e list \<Rightarrow> 'w \<Rightarrow> 'w) \<Rightarrow> 'o \<Rightarrow> nat \<Rightarrow> ('e, 'w) workers \<Rightarrow> ('e, 'w) workers" where
  "take_event cap flush out i p =
     (case bw_queue p of
        [] \<Rightarrow> p
      | e # rest \<Rightarrow>
          (let batch = bw_batch p ! i @ [e];
               p' = p\<lparr>bw_queue := rest, bw_batch := (bw_batch p)[i := batch]\<rparr>
           in if length batch \<ge> cap then flush_batch flush out i p' else p'))"

definition worker_at :: "('e, 'w) workers \<Rightarrow> nat \<Rightarrow> worker_mode \<Rightarrow> bool" where
  "worker_at p i m \<longleftrightarrow> i < length (bw_mode p) \<and> i < length (bw_batch p) \<and> bw_mode p ! i = m"

fun worker_step ::
    "nat \<Rightarrow> ('o \<Rightarrow> 'e list \<Rightarrow> 'w \<Rightarrow> 'w) \<Rightarrow> ('e, 'w) workers \<Rightarrow> 'o worker_input \<Rightarrow> ('e, 'w) workers" where
  "worker_step cap flush p (ContextDone i) =
     (if worker_at p i Running then p\<lparr>bw_mode := (bw_mode p)[i := Draining]\<rparr> else p)"
| "worker_step cap flush p (Received i out) =
     (if worker_at p i Running then take_event cap flush out i p else p)"
| "worker_step cap flush p (TimerFired i out) =
     (if worker_at p i Running then flush_batch flush out i p else p)"
| "worker_step cap flush p (DrainIteration i out) =
     (if worker_at p i Draining
      then (if bw_queue p = []
            then (flush_batch flush out i p)\<lparr>bw_mode := (bw_mode p)[i := Stopped]\<rparr>
            else take_event cap flush out i p)
      else p)"

text \<open>The non-blocking send on the buffered channel.\<close>

definition try_send :: "nat \<Rightarrow> 'e \<Rightarrow> ('e, 'w) workers \<Rightarrow> ('e, 'w) workers \<times> bool" where
  "try_send capacity e p =
     (if length (bw_queue p) < capacity then (p\<lparr>bw_queue := bw_queue p @ [e]\<rparr>, True) else (p, False))"

section \<open>Contract of a flush\<close>

text \<open>
  A flush accounts for every event of its batch: \<open>account w\<close> is the multiset of events whose
  fate the world \<open>w\<close> records.
\<close>

locale batch_flush =
  fixes flush :: "'o \<Rightarrow> 'e list \<Rightarrow> 'w \<Rightarrow> 'w"
    and account :: "'w \<Rightarrow> 'e multiset"
  assumes accounts: "account (flush out batch w) = account w + mset batch"

definition held_events :: "('e, 'w) workers \<Rightarrow> 'e multiset" where
  "held_events p = mset (bw_queue p) + mset (concat (bw_batch p))"

lemma concat_update:
  "i < length bs \<Longrightarrow> mset (concat (bs[i := b])) + mset (bs ! i) = mset (concat bs) + mset b"
proof (induction bs arbitrary: i)
  case (Cons x xs)
  then show ?case by (cases i) (auto simp: ac_simps)
qed simp

lemma try_send_held:
  "try_send cap e p = (p', ok) \<Longrightarrow>
     held_events p' = held_events p + (if ok then {#e#} else {#}) \<and> bw_world p' = bw_world p"
  by (auto simp: try_send_def held_events_def split: if_splits)

text \<open>Batches never exceed their size, and a stopped worker holds nothing.\<close>

definition workers_ok :: "nat \<Rightarrow> ('e, 'w) workers \<Rightarrow> bool" where
  "workers_ok cap p \<longleftrightarrow>
     length (bw_batch p) = length (bw_mode p)
     \<and> (\<forall>i < length (bw_mode p). length (bw_batch p ! i) < cap
          \<and> (bw_mode p ! i = Stopped \<longrightarrow> bw_batch p ! i = []))"

lemma flush_batch_ok:
  assumes "0 < cap" and "length (bw_batch p) = length (bw_mode p)"
    and "\<forall>j < length (bw_mode p). j \<noteq> i \<longrightarrow>
      length (bw_batch p ! j) < cap \<and> (bw_mode p ! j = Stopped \<longrightarrow> bw_batch p ! j = [])"
  shows "workers_ok cap (flush_batch flush out i p)"
proof (cases "i < length (bw_mode p)")
  case True
  with assms show ?thesis by (auto simp: workers_ok_def flush_batch_def Let_def nth_list_update)
next
  case False
  with assms show ?thesis by (auto simp: workers_ok_def flush_batch_def Let_def)
qed

lemma take_event_ok:
  assumes "0 < cap" and "workers_ok cap p" and "worker_at p i m" and "m \<noteq> Stopped"
  shows "workers_ok cap (take_event cap flush out i p)"
proof (cases "bw_queue p")
  case (Cons e rest)
  let ?p = "p\<lparr>bw_queue := rest, bw_batch := (bw_batch p)[i := bw_batch p ! i @ [e]]\<rparr>"
  have "workers_ok cap (flush_batch flush out i ?p)"
    by (rule flush_batch_ok) (use assms in \<open>auto simp: workers_ok_def nth_list_update\<close>)
  moreover have "workers_ok cap ?p" if "length (bw_batch p ! i @ [e]) < cap"
    using assms that by (auto simp: workers_ok_def worker_at_def nth_list_update)
  ultimately show ?thesis using Cons by (simp add: take_event_def Let_def)
qed (use assms in \<open>simp add: take_event_def\<close>)

lemma worker_step_ok:
  assumes "0 < cap" and "workers_ok cap p"
  shows "workers_ok cap (worker_step cap flush p input)"
proof (cases input)
  case (ContextDone i)
  with assms show ?thesis by (auto simp: workers_ok_def worker_at_def nth_list_update)
next
  case (Received i out)
  with take_event_ok [OF assms, of i Running flush out] assms show ?thesis by simp
next
  case (TimerFired i out)
  with assms flush_batch_ok [of cap p i flush out] show ?thesis by (simp add: workers_ok_def)
next
  case (DrainIteration i out)
  have "workers_ok cap ((flush_batch flush out i p)\<lparr>bw_mode := (bw_mode p)[i := Stopped]\<rparr>)"
    if "worker_at p i Draining"
    using assms that
    by (auto simp: workers_ok_def flush_batch_def worker_at_def Let_def nth_list_update)
  with DrainIteration take_event_ok [OF assms, of i Draining flush out] assms show ?thesis by simp
qed

context batch_flush
begin

lemma flush_batch_conserves:
  assumes "i < length (bw_batch p)"
  shows "held_events (flush_batch flush out i p) + account (bw_world (flush_batch flush out i p))
    = held_events p + account (bw_world p)"
  using concat_update [OF assms, of "[]"] accounts
  by (simp add: flush_batch_def Let_def held_events_def ac_simps)

lemma take_event_conserves:
  assumes "i < length (bw_batch p)"
  shows "held_events (take_event cap flush out i p) + account (bw_world (take_event cap flush out i p))
    = held_events p + account (bw_world p)"
proof (cases "bw_queue p")
  case (Cons e rest)
  let ?p = "p\<lparr>bw_queue := rest, bw_batch := (bw_batch p)[i := bw_batch p ! i @ [e]]\<rparr>"
  have "mset (concat ((bw_batch p)[i := bw_batch p ! i @ [e]])) = mset (concat (bw_batch p)) + {#e#}"
    using concat_update [OF assms, of "bw_batch p ! i @ [e]"] by simp
  then have "held_events ?p = held_events p" using Cons by (simp add: held_events_def)
  with flush_batch_conserves [of i ?p out] assms Cons show ?thesis
    by (simp add: take_event_def Let_def)
qed (simp add: take_event_def)

lemma worker_step_conserves:
  "held_events (worker_step cap flush p input) + account (bw_world (worker_step cap flush p input))
    = held_events p + account (bw_world p)"
proof (cases input)
  case (ContextDone i)
  then show ?thesis by (simp add: held_events_def)
next
  case (Received i out)
  with take_event_conserves [of i p cap out] show ?thesis by (simp add: worker_at_def)
next
  case (TimerFired i out)
  with flush_batch_conserves [of i p out] show ?thesis by (simp add: worker_at_def)
next
  case (DrainIteration i out)
  with take_event_conserves [of i p cap out] flush_batch_conserves [of i p out] show ?thesis
    by (simp add: worker_at_def held_events_def)
qed

end

text \<open>Once a worker has stopped, the queue is empty until somebody sends again.\<close>

definition drained :: "('e, 'w) workers \<Rightarrow> bool" where
  "drained p \<longleftrightarrow> (Stopped \<in> set (bw_mode p) \<longrightarrow> bw_queue p = [])"

lemma flush_batch_queue [simp]:
  "bw_queue (flush_batch flush out i p) = bw_queue p" "bw_mode (flush_batch flush out i p) = bw_mode p"
  by (simp_all add: flush_batch_def Let_def)

lemma take_event_drained: "drained p \<Longrightarrow> drained (take_event cap flush out i p)"
  by (auto simp: drained_def take_event_def Let_def split: list.split)

lemma worker_step_drained: "drained p \<Longrightarrow> drained (worker_step cap flush p input)"
  by (cases input)
    (auto simp: drained_def worker_at_def take_event_drained [unfolded drained_def]
      dest!: subsetD [OF set_update_subset_insert])

lemma all_stopped_nothing_held:
  assumes "workers_ok cap p" and "drained p" and "bw_mode p \<noteq> []"
    and "\<forall>m \<in> set (bw_mode p). m = Stopped"
  shows "held_events p = {#}"
proof -
  have "Stopped \<in> set (bw_mode p)" using assms(3,4) by (cases "bw_mode p") auto
  moreover have "\<forall>b \<in> set (bw_batch p). b = []"
  proof
    fix b assume "b \<in> set (bw_batch p)"
    then obtain i where i: "i < length (bw_mode p)" "b = bw_batch p ! i"
      using assms(1) by (auto simp: workers_ok_def in_set_conv_nth)
    then have "bw_mode p ! i = Stopped" using assms(4) by simp
    with i assms(1) show "b = []" by (auto simp: workers_ok_def)
  qed
  ultimately show ?thesis using assms(2) by (simp add: held_events_def drained_def)
qed

end
