(* ===== verification/Trace_Writer.thy ===== *)
theory Trace_Writer
  imports Trace_Event Rate_Guard Batch_Worker
begin

text \<open>
  The trace writer (\<open>internal/platform/trace_writer.go\<close>): \<open>Submit\<close> puts a trace on a bounded
  queue or, when it is full, on a Redis dead-letter stream; four workers write batches to
  PostgreSQL, hand what was stored to the event sink, and put a failed batch on another
  dead-letter stream. \<open>ts_lost\<close> is a ghost: the traces no store has.
\<close>

record trace_sinks =
  ts_redis :: RedisGuard
  ts_stored :: "TraceEvent list"
  ts_published :: "TraceEvent list"
  ts_dlq :: "(string \<times> TraceEvent) list"
  ts_dropped :: int
  ts_lost :: "TraceEvent list"

type_synonym trace_writer = "(TraceEvent, trace_sinks) workers"

text \<open>One push: the traces whose push succeeds and the ones that are lost.\<close>

definition push_trace :: "bool \<Rightarrow> string \<Rightarrow> TraceEvent \<Rightarrow> trace_sinks \<Rightarrow> trace_sinks \<times> bool" where
  "push_trace up stream event s =
     (case PushDLQ up stream event (ts_redis s) of
        (g, Some entry) \<Rightarrow> (s\<lparr>ts_redis := g, ts_dlq := ts_dlq s @ [entry]\<rparr>, True)
      | (g, None) \<Rightarrow> (s\<lparr>ts_redis := g, ts_lost := ts_lost s @ [event]\<rparr>, False))"

text \<open>The outcome of a flush: did the batch insert succeed, and each dead-letter push.\<close>

record flush_outcome =
  fo_inserted :: bool
  fo_pushes :: "bool list"

fun push_pending :: "bool list \<Rightarrow> TraceEvent list \<Rightarrow> trace_sinks \<Rightarrow> trace_sinks" where
  "push_pending ups [] s = s"
| "push_pending ups (event # rest) s =
     (case push_trace (ups \<noteq> [] \<and> hd ups) ''postgres-traces'' event s of
        (s', ok) \<Rightarrow>
          push_pending (tl ups) rest (if ok then s' else s'\<lparr>ts_dropped := ts_dropped s' + 1\<rparr>))"

definition flush_traces :: "flush_outcome \<Rightarrow> TraceEvent list \<Rightarrow> trace_sinks \<Rightarrow> trace_sinks" where
  "flush_traces out pending s =
     (if fo_inserted out
      then s\<lparr>ts_stored := ts_stored s @ pending, ts_published := ts_published s @ pending\<rparr>
      else push_pending (fo_pushes out) pending s)"

definition trace_worker_step :: "nat \<Rightarrow> trace_writer \<Rightarrow> flush_outcome worker_input \<Rightarrow> trace_writer" where
  "trace_worker_step batchSize w input = worker_step batchSize flush_traces w input"

text \<open>\<open>Submit\<close>; \<open>fresh\<close> is a new request ID, \<open>up\<close> the fate of the dead-letter push.\<close>

definition complete_event :: "string \<Rightarrow> time \<Rightarrow> TraceEvent \<Rightarrow> TraceEvent" where
  "complete_event fresh now event =
     (let e1 = (if te_RequestID event = [] then event\<lparr>te_RequestID := fresh\<rparr> else event)
      in if te_CreatedAt e1 = 0 then e1\<lparr>te_CreatedAt := now\<rparr> else e1)"

definition Submit ::
    "nat \<Rightarrow> string \<Rightarrow> time \<Rightarrow> bool \<Rightarrow> TraceEvent \<Rightarrow> trace_writer \<Rightarrow> trace_writer \<times> bool" where
  "Submit capacity fresh now up event0 w =
     (let event = complete_event fresh now event0 in
      case try_send capacity event w of
        (w', True) \<Rightarrow> (w', True)
      | (w', False) \<Rightarrow>
          (let s = bw_world w';
               s' = fst (push_trace up ''trace-queue-overflow'' event (s\<lparr>ts_dropped := ts_dropped s + 1\<rparr>))
           in (w'\<lparr>bw_world := s'\<rparr>, False)))"

definition NewTraceWriter :: "nat \<Rightarrow> RedisGuard \<Rightarrow> trace_writer" where
  "NewTraceWriter n redis =
     \<lparr>bw_queue = [], bw_batch = replicate n [], bw_mode = replicate n Running,
      bw_world = \<lparr>ts_redis = redis, ts_stored = [], ts_published = [], ts_dlq = [],
                  ts_dropped = 0, ts_lost = []\<rparr>\<rparr>"

section \<open>Every trace has a fate\<close>

definition trace_account :: "trace_sinks \<Rightarrow> TraceEvent multiset" where
  "trace_account s = mset (ts_stored s) + mset (map snd (ts_dlq s)) + mset (ts_lost s)"

lemma trace_account_dropped [simp]: "trace_account (s\<lparr>ts_dropped := n\<rparr>) = trace_account s"
  by (simp add: trace_account_def)

lemma push_trace_account:
  "push_trace up stream e s = (s', ok) \<Longrightarrow>
     trace_account s' = trace_account s + {#e#} \<and> ts_dropped s' = ts_dropped s
     \<and> ts_lost s' = ts_lost s @ (if ok then [] else [e])
     \<and> ts_stored s' = ts_stored s \<and> ts_published s' = ts_published s"
  by (auto simp: push_trace_def PushDLQ_def trace_account_def split: option.splits if_splits prod.splits)

lemma push_pending_account:
  "trace_account (push_pending ups es s) = trace_account s + mset es"
proof (induction ups es s rule: push_pending.induct)
  case (2 ups event rest s)
  obtain s' ok where p: "push_trace (ups \<noteq> [] \<and> hd ups) ''postgres-traces'' event s = (s', ok)"
    by fastforce
  have "trace_account (if ok then s' else s'\<lparr>ts_dropped := ts_dropped s' + 1\<rparr>) = trace_account s + {#event#}"
    using push_trace_account [OF p] by simp
  with 2 [OF p [symmetric]] p show ?case by simp
qed simp

lemma push_pending_counts:
  "ts_dropped (push_pending ups es s) - int (length (ts_lost (push_pending ups es s)))
     = ts_dropped s - int (length (ts_lost s))
   \<and> ts_stored (push_pending ups es s) = ts_stored s
   \<and> ts_published (push_pending ups es s) = ts_published s"
proof (induction ups es s rule: push_pending.induct)
  case (2 ups event rest s)
  obtain s' ok where p: "push_trace (ups \<noteq> [] \<and> hd ups) ''postgres-traces'' event s = (s', ok)"
    by fastforce
  with 2 [OF p [symmetric]] push_trace_account [OF p] show ?case by (cases ok) auto
qed simp

interpretation trace_flush: batch_flush flush_traces trace_account
proof
  fix out batch s
  show "trace_account (flush_traces out batch s) = trace_account s + mset batch"
    by (cases "fo_inserted out")
      (simp_all add: flush_traces_def push_pending_account, simp add: trace_account_def)
qed

text \<open>The counter covers every loss, and what the event sink gets is what was stored.\<close>

definition sinks_ok :: "trace_sinks \<Rightarrow> bool" where
  "sinks_ok s \<longleftrightarrow> int (length (ts_lost s)) \<le> ts_dropped s \<and> ts_published s = ts_stored s"

lemma flush_traces_ok: "sinks_ok s \<Longrightarrow> sinks_ok (flush_traces out es s)"
  using push_pending_counts [of "fo_pushes out" es s]
  by (auto simp: sinks_ok_def flush_traces_def)

lemma flush_batch_sinks: "sinks_ok (bw_world w) \<Longrightarrow> sinks_ok (bw_world (flush_batch flush_traces out i w))"
  by (simp add: flush_batch_def Let_def flush_traces_ok)

lemma trace_worker_step_sinks:
  "sinks_ok (bw_world w) \<Longrightarrow> sinks_ok (bw_world (trace_worker_step cap w input))"
  by (cases input)
    (auto simp: trace_worker_step_def take_event_def Let_def flush_batch_sinks split: list.split)

section \<open>Runs\<close>

datatype writer_input = SubmitCall string time bool TraceEvent | WorkerInput "flush_outcome worker_input"

fun writer_step :: "nat \<Rightarrow> nat \<Rightarrow> trace_writer \<Rightarrow> writer_input \<Rightarrow> trace_writer" where
  "writer_step capacity batchSize w (SubmitCall fresh now up e) = fst (Submit capacity fresh now up e w)"
| "writer_step capacity batchSize w (WorkerInput i) = trace_worker_step batchSize w i"

fun submitted :: "writer_input list \<Rightarrow> TraceEvent list" where
  "submitted [] = []"
| "submitted (SubmitCall fresh now up e # xs) = complete_event fresh now e # submitted xs"
| "submitted (WorkerInput i # xs) = submitted xs"

lemma submitted_append: "submitted (xs @ ys) = submitted xs @ submitted ys"
  by (induction xs rule: submitted.induct) auto

lemma Submit_facts:
  assumes "Submit cap fresh now up e w = (w', ok)"
  shows "held_events w' + trace_account (bw_world w')
      = held_events w + trace_account (bw_world w) + {#complete_event fresh now e#}"
    and "sinks_ok (bw_world w) \<Longrightarrow> sinks_ok (bw_world w')"
    and "workers_ok n w \<Longrightarrow> workers_ok n w'"
proof -
  obtain w1 sent where t: "try_send cap (complete_event fresh now e) w = (w1, sent)" by fastforce
  obtain s' p where s: "push_trace up ''trace-queue-overflow'' (complete_event fresh now e)
      ((bw_world w1)\<lparr>ts_dropped := ts_dropped (bw_world w1) + 1\<rparr>) = (s', p)" by fastforce
  have w': "w' = (if sent then w1 else w1\<lparr>bw_world := s'\<rparr>)"
    using assms t s by (cases sent) (auto simp: Submit_def Let_def)
  note ts = try_send_held [OF t] and ps = push_trace_account [OF s]
  show "held_events w' + trace_account (bw_world w')
      = held_events w + trace_account (bw_world w) + {#complete_event fresh now e#}"
    using ts ps w' by (cases sent) (auto simp: held_events_def trace_account_def)
  show "sinks_ok (bw_world w) \<Longrightarrow> sinks_ok (bw_world w')"
    using ts ps w' by (cases sent) (auto simp: sinks_ok_def)
  show "workers_ok n w \<Longrightarrow> workers_ok n w'"
    using t w' by (auto simp: workers_ok_def try_send_def split: if_splits)
qed

definition writer_inv :: "nat \<Rightarrow> TraceEvent list \<Rightarrow> trace_writer \<Rightarrow> bool" where
  "writer_inv batchSize es w \<longleftrightarrow>
     held_events w + trace_account (bw_world w) = mset es
     \<and> sinks_ok (bw_world w) \<and> workers_ok batchSize w"

lemma writer_step_inv:
  assumes "0 < batchSize" and "writer_inv batchSize es w"
  shows "writer_inv batchSize (es @ submitted [input]) (writer_step capacity batchSize w input)"
proof (cases input)
  case (SubmitCall fresh now up e)
  obtain w' ok where "Submit capacity fresh now up e w = (w', ok)" by fastforce
  with Submit_facts [OF this] assms SubmitCall show ?thesis by (simp add: writer_inv_def)
next
  case (WorkerInput i)
  with assms trace_flush.worker_step_conserves [of batchSize w i] worker_step_ok [of batchSize w flush_traces i]
    trace_worker_step_sinks [of w batchSize i]
  show ?thesis by (simp add: writer_inv_def trace_worker_step_def)
qed

lemma writer_run_inv:
  assumes "0 < batchSize"
  shows "writer_inv batchSize (submitted inputs)
    (foldl (writer_step capacity batchSize) (NewTraceWriter n redis) inputs)"
proof (induction inputs rule: rev_induct)
  case Nil
  from assms show ?case
    by (auto simp: writer_inv_def NewTraceWriter_def held_events_def trace_account_def sinks_ok_def
        workers_ok_def)
next
  case (snoc x xs)
  with writer_step_inv [OF assms this, of x capacity] show ?case by (simp add: submitted_append)
qed

end
