(* ===== verification/Event_Sink.thy ===== *)
theory Event_Sink
  imports Go_Text Trace_Event Batch_Worker
begin

text \<open>
  The Kafka sink and its PostgreSQL outbox (\<open>internal/platform/kafka.go\<close>, and \<open>EnqueueOutbox\<close>,
  \<open>ClaimOutbox\<close>, \<open>MarkOutboxPublished\<close>, \<open>MarkOutboxFailed\<close> of \<open>store_traces.go\<close>). The table is
  the list of its rows in the order of their serial ids. A text column takes only valid UTF-8,
  as PostgreSQL documents; times are integer seconds. \<open>sk_lost\<close> is a ghost.
\<close>

section \<open>The outbox table\<close>

record OutboxRow =
  ox_ID :: int
  ox_Topic :: string
  ox_Key :: string
  ox_Payload :: string
  ox_Attempts :: int
  ox_PublishedAt :: "int option"
  ox_NextAttemptAt :: int
  ox_LockedUntil :: "int option"
  ox_LastError :: string

type_synonym outbox = "OutboxRow list"

definition EnqueueOutbox ::
    "bool \<Rightarrow> int \<Rightarrow> int \<Rightarrow> string \<Rightarrow> string \<Rightarrow> string \<Rightarrow> string \<Rightarrow> outbox \<Rightarrow> outbox \<times> bool" where
  "EnqueueOutbox up now newID topic key payload lastError0 rows =
     (let lastError = (if length lastError0 > 1000 then take 1000 lastError0 else lastError0)
      in if up \<and> valid_utf8 lastError \<and> valid_utf8 key
         then (rows @ [\<lparr>ox_ID = newID, ox_Topic = topic, ox_Key = key, ox_Payload = payload, ox_Attempts = 0,
                        ox_PublishedAt = None, ox_NextAttemptAt = now, ox_LockedUntil = None,
                        ox_LastError = lastError\<rparr>], True)
         else (rows, False))"

definition eligible :: "int \<Rightarrow> OutboxRow \<Rightarrow> bool" where
  "eligible now r \<longleftrightarrow>
     ox_PublishedAt r = None \<and> ox_NextAttemptAt r \<le> now
     \<and> (case ox_LockedUntil r of None \<Rightarrow> True | Some t \<Rightarrow> t < now)"

definition lock_row :: "int \<Rightarrow> OutboxRow \<Rightarrow> OutboxRow" where
  "lock_row now r = r\<lparr>ox_LockedUntil := Some (now + 30), ox_Attempts := ox_Attempts r + 1\<rparr>"

fun claim_rows :: "int \<Rightarrow> nat \<Rightarrow> outbox \<Rightarrow> outbox \<times> OutboxRow list" where
  "claim_rows now n [] = ([], [])"
| "claim_rows now n (r # rs) =
     (if n > 0 \<and> eligible now r
      then (case claim_rows now (n - 1) rs of (rs', picked) \<Rightarrow> (lock_row now r # rs', lock_row now r # picked))
      else (case claim_rows now n rs of (rs', picked) \<Rightarrow> (r # rs', picked)))"

definition ClaimOutbox :: "int \<Rightarrow> int \<Rightarrow> outbox \<Rightarrow> outbox \<times> OutboxRow list" where
  "ClaimOutbox now limit rows = claim_rows now (nat (if limit \<le> 0 then 100 else limit)) rows"

definition MarkOutboxPublished :: "bool \<Rightarrow> int \<Rightarrow> int \<Rightarrow> outbox \<Rightarrow> outbox" where
  "MarkOutboxPublished up now rid rows =
     (if up then map (\<lambda>r. if ox_ID r = rid
        then r\<lparr>ox_PublishedAt := Some now, ox_LockedUntil := None, ox_LastError := []\<rparr> else r) rows
      else rows)"

definition backoffSeconds :: "int \<Rightarrow> int" where
  "backoffSeconds attempts = (if attempts * attempts > 3600 then 3600 else attempts * attempts)"

definition MarkOutboxFailed :: "bool \<Rightarrow> int \<Rightarrow> int \<Rightarrow> int \<Rightarrow> string \<Rightarrow> outbox \<Rightarrow> outbox" where
  "MarkOutboxFailed up now rid attempts publishErr rows =
     (let message = (if length publishErr > 1000 then take 1000 publishErr else publishErr)
      in if up \<and> valid_utf8 message
         then map (\<lambda>r. if ox_ID r = rid
           then r\<lparr>ox_LockedUntil := None, ox_LastError := message,
                  ox_NextAttemptAt := now + backoffSeconds attempts\<rparr> else r) rows
         else rows)"

text \<open>One tick of \<open>outboxWorker\<close>: per claimed row, did the write and the mark succeed.\<close>

fun publish_claimed ::
    "int \<Rightarrow> (string option \<times> bool) list \<Rightarrow> OutboxRow list \<Rightarrow> outbox \<times> (string \<times> string) list \<Rightarrow>
     outbox \<times> (string \<times> string) list" where
  "publish_claimed now outs [] s = s"
| "publish_claimed now outs (e # es) s =
     (let out = (case outs of [] \<Rightarrow> (None, True) | x # xs \<Rightarrow> x) in
      case s of (rows, sent) \<Rightarrow>
        publish_claimed now (tl outs) es
          (case fst out of
             None \<Rightarrow> (MarkOutboxPublished (snd out) now (ox_ID e) rows, sent @ [(ox_Key e, ox_Payload e)])
           | Some err \<Rightarrow> (MarkOutboxFailed (snd out) now (ox_ID e) (ox_Attempts e) err rows, sent)))"

definition outbox_tick ::
    "int \<Rightarrow> (string option \<times> bool) list \<Rightarrow> outbox \<times> (string \<times> string) list \<Rightarrow> outbox \<times> (string \<times> string) list" where
  "outbox_tick now outs s =
     (case s of (rows, sent) \<Rightarrow>
        (case ClaimOutbox now 100 rows of (rows', picked) \<Rightarrow> publish_claimed now outs picked (rows', sent)))"

section \<open>The sink\<close>

record queuedKafkaEvent =
  qk_key :: string
  qk_payload :: string

record sink_world =
  sk_topic :: string
  sk_delivered :: "queuedKafkaEvent list"
  sk_outbox :: outbox
  sk_nextID :: int
  sk_boxed :: "queuedKafkaEvent list"
  sk_lost :: "queuedKafkaEvent list"

type_synonym event_sink = "(queuedKafkaEvent, sink_world) workers"

definition enqueueOutbox :: "bool \<Rightarrow> int \<Rightarrow> string \<Rightarrow> queuedKafkaEvent \<Rightarrow> sink_world \<Rightarrow> sink_world" where
  "enqueueOutbox up now publishError event w =
     (case EnqueueOutbox up now (sk_nextID w) (sk_topic w) (qk_key event) (qk_payload event) publishError
             (sk_outbox w) of
        (rows, True) \<Rightarrow> w\<lparr>sk_outbox := rows, sk_nextID := sk_nextID w + 1, sk_boxed := sk_boxed w @ [event]\<rparr>
      | (rows, False) \<Rightarrow> w\<lparr>sk_nextID := sk_nextID w + 1, sk_lost := sk_lost w @ [event]\<rparr>)"

text \<open>\<open>kafkaEnvelope\<close> as \<open>json.Marshal\<close> renders it is a parameter: it may fail.\<close>

definition PublishTrace ::
    "bool \<Rightarrow> nat \<Rightarrow> (TraceEvent \<Rightarrow> string option) \<Rightarrow> bool \<Rightarrow> int \<Rightarrow> TraceEvent \<Rightarrow> event_sink \<Rightarrow> event_sink" where
  "PublishTrace enabled capacity marshal up now trace s =
     (if \<not> enabled then s
      else (case marshal trace of
              None \<Rightarrow> s
            | Some payload \<Rightarrow>
                (let event = \<lparr>qk_key = te_RequestID trace, qk_payload = payload\<rparr> in
                 case try_send capacity event s of
                   (s', True) \<Rightarrow> s'
                 | (s', False) \<Rightarrow>
                     s'\<lparr>bw_world := enqueueOutbox up now ''Kafka in-process queue is full'' event (bw_world s')\<rparr>)))"

record kafka_outcome =
  ko_error :: "string option"
  ko_now :: int
  ko_boxes :: "bool list"

fun box_pending :: "int \<Rightarrow> string \<Rightarrow> bool list \<Rightarrow> queuedKafkaEvent list \<Rightarrow> sink_world \<Rightarrow> sink_world" where
  "box_pending now err ups [] w = w"
| "box_pending now err ups (event # rest) w =
     box_pending now err (tl ups) rest (enqueueOutbox (ups \<noteq> [] \<and> hd ups) now err event w)"

definition flush_events :: "kafka_outcome \<Rightarrow> queuedKafkaEvent list \<Rightarrow> sink_world \<Rightarrow> sink_world" where
  "flush_events out pending w =
     (case ko_error out of
        None \<Rightarrow> w\<lparr>sk_delivered := sk_delivered w @ pending\<rparr>
      | Some err \<Rightarrow> box_pending (ko_now out) err (ko_boxes out) pending w)"

definition kafka_batch :: nat where
  "kafka_batch = 200"

definition sink_worker_step :: "event_sink \<Rightarrow> kafka_outcome worker_input \<Rightarrow> event_sink" where
  "sink_worker_step s input = worker_step kafka_batch flush_events s input"

datatype sasl = NoSasl | Plain string string | Scram256 string string | Scram512 string string

definition kafkaSASLMechanism :: "string \<Rightarrow> string \<Rightarrow> string \<Rightarrow> string + sasl" where
  "kafkaSASLMechanism mechanism user password =
     (let m = to_lower mechanism in
      if m = [] then Inr NoSasl
      else if m = ''plain'' then Inr (Plain user password)
      else if m = ''scram-sha-256'' then Inr (Scram256 user password)
      else if m = ''scram-sha-512'' then Inr (Scram512 user password)
      else Inl mechanism)"

text \<open>\<open>ApplyRetention\<close>: the value of \<open>retention.ms\<close> it asks the broker to set.\<close>

datatype retention_error = KafkaDisabled | RetentionOutOfRange

definition ApplyRetention :: "bool \<Rightarrow> int \<Rightarrow> retention_error + string" where
  "ApplyRetention enabled days =
     (if \<not> enabled then Inl KafkaDisabled
      else if days < 1 \<or> days > 3650 then Inl RetentionOutOfRange
      else Inr (dec_int (days * 24 * 60 * 60 * 1000)))"

section \<open>Every event has a fate\<close>

definition sink_account :: "sink_world \<Rightarrow> queuedKafkaEvent multiset" where
  "sink_account w = mset (sk_delivered w) + mset (sk_boxed w) + mset (sk_lost w)"

lemma enqueueOutbox_account:
  "sink_account (enqueueOutbox up now err e w) = sink_account w + {#e#}"
  by (auto simp: enqueueOutbox_def sink_account_def split: prod.split bool.split)

lemma box_pending_account:
  "sink_account (box_pending now err ups es w) = sink_account w + mset es"
  by (induction now err ups es w rule: box_pending.induct) (simp_all add: enqueueOutbox_account)

interpretation sink_flush: batch_flush flush_events sink_account
proof
  fix out batch w
  show "sink_account (flush_events out batch w) = sink_account w + mset batch"
    by (cases "ko_error out")
      (simp_all add: flush_events_def box_pending_account, simp add: sink_account_def)
qed

lemma enqueueOutbox_lost:
  assumes "up" and "valid_utf8 (qk_key e)" and "valid_utf8 err" and "length err \<le> 1000"
  shows "sk_lost (enqueueOutbox up now err e w) = sk_lost w"
    and "sk_boxed (enqueueOutbox up now err e w) = sk_boxed w @ [e]"
  using assms by (simp_all add: enqueueOutbox_def EnqueueOutbox_def)

lemma enqueueOutbox_cut:
  assumes "1000 < length err" and "\<not> valid_utf8 (take 1000 err)"
  shows "sk_lost (enqueueOutbox up now err e w) = sk_lost w @ [e]"
    and "sk_outbox (enqueueOutbox up now err e w) = sk_outbox w"
  using assms by (simp_all add: enqueueOutbox_def EnqueueOutbox_def)

section \<open>The outbox claims\<close>

lemma lock_row_ID [simp]: "ox_ID (lock_row now r) = ox_ID r"
  by (simp add: lock_row_def)

lemma claim_rows_shape:
  assumes "claim_rows now n rows = (rows', picked)"
  shows "length picked \<le> n \<and> map ox_ID rows' = map ox_ID rows
     \<and> set picked \<subseteq> lock_row now ` {r \<in> set rows. eligible now r}
     \<and> set rows' \<subseteq> set rows \<union> set picked \<and> set picked \<subseteq> set rows'"
  using assms
proof (induction now n rows arbitrary: rows' picked rule: claim_rows.induct)
  case (2 now n r rs)
  show ?case
  proof (cases "n > 0 \<and> eligible now r")
    case True
    obtain a b where ab: "claim_rows now (n - 1) rs = (a, b)" by fastforce
    with 2(1) [OF True ab] 2(3) True show ?thesis by (auto, blast)
  next
    case False
    obtain a b where ab: "claim_rows now n rs = (a, b)" by fastforce
    with 2(2) [OF False ab] 2(3) False show ?thesis by auto
  qed
qed simp

lemma locked_not_eligible: "t \<le> now + 30 \<Longrightarrow> \<not> eligible t (lock_row now r)"
  by (simp add: eligible_def lock_row_def)

text \<open>Two workers never hold one row: what is claimed cannot be claimed again for 30 seconds.\<close>

lemma claim_exclusive:
  assumes "ClaimOutbox now l rows = (rows', picked)" and "ClaimOutbox now' l' rows' = (rows'', picked')"
    and "now' \<le> now + 30" and "distinct (map ox_ID rows)"
  shows "ox_ID ` set picked \<inter> ox_ID ` set picked' = {}"
proof (rule ccontr)
  assume "ox_ID ` set picked \<inter> ox_ID ` set picked' \<noteq> {}"
  then obtain p q where pq: "p \<in> set picked" "q \<in> set picked'" "ox_ID p = ox_ID q" by auto
  note c1 = claim_rows_shape [OF assms(1) [unfolded ClaimOutbox_def]]
  note c2 = claim_rows_shape [OF assms(2) [unfolded ClaimOutbox_def]]
  from c2 pq(2) obtain r where r: "r \<in> set rows'" "eligible now' r" "q = lock_row now' r" by blast
  from c1 pq(1) obtain o1 where o1: "p = lock_row now o1" "p \<in> set rows'" by blast
  have "distinct (map ox_ID rows')" using c1 assms(4) by metis
  moreover have "ox_ID r = ox_ID p" using r(3) pq(3) by (simp add: lock_row_def)
  ultimately have "r = p" using r(1) o1(2) by (auto simp: distinct_map inj_on_def)
  with r(2) o1(1) locked_not_eligible [OF assms(3)] show False by simp
qed

lemma backoff_bounds: "0 \<le> attempts \<Longrightarrow> 0 \<le> backoffSeconds attempts \<and> backoffSeconds attempts \<le> 3600"
  by (simp add: backoffSeconds_def)

lemma MarkOutboxPublished_done:
  assumes "r \<in> set (MarkOutboxPublished True now i rows)" and "ox_ID r = i"
  shows "\<not> eligible t r"
proof -
  from assms(1) obtain r0 where "r = (if ox_ID r0 = i
      then r0\<lparr>ox_PublishedAt := Some now, ox_LockedUntil := None, ox_LastError := []\<rparr> else r0)"
    unfolding MarkOutboxPublished_def if_True set_map by blast
  with assms(2) show ?thesis by (cases "ox_ID r0 = i") (simp_all add: eligible_def)
qed

lemma MarkOutboxFailed_retry:
  assumes "r \<in> set (MarkOutboxFailed True now i attempts err rows)" and "ox_ID r = i"
    and "valid_utf8 err" and "length err \<le> 1000" and "\<forall>r \<in> set rows. ox_PublishedAt r = None"
  shows "eligible t r \<longleftrightarrow> now + backoffSeconds attempts \<le> t"
proof -
  from assms(1,3,4) obtain r0 where r0: "r0 \<in> set rows" "r = (if ox_ID r0 = i
      then r0\<lparr>ox_LockedUntil := None, ox_LastError := err,
              ox_NextAttemptAt := now + backoffSeconds attempts\<rparr> else r0)"
    by (auto simp: MarkOutboxFailed_def)
  with assms(2,5) show ?thesis by (cases "ox_ID r0 = i") (simp_all add: eligible_def)
qed

end
