(* ===== verification/Audit_Types.thy ===== *)
theory Audit_Types
  imports Go_Json Complex_Main
begin

text \<open>
  The values the audit engine computes with: \<open>AuditDecision\<close> and \<open>AuditAttempt\<close> of
  \<open>types.go\<close>, \<open>AuditSemanticReview\<close> of \<open>audit_semantic_review.go\<close>, and the errors of
  \<open>audit_diagnostics.go\<close>. Confidences are rationals. \<open>sanitize\<close> is the credential redaction
  in front of every diagnostic text (\<open>sanitizeAdaptiveProviderError\<close>, a list of regular
  expressions) and stays a parameter.
\<close>

section \<open>Decisions\<close>

definition DecisionAllow :: string where "DecisionAllow = ''allow''"
definition DecisionBlock :: string where "DecisionBlock = ''block''"
definition DecisionReview :: string where "DecisionReview = ''review''"

lemma decision_distinct [simp]:
  "DecisionAllow \<noteq> DecisionBlock" "DecisionBlock \<noteq> DecisionAllow"
  "DecisionAllow \<noteq> DecisionReview" "DecisionReview \<noteq> DecisionAllow"
  "DecisionBlock \<noteq> DecisionReview" "DecisionReview \<noteq> DecisionBlock"
  "DecisionAllow \<noteq> []" "DecisionBlock \<noteq> []" "DecisionReview \<noteq> []"
  by (simp_all add: DecisionAllow_def DecisionBlock_def DecisionReview_def)

text \<open>
  \<open>ad_evidenceSource\<close> is the range of a quote that was found in the source, when it was.
  A decision without its review is \<open>verdict\<close>; the record of a review holds verdicts only,
  because \<open>cleanSemanticDecision\<close> cuts the chain.
\<close>

record verdict =
  ad_Decision :: string
  ad_RiskCode :: string
  ad_Category :: string
  ad_Confidence :: rat
  ad_Reason :: string
  ad_Source :: string
  ad_RuleID :: int
  ad_Evidence :: string
  ad_EvidenceContext :: string
  ad_EvidenceVerified :: bool
  ad_EvidenceMatchMode :: string
  ad_EvidenceChunkIndex :: int
  ad_EvidenceChunkCount :: int
  ad_RequestEvidence :: string
  ad_EvidenceRelation :: string
  ad_HarmType :: string
  ad_ConfidenceKind :: string
  ad_ConfidenceLabel :: string
  ad_OutputNormalizations :: "string list"
  ad_policyOriginalDecision :: string
  ad_evidenceSource :: "(nat \<times> nat) option"

record AuditSemanticReview =
  sr_Status :: string
  sr_Candidate :: verdict
  sr_CandidateError :: string
  sr_ProfileID :: int
  sr_Model :: string
  sr_Outcome :: "verdict option"

record AuditDecision = verdict +
  ad_SemanticReview :: "AuditSemanticReview option"

definition no_decision :: AuditDecision where
  "no_decision = \<lparr>ad_Decision = [], ad_RiskCode = [], ad_Category = [], ad_Confidence = 0, ad_Reason = [],
     ad_Source = [], ad_RuleID = 0, ad_Evidence = [], ad_EvidenceContext = [], ad_EvidenceVerified = False,
     ad_EvidenceMatchMode = [], ad_EvidenceChunkIndex = 0, ad_EvidenceChunkCount = 0,
     ad_RequestEvidence = [], ad_EvidenceRelation = [], ad_HarmType = [], ad_ConfidenceKind = [],
     ad_ConfidenceLabel = [], ad_OutputNormalizations = [], ad_policyOriginalDecision = [], ad_evidenceSource = None,
     ad_SemanticReview = None\<rparr>"

section \<open>Errors\<close>

definition auditDiagnosticTextLimit :: nat where
  "auditDiagnosticTextLimit = 700"

record AuditModelCallError =
  ce_Class :: string
  ce_HTTPStatus :: int
  ce_Message :: string
  ce_MaxContextTokens :: int
  ce_RequestedTokens :: int
  ce_RequestedTokensLowerBound :: bool
  ce_ObservedOutputTokens :: int
  ce_OutputMode :: string
  ce_OutputMaxTokens :: int
  ce_FinishReason :: string
  ce_ResponseContentBytes :: int
  ce_ResponseSource :: string
  ce_ResponsePreview :: string
  ce_ResponseID :: string

text \<open>A Go error: the engine's own, with its cause, a context error, or any other.\<close>

datatype audit_error =
    CallError AuditModelCallError "audit_error option"
  | DeadlineExceeded
  | Canceled
  | PlainError string

fun is_deadline :: "audit_error \<Rightarrow> bool" where
  "is_deadline DeadlineExceeded = True"
| "is_deadline (CallError e (Some c)) = is_deadline c"
| "is_deadline e = False"

fun is_canceled :: "audit_error \<Rightarrow> bool" where
  "is_canceled Canceled = True"
| "is_canceled (CallError e (Some c)) = is_canceled c"
| "is_canceled e = False"

fun error_text :: "audit_error \<Rightarrow> string" where
  "error_text (CallError e cause) =
     (let message0 = trim_space (ce_Message e);
          message = (if message0 = [] then ''audit model call failed'' else message0)
      in case cause of None \<Rightarrow> message | Some c \<Rightarrow> message @ '': '' @ error_text c)"
| "error_text DeadlineExceeded = ''context deadline exceeded''"
| "error_text Canceled = ''context canceled''"
| "error_text (PlainError s) = s"

text \<open>\<open>strings.Fields\<close> and \<open>sanitizeAuditDiagnostic\<close>.\<close>

fun fields_from :: "string \<Rightarrow> string \<Rightarrow> string list" where
  "fields_from w [] = (if w = [] then [] else [rev w])"
| "fields_from w (c # cs) =
     (if trim_space [c] = [] then (if w = [] then fields_from [] cs else rev w # fields_from [] cs)
      else fields_from (c # w) cs)"

definition sanitizeAuditDiagnostic :: "(string \<Rightarrow> string) \<Rightarrow> string \<Rightarrow> string" where
  "sanitizeAuditDiagnostic sanitize value =
     truncateString (join '' '' (fields_from [] (sanitize value))) auditDiagnosticTextLimit"

definition newAuditModelCallError ::
    "(string \<Rightarrow> string) \<Rightarrow> string \<Rightarrow> int \<Rightarrow> string \<Rightarrow> audit_error option \<Rightarrow> audit_error" where
  "newAuditModelCallError sanitize class status message cause =
     CallError \<lparr>ce_Class = trim_space class, ce_HTTPStatus = status,
                ce_Message = sanitizeAuditDiagnostic sanitize message, ce_MaxContextTokens = 0,
                ce_RequestedTokens = 0, ce_RequestedTokensLowerBound = False, ce_ObservedOutputTokens = 0,
                ce_OutputMode = [], ce_OutputMaxTokens = 0, ce_FinishReason = [], ce_ResponseContentBytes = 0,
                ce_ResponseSource = [], ce_ResponsePreview = [], ce_ResponseID = []\<rparr> cause"

definition auditModelErrorDetails :: "(string \<Rightarrow> string) \<Rightarrow> audit_error option \<Rightarrow> string \<times> int \<times> string" where
  "auditModelErrorDetails sanitize err =
     (case err of
        None \<Rightarrow> ([], 0, [])
      | Some (CallError e cause) \<Rightarrow>
          (let class = trim_space (ce_Class e) in
           (if class = [] then ''unknown'' else class, ce_HTTPStatus e,
            sanitizeAuditDiagnostic sanitize (error_text (CallError e cause))))
      | Some DeadlineExceeded \<Rightarrow> (''audit_deadline_exceeded'', 0, ''audit deadline exceeded'')
      | Some Canceled \<Rightarrow> (''audit_cancelled'', 0, ''audit request cancelled'')
      | Some (PlainError s) \<Rightarrow> (''unknown'', 0, sanitizeAuditDiagnostic sanitize s))"

definition isAuditContextLengthError :: "audit_error \<Rightarrow> bool" where
  "isAuditContextLengthError err =
     (case err of CallError e c \<Rightarrow> ce_Class e = ''context_length'' | _ \<Rightarrow> False)"

definition classifyAuditTransportError :: "(string \<Rightarrow> string) \<Rightarrow> bool \<Rightarrow> audit_error option \<Rightarrow> audit_error option" where
  "classifyAuditTransportError sanitize netTimeout err =
     (case err of
        None \<Rightarrow> None
      | Some e \<Rightarrow>
          Some (if is_deadline e \<or> netTimeout
                then newAuditModelCallError sanitize ''timeout'' 0 ''audit model request timed out'' None
                else newAuditModelCallError sanitize ''connection'' 0 ''audit model connection failed'' (Some e)))"

definition retryable_classes :: "string list" where
  "retryable_classes =
     [''connection'', ''timeout'', ''rate_limited'', ''audit_server_error'', ''response_read'',
      ''response_format'', ''empty_response'', ''invalid_json'', ''invalid_schema'', ''ambiguous_output'',
      ''output_truncated'', ''structured_output_unsupported'', ''invalid_decision'', ''invalid_evidence'']"

definition auditErrorRetryableOnSameProfile :: "audit_error \<Rightarrow> bool" where
  "auditErrorRetryableOnSameProfile err =
     (case err of CallError e c \<Rightarrow> ce_Class e \<in> set retryable_classes | _ \<Rightarrow> False)"

definition auditErrorNeedsOutputRecovery :: "(string \<Rightarrow> string) \<Rightarrow> audit_error \<Rightarrow> bool" where
  "auditErrorNeedsOutputRecovery sanitize err \<longleftrightarrow>
     fst (auditModelErrorDetails sanitize (Some err)) \<in>
       {''response_format'', ''empty_response'', ''invalid_json'', ''invalid_schema'', ''ambiguous_output'',
        ''output_truncated'', ''structured_output_unsupported'', ''invalid_decision''}"

text \<open>\<open>auditHTTPStatusError\<close>: the class of a non-2xx answer. The token counts come from
  regular expressions over the message and are parameters, as are the two text classifiers.\<close>

definition http_error_class :: "int \<Rightarrow> bool \<Rightarrow> bool \<Rightarrow> string" where
  "http_error_class status structured contextLength =
     (let class0 = (if status = 401 \<or> status = 403 then ''authentication''
                    else if status = 404 then ''endpoint_or_model_not_found''
                    else if status = 408 then ''timeout''
                    else if status = 429 then ''rate_limited''
                    else if status \<ge> 500 then ''audit_server_error''
                    else ''http_status'');
          class1 = (if (status = 400 \<or> status = 422) \<and> structured then ''structured_output_unsupported'' else class0)
      in if (status = 400 \<or> status = 413 \<or> status = 422) \<and> contextLength then ''context_length'' else class1)"

definition looksLikeAuditContextLength :: "string \<Rightarrow> bool" where
  "looksLikeAuditContextLength value =
     (let lower = to_lower value in
      \<exists>marker \<in> set [''maximum context length'', ''context window'', ''max_model_len'', ''too many tokens'',
          ''prompt is too long'', ''input is too long'', ''token limit'', ''tokens exceed''].
        contains lower marker)"

definition auditHTTPStatusError ::
    "(string \<Rightarrow> string) \<Rightarrow> (string \<Rightarrow> bool) \<Rightarrow> (string \<Rightarrow> int \<times> int) \<Rightarrow> (string \<Rightarrow> bool) \<Rightarrow> (string \<Rightarrow> int) \<Rightarrow>
     int \<Rightarrow> string \<Rightarrow> audit_error" where
  "auditHTTPStatusError sanitize structured counts lowerBound observed status detail =
     (let message = ''audit model returned HTTP '' @ dec_int status @ (if detail = [] then [] else '': '' @ detail);
          class = http_error_class status (structured message) (looksLikeAuditContextLength message);
          limits = (if class = ''context_length'' then counts message else (0, 0))
      in CallError \<lparr>ce_Class = class, ce_HTTPStatus = status,
                    ce_Message = sanitizeAuditDiagnostic sanitize message,
                    ce_MaxContextTokens = fst limits, ce_RequestedTokens = snd limits,
                    ce_RequestedTokensLowerBound = (class = ''context_length'' \<and> lowerBound message),
                    ce_ObservedOutputTokens = observed message,
                    ce_OutputMode = [], ce_OutputMaxTokens = 0, ce_FinishReason = [], ce_ResponseContentBytes = 0,
                    ce_ResponseSource = [], ce_ResponsePreview = [], ce_ResponseID = []\<rparr> None)"

text \<open>\<open>parseAuditTokenNumber\<close>: \<open>strconv.Atoi\<close> after the commas are dropped.\<close>

definition parseAuditTokenNumber :: "string \<Rightarrow> int" where
  "parseAuditTokenNumber value =
     (case parse_int64 (filter (\<lambda>c. c \<noteq> CHR 0x2C) value) of
        None \<Rightarrow> 0 | Some n \<Rightarrow> if n < 1 then 0 else n)"

definition no_error_detail_path :: "string list list" where
  "no_error_detail_path = [[''error'', ''message''], [''error'', ''detail''], [''message''], [''detail'']]"

fun json_path :: "json \<Rightarrow> string list \<Rightarrow> json option" where
  "json_path v [] = Some v"
| "json_path v (key # rest) =
     (case v of JObj ms \<Rightarrow> (case lookup ms key of None \<Rightarrow> None | Some w \<Rightarrow> json_path w rest) | _ \<Rightarrow> None)"

definition path_text :: "json \<Rightarrow> string list \<Rightarrow> string option" where
  "path_text v path =
     (case json_path v path of
        Some (JStr s) \<Rightarrow> if trim_space s \<noteq> [] then Some s else None
      | _ \<Rightarrow> None)"

definition auditHTTPErrorDetail :: "(string \<Rightarrow> string) \<Rightarrow> string \<Rightarrow> string" where
  "auditHTTPErrorDetail sanitize body =
     (if body = [] then []
      else (case json_unmarshal body of
              Some (JObj ms) \<Rightarrow>
                (case List.map_filter (path_text (JObj ms)) no_error_detail_path of
                   t # _ \<Rightarrow> sanitizeAuditDiagnostic sanitize t
                 | [] \<Rightarrow> sanitizeAuditDiagnostic sanitize body)
            | _ \<Rightarrow> sanitizeAuditDiagnostic sanitize body))"

section \<open>The model's answer\<close>

definition clampConfidence :: "rat \<Rightarrow> rat" where
  "clampConfidence v = (if v < 0 then 0 else if v > 1 then 1 else v)"

record modelAuditResponse =
  mr_Decision :: string
  mr_RiskCode :: string
  mr_Category :: string
  mr_Confidence :: rat
  mr_Reason :: string
  mr_Evidence :: string
  mr_RequestEvidence :: string
  mr_EvidenceRelation :: string
  mr_HarmType :: string
  mr_ConfidenceKind :: string
  mr_ConfidenceLabel :: string
  mr_OutputNormalizations :: "string list"
  mr_contractFieldsPresent :: bool

definition validateAuditModelResponse ::
    "(string \<Rightarrow> string) \<Rightarrow> modelAuditResponse \<Rightarrow> audit_error + modelAuditResponse" where
  "validateAuditModelResponse sanitize result0 =
     (let result = result0\<lparr>mr_Decision := to_lower (trim_space (mr_Decision result0))\<rparr> in
      if mr_Decision result \<in> {DecisionAllow, DecisionBlock, DecisionReview} then
        Inr (result\<lparr>mr_Confidence := clampConfidence (mr_Confidence result),
                    mr_RiskCode := trim_space (mr_RiskCode result),
                    mr_Category := trim_space (mr_Category result),
                    mr_Reason := truncateString (trim_space (mr_Reason result)) 500\<rparr>)
      else Inl (newAuditModelCallError sanitize ''invalid_decision'' 0
                  (''audit model returned invalid decision '' @ mr_Decision result) None))"

text \<open>\<open>balancedJSONObjects\<close>: the text ranges of top-level objects, quotes respected. The scan
  is over bytes; the characters it compares are ASCII, so the offsets are those of the code.\<close>

record scan_state =
  sc_start :: "nat option"
  sc_depth :: nat
  sc_inString :: bool
  sc_escaped :: bool
  sc_found :: "(nat \<times> nat) list"

fun balanced_scan :: "nat \<Rightarrow> string \<Rightarrow> scan_state \<Rightarrow> (nat \<times> nat) list" where
  "balanced_scan i [] s = sc_found s"
| "balanced_scan i (c # cs) s =
     balanced_scan (Suc i) cs
       (case sc_start s of
          None \<Rightarrow> if c = CHR 0x7B
                  then s\<lparr>sc_start := Some i, sc_depth := 1, sc_inString := False, sc_escaped := False\<rparr> else s
        | Some b \<Rightarrow>
            if sc_inString s then
              (if sc_escaped s then s\<lparr>sc_escaped := False\<rparr>
               else if c = CHR 0x5C then s\<lparr>sc_escaped := True\<rparr>
               else if c = CHR 0x22 then s\<lparr>sc_inString := False\<rparr> else s)
            else if c = CHR 0x22 then s\<lparr>sc_inString := True\<rparr>
            else if c = CHR 0x7B then s\<lparr>sc_depth := Suc (sc_depth s)\<rparr>
            else if c = CHR 0x7D then
              (if sc_depth s = 1
               then s\<lparr>sc_depth := 0, sc_start := None, sc_found := sc_found s @ [(b, Suc i)]\<rparr>
               else s\<lparr>sc_depth := sc_depth s - 1\<rparr>)
            else s)"

definition balancedJSONObjects :: "string \<Rightarrow> string list" where
  "balancedJSONObjects value =
     map (\<lambda>(a, b). take (b - a) (drop a value))
       (balanced_scan 0 value \<lparr>sc_start = None, sc_depth = 0, sc_inString = False, sc_escaped = False, sc_found = []\<rparr>)"

section \<open>Lemmas\<close>

text \<open>Every retryable class that is an output problem changes the output format of the retry.\<close>

lemma validate_range:
  assumes "validateAuditModelResponse f r = Inr r'"
  shows "mr_Decision r' \<in> {DecisionAllow, DecisionBlock, DecisionReview}
    \<and> 0 \<le> mr_Confidence r' \<and> mr_Confidence r' \<le> 1"
  using assms by (auto simp: validateAuditModelResponse_def Let_def clampConfidence_def split: if_splits)

text \<open>The ranges found are inside the text, nonempty, disjoint and in order, and each is
  delimited by braces.\<close>

definition spans_ok :: "string \<Rightarrow> nat \<Rightarrow> (nat \<times> nat) list \<Rightarrow> bool" where
  "spans_ok text i spans \<longleftrightarrow>
     sorted_wrt (\<lambda>x y. snd x \<le> fst y) spans
     \<and> (\<forall>(a, b) \<in> set spans. a < b \<and> b \<le> i \<and> text ! a = CHR 0x7B \<and> text ! (b - 1) = CHR 0x7D)"

definition scan_inv :: "string \<Rightarrow> nat \<Rightarrow> scan_state \<Rightarrow> bool" where
  "scan_inv text i s \<longleftrightarrow>
     spans_ok text i (sc_found s)
     \<and> (case sc_start s of None \<Rightarrow> True
        | Some b \<Rightarrow> b < i \<and> text ! b = CHR 0x7B \<and> (\<forall>(x, y) \<in> set (sc_found s). y \<le> b))"

lemma spans_ok_later: "spans_ok text i spans \<Longrightarrow> spans_ok text (Suc i) spans"
  by (fastforce simp: spans_ok_def)

lemma spans_ok_snoc:
  assumes "spans_ok text i spans" and "\<forall>(x, y) \<in> set spans. y \<le> b" and "b < i"
    and "text ! b = CHR 0x7B" and "text ! i = CHR 0x7D"
  shows "spans_ok text (Suc i) (spans @ [(b, Suc i)])"
  using assms by (fastforce simp: spans_ok_def sorted_wrt_append)

lemma balanced_scan_ok:
  assumes "scan_inv text i s" and "drop i text = cs"
  shows "spans_ok text (length text) (balanced_scan i cs s) \<or> length text < i"
  using assms
proof (induction i cs s rule: balanced_scan.induct)
  case (1 i s)
  then have "length text \<le> i" by simp
  show ?case
  proof (cases "length text = i")
    case True
    with 1 show ?thesis by (simp add: scan_inv_def)
  qed (use \<open>length text \<le> i\<close> in simp)
next
  case (2 i c cs s)
  then have i: "i < length text" by (metis drop_eq_Nil2 list.distinct(1) not_le)
  with 2(3) have c: "text ! i = c" "drop (Suc i) text = cs"
    by (metis Cons_nth_drop_Suc list.inject)+
  note found = 2(2) [unfolded scan_inv_def, THEN conjunct1]
  show ?case
  proof (cases "sc_start s")
    case None
    then have "scan_inv text (Suc i) (if c = CHR 0x7B
        then s\<lparr>sc_start := Some i, sc_depth := 1, sc_inString := False, sc_escaped := False\<rparr> else s)"
      using found c by (auto simp: scan_inv_def spans_ok_later) (auto simp: spans_ok_def)
    with 2(1) c(2) None i show ?thesis by auto
  next
    case (Some b)
    with 2(2) have b: "b < i" "text ! b = CHR 0x7B" "\<forall>(x, y) \<in> set (sc_found s). y \<le> b"
      by (auto simp: scan_inv_def)
    have "scan_inv text (Suc i)
       (if sc_inString s then
              (if sc_escaped s then s\<lparr>sc_escaped := False\<rparr>
               else if c = CHR 0x5C then s\<lparr>sc_escaped := True\<rparr>
               else if c = CHR 0x22 then s\<lparr>sc_inString := False\<rparr> else s)
            else if c = CHR 0x22 then s\<lparr>sc_inString := True\<rparr>
            else if c = CHR 0x7B then s\<lparr>sc_depth := Suc (sc_depth s)\<rparr>
            else if c = CHR 0x7D then
              (if sc_depth s = 1
               then s\<lparr>sc_depth := 0, sc_start := None, sc_found := sc_found s @ [(b, Suc i)]\<rparr>
               else s\<lparr>sc_depth := sc_depth s - 1\<rparr>)
            else s)"
      using Some b spans_ok_later [OF found] spans_ok_snoc [OF found b(3) b(1,2)] c(1)
      by (simp add: scan_inv_def)
    with 2(1) c(2) Some i show ?thesis by auto
  qed
qed

end
