(* ===== verification/Audit_Chunks.thy ===== *)
theory Audit_Chunks
  imports Audit_Types "HOL-Library.Multiset"
begin

text \<open>
  Auditing a request that exceeds the model's context (\<open>audit_long_context.go\<close>,
  \<open>audit_request_budget.go\<close>, \<open>audit_chunk_checkpoint.go\<close>, \<open>recoveryAuditChunkBytes\<close> of
  \<open>audit_recovery.go\<close>): splitting the text, sizing the chunks, the call budget, the reuse of
  allowed chunks within a request, and the collector of the workers' results. Model calls are
  parameters; results arrive at the collector in any order.
\<close>

section \<open>Splitting\<close>

fun back_to_rune :: "string \<Rightarrow> nat \<Rightarrow> nat \<Rightarrow> nat" where
  "back_to_rune src start 0 = 0"
| "back_to_rune src start (Suc e) =
     (if Suc e > start \<and> \<not> rune_start (src ! Suc e) then back_to_rune src start e else Suc e)"

function forward_to_rune :: "string \<Rightarrow> nat \<Rightarrow> nat" where
  "forward_to_rune src i =
     (if i < length src \<and> \<not> rune_start (src ! i) then forward_to_rune src (Suc i) else i)"
  by pat_completeness auto
termination by (relation "measure (\<lambda>(src, i). length src - i)") auto

declare forward_to_rune.simps [simp del]

text \<open>\<open>strings.LastIndexByte\<close>.\<close>

fun last_index_byte :: "string \<Rightarrow> char \<Rightarrow> nat option" where
  "last_index_byte [] b = None"
| "last_index_byte (c # cs) b =
     (case last_index_byte cs b of Some i \<Rightarrow> Some (Suc i) | None \<Rightarrow> if c = b then Some 0 else None)"

definition chunk_end :: "string \<Rightarrow> nat \<Rightarrow> nat \<Rightarrow> nat" where
  "chunk_end src maxBytes start =
     (let end0 = start + maxBytes;
          end1 = (if end0 \<ge> length src then length src
                  else
                    (let e = back_to_rune src start end0;
                         floor = start + maxBytes * 3 div 4
                     in if floor < e
                        then (case last_index_byte (take (e - floor) (drop floor src)) (CHR 0x0A) of
                                Some relative \<Rightarrow>
                                  (if floor + relative + 1 > start then floor + relative + 1 else e)
                              | None \<Rightarrow> e)
                        else e))
      in if end1 \<le> start then forward_to_rune src (start + 1) else end1)"

definition next_start :: "string \<Rightarrow> nat \<Rightarrow> nat \<Rightarrow> nat \<Rightarrow> nat" where
  "next_start src overlap start e =
     forward_to_rune src (if e - overlap \<le> start then e else e - overlap)"

lemma forward_to_rune_ge: "i \<le> forward_to_rune src i"
proof (induction src i rule: forward_to_rune.induct)
  case (1 src i)
  then have "i \<le> (if i < length src \<and> \<not> rune_start (src ! i) then forward_to_rune src (Suc i) else i)"
    by auto
  then show ?case by (simp only: forward_to_rune.simps [of src i])
qed

lemma chunk_end_progress: "start < length src \<Longrightarrow> start < chunk_end src maxBytes start"
  using forward_to_rune_ge [of "start + 1" src]
  by (auto simp: chunk_end_def Let_def split: option.split)

lemma next_start_progress: "start < e \<Longrightarrow> start < next_start src overlap start e"
  using forward_to_rune_ge [of "if e - overlap \<le> start then e else e - overlap" src]
  by (auto simp: next_start_def split: if_splits)

function split_spans :: "string \<Rightarrow> nat \<Rightarrow> nat \<Rightarrow> nat \<Rightarrow> (nat \<times> nat) list" where
  "split_spans src maxBytes overlap start =
     (if start < length src then
        (let e = chunk_end src maxBytes start in
         if e \<ge> length src then [(start, e)]
         else (start, e) # split_spans src maxBytes overlap (next_start src overlap start e))
      else [])"
  by pat_completeness auto
termination
  by (relation "measure (\<lambda>(src, m, v, start). length src - start)")
    (auto intro!: diff_less_mono2 next_start_progress chunk_end_progress)

declare split_spans.simps [simp del]

definition slice :: "string \<Rightarrow> nat \<times> nat \<Rightarrow> string" where
  "slice src ab = take (snd ab - fst ab) (drop (fst ab) src)"

definition effective_overlap :: "int \<Rightarrow> int \<Rightarrow> nat" where
  "effective_overlap maxBytes overlap0 =
     (let overlap1 = (if overlap0 < 0 then 0 else overlap0) in
      nat (if overlap1 \<ge> maxBytes div 2 then maxBytes div 4 else overlap1))"

definition splitAuditTextWithOffsets :: "string \<Rightarrow> int \<Rightarrow> int \<Rightarrow> string list \<times> nat list" where
  "splitAuditTextWithOffsets src maxBytes overlapBytes =
     (if src = [] then ([], [])
      else if maxBytes \<le> 0 \<or> int (length src) \<le> maxBytes then ([src], [0])
      else (let spans = split_spans src (nat maxBytes) (effective_overlap maxBytes overlapBytes) 0
            in (map (slice src) spans, map fst spans)))"

section \<open>Chunk sizes\<close>

record audit_limits =
  al_contextTargetTokens :: int
  al_fallbackChunkBytes :: int
  al_chunkOverlapBytes :: int
  al_maxAuditChunks :: int
  al_outputMaxTokens :: int

definition fit_chunk :: "int \<Rightarrow> int \<Rightarrow> int" where
  "fit_chunk textBytes bytes1 =
     (let bytes2 = (if bytes1 < 1024 then 1024 else bytes1);
          bytes3 = (if bytes2 \<ge> textBytes then textBytes div 2 else bytes2)
      in if bytes3 < 1 then 1 else bytes3)"

definition auditChunkBytesForOutput :: "audit_limits \<Rightarrow> int \<Rightarrow> int \<Rightarrow> int \<Rightarrow> int \<Rightarrow> int" where
  "auditChunkBytesForOutput e textBytes requestedTokens contextWindowTokens outputTokens =
     (let target0 = al_contextTargetTokens e;
          modelTarget = contextWindowTokens - outputTokens - 2048;
          target = (if contextWindowTokens > 0 \<and> modelTarget > 0 \<and> (target0 \<le> 0 \<or> modelTarget < target0)
                    then modelTarget else target0);
          bytes0 = (if al_fallbackChunkBytes e \<le> 0 then 192 * 1024 else al_fallbackChunkBytes e);
          bytes1 = (if requestedTokens > 0 \<and> target > 0 \<and> requestedTokens > target
                    then \<lfloor>of_int textBytes * (of_int target / of_int requestedTokens) * (9 / 10 :: rat)\<rfloor>
                    else bytes0)
      in fit_chunk textBytes bytes1)"

definition initialAuditChunkBytes :: "audit_limits \<Rightarrow> int \<Rightarrow> int \<Rightarrow> int \<Rightarrow> int" where
  "initialAuditChunkBytes e textBytes requestedTokens contextWindowTokens =
     (if textBytes \<le> 1 then 1
      else auditChunkBytesForOutput e textBytes requestedTokens contextWindowTokens (al_outputMaxTokens e))"

text \<open>\<open>outputTokens\<close> is the larger of the plan's and the error's completion budget.\<close>

definition context_counts :: "audit_error \<Rightarrow> int \<times> int \<times> bool" where
  "context_counts err =
     (case err of CallError c _ \<Rightarrow> (ce_MaxContextTokens c, ce_RequestedTokens c, ce_RequestedTokensLowerBound c)
      | _ \<Rightarrow> (0, 0, False))"

definition cap_chunk :: "audit_limits \<Rightarrow> int \<Rightarrow> bool \<Rightarrow> int \<Rightarrow> int" where
  "cap_chunk e budget lowerBound size0 =
     (let cap0 = (if al_fallbackChunkBytes e \<le> 0 then 192 * 1024 else al_fallbackChunkBytes e);
          cap = (if budget > 0 \<and> budget < cap0 then budget else cap0);
          size1 = (if lowerBound \<and> size0 > cap then cap else size0)
      in if size1 < 1 then 1 else size1)"

definition recoveryAuditChunkBytes :: "audit_limits \<Rightarrow> int \<Rightarrow> audit_error \<Rightarrow> int \<Rightarrow> int" where
  "recoveryAuditChunkBytes e outputTokens err textBytes =
     (case context_counts err of (maxTokens, inputTokens, lowerBound) \<Rightarrow>
        cap_chunk e (maxTokens - outputTokens - 2048) lowerBound
          (auditChunkBytesForOutput e textBytes inputTokens maxTokens outputTokens))"

section \<open>The call budget\<close>

definition maxAuditSemanticCalls :: int where "maxAuditSemanticCalls = 32"
definition cyberDenyHTTPBudget :: int where "cyberDenyHTTPBudget = 64"
definition auditChunkRetryLimit :: nat where "auditChunkRetryLimit = 4"
definition maxAuditTotalAttempts :: int where "maxAuditTotalAttempts = 24"
definition maxAuditChunkPlans :: int where
  "maxAuditChunkPlans = maxAuditTotalAttempts * (int auditChunkRetryLimit + 1)"

record auditSemanticState =
  ss_httpCalls :: int
  ss_httpBudget :: int
  ss_budgetPlans :: int
  ss_reviewBudget :: int
  ss_reviewCalls :: int

definition fresh_semantic_state :: auditSemanticState where
  "fresh_semantic_state = \<lparr>ss_httpCalls = 0, ss_httpBudget = 0, ss_budgetPlans = 0, ss_reviewBudget = 0,
     ss_reviewCalls = 0\<rparr>"

definition configureChunkBudget :: "int \<Rightarrow> int list \<Rightarrow> auditSemanticState \<Rightarrow> auditSemanticState option" where
  "configureChunkBudget chunks votes s =
     (let reviewers = (if length votes = 1 then hd votes else 3) in
      if chunks \<le> 0 \<or> length votes > 1 \<or> reviewers < 1 \<or> reviewers > 3 then None
      else
        (let httpPerChunk = 2 * (1 + reviewers);
             reviewPerChunk = 1 + 2 * reviewers;
             maxInt = max_int64
         in if chunks > maxInt div httpPerChunk \<or> chunks > maxInt div reviewPerChunk then None
            else
              (let httpWork = chunks * httpPerChunk;
                   reviewWork = chunks * reviewPerChunk;
                   baseHTTP = max cyberDenyHTTPBudget (ss_httpBudget s);
                   baseReview = max maxAuditSemanticCalls (ss_reviewBudget s)
               in if ss_budgetPlans s \<ge> maxAuditChunkPlans \<or> httpWork > maxInt - baseHTTP
                     \<or> reviewWork > maxInt - baseReview then None
                  else Some (s\<lparr>ss_httpBudget := baseHTTP + httpWork,
                               ss_reviewBudget := baseReview + reviewWork,
                               ss_budgetPlans := ss_budgetPlans s + 1\<rparr>))))"

definition reserveReview :: "auditSemanticState \<Rightarrow> auditSemanticState \<times> bool" where
  "reserveReview s =
     (let limit = (if ss_reviewBudget s = 0 then maxAuditSemanticCalls else ss_reviewBudget s) in
      if ss_reviewCalls s \<ge> limit then (s, False) else (s\<lparr>ss_reviewCalls := ss_reviewCalls s + 1\<rparr>, True))"

text \<open>The reservation of an HTTP call in \<open>callModelRawWithEvidenceSource\<close>.\<close>

definition reserveHTTP :: "auditSemanticState \<Rightarrow> auditSemanticState \<times> bool" where
  "reserveHTTP s =
     (let limit = (if ss_httpBudget s = 0 then cyberDenyHTTPBudget else ss_httpBudget s) in
      if ss_httpCalls s \<ge> limit then (s, False) else (s\<lparr>ss_httpCalls := ss_httpCalls s + 1\<rparr>, True))"

section \<open>Splitting: every byte, and every short window, is in a chunk\<close>

text \<open>What valid UTF-8 gives the splitter.\<close>

definition utf8_shape :: "string \<Rightarrow> bool" where
  "utf8_shape s \<longleftrightarrow>
     (\<forall>i < length s. \<exists>k \<le> i. i - k \<le> 3 \<and> rune_start (s ! k))
     \<and> (\<forall>i. Suc i < length s \<and> byte (s ! i) < 128 \<longrightarrow> rune_start (s ! Suc i))"

lemma decode_rune_bytes:
  assumes "decode_rune (c # r) = (Some x, w)"
  shows "w \<le> 4 \<and> rune_start c \<and> (w = 1 \<or> list_all (\<lambda>c. 128 \<le> byte c) (take w (c # r)))"
  using assms
  by (cases r rule: list.exhaust [case_product list.exhaust])
    (auto simp: decode_rune_def Let_def rune_start_def cont_byte_def
      split: list.splits if_splits)

lemma decode_rune_shape:
  assumes "s \<noteq> []" and "decode_rune s = (Some r, w)" and "w \<le> length s"
  shows "w \<le> 4 \<and> rune_start (hd s) \<and> (w = 1 \<or> (\<forall>i < w. 128 \<le> byte (s ! i)))"
proof (cases s)
  case (Cons c cs)
  with assms decode_rune_bytes [of c cs r w] show ?thesis
    by (auto simp: list_all_length)
qed (use assms(1) in simp)

lemma valid_utf8_Cons:
  assumes "s \<noteq> []" and "valid_utf8 s"
  obtains r w where "decode_rune s = (Some r, w)" "1 \<le> w" "w \<le> length s" "valid_utf8 (drop w s)"
proof -
  obtain ro w where d: "decode_rune s = (ro, w)" by fastforce
  have "runes s = ro # runes (drop w s)" using assms(1) d by (subst runes.simps) simp
  with assms(2) have "None \<noteq> ro" "valid_utf8 (drop w s)" by (auto simp: valid_utf8_def)
  with d decode_rune_width [OF assms(1)] that show ?thesis by (cases ro) auto
qed

lemma valid_utf8_shape: "valid_utf8 s \<Longrightarrow> utf8_shape s \<and> (s \<noteq> [] \<longrightarrow> rune_start (s ! 0))"
proof (induction s rule: length_induct)
  case (1 s)
  show ?case
  proof (cases "s = []")
    case False
    obtain r w where w: "decode_rune s = (Some r, w)" "1 \<le> w" "w \<le> length s" "valid_utf8 (drop w s)"
      using valid_utf8_Cons [OF False 1(2)] .
    note shape = decode_rune_shape [OF False w(1,3)]
    from False have zero: "rune_start (s ! 0)" using shape by (simp add: hd_conv_nth)
    have "length (drop w s) < length s" using w(2,3) False by simp
    with 1(1) w(4) have IH: "utf8_shape (drop w s)" "drop w s \<noteq> [] \<longrightarrow> rune_start (drop w s ! 0)"
      by blast+
    have "\<exists>k \<le> i. i - k \<le> 3 \<and> rune_start (s ! k)" if "i < length s" for i
    proof (cases "i < w")
      case True
      with shape zero show ?thesis by (intro exI [of _ 0]) auto
    next
      case False
      with that have "i - w < length (drop w s)" by simp
      with IH(1) obtain k where "k \<le> i - w" "i - w - k \<le> 3" "rune_start (drop w s ! k)"
        unfolding utf8_shape_def by blast
      with False w(3) show ?thesis by (intro exI [of _ "w + k"]) auto
    qed
    moreover have "rune_start (s ! Suc i)" if i: "Suc i < length s" "byte (s ! i) < 128" for i
    proof (cases "Suc i < w")
      case True
      with shape have "128 \<le> byte (s ! i)" by auto
      with i(2) show ?thesis by simp
    next
      case False
      show ?thesis
      proof (cases "Suc i = w")
        case True
        with i(1) IH(2) show ?thesis by auto
      next
        case False
        with \<open>\<not> Suc i < w\<close> have "w \<le> i" by simp
        with i have "Suc (i - w) < length (drop w s)" "byte (drop w s ! (i - w)) < 128" by auto
        with IH(1) have "rune_start (drop w s ! Suc (i - w))" unfolding utf8_shape_def by blast
        with \<open>w \<le> i\<close> i(1) show ?thesis by (simp add: Suc_diff_le [symmetric])
      qed
    qed
    ultimately show ?thesis using zero by (auto simp: utf8_shape_def)
  qed (simp add: utf8_shape_def)
qed

lemma forward_to_rune_le:
  "i \<le> j \<Longrightarrow> j = length src \<or> j < length src \<and> rune_start (src ! j) \<Longrightarrow> forward_to_rune src i \<le> j"
proof (induction src i rule: forward_to_rune.induct)
  case (1 src i)
  then have "(if i < length src \<and> \<not> rune_start (src ! i) then forward_to_rune src (Suc i) else i) \<le> j"
    by (cases "i = j") auto
  then show ?case by (simp only: forward_to_rune.simps [of src i])
qed

lemma forward_to_rune_short:
  assumes "utf8_shape src" and "i \<le> length src"
  shows "forward_to_rune src i \<le> i + 3"
proof (cases "i + 3 < length src")
  case True
  with assms(1) obtain k where "k \<le> i + 3" "i + 3 - k \<le> 3" "rune_start (src ! k)"
    unfolding utf8_shape_def by blast
  moreover from this have "i \<le> k" by simp
  ultimately show ?thesis using True forward_to_rune_le [of i k src] by linarith
next
  case False
  with assms(2) forward_to_rune_le [of i "length src" src] show ?thesis by auto
qed

lemma forward_to_rune_boundary:
  assumes "i \<le> length src"
  shows "forward_to_rune src i = length src
    \<or> forward_to_rune src i < length src \<and> rune_start (src ! forward_to_rune src i)"
  using assms
proof (induction src i rule: forward_to_rune.induct)
  case (1 src i)
  then show ?case by (cases "i < length src \<and> \<not> rune_start (src ! i)")
      (auto simp: forward_to_rune.simps [of src i])
qed

lemma back_to_rune_bounds:
  "start \<le> e \<Longrightarrow> start \<le> back_to_rune src start e \<and> back_to_rune src start e \<le> e
     \<and> (back_to_rune src start e = start \<or> rune_start (src ! back_to_rune src start e))"
  by (induction src start e rule: back_to_rune.induct) auto

lemma back_to_rune_short:
  "k \<le> e \<Longrightarrow> rune_start (src ! k) \<Longrightarrow> start \<le> e \<Longrightarrow> min k e \<le> back_to_rune src start e"
  by (induction src start e rule: back_to_rune.induct) (auto simp: le_Suc_eq)

lemma last_index_byte_Some: "last_index_byte cs b = Some i \<Longrightarrow> i < length cs \<and> cs ! i = b"
  by (induction cs arbitrary: i) (auto split: option.splits if_splits)

text \<open>A chunk ends at a rune boundary, within its size (or after one rune), and past three
  quarters of it unless the text ends.\<close>

lemma chunk_end_cases:
  assumes "utf8_shape src" and "start < length src" and "0 < m"
  shows "chunk_end src m start \<le> length src"
    and "chunk_end src m start \<le> start + max m 4"
    and "chunk_end src m start = length src
      \<or> chunk_end src m start < length src \<and> rune_start (src ! chunk_end src m start)"
    and "8 \<le> m \<Longrightarrow> chunk_end src m start = length src \<or> start + m * 3 div 4 - 3 < chunk_end src m start"
proof -
  have fwd: "forward_to_rune src (start + 1) \<le> length src" "forward_to_rune src (start + 1) \<le> start + 4"
    using forward_to_rune_le [of "start + 1" "length src" src] forward_to_rune_short [OF assms(1), of "start + 1"]
      assms(2) by auto
  note fb = forward_to_rune_boundary [of "start + 1" src]
  define B where "B = back_to_rune src start (start + m)"
  have B: "start \<le> B" "B \<le> start + m" "B = start \<or> rune_start (src ! B)"
    using back_to_rune_bounds [of start "start + m" src] by (auto simp: B_def)
  define fl where "fl = start + m * 3 div 4"
  show "chunk_end src m start \<le> length src" "chunk_end src m start \<le> start + max m 4"
    "chunk_end src m start = length src
      \<or> chunk_end src m start < length src \<and> rune_start (src ! chunk_end src m start)"
    "8 \<le> m \<Longrightarrow> chunk_end src m start = length src \<or> start + m * 3 div 4 - 3 < chunk_end src m start"
  proof -
    have "chunk_end src m start \<le> length src \<and> chunk_end src m start \<le> start + max m 4
      \<and> (chunk_end src m start = length src
         \<or> chunk_end src m start < length src \<and> rune_start (src ! chunk_end src m start))
      \<and> (8 \<le> m \<longrightarrow> chunk_end src m start = length src \<or> fl - 3 < chunk_end src m start)"
    proof (cases "length src \<le> start + m")
      case True
      with assms(2) show ?thesis by (simp add: chunk_end_def Let_def)
    next
      case False
      define nl where "nl = last_index_byte (take (B - fl) (drop fl src)) (CHR 0x0A)"
      define e where "e = (if fl < B then (case nl of Some r \<Rightarrow> (if fl + r + 1 > start then fl + r + 1 else B)
          | None \<Rightarrow> B) else B)"
      have ce: "chunk_end src m start = (if e \<le> start then forward_to_rune src (start + 1) else e)"
        unfolding chunk_end_def Let_def e_def nl_def B_def fl_def if_not_P [OF False] ..
      have deep: "8 \<le> m \<Longrightarrow> fl - 3 < B"
      proof -
        assume "8 \<le> m"
        from False have "start + m < length src" by simp
        with assms(1) obtain k where "k \<le> start + m" "start + m - k \<le> 3" "rune_start (src ! k)"
          unfolding utf8_shape_def by blast
        with back_to_rune_short [of k "start + m" src start] have "start + m - 3 \<le> B"
          by (auto simp: B_def)
        with \<open>8 \<le> m\<close> show ?thesis by (simp add: fl_def)
      qed
      show ?thesis
      proof (cases "fl < B \<and> nl \<noteq> None")
        case True
        then obtain r where r: "nl = Some r" by auto
        from last_index_byte_Some [OF r [unfolded nl_def]] True B(2) False
        have "fl + r < B" "src ! (fl + r) = CHR 0x0A" by auto
        moreover from this have "fl + r + 1 = length src
            \<or> fl + r + 1 < length src \<and> rune_start (src ! (fl + r + 1))"
          using assms(1) B(2) False unfolding utf8_shape_def by auto
        ultimately show ?thesis using True r B(2) False ce by (auto simp: e_def fl_def)
      next
        case no: False
        then have "e = B" by (auto simp: e_def split: option.split)
        with ce fwd fb B deep False assms(2) forward_to_rune_ge [of "start + 1" src] show ?thesis by auto
      qed
    qed
    then show "chunk_end src m start \<le> length src" "chunk_end src m start \<le> start + max m 4"
      "chunk_end src m start = length src
        \<or> chunk_end src m start < length src \<and> rune_start (src ! chunk_end src m start)"
      "8 \<le> m \<Longrightarrow> chunk_end src m start = length src \<or> start + m * 3 div 4 - 3 < chunk_end src m start"
      by (auto simp: fl_def)
  qed
qed

lemma next_start_facts:
  assumes "utf8_shape src" and "start < e" and "e < length src" and "rune_start (src ! e)"
  shows "next_start src v start e \<le> e"
    and "start < e - v \<Longrightarrow> next_start src v start e \<le> e - v + 3"
  using forward_to_rune_le [of "if e - v \<le> start then e else e - v" e src]
    forward_to_rune_short [OF assms(1), of "e - v"] assms
  by (auto simp: next_start_def)

definition span_ok :: "string \<Rightarrow> nat \<Rightarrow> nat \<times> nat \<Rightarrow> bool" where
  "span_ok src m ab \<longleftrightarrow> fst ab < snd ab \<and> snd ab \<le> length src \<and> snd ab - fst ab \<le> max m 4"

text \<open>Induction over the chunks: the last one, or one chunk and the rest.\<close>

lemma split_spans_induct [consumes 3, case_names Last Chunk]:
  assumes "utf8_shape src" and "0 < m" and "start < length src"
    and last: "\<And>start. start < length src \<Longrightarrow> chunk_end src m start = length src \<Longrightarrow>
      length src - start \<le> max m 4 \<Longrightarrow> P start [(start, length src)]"
    and chunk: "\<And>start e n. start < e \<Longrightarrow> e < length src \<Longrightarrow> rune_start (src ! e) \<Longrightarrow> e - start \<le> max m 4 \<Longrightarrow>
      e = chunk_end src m start \<Longrightarrow> n = next_start src v start e \<Longrightarrow> start < n \<Longrightarrow> n \<le> e \<Longrightarrow>
      P n (split_spans src m v n) \<Longrightarrow> P start ((start, e) # split_spans src m v n)"
  shows "P start (split_spans src m v start)"
  using assms(3)
proof (induction "length src - start" arbitrary: start rule: less_induct)
  case less
  define e where "e = chunk_end src m start"
  note ce = chunk_end_cases [OF assms(1) less(2) assms(2), folded e_def]
  have pos: "start < e" using chunk_end_progress [OF less(2)] by (simp add: e_def)
  show ?case
  proof (cases "e = length src")
    case True
    then have "split_spans src m v start = [(start, length src)]"
      using less(2) by (subst split_spans.simps) (simp add: Let_def e_def)
    with last [OF less(2)] True ce(2) show ?thesis by (simp add: e_def)
  next
    case False
    with ce(1,3) have e: "e < length src" "rune_start (src ! e)" by auto
    let ?n = "next_start src v start e"
    have n: "start < ?n" "?n \<le> e"
      using next_start_progress [OF pos, of src v] next_start_facts(1) [OF assms(1) pos e, of v] by auto
    have "split_spans src m v start = (start, e) # split_spans src m v ?n"
      using less(2) e by (subst split_spans.simps) (simp add: Let_def e_def)
    moreover have "P ?n (split_spans src m v ?n)"
      by (rule less(1)) (use n e less(2) in auto)
    ultimately show ?thesis
      using chunk [OF pos e _ e_def refl n] ce(2) by simp
  qed
qed

lemma split_spans_sound:
  assumes "utf8_shape src" and "0 < m" and "start < length src"
  shows "\<forall>ab \<in> set (split_spans src m v start). start \<le> fst ab \<and> span_ok src m ab"
  using assms
  by (induction rule: split_spans_induct [where v = v]) (auto simp: span_ok_def)

lemma split_spans_covers:
  assumes "utf8_shape src" and "0 < m" and "start < length src"
  shows "\<forall>i. start \<le> i \<and> i < length src \<longrightarrow> (\<exists>(a, b) \<in> set (split_spans src m v start). a \<le> i \<and> i < b)"
  using assms
proof (induction rule: split_spans_induct [where v = v])
  case (Chunk start e n)
  show ?case
  proof (intro allI impI)
    fix i assume "start \<le> i \<and> i < length src"
    with Chunk show "\<exists>(a, b) \<in> set ((start, e) # split_spans src m v n). a \<le> i \<and> i < b"
      by (cases "i < e") auto
  qed
qed auto

text \<open>A window no longer than the overlap less one rune is never cut.\<close>

lemma split_spans_window:
  assumes "utf8_shape src" and "0 < m" and "start < length src"
    and "8 \<le> m" and "v < m div 2" and "w + 3 \<le> v"
  shows "\<forall>i. start \<le> i \<and> i + w \<le> length src \<longrightarrow>
    (\<exists>(a, b) \<in> set (split_spans src m v start). a \<le> i \<and> i + w \<le> b)"
  using assms(1-3)
proof (induction rule: split_spans_induct [where v = v])
  case (Chunk start e n)
  have "start + m * 3 div 4 - 3 < e"
    using chunk_end_cases(4) [OF assms(1) _ assms(2,4), of start] Chunk by auto
  with assms(4,5) have "start < e - v" by linarith
  with next_start_facts(2) [OF assms(1) Chunk(1-3), of v] Chunk(6) have n: "n \<le> e - v + 3" by simp
  show ?case
  proof (intro allI impI)
    fix i assume i: "start \<le> i \<and> i + w \<le> length src"
    show "\<exists>(a, b) \<in> set ((start, e) # split_spans src m v n). a \<le> i \<and> i + w \<le> b"
    proof (cases "i + w \<le> e")
      case True
      with i show ?thesis by auto
    next
      case False
      with n assms(6) \<open>start < e - v\<close> have "n \<le> i" by linarith
      with i Chunk(9) show ?thesis by auto
    qed
  qed
qed auto

text \<open>The same of the chunks themselves.\<close>

lemma split_window:
  assumes "valid_utf8 src" and "src \<noteq> []" and "splitAuditTextWithOffsets src m v = (chunks, offsets)"
    and "8 \<le> m" and "0 \<le> v" and "v < m div 2" and "int w + 3 \<le> v" and "i + w \<le> length src"
  shows "\<exists>j < length chunks. offsets ! j \<le> i \<and> i + w \<le> offsets ! j + length (chunks ! j)
    \<and> chunks ! j = take (length (chunks ! j)) (drop (offsets ! j) src)"
proof (cases "int (length src) \<le> m")
  case True
  then have "chunks = [src] \<and> offsets = [0]"
    using assms(2-4) by (auto simp: splitAuditTextWithOffsets_def)
  with assms(8) show ?thesis by simp
next
  case False
  define spans where "spans = split_spans src (nat m) (effective_overlap m v) 0"
  have eo: "effective_overlap m v = nat v"
    using assms(4-6) by (auto simp: effective_overlap_def Let_def)
  have sp: "chunks = map (slice src) spans" "offsets = map fst spans"
    using False assms(2-4) by (auto simp: splitAuditTextWithOffsets_def spans_def Let_def)
  have shape: "utf8_shape src" using valid_utf8_shape[OF assms(1)] by blast
  have len: "0 < length src" using assms(2) by simp
  have m: "0 < nat m" "8 \<le> nat m" "nat v < nat m div 2" "w + 3 \<le> nat v"
    using assms(4-7) by linarith+
  obtain a b where ab: "(a, b) \<in> set spans" "a \<le> i" "i + w \<le> b"
    using split_spans_window [OF shape m(1) len m(2-4)] assms(8) by (auto simp: spans_def eo)
  have ok: "a < b" "b \<le> length src"
    using split_spans_sound [OF shape m(1) len, of "effective_overlap m v"] ab(1)
    by (auto simp: spans_def span_ok_def)
  obtain j where j: "j < length spans" "spans ! j = (a, b)" using ab(1) by (auto simp: in_set_conv_nth)
  have "length (chunks ! j) = b - a" using j ok by (simp add: sp slice_def)
  then show ?thesis
    using j ok ab by (intro exI[of _ j]) (simp add: sp slice_def)
qed

lemma split_sizes:
  assumes "valid_utf8 src" and "splitAuditTextWithOffsets src m v = (chunks, offsets)" and "4 \<le> m"
    and "c \<in> set chunks"
  shows "0 < length c \<and> int (length c) \<le> m"
proof (cases "src = [] \<or> int (length src) \<le> m")
  case True
  then show ?thesis using assms by (auto simp: splitAuditTextWithOffsets_def split: if_splits)
next
  case False
  have shape: "utf8_shape src" using valid_utf8_shape[OF assms(1)] by blast
  have len: "0 < length src" using False by simp
  obtain a b where ab: "(a, b) \<in> set (split_spans src (nat m) (effective_overlap m v) 0)" "c = slice src (a, b)"
    using False assms by (auto simp: splitAuditTextWithOffsets_def Let_def)
  then have "span_ok src (nat m) (a, b)"
    using split_spans_sound [OF shape _ len, of "nat m" "effective_overlap m v"] assms(3) by auto
  then show ?thesis using ab(2) assms(3) by (auto simp: slice_def span_ok_def)
qed

section \<open>The collector\<close>

definition decorateAuditChunk :: "string \<Rightarrow> nat \<Rightarrow> nat \<Rightarrow> string" where
  "decorateAuditChunk src i tot =
     ''[LONG_CONTEXT_AUDIT_CHUNK '' @ dec_nat (i + 1) @ ''/'' @ dec_nat tot @ '']'' @ [CHR 0x0A] @
     ''This chunk is part of one request. Classify the '' @
     ''capability in this chunk; do not assume other '' @ ''chunks are safe.'' @
     [CHR 0x0A] @ src"

definition decorateChunkDecision :: "AuditDecision \<Rightarrow> nat \<Rightarrow> nat \<Rightarrow> AuditDecision" where
  "decorateChunkDecision d i tot =
     (let d1 = d\<lparr>ad_Source := ''model_chunked''\<rparr>;
          d2 = (if ad_EvidenceVerified d1
                then d1\<lparr>ad_EvidenceChunkIndex := int i + 1, ad_EvidenceChunkCount := int tot\<rparr> else d1);
          reason0 = trim_space (ad_Reason d2);
          reason = (if reason0 = [] then ''chunk decision'' else reason0)
      in d2\<lparr>ad_Reason := truncateString
             (''chunk '' @ dec_nat (i + 1) @ ''/'' @ dec_nat tot @ '': '' @ reason) 500\<rparr>)"

type_synonym chunk_result = "nat \<times> (audit_error + AuditDecision)"

record collector =
  co_firstBlock :: "(nat \<times> AuditDecision) option"
  co_strongestReview :: "(nat \<times> AuditDecision) option"
  co_firstError :: "audit_error option"
  co_allowConfidence :: rat
  co_completed :: nat

definition collector_start :: collector where
  "collector_start = \<lparr>co_firstBlock = None, co_strongestReview = None, co_firstError = None,
     co_allowConfidence = 1, co_completed = 0\<rparr>"

definition invalid_chunk_decision :: "(string \<Rightarrow> string) \<Rightarrow> string \<Rightarrow> audit_error" where
  "invalid_chunk_decision sanitize decision =
     newAuditModelCallError sanitize ''invalid_decision'' 0
       (''audit chunk returned invalid decision '' @ decision) None"

definition collect :: "(string \<Rightarrow> string) \<Rightarrow> collector \<Rightarrow> chunk_result \<Rightarrow> collector" where
  "collect sanitize c0 r =
     (let c = c0\<lparr>co_completed := co_completed c0 + 1\<rparr> in
      case snd r of
        Inl err \<Rightarrow>
          (if co_firstBlock c = None \<and> co_firstError c = None then c\<lparr>co_firstError := Some err\<rparr> else c)
      | Inr d \<Rightarrow>
          (if ad_Decision d = DecisionBlock then
             (if co_firstBlock c = None then c\<lparr>co_firstBlock := Some (fst r, d)\<rparr> else c)
           else if ad_Decision d = DecisionReview then
             (case co_strongestReview c of
                None \<Rightarrow> c\<lparr>co_strongestReview := Some (fst r, d)\<rparr>
              | Some (i, s) \<Rightarrow> if ad_Confidence d > ad_Confidence s
                  then c\<lparr>co_strongestReview := Some (fst r, d)\<rparr> else c)
           else if ad_Decision d = DecisionAllow then
             (if ad_Confidence d < co_allowConfidence c then c\<lparr>co_allowConfidence := ad_Confidence d\<rparr> else c)
           else if co_firstError c = None
             then c\<lparr>co_firstError := Some (invalid_chunk_decision sanitize (ad_Decision d))\<rparr> else c))"

definition all_chunks_allowed :: "rat \<Rightarrow> nat \<Rightarrow> AuditDecision" where
  "all_chunks_allowed confidence tot =
     no_decision\<lparr>ad_Decision := DecisionAllow, ad_Category := ''benign'', ad_Confidence := confidence,
       ad_Reason := ''all '' @ dec_nat tot @ '' long-context chunks allowed'',
       ad_Source := ''model_chunked''\<rparr>"

definition conclude :: "(string \<Rightarrow> string) \<Rightarrow> nat \<Rightarrow> audit_error option \<Rightarrow> collector \<Rightarrow> audit_error + AuditDecision" where
  "conclude sanitize tot ctxErr c =
     (case co_firstBlock c of
        Some (i, d) \<Rightarrow> Inr (decorateChunkDecision d i tot)
      | None \<Rightarrow>
          (case co_firstError c of
             Some err \<Rightarrow> Inl err
           | None \<Rightarrow>
               (case ctxErr of
                  Some err \<Rightarrow> Inl err
                | None \<Rightarrow>
                    if co_completed c < tot then
                      Inl (newAuditModelCallError sanitize ''connection'' 0
                             ''chunked audit was canceled before every chunk completed'' None)
                    else
                      (case co_strongestReview c of
                         Some (i, d) \<Rightarrow> Inr (decorateChunkDecision d i tot)
                       | None \<Rightarrow> Inr (all_chunks_allowed (co_allowConfidence c) tot)))))"

text \<open>The checkpoint of one request and profile.\<close>

type_synonym 'id checkpoint = "('id \<rightharpoonup> AuditDecision) option"

definition checkpoint_put :: "'id \<Rightarrow> audit_error + AuditDecision \<Rightarrow> 'id checkpoint \<Rightarrow> 'id checkpoint" where
  "checkpoint_put i res c =
     (case c of None \<Rightarrow> None
      | Some allows \<Rightarrow>
          (case res of Inl _ \<Rightarrow> c
           | Inr d \<Rightarrow> if ad_Decision d \<noteq> DecisionAllow then c else Some (allows(i \<mapsto> d))))"

definition checkpoint_get :: "'id checkpoint \<Rightarrow> 'id \<Rightarrow> AuditDecision option" where
  "checkpoint_get c i = (case c of None \<Rightarrow> None | Some allows \<Rightarrow> allows i)"

text \<open>
  \<open>callModelChunks\<close>: \<open>ids\<close> are the chunk identities, \<open>arrivals\<close> the results in the order the
  collector receives them (cached ones included), \<open>before\<close> and \<open>after\<close> the context's error at
  the two places it is read. The last component is the number of results that completed.
\<close>

definition recordAuditChunkCompletion :: "audit_error + AuditDecision \<Rightarrow> nat \<Rightarrow> nat" where
  "recordAuditChunkCompletion res n =
     (case res of Inl _ \<Rightarrow> n
      | Inr d \<Rightarrow> if ad_Decision d \<in> {DecisionAllow, DecisionBlock, DecisionReview} then n + 1 else n)"

definition callModelChunks ::
    "(string \<Rightarrow> string) \<Rightarrow> (nat \<Rightarrow> 'id) \<Rightarrow> 'id checkpoint \<Rightarrow> nat \<Rightarrow> chunk_result list \<Rightarrow>
     audit_error option \<Rightarrow> audit_error option \<Rightarrow> 'id checkpoint \<times> (audit_error + AuditDecision) \<times> nat" where
  "callModelChunks sanitize ids checkpoint tot arrivals before after =
     (if tot = 0 then
        (checkpoint, Inl (newAuditModelCallError sanitize ''input_too_large'' 0
           ''audit input produced no chunks'' None), 0)
      else
        (case before of
           Some err \<Rightarrow> (checkpoint, Inl err, 0)
         | None \<Rightarrow>
             if tot = 1 then
               (case checkpoint_get checkpoint (ids 0) of
                  Some d \<Rightarrow> (checkpoint, Inr d, recordAuditChunkCompletion (Inr d) 0)
                | None \<Rightarrow>
                    (let res = snd (hd arrivals) in
                     (checkpoint_put (ids 0) res checkpoint, res, recordAuditChunkCompletion res 0)))
             else
               (foldl (\<lambda>c (i, res). checkpoint_put (ids i) res c) checkpoint arrivals,
                conclude sanitize tot after (foldl (collect sanitize) collector_start arrivals),
                foldl (\<lambda>n (i, res). recordAuditChunkCompletion res n) 0 arrivals)))"

section \<open>The collector returns the strictest verdict\<close>

text \<open>Verdicts in the order of strictness; a failed chunk counts as stricter than a review.\<close>

datatype strictness = Allows | Reviews | Fails | Blocks

fun strictness_rank :: "strictness \<Rightarrow> nat" where
  "strictness_rank Allows = 0"
| "strictness_rank Reviews = 1"
| "strictness_rank Fails = 2"
| "strictness_rank Blocks = 3"

instantiation strictness :: linorder
begin

definition less_eq_strictness :: "strictness \<Rightarrow> strictness \<Rightarrow> bool" where
  "x \<le> y \<longleftrightarrow> strictness_rank x \<le> strictness_rank y"

definition less_strictness :: "strictness \<Rightarrow> strictness \<Rightarrow> bool" where
  "x < y \<longleftrightarrow> strictness_rank x < strictness_rank y"

instance
proof
  fix x y :: strictness
  assume "x \<le> y" "y \<le> x"
  then show "x = y" by (cases x; cases y) (simp_all add: less_eq_strictness_def)
qed (auto simp: less_eq_strictness_def less_strictness_def)

end

definition strictness_of :: "audit_error + AuditDecision \<Rightarrow> strictness" where
  "strictness_of res =
     (case res of Inl _ \<Rightarrow> Fails
      | Inr d \<Rightarrow> if ad_Decision d = DecisionBlock then Blocks
                else if ad_Decision d = DecisionReview then Reviews
                else if ad_Decision d = DecisionAllow then Allows else Fails)"

abbreviation kinds :: "chunk_result list \<Rightarrow> strictness set" where
  "kinds rs \<equiv> strictness_of ` snd ` set rs"

lemma strictness_of_simps [simp]:
  "strictness_of (Inl err) = Fails"
  "ad_Decision d = DecisionBlock \<Longrightarrow> strictness_of (Inr d) = Blocks"
  "ad_Decision d = DecisionReview \<Longrightarrow> strictness_of (Inr d) = Reviews"
  "ad_Decision d = DecisionAllow \<Longrightarrow> strictness_of (Inr d) = Allows"
  "ad_Decision d \<notin> {DecisionBlock, DecisionReview, DecisionAllow} \<Longrightarrow> strictness_of (Inr d) = Fails"
  by (simp_all add: strictness_of_def)

lemma result_cases [case_names Error Block Review Allow Invalid]:
  assumes "\<And>err. res = Inl err \<Longrightarrow> P" and "\<And>d. res = Inr d \<Longrightarrow> ad_Decision d = DecisionBlock \<Longrightarrow> P"
    and "\<And>d. res = Inr d \<Longrightarrow> ad_Decision d = DecisionReview \<Longrightarrow> P"
    and "\<And>d. res = Inr d \<Longrightarrow> ad_Decision d = DecisionAllow \<Longrightarrow> P"
    and "\<And>d. res = Inr d \<Longrightarrow> ad_Decision d \<notin> {DecisionBlock, DecisionReview, DecisionAllow} \<Longrightarrow> P"
  shows P
  using assms by (cases res) blast+

text \<open>One iteration, by the kind of the result.\<close>

lemma collect_simps:
  "collect f c (i, Inl err) = c\<lparr>co_completed := co_completed c + 1, co_firstError :=
     (if co_firstBlock c = None \<and> co_firstError c = None then Some err else co_firstError c)\<rparr>"
  "ad_Decision d = DecisionBlock \<Longrightarrow> collect f c (i, Inr d) = c\<lparr>co_completed := co_completed c + 1,
     co_firstBlock := (if co_firstBlock c = None then Some (i, d) else co_firstBlock c)\<rparr>"
  "ad_Decision d = DecisionReview \<Longrightarrow> collect f c (i, Inr d) = c\<lparr>co_completed := co_completed c + 1,
     co_strongestReview := (case co_strongestReview c of None \<Rightarrow> Some (i, d)
       | Some (j, s) \<Rightarrow> if ad_Confidence d > ad_Confidence s then Some (i, d) else Some (j, s))\<rparr>"
  "ad_Decision d = DecisionAllow \<Longrightarrow> collect f c (i, Inr d) = c\<lparr>co_completed := co_completed c + 1,
     co_allowConfidence := min (ad_Confidence d) (co_allowConfidence c)\<rparr>"
  "ad_Decision d \<notin> {DecisionBlock, DecisionReview, DecisionAllow} \<Longrightarrow>
     collect f c (i, Inr d) = c\<lparr>co_completed := co_completed c + 1, co_firstError :=
       (if co_firstError c = None then Some (invalid_chunk_decision f (ad_Decision d)) else co_firstError c)\<rparr>"
  by (cases c; auto simp: collect_def Let_def min_def split: option.split)+

definition block_inv :: "chunk_result list \<Rightarrow> collector \<Rightarrow> bool" where
  "block_inv rs c \<longleftrightarrow> co_completed c = length rs
     \<and> (case co_firstBlock c of None \<Rightarrow> Blocks \<notin> kinds rs
        | Some (i, d) \<Rightarrow> (i, Inr d) \<in> set rs \<and> ad_Decision d = DecisionBlock)"

definition error_inv :: "chunk_result list \<Rightarrow> collector \<Rightarrow> bool" where
  "error_inv rs c \<longleftrightarrow> (co_firstError c \<noteq> None \<longrightarrow> Fails \<in> kinds rs)
     \<and> (Fails \<in> kinds rs \<and> co_firstBlock c = None \<longrightarrow> co_firstError c \<noteq> None)"

definition review_inv :: "chunk_result list \<Rightarrow> collector \<Rightarrow> bool" where
  "review_inv rs c \<longleftrightarrow>
     (case co_strongestReview c of None \<Rightarrow> Reviews \<notin> kinds rs
      | Some (i, d) \<Rightarrow> (i, Inr d) \<in> set rs \<and> ad_Decision d = DecisionReview)"

definition allow_inv :: "chunk_result list \<Rightarrow> collector \<Rightarrow> bool" where
  "allow_inv rs c \<longleftrightarrow>
     (\<forall>(i, res) \<in> set rs. \<forall>d. res = Inr d \<and> ad_Decision d = DecisionAllow \<longrightarrow> co_allowConfidence c \<le> ad_Confidence d)"

lemma block_inv_step: "block_inv rs c \<Longrightarrow> block_inv (rs @ [(i, res)]) (collect f c (i, res))"
  by (cases res rule: result_cases)
    (auto simp: block_inv_def collect_simps split: option.splits)

lemma error_inv_step: "error_inv rs c \<Longrightarrow> error_inv (rs @ [(i, res)]) (collect f c (i, res))"
  by (cases res rule: result_cases)
    (auto simp: error_inv_def collect_simps)

lemma review_inv_step: "review_inv rs c \<Longrightarrow> review_inv (rs @ [(i, res)]) (collect f c (i, res))"
  by (cases res rule: result_cases)
    (auto simp: review_inv_def collect_simps split: option.splits)

lemma allow_inv_step: "allow_inv rs c \<Longrightarrow> allow_inv (rs @ [(i, res)]) (collect f c (i, res))"
  by (cases res rule: result_cases)
    (fastforce simp: allow_inv_def collect_simps min_le_iff_disj)+

definition collector_inv :: "chunk_result list \<Rightarrow> collector \<Rightarrow> bool" where
  "collector_inv rs c \<longleftrightarrow> block_inv rs c \<and> error_inv rs c \<and> review_inv rs c \<and> allow_inv rs c"

lemma collector_run_inv: "collector_inv rs (foldl (collect f) collector_start rs)"
proof (induction rs rule: rev_induct)
  case Nil
  then show ?case
    by (simp add: collector_inv_def block_inv_def error_inv_def review_inv_def allow_inv_def collector_start_def)
next
  case (snoc r rs)
  obtain i res where "r = (i, res)" by fastforce
  with snoc show ?case
    by (simp add: collector_inv_def block_inv_step error_inv_step review_inv_step allow_inv_step)
qed

lemma decorate_decision [simp]: "ad_Decision (decorateChunkDecision d i n) = ad_Decision d"
  by (simp add: decorateChunkDecision_def Let_def)

lemma strictness_top [simp]: "x \<le> Blocks" and strictness_bot [simp]: "Allows \<le> x"
  by (cases x; simp add: less_eq_strictness_def)+

lemma Max_kinds:
  assumes "finite K" and "K \<noteq> {}"
  shows "Max K = (if Blocks \<in> K then Blocks else if Fails \<in> K then Fails
    else if Reviews \<in> K then Reviews else Allows)"
proof (rule Max_eqI)
  fix y assume "y \<in> K"
  then show "y \<le> (if Blocks \<in> K then Blocks else if Fails \<in> K then Fails
      else if Reviews \<in> K then Reviews else Allows)"
    by (cases y) (auto simp: less_eq_strictness_def)
next
  show "(if Blocks \<in> K then Blocks else if Fails \<in> K then Fails
    else if Reviews \<in> K then Reviews else Allows) \<in> K"
  proof -
    obtain y where "y \<in> K" using assms(2) by auto
    then show ?thesis by (cases y) auto
  qed
qed (rule assms)

text \<open>With every chunk answered and the context alive, the verdict is the strictest one.\<close>

lemma conclude_strictest:
  assumes "length rs = n" and "rs \<noteq> []"
  shows "strictness_of (conclude f n None (foldl (collect f) collector_start rs)) = Max (kinds rs)"
proof -
  define c where "c = foldl (collect f) collector_start rs"
  have inv: "block_inv rs c" "error_inv rs c" "review_inv rs c"
    using collector_run_inv [of rs f] by (simp_all add: c_def collector_inv_def)
  have "finite (kinds rs)" "kinds rs \<noteq> {}" using assms(2) by auto
  note Max = Max_kinds [OF this]
  show ?thesis
  proof (cases "co_firstBlock c")
    case (Some x)
    obtain i d where x: "x = (i, d)" by fastforce
    with Some inv(1) have "(i, Inr d) \<in> set rs" and d: "ad_Decision d = DecisionBlock"
      by (auto simp: block_inv_def)
    then have "Blocks \<in> kinds rs" by force
    with Some x d show ?thesis unfolding Max c_def [symmetric] by (simp add: conclude_def)
  next
    case None
    with inv(1) have nb: "Blocks \<notin> kinds rs" "co_completed c = n"
      using assms(1) by (auto simp: block_inv_def)
    show ?thesis
    proof (cases "co_firstError c")
      case (Some err)
      with inv(2) have "Fails \<in> kinds rs" by (simp add: error_inv_def)
      with nb None Some show ?thesis unfolding Max c_def [symmetric] by (simp add: conclude_def)
    next
      case no_err: None
      with inv(2) None have nf: "Fails \<notin> kinds rs" by (auto simp: error_inv_def)
      show ?thesis
      proof (cases "co_strongestReview c")
        case (Some x)
        obtain i d where x: "x = (i, d)" by fastforce
        with Some inv(3) have "(i, Inr d) \<in> set rs" and d: "ad_Decision d = DecisionReview"
          by (auto simp: review_inv_def)
        then have "Reviews \<in> kinds rs" by force
        with Some x d nb nf None no_err show ?thesis
          unfolding Max c_def [symmetric] by (simp add: conclude_def)
      next
        case no_rev: None
        with inv(3) have "Reviews \<notin> kinds rs" by (simp add: review_inv_def)
        with no_rev nb nf None no_err show ?thesis
          unfolding Max c_def [symmetric] by (simp add: conclude_def all_chunks_allowed_def)
      qed
    qed
  qed
qed

text \<open>Cut short, the verdict is a block that was found, or an error; never an allow.\<close>

lemma conclude_partial:
  assumes "length rs < n \<or> ctxErr \<noteq> None"
  shows "strictness_of (conclude f n ctxErr (foldl (collect f) collector_start rs)) \<in> {Fails, Blocks}
    \<and> (strictness_of (conclude f n ctxErr (foldl (collect f) collector_start rs)) = Blocks
       \<longleftrightarrow> Blocks \<in> kinds rs)"
proof -
  define c where "c = foldl (collect f) collector_start rs"
  have inv: "block_inv rs c"
    using collector_run_inv [of rs f] by (simp add: c_def collector_inv_def)
  show ?thesis
  proof (cases "co_firstBlock c")
    case (Some x)
    obtain i d where x: "x = (i, d)" by fastforce
    with Some inv have "(i, Inr d) \<in> set rs" and d: "ad_Decision d = DecisionBlock"
      by (auto simp: block_inv_def)
    then have "Blocks \<in> kinds rs" by force
    with Some x d show ?thesis unfolding c_def [symmetric] by (simp add: conclude_def)
  next
    case None
    with inv have "Blocks \<notin> kinds rs" "co_completed c = length rs" by (auto simp: block_inv_def)
    with None assms show ?thesis
      unfolding c_def [symmetric] by (auto simp: conclude_def split: option.split)
  qed
qed

text \<open>Only allowed chunks are ever reused.\<close>

lemma checkpoint_allows:
  assumes "\<forall>i d. checkpoint_get c i = Some d \<longrightarrow> ad_Decision d = DecisionAllow"
  shows "checkpoint_get (checkpoint_put j res c) i = Some d \<Longrightarrow> ad_Decision d = DecisionAllow"
  using assms
  by (auto simp: checkpoint_put_def checkpoint_get_def split: option.splits sum.splits if_splits)

section \<open>callModel\<close>

record auditCallMetadata =
  cm_ChunksCompleted :: nat
  cm_ChunksReused :: nat
  cm_Mode :: string
  cm_ChunkCount :: nat
  cm_ChunkBytes :: int
  cm_RequestedTokens :: int
  cm_RequestedTokensLowerBound :: bool
  cm_ObservedOutputTokens :: int
  cm_ContextWindowTokens :: int
  cm_RetryCount :: nat

definition empty_call_metadata :: auditCallMetadata where
  "empty_call_metadata = \<lparr>cm_ChunksCompleted = 0, cm_ChunksReused = 0, cm_Mode = [], cm_ChunkCount = 0,
     cm_ChunkBytes = 0, cm_RequestedTokens = 0, cm_RequestedTokensLowerBound = False,
     cm_ObservedOutputTokens = 0, cm_ContextWindowTokens = 0, cm_RetryCount = 0\<rparr>"

definition observeAuditContextError :: "auditCallMetadata \<Rightarrow> audit_error \<Rightarrow> auditCallMetadata" where
  "observeAuditContextError m err =
     (case err of
        CallError c _ \<Rightarrow>
          if ce_RequestedTokens c \<ge> cm_RequestedTokens m
          then m\<lparr>cm_ContextWindowTokens := ce_MaxContextTokens c, cm_RequestedTokens := ce_RequestedTokens c,
                 cm_RequestedTokensLowerBound := ce_RequestedTokensLowerBound c,
                 cm_ObservedOutputTokens := ce_ObservedOutputTokens c\<rparr>
          else m
      | _ \<Rightarrow> m)"

text \<open>
  What a call of the model depends on besides the text: whether the plan budget is enforced
  (\<open>cyberDenyActive\<close> with a state in the context), the context's error before each round, the
  answer to the whole text, and the outcome of a round of chunks: its verdict, the chunks
  completed and the chunks reused.
\<close>

record call_env =
  cx_limits :: audit_limits
  cx_outputTokens :: int
  cx_sanitize :: "string \<Rightarrow> string"
  cx_budgeted :: bool
  cx_ctxErr :: "nat \<Rightarrow> audit_error option"
  cx_single :: "audit_error + AuditDecision"
  cx_round :: "nat \<Rightarrow> string list \<Rightarrow> (audit_error + AuditDecision) \<times> nat \<times> nat"

definition plan_budget :: "call_env \<Rightarrow> nat \<Rightarrow> auditSemanticState \<Rightarrow> audit_error + auditSemanticState" where
  "plan_budget x chunks s =
     (if cx_budgeted x then
        (case configureChunkBudget (int chunks) [] s of
           Some s' \<Rightarrow> Inr s'
         | None \<Rightarrow> Inl (newAuditModelCallError (cx_sanitize x) ''cyber_plan_budget'' 0
             ''invalid or exhausted finite audit work plan; forwarding denied'' None))
      else Inr s)"

fun rechunk ::
    "call_env \<Rightarrow> string \<Rightarrow> nat \<Rightarrow> nat \<Rightarrow> int \<Rightarrow> auditCallMetadata \<Rightarrow> audit_error \<Rightarrow> auditSemanticState \<Rightarrow>
     (audit_error + AuditDecision) \<times> auditCallMetadata \<times> auditSemanticState" where
  "rechunk x src 0 retry chunkBytes m lastErr s = (Inl lastErr, m, s)"
| "rechunk x src (Suc left) retry chunkBytes m lastErr s =
     (let chunks = fst (splitAuditTextWithOffsets src chunkBytes (al_chunkOverlapBytes (cx_limits x)));
          m1 = m\<lparr>cm_ChunkCount := length chunks, cm_ChunkBytes := chunkBytes, cm_RetryCount := retry + 1\<rparr>
      in if al_maxAuditChunks (cx_limits x) > 0 \<and> int (length chunks) > al_maxAuditChunks (cx_limits x) then
           (Inl (newAuditModelCallError (cx_sanitize x) ''input_too_large'' 0
              (''audit input requires '' @ dec_nat (length chunks) @ '' chunks, exceeding configured maximum '' @
               dec_int (al_maxAuditChunks (cx_limits x))) None), m1, s)
         else
           (case cx_ctxErr x retry of
              Some err \<Rightarrow> (Inl err, m1, s)
            | None \<Rightarrow>
                (case plan_budget x (length chunks) s of
                   Inl err \<Rightarrow> (Inl err, m1, s)
                 | Inr s1 \<Rightarrow>
                     (case cx_round x retry chunks of (res, done_, reused) \<Rightarrow>
                        (let m2 = m1\<lparr>cm_ChunksCompleted := done_, cm_ChunksReused := reused\<rparr> in
                         case res of
                           Inr d \<Rightarrow> (Inr d, m2, s1)
                         | Inl err \<Rightarrow>
                             if \<not> isAuditContextLengthError err then (Inl err, m2, s1)
                             else if chunkBytes \<le> 1024 then (Inl err, observeAuditContextError m2 err, s1)
                             else rechunk x src left (retry + 1) (max 1024 (chunkBytes div 2))
                                    (observeAuditContextError m2 err) err s1)))))"

definition callModel ::
    "call_env \<Rightarrow> auditCallMetadata \<Rightarrow> string \<Rightarrow> auditSemanticState \<Rightarrow>
     (audit_error + AuditDecision) \<times> auditCallMetadata \<times> auditSemanticState" where
  "callModel x resume src s =
     (if cm_Mode resume = ''chunked_after_context_limit'' \<and> cm_ChunkBytes resume > 0
      then rechunk x src auditChunkRetryLimit 0 (cm_ChunkBytes resume) resume (PlainError []) s
      else
        (let m = empty_call_metadata\<lparr>cm_Mode := ''single'', cm_ChunkCount := 1, cm_ChunkBytes := int (length src)\<rparr>
         in case plan_budget x 1 s of
              Inl err \<Rightarrow> (Inl err, m, s)
            | Inr s1 \<Rightarrow>
                (case cx_single x of
                   Inr d \<Rightarrow> (Inr d, m\<lparr>cm_ChunksCompleted := 1\<rparr>, s1)
                 | Inl err \<Rightarrow>
                     if \<not> isAuditContextLengthError err then (Inl err, m, s1)
                     else rechunk x src auditChunkRetryLimit 0
                            (recoveryAuditChunkBytes (cx_limits x) (cx_outputTokens x) err (int (length src)))
                            (observeAuditContextError (m\<lparr>cm_Mode := ''chunked_after_context_limit''\<rparr>) err)
                            err s1)))"

section \<open>Sizes, budgets and rounds\<close>

lemma auditChunkBytes_range:
  assumes "2 \<le> n"
  shows "1 \<le> auditChunkBytesForOutput e n r w out \<and> auditChunkBytesForOutput e n r w out < n"
proof -
  have "1 \<le> fit_chunk n b \<and> fit_chunk n b < n" for b
    using assms by (auto simp: fit_chunk_def Let_def)
  then show ?thesis unfolding auditChunkBytesForOutput_def Let_def by blast
qed

lemma cap_chunk_range:
  assumes "2 \<le> n" and "1 \<le> size0 \<and> size0 < n"
  shows "1 \<le> cap_chunk e budget lb size0 \<and> cap_chunk e budget lb size0 < n"
  using assms by (auto simp: cap_chunk_def Let_def)

lemma recoveryAuditChunkBytes_range:
  assumes "2 \<le> n"
  shows "1 \<le> recoveryAuditChunkBytes e out err n \<and> recoveryAuditChunkBytes e out err n < n"
proof -
  obtain a b c where "context_counts err = (a, b, c)" by (metis prod_cases3)
  then show ?thesis
    using cap_chunk_range [OF assms auditChunkBytes_range [OF assms]]
    by (simp add: recoveryAuditChunkBytes_def)
qed

definition budget_ok :: "auditSemanticState \<Rightarrow> bool" where
  "budget_ok s \<longleftrightarrow>
     0 \<le> ss_httpCalls s \<and> 0 \<le> ss_reviewCalls s
     \<and> ss_httpCalls s \<le> max cyberDenyHTTPBudget (ss_httpBudget s)
     \<and> ss_reviewCalls s \<le> max maxAuditSemanticCalls (ss_reviewBudget s)
     \<and> 0 \<le> ss_httpBudget s \<and> ss_httpBudget s \<le> max_int64
     \<and> 0 \<le> ss_reviewBudget s \<and> ss_reviewBudget s \<le> max_int64
     \<and> 0 \<le> ss_budgetPlans s \<and> ss_budgetPlans s \<le> maxAuditChunkPlans"

lemma fresh_budget_ok: "budget_ok fresh_semantic_state"
  by (simp add: budget_ok_def fresh_semantic_state_def max_int64_def cyberDenyHTTPBudget_def
      maxAuditSemanticCalls_def maxAuditChunkPlans_def maxAuditTotalAttempts_def)

lemma reserve_budget_ok:
  "budget_ok s \<Longrightarrow> budget_ok (fst (reserveHTTP s))" "budget_ok s \<Longrightarrow> budget_ok (fst (reserveReview s))"
  by (auto simp: budget_ok_def reserveHTTP_def reserveReview_def Let_def cyberDenyHTTPBudget_def
      maxAuditSemanticCalls_def)

lemma configure_budget:
  assumes "budget_ok s" and "configureChunkBudget n votes s = Some s'"
  shows "budget_ok s'" and "0 < n"
    and "ss_httpBudget s' = max cyberDenyHTTPBudget (ss_httpBudget s)
      + n * (2 * (1 + (if length votes = 1 then hd votes else 3)))"
    and "ss_httpCalls s' = ss_httpCalls s \<and> ss_reviewCalls s' = ss_reviewCalls s"
    and "ss_budgetPlans s' = ss_budgetPlans s + 1"
proof -
  define r where "r = (if length votes = 1 then hd votes else (3::int))"
  from assms(2) have n: "0 < n" and r: "1 \<le> r" "r \<le> 3"
    and plans: "ss_budgetPlans s < maxAuditChunkPlans"
    and http: "n * (2 * (1 + r)) \<le> max_int64 - max cyberDenyHTTPBudget (ss_httpBudget s)"
    and review: "n * (1 + 2 * r) \<le> max_int64 - max maxAuditSemanticCalls (ss_reviewBudget s)"
    and s': "s' = s\<lparr>ss_httpBudget := max cyberDenyHTTPBudget (ss_httpBudget s) + n * (2 * (1 + r)),
      ss_reviewBudget := max maxAuditSemanticCalls (ss_reviewBudget s) + n * (1 + 2 * r),
      ss_budgetPlans := ss_budgetPlans s + 1\<rparr>"
    unfolding configureChunkBudget_def Let_def r_def [symmetric]
    by (simp_all only: not_le not_less split: if_splits) auto
  have pos: "0 \<le> n * (2 * (1 + r))" "0 \<le> n * (1 + 2 * r)" using n r by simp_all
  show "budget_ok s'"
    using assms(1) pos plans http review unfolding s' budget_ok_def by auto
  show "0 < n" by (rule n)
  show "ss_httpBudget s' = max cyberDenyHTTPBudget (ss_httpBudget s)
      + n * (2 * (1 + (if length votes = 1 then hd votes else 3)))"
    by (simp add: s' r_def)
  show "ss_httpCalls s' = ss_httpCalls s \<and> ss_reviewCalls s' = ss_reviewCalls s"
    "ss_budgetPlans s' = ss_budgetPlans s + 1" by (simp_all add: s')
qed

lemma plan_budget_ok: "budget_ok s \<Longrightarrow> plan_budget x n s = Inr s' \<Longrightarrow> budget_ok s'"
  using configure_budget(1) by (auto simp: plan_budget_def split: if_splits option.splits)

lemma rechunk_budget:
  "rechunk x src n retry b m lastErr s = (res, m', s') \<Longrightarrow> budget_ok s \<Longrightarrow> budget_ok s'"
proof (induction n arbitrary: retry b m lastErr s)
  case (Suc left)
  let ?chunks = "fst (splitAuditTextWithOffsets src b (al_chunkOverlapBytes (cx_limits x)))"
  obtain r d u where round: "cx_round x retry ?chunks = (r, d, u)" by (metis prod_cases3)
  show ?case
    using Suc(2,3) plan_budget_ok [OF Suc(3), of x "length ?chunks"]
    by (auto simp: Let_def round split: if_splits option.splits sum.splits dest: Suc(1))
qed simp

text \<open>A run of reservations within the budget.\<close>

lemma reserve_many:
  assumes "ss_httpCalls s + int k \<le> ss_httpBudget s" and "0 < ss_httpBudget s"
  shows "ss_httpCalls (((\<lambda>s. fst (reserveHTTP s)) ^^ k) s) = ss_httpCalls s + int k
    \<and> ss_httpBudget (((\<lambda>s. fst (reserveHTTP s)) ^^ k) s) = ss_httpBudget s"
  using assms by (induction k) (auto simp: reserveHTTP_def Let_def)

end
