(* ===== verification/Audit_Failover.thy ===== *)
theory Audit_Failover
  imports Audit_Chunks "HOL-Library.AList"
begin

text \<open>
  Retries and fallback models (\<open>audit_failover.go\<close>, \<open>audit_failover_helpers.go\<close>,
  \<open>cyberDenyProfile\<close> of \<open>audit_cyber_deny.go\<close>, \<open>cyberModelErrorAllowV29\<close> of
  \<open>audit_v29_uncertainty_fail_open.go\<close>). The model call of an attempt, the profile lookups and
  the context's error at each place it is read are inputs. Latencies and the diagnostics of
  the output format are left out of the attempt records.
\<close>

section \<open>Profiles\<close>

text \<open>\<open>Extra\<close> is the decoded object, \<open>None\<close> when it is absent or not an object.\<close>

type_synonym extra = "(string \<times> json) list option"

record AuditProfile =
  ap_ID :: int
  ap_Name :: string
  ap_Endpoint :: string
  ap_Model :: string
  ap_SystemPrompt :: string
  ap_TimeoutMS :: int
  ap_BlockThreshold :: rat
  ap_Enabled :: bool
  ap_FailClosed :: bool
  ap_IsDefault :: bool
  ap_RetryCount :: int
  ap_FallbackProfileIDs :: "int list"
  ap_Extra :: extra
  ap_APIKeyCiphertext :: string

definition extra_set :: "string \<Rightarrow> json \<Rightarrow> extra \<Rightarrow> extra" where
  "extra_set k v x = Some (AList.update k v (case x of None \<Rightarrow> [] | Some ms \<Rightarrow> ms))"

definition extra_get :: "extra \<Rightarrow> string \<Rightarrow> json option" where
  "extra_get x k = (case x of None \<Rightarrow> None | Some ms \<Rightarrow> lookup ms k)"

lemma extra_get_set [simp]:
  "extra_get (extra_set k v x) j = (if j = k then Some v else extra_get x j)"
  by (simp add: extra_get_def extra_set_def update_conv' split: option.split)

definition cyberDenyMode :: string where
  "cyberDenyMode = ''cyber_deny''"

definition cyberDenyProfile :: "AuditProfile \<Rightarrow> AuditProfile" where
  "cyberDenyProfile p =
     p\<lparr>ap_FailClosed := True,
       ap_Extra := extra_set ''_risk_allow_local_debug_credentials'' (JBool False)
                     (extra_set ''_risk_allow_user_provided_secrets'' (JBool False)
                       (extra_set ''_risk_policy_mode'' (JStr cyberDenyMode) (ap_Extra p)))\<rparr>"

definition fusionProfileIDsKey :: string where
  "fusionProfileIDsKey = ''_risk_fusion_profile_ids''"
definition fusionAdjudicatorKey :: string where
  "fusionAdjudicatorKey = ''_risk_fusion_adjudicator_profile_id''"
definition verifierKey :: string where
  "verifierKey = ''_risk_verifier_profile_id''"

definition panel_keys :: "string list" where
  "panel_keys = [fusionProfileIDsKey, fusionAdjudicatorKey, verifierKey]"

text \<open>A fallback keeps the root's panel: the three keys are deleted and copied over.\<close>

definition govern_panel :: "AuditProfile \<Rightarrow> AuditProfile \<Rightarrow> AuditProfile" where
  "govern_panel r0 p =
     (let start = Some (case ap_Extra p of None \<Rightarrow> [] | Some ms \<Rightarrow> ms) in
      p\<lparr>ap_Extra := foldl (\<lambda>x key.
          (let x1 = map_option (AList.delete key) x in
           case extra_get (ap_Extra r0) key of None \<Rightarrow> x1 | Some v \<Rightarrow> extra_set key v x1))
        start panel_keys\<rparr>)"

section \<open>The walk over the profiles\<close>

definition maxAuditFallbackProfiles :: nat where "maxAuditFallbackProfiles = 8"
definition maxAuditRetryCount :: int where "maxAuditRetryCount = 5"

fun fallback_profiles ::
    "(int \<Rightarrow> AuditProfile option) \<Rightarrow> int list \<Rightarrow> AuditProfile list \<Rightarrow> int list \<Rightarrow> AuditProfile list" where
  "fallback_profiles get seen profiles [] = profiles"
| "fallback_profiles get seen profiles (i # ids) =
     (if i \<le> 0 \<or> length profiles \<ge> maxAuditFallbackProfiles + 1 then fallback_profiles get seen profiles ids
      else if i \<in> set seen then fallback_profiles get seen profiles ids
      else (case get i of
              None \<Rightarrow> fallback_profiles get (i # seen) profiles ids
            | Some p \<Rightarrow> if \<not> ap_Enabled p then fallback_profiles get (i # seen) profiles ids
                        else fallback_profiles get (i # seen) (profiles @ [p]) ids))"

definition attempt_order :: "(int \<Rightarrow> AuditProfile option) \<Rightarrow> AuditProfile \<Rightarrow> AuditProfile list" where
  "attempt_order get r = fallback_profiles get [ap_ID r] [r] (ap_FallbackProfileIDs r)"

record AuditAttempt =
  at_ConfidenceKind :: string
  at_ConfidenceLabel :: string
  at_OutputNormalizations :: "string list"
  at_ProfileID :: int
  at_ProfileName :: string
  at_Model :: string
  at_Attempt :: nat
  at_Success :: bool
  at_Decision :: string
  at_RiskCode :: string
  at_Confidence :: rat
  at_Reason :: string
  at_Evidence :: string
  at_ErrorClass :: string
  at_HTTPStatus :: int

record auditFailoverMetadata =
  fm_CallMetadata :: auditCallMetadata
  fm_AttemptCount :: int
  fm_ModelRetryCount :: int
  fm_FallbackCount :: int
  fm_Attempts :: "AuditAttempt list"

definition mergeAuditCallMetadata :: "auditCallMetadata \<Rightarrow> auditCallMetadata \<Rightarrow> auditCallMetadata" where
  "mergeAuditCallMetadata existing current =
     (let r1 = (if cm_Mode current = [] then current\<lparr>cm_Mode := cm_Mode existing\<rparr> else current);
          r2 = (if cm_ChunkCount r1 = 0 then r1\<lparr>cm_ChunkCount := cm_ChunkCount existing\<rparr> else r1);
          r3 = (if cm_ChunkBytes r2 = 0 then r2\<lparr>cm_ChunkBytes := cm_ChunkBytes existing\<rparr> else r2);
          r4 = (if cm_RetryCount r3 < cm_RetryCount existing
                then r3\<lparr>cm_RetryCount := cm_RetryCount existing\<rparr> else r3)
      in if cm_RequestedTokens existing > cm_RequestedTokens r4
         then r4\<lparr>cm_RequestedTokens := cm_RequestedTokens existing,
                 cm_ContextWindowTokens := cm_ContextWindowTokens existing,
                 cm_RequestedTokensLowerBound := cm_RequestedTokensLowerBound existing,
                 cm_ObservedOutputTokens := cm_ObservedOutputTokens existing\<rparr>
         else if cm_RequestedTokens r4 = 0 \<and> cm_RequestedTokens existing > 0
         then r4\<lparr>cm_RequestedTokens := cm_RequestedTokens existing,
                 cm_ContextWindowTokens := cm_ContextWindowTokens existing\<rparr>
         else if cm_ContextWindowTokens r4 = 0
         then r4\<lparr>cm_ContextWindowTokens := cm_ContextWindowTokens existing\<rparr>
         else r4)"

text \<open>\<open>waitAuditRetry\<close>: the delay in milliseconds before retry \<open>n\<close>.\<close>

fun retry_delay :: "nat \<Rightarrow> int" where
  "retry_delay 0 = 75"
| "retry_delay (Suc n) = (if retry_delay n < 300 then min 300 (2 * retry_delay n) else retry_delay n)"

text \<open>The answer of one attempt, and the context errors.\<close>

record failover_env =
  fe_sanitize :: "string \<Rightarrow> string"
  fe_cyberDeny :: bool
  fe_call :: "AuditProfile \<Rightarrow> nat \<Rightarrow> nat \<Rightarrow> auditCallMetadata \<Rightarrow> (audit_error + AuditDecision) \<times> auditCallMetadata"
  fe_beforeProfile :: "nat \<Rightarrow> audit_error option"
  fe_beforeAttempt :: "nat \<Rightarrow> nat \<Rightarrow> audit_error option"
  fe_waiting :: "nat \<Rightarrow> nat \<Rightarrow> audit_error option"

definition budget_exhausted :: "(string \<Rightarrow> string) \<Rightarrow> int \<Rightarrow> audit_error" where
  "budget_exhausted sanitize n =
     newAuditModelCallError sanitize ''retry_budget_exhausted'' 0
       (''audit retry/fallback budget exhausted after '' @ dec_int n @ '' model calls'') None"

text \<open>The classes no other profile may recover.\<close>

definition terminal_class :: "bool \<Rightarrow> string \<Rightarrow> bool" where
  "terminal_class cyberDeny c \<longleftrightarrow>
     is_prefix ''cyber_'' c \<or> is_prefix ''fusion_'' c
     \<or> (cyberDeny \<and> (is_prefix ''semantic_verifier_'' c \<or> c = ''audit_capacity_exceeded''
           \<or> c = ''audit_http_budget'' \<or> c = ''semantic_review_budget''))"

definition attempt_record :: "(string \<Rightarrow> string) \<Rightarrow> AuditProfile \<Rightarrow> nat \<Rightarrow> audit_error + AuditDecision \<Rightarrow> AuditAttempt" where
  "attempt_record sanitize p attempt res =
     (let base = \<lparr>at_ConfidenceKind = [], at_ConfidenceLabel = [], at_OutputNormalizations = [],
                  at_ProfileID = ap_ID p, at_ProfileName = ap_Name p, at_Model = ap_Model p,
                  at_Attempt = attempt + 1, at_Success = (case res of Inr _ \<Rightarrow> True | Inl _ \<Rightarrow> False),
                  at_Decision = [], at_RiskCode = [], at_Confidence = 0, at_Reason = [], at_Evidence = [],
                  at_ErrorClass = [], at_HTTPStatus = 0\<rparr>
      in case res of
           Inr d \<Rightarrow> base\<lparr>at_ConfidenceKind := ad_ConfidenceKind d, at_ConfidenceLabel := ad_ConfidenceLabel d,
                         at_OutputNormalizations := ad_OutputNormalizations d, at_Decision := ad_Decision d, at_RiskCode := ad_RiskCode d,
                         at_Confidence := ad_Confidence d, at_Reason := ad_Reason d, at_Evidence := ad_Evidence d\<rparr>
         | Inl err \<Rightarrow>
             (case auditModelErrorDetails sanitize (Some err) of
                (class, status, reason) \<Rightarrow>
                  base\<lparr>at_ErrorClass := class, at_HTTPStatus := status, at_Reason := reason\<rparr>))"

datatype attempt_end = Answered AuditDecision | FailOpen audit_error | NextProfile audit_error

fun attempt_loop ::
    "failover_env \<Rightarrow> nat \<Rightarrow> AuditProfile \<Rightarrow> nat \<Rightarrow> nat \<Rightarrow> nat \<Rightarrow> auditCallMetadata \<Rightarrow> auditFailoverMetadata \<Rightarrow>
     attempt_end \<times> auditFailoverMetadata" where
  "attempt_loop x pidx p attempt left fmt resume m =
     (case fe_beforeAttempt x pidx attempt of
        Some err \<Rightarrow> (FailOpen err, m)
      | None \<Rightarrow>
          if fm_AttemptCount m \<ge> maxAuditTotalAttempts
          then (NextProfile (budget_exhausted (fe_sanitize x) (fm_AttemptCount m)), m)
          else
            (case fe_call x p attempt fmt resume of (res, cm) \<Rightarrow>
               (let arec = attempt_record (fe_sanitize x) p attempt res;
                    m1 = m\<lparr>fm_CallMetadata := mergeAuditCallMetadata (fm_CallMetadata m) cm,
                           fm_AttemptCount := fm_AttemptCount m + 1,
                           fm_Attempts := fm_Attempts m @ [arec]\<rparr>
                in case res of
                     Inr d \<Rightarrow> (Answered d, m1)
                   | Inl err \<Rightarrow>
                       if terminal_class (fe_cyberDeny x) (at_ErrorClass arec) then (FailOpen err, m1)
                       else
                         (case left of
                            0 \<Rightarrow> (NextProfile err, m1)
                          | Suc left' \<Rightarrow>
                              if \<not> auditErrorRetryableOnSameProfile err then (NextProfile err, m1)
                              else
                                (let fmt' = (if auditErrorNeedsOutputRecovery (fe_sanitize x) err then fmt + 1 else fmt);
                                     m2 = m1\<lparr>fm_ModelRetryCount := fm_ModelRetryCount m1 + 1\<rparr>
                                 in case fe_waiting x pidx attempt of
                                      Some e \<Rightarrow> (FailOpen e, m2)
                                    | None \<Rightarrow> attempt_loop x pidx p (attempt + 1) left' fmt' cm m2)))))"

declare attempt_loop.simps [simp del]

definition retries_of :: "AuditProfile \<Rightarrow> nat" where
  "retries_of p = nat (min maxAuditRetryCount (max 0 (ap_RetryCount p)))"

definition prepared :: "failover_env \<Rightarrow> AuditProfile \<Rightarrow> AuditProfile \<Rightarrow> AuditProfile" where
  "prepared x r p = (if fe_cyberDeny x then cyberDenyProfile (govern_panel r p) else p)"

datatype walk_end = WalkAnswered AuditDecision AuditProfile | WalkFailOpen audit_error AuditProfile

fun profile_loop ::
    "failover_env \<Rightarrow> AuditProfile \<Rightarrow> nat \<Rightarrow> AuditProfile \<Rightarrow> audit_error option \<Rightarrow> AuditProfile list \<Rightarrow>
     auditFailoverMetadata \<Rightarrow> walk_end \<times> auditFailoverMetadata" where
  "profile_loop x r pidx used lastErr [] m =
     (WalkFailOpen (case lastErr of Some e \<Rightarrow> e
        | None \<Rightarrow> newAuditModelCallError (fe_sanitize x) ''fallback_unavailable'' 0
            ''no enabled audit fallback model is available'' None) used, m)"
| "profile_loop x r pidx used lastErr (p # ps) m =
     (case fe_beforeProfile x pidx of
        Some err \<Rightarrow> (WalkFailOpen err used, m)
      | None \<Rightarrow>
          if fm_AttemptCount m \<ge> maxAuditTotalAttempts
          then (WalkFailOpen (budget_exhausted (fe_sanitize x) (fm_AttemptCount m)) used, m)
          else
            (let m1 = (if pidx > 0 then m\<lparr>fm_FallbackCount := fm_FallbackCount m + 1\<rparr> else m);
                 p' = prepared x r p
             in case attempt_loop x pidx p' 0 (retries_of p') 0 empty_call_metadata m1 of
                  (Answered d, m2) \<Rightarrow> (WalkAnswered d p', m2)
                | (FailOpen err, m2) \<Rightarrow> (WalkFailOpen err p', m2)
                | (NextProfile err, m2) \<Rightarrow> profile_loop x r (pidx + 1) p' (Some err) ps m2))"

definition cyberModelErrorAllowV29 :: "(string \<Rightarrow> string) \<Rightarrow> audit_error \<Rightarrow> AuditDecision" where
  "cyberModelErrorAllowV29 sanitize err =
     (case auditModelErrorDetails sanitize (Some err) of (class0, _, reason0) \<Rightarrow>
        (let class = (if trim_space class0 = [] then ''audit_unverified'' else class0);
             reason = (if trim_space reason0 = [] then class else reason0)
         in no_decision\<lparr>ad_Decision := DecisionAllow, ad_Category := ''audit_uncertainty'', ad_Confidence := 0,
              ad_Reason := truncateString (sanitizeAuditDiagnostic sanitize
                 (''Cyber audit unverified ('' @ class @ ''): '' @ reason)) 240,
              ad_Source := ''model_error_fail_open_v29''\<rparr>))"

definition empty_failover :: auditFailoverMetadata where
  "empty_failover = \<lparr>fm_CallMetadata = empty_call_metadata, fm_AttemptCount = 0, fm_ModelRetryCount = 0,
     fm_FallbackCount = 0, fm_Attempts = []\<rparr>"

definition callModelWithFailover ::
    "failover_env \<Rightarrow> (int \<Rightarrow> AuditProfile option) \<Rightarrow> AuditProfile \<Rightarrow>
     (audit_error + AuditDecision) \<times> AuditProfile \<times> auditFailoverMetadata" where
  "callModelWithFailover x get r =
     (case profile_loop x r 0 r None (attempt_order get r) empty_failover of
        (WalkAnswered d p, m) \<Rightarrow> (Inr d, p, m)
      | (WalkFailOpen err p, m) \<Rightarrow>
          (if fe_cyberDeny x then Inr (cyberModelErrorAllowV29 (fe_sanitize x) err) else Inl err, p, m))"

text \<open>\<open>auditAttemptModelNames\<close> and the check of a configured fallback list.\<close>

fun model_names :: "string list \<Rightarrow> AuditAttempt list \<Rightarrow> string list" where
  "model_names seen [] = []"
| "model_names seen (a # as) =
     (let name = (if at_Model a = [] then at_ProfileName a else at_Model a) in
      if name = [] \<or> name \<in> set seen then model_names seen as else name # model_names (name # seen) as)"

definition auditAttemptModelNames :: "AuditAttempt list \<Rightarrow> string list" where
  "auditAttemptModelNames = model_names []"

datatype fallback_error = TooManyFallbacks | InvalidFallback nat | SelfFallback | DuplicateFallback int
  | UnknownFallback int

fun check_fallbacks :: "(int \<Rightarrow> bool) \<Rightarrow> int \<Rightarrow> nat \<Rightarrow> int list \<Rightarrow> int list \<Rightarrow> fallback_error option" where
  "check_fallbacks stored self pos seen [] = None"
| "check_fallbacks stored self pos seen (i # ids) =
     (if i \<le> 0 then Some (InvalidFallback (pos + 1))
      else if self > 0 \<and> i = self then Some SelfFallback
      else if i \<in> set seen then Some (DuplicateFallback i)
      else if \<not> stored i then Some (UnknownFallback i)
      else check_fallbacks stored self (pos + 1) (i # seen) ids)"

definition ValidateAuditFallbackProfiles :: "(int \<Rightarrow> bool) \<Rightarrow> int \<Rightarrow> int list \<Rightarrow> fallback_error option" where
  "ValidateAuditFallbackProfiles stored self ids =
     (if length ids > maxAuditFallbackProfiles then Some TooManyFallbacks
      else check_fallbacks stored self 0 [] ids)"

section \<open>What the walk guarantees\<close>

text \<open>The attempts are counted exactly and never exceed the total budget.\<close>

definition attempts_ok :: "auditFailoverMetadata \<Rightarrow> bool" where
  "attempts_ok m \<longleftrightarrow> fm_AttemptCount m = int (length (fm_Attempts m)) \<and> fm_AttemptCount m \<le> maxAuditTotalAttempts"

lemma attempts_ok_unused [simp]:
  "attempts_ok (m\<lparr>fm_ModelRetryCount := n\<rparr>) = attempts_ok m"
  "attempts_ok (m\<lparr>fm_FallbackCount := n\<rparr>) = attempts_ok m"
  by (simp_all add: attempts_ok_def)

lemma attempts_ok_snoc:
  "attempts_ok m \<Longrightarrow> fm_AttemptCount m < maxAuditTotalAttempts \<Longrightarrow>
   attempts_ok (m\<lparr>fm_CallMetadata := c, fm_AttemptCount := fm_AttemptCount m + 1,
     fm_Attempts := fm_Attempts m @ [a]\<rparr>)"
  by (simp add: attempts_ok_def)

lemma attempt_loop_ok:
  "attempts_ok m \<Longrightarrow> attempts_ok (snd (attempt_loop x pidx p attempt left fmt resume m))"
proof (induction left arbitrary: attempt fmt resume m)
  case 0
  then show ?case
    by (subst attempt_loop.simps)
      (auto simp: attempts_ok_snoc Let_def split: option.split prod.split sum.split)
next
  case (Suc left)
  show ?case
    using Suc.prems
    by (subst attempt_loop.simps)
      (auto simp: attempts_ok_snoc Suc.IH Let_def split: option.split prod.split sum.split)
qed

lemma profile_loop_ok:
  "attempts_ok m \<Longrightarrow> attempts_ok (snd (profile_loop x r pidx used le ps m))"
proof (induction ps arbitrary: pidx used le m)
  case Nil
  then show ?case by simp
next
  case (Cons p ps)
  have ok: "attempts_ok (snd (attempt_loop x pidx p' 0 n 0 c (if 0 < pidx then m\<lparr>fm_FallbackCount := k\<rparr> else m)))"
    for p' n c k using Cons.prems by (intro attempt_loop_ok) simp
  show ?case
    using Cons.prems ok[of "prepared x r p" "retries_of (prepared x r p)" empty_call_metadata "fm_FallbackCount m + 1"]
    by (auto simp: Let_def split: option.split prod.split attempt_end.split intro!: Cons.IH)
qed

text \<open>An answer of the walk is the answer of its last attempt.\<close>

definition answered_last :: "AuditDecision \<Rightarrow> auditFailoverMetadata \<Rightarrow> bool" where
  "answered_last d m \<longleftrightarrow> fm_Attempts m \<noteq> [] \<and> at_Success (last (fm_Attempts m))
     \<and> at_Decision (last (fm_Attempts m)) = ad_Decision d
     \<and> at_RiskCode (last (fm_Attempts m)) = ad_RiskCode d"

lemma attempt_loop_answer:
  "attempt_loop x pidx p attempt left fmt resume m = (Answered d, m') \<Longrightarrow> answered_last d m'"
proof (induction left arbitrary: attempt fmt resume m)
  case 0
  then show ?case
    by (subst (asm) attempt_loop.simps)
      (auto simp: answered_last_def attempt_record_def Let_def split: option.splits prod.splits sum.splits if_splits)
next
  case (Suc left)
  show ?case
    using Suc.prems
    by (subst (asm) attempt_loop.simps)
      (auto simp: answered_last_def attempt_record_def Let_def
        split: option.splits prod.splits sum.splits if_splits dest: Suc.IH[unfolded answered_last_def])
qed

lemma profile_loop_answer:
  "profile_loop x r pidx used le ps m = (WalkAnswered d p, m') \<Longrightarrow> answered_last d m'"
proof (induction ps arbitrary: pidx used le m)
  case Nil
  then show ?case by simp
next
  case (Cons q ps)
  from Cons.prems show ?case
    by (auto simp: Let_def split: option.splits prod.splits attempt_end.splits if_splits
        dest: attempt_loop_answer Cons.IH)
qed

text \<open>The profiles tried are distinct, enabled or the root, and at most nine.\<close>

lemma fallback_profiles_sound:
  assumes "\<And>i p. get i = Some p \<Longrightarrow> ap_ID p = i" "set (map ap_ID profiles) \<subseteq> set seen"
    "distinct (map ap_ID profiles)" "length profiles \<le> maxAuditFallbackProfiles + 1"
  shows "distinct (map ap_ID (fallback_profiles get seen profiles ids))
    \<and> length (fallback_profiles get seen profiles ids) \<le> maxAuditFallbackProfiles + 1
    \<and> (\<forall>p\<in>set (fallback_profiles get seen profiles ids).
          p \<in> set profiles \<or> ap_Enabled p \<and> ap_ID p \<in> set ids)"
  using assms
proof (induction ids arbitrary: seen profiles)
  case Nil
  then show ?case by simp
next
  case (Cons i ids)
  show ?case
  proof (cases "i \<le> 0 \<or> length profiles \<ge> maxAuditFallbackProfiles + 1 \<or> i \<in> set seen")
    case True
    then show ?thesis using Cons.IH[of profiles seen] Cons.prems by auto
  next
    case fresh: False
    show ?thesis
    proof (cases "\<exists>p. get i = Some p \<and> ap_Enabled p")
      case True
      then obtain p where p: "get i = Some p" "ap_Enabled p" by blast
      have id: "ap_ID p = i" using p(1) Cons.prems(1) by blast
      have new: "i \<notin> set (map ap_ID profiles)" using fresh Cons.prems(2) by auto
      have step: "fallback_profiles get seen profiles (i # ids) =
          fallback_profiles get (i # seen) (profiles @ [p]) ids"
        using fresh p by simp
      have a: "set (map ap_ID (profiles @ [p])) \<subseteq> set (i # seen)" using id Cons.prems(2) by auto
      have b: "distinct (map ap_ID (profiles @ [p]))" using id new Cons.prems(3) by simp
      have c: "length (profiles @ [p]) \<le> maxAuditFallbackProfiles + 1" using fresh by simp
      note ih = Cons.IH[OF Cons.prems(1) a b c]
      have "q \<in> set profiles \<or> ap_Enabled q \<and> ap_ID q \<in> set (i # ids)"
        if "q \<in> set profiles \<union> {p} \<or> ap_Enabled q \<and> ap_ID q \<in> set ids" for q
        using that id p(2) by auto
      then show ?thesis unfolding step using ih by simp
    next
      case False
      have "set (map ap_ID profiles) \<subseteq> set (i # seen)" using Cons.prems(2) by auto
      then show ?thesis
        using Cons.IH[of profiles "i # seen"] Cons.prems fresh False by (auto split: option.split)
    qed
  qed
qed

text \<open>The wait before a retry is 75, 150 and then 300 milliseconds.\<close>

lemma retry_delay_range: "75 \<le> retry_delay n \<and> retry_delay n \<le> 300"
  by (induction n) auto

lemma retry_delay_mono: "retry_delay n \<le> retry_delay (Suc n)"
  using retry_delay_range[of n] by auto

text \<open>A profile is asked at most six times.\<close>

lemma attempt_loop_length:
  "length (fm_Attempts (snd (attempt_loop x pidx p attempt left fmt resume m)))
     \<le> length (fm_Attempts m) + left + 1"
proof (induction left arbitrary: attempt fmt resume m)
  case 0
  show ?case
    by (subst attempt_loop.simps) (auto simp: Let_def split: option.split prod.split sum.split)
next
  case (Suc left)
  have "length (fm_Attempts (snd (attempt_loop x pidx p a left f c (m\<lparr>fm_CallMetadata := c',
      fm_AttemptCount := n, fm_Attempts := fm_Attempts m @ [r], fm_ModelRetryCount := k\<rparr>))))
    \<le> Suc (Suc (length (fm_Attempts m) + left))" for a f c c' n r k
    using Suc.IH[of a f c "m\<lparr>fm_CallMetadata := c', fm_AttemptCount := n,
      fm_Attempts := fm_Attempts m @ [r], fm_ModelRetryCount := k\<rparr>"] by simp
  then show ?case
    by (subst attempt_loop.simps) (auto simp: Let_def split: option.split prod.split sum.split)
qed

lemma retries_of_le: "retries_of p \<le> 5"
  by (auto simp: retries_of_def maxAuditRetryCount_def min_def)

lemma attempts_per_profile:
  "length (fm_Attempts (snd (attempt_loop x pidx p 0 (retries_of p) 0 c m))) \<le> length (fm_Attempts m) + 6"
  using attempt_loop_length[of x pidx p 0 "retries_of p" 0 c m] retries_of_le[of p] by linarith

lemma attempts_ok_empty: "attempts_ok empty_failover"
  by (simp add: attempts_ok_def empty_failover_def maxAuditTotalAttempts_def)

text \<open>With the cyber-deny policy on, the walk never reports an error, and only a model can block.\<close>

lemma callModelWithFailover_ok:
  "attempts_ok (snd (snd (callModelWithFailover x get r)))"
  using profile_loop_ok[OF attempts_ok_empty, of x r 0 r None "attempt_order get r"]
  by (auto simp: callModelWithFailover_def split: prod.split walk_end.split)

lemma cyberModelErrorAllowV29_allow [simp]:
  "ad_Decision (cyberModelErrorAllowV29 s e) = DecisionAllow"
  by (simp add: cyberModelErrorAllowV29_def Let_def split: prod.split)

lemma callModelWithFailover_cyber:
  assumes "fe_cyberDeny x" "callModelWithFailover x get r = (res, p, m)"
  shows "\<exists>d. res = Inr d \<and> (ad_Decision d = DecisionAllow \<or> answered_last d m)"
proof -
  obtain w m1 where w: "profile_loop x r 0 r None (attempt_order get r) empty_failover = (w, m1)"
    by fastforce
  show ?thesis
  proof (cases w)
    case (WalkAnswered d q)
    then have "answered_last d m1" using profile_loop_answer w by metis
    then show ?thesis using assms(2) w WalkAnswered by (auto simp: callModelWithFailover_def)
  next
    case (WalkFailOpen e q)
    then show ?thesis using assms w by (auto simp: callModelWithFailover_def)
  qed
qed

end
