(* ===== verification/Audit_Verdict.thy ===== *)
theory Audit_Verdict
  imports Audit_Failover
begin

text \<open>
  From a model's answer to a verdict: \<open>audit_cyber_deny.go\<close>, \<open>audit_v29_uncertainty_fail_open.go\<close>,
  \<open>audit_v28_defensive_scope.go\<close>, \<open>audit_v24_scope_precision.go\<close>, \<open>callCyberGroundedModel\<close> of
  \<open>audit_operation_grounding.go\<close>, \<open>semanticAdjudicateCyberCandidateV25\<close> of
  \<open>audit_v25_structured_adjudication.go\<close>, and the verification and fusion of
  \<open>audit_semantic_review.go\<close> and \<open>audit_fusion.go\<close>. Regular expressions and redaction
  are the fields of \<open>matchers\<close>. A raw model call is an input.
\<close>

section \<open>Rules and matchers\<close>

record CyberRule =
  cr_ID :: int
  cr_Code :: string
  cr_Name :: string
  cr_Description :: string
  cr_Category :: string
  cr_Pattern :: string
  cr_PatternType :: string
  cr_Action :: string
  cr_Priority :: int
  cr_Enabled :: bool

record matchers =
  mx_sanitize :: "string \<Rightarrow> string"
  mx_redact :: "string \<Rightarrow> string"
  mx_concreteHarm :: "string \<Rightarrow> bool"
  mx_scanCapability :: "string \<Rightarrow> bool"
  mx_activeScan :: "string \<Rightarrow> bool"
  mx_passiveScan :: "string \<Rightarrow> bool"
  mx_defensiveAsset :: "string \<Rightarrow> bool"
  mx_gitLabel :: "string \<Rightarrow> bool"
  mx_gitOperation :: "string \<Rightarrow> bool"
  mx_gitEvidence :: "string \<Rightarrow> bool"
  mx_gitPurpose :: "string \<Rightarrow> bool"
  mx_nonOperational :: "AuditDecision \<Rightarrow> bool"

section \<open>Decisions without a chain of reviews\<close>

text \<open>\<open>cleanSemanticDecision\<close> drops the review, so its result is a plain verdict.\<close>

definition cleanSemanticDecision :: "matchers \<Rightarrow> AuditDecision \<Rightarrow> verdict" where
  "cleanSemanticDecision x d =
     (verdict.truncate d)\<lparr>ad_Reason := sanitizeAuditDiagnostic (mx_sanitize x) (ad_Reason d),
       ad_Evidence := truncateString (mx_redact x (ad_Evidence d)) 1200,
       ad_RequestEvidence := truncateString (mx_redact x (ad_RequestEvidence d)) 1200\<rparr>"

definition auditConfidenceMeets :: "('z) verdict_scheme \<Rightarrow> rat \<Rightarrow> bool" where
  "auditConfidenceMeets d threshold \<longleftrightarrow>
     (if ad_ConfidenceKind d = ''qualitative''
      then ad_ConfidenceLabel d = ''high'' \<and> threshold \<le> 9 / 10
      else ad_Confidence d \<ge> threshold)"

definition denied_categories :: "string list" where
  "denied_categories =
     [''credential_access'', ''credential_theft'', ''exploitation'', ''malware'', ''security_testing'',
      ''reconnaissance''] @
     [''security_evasion'', ''defense_evasion'', ''exfiltration'', ''persistence'', ''command_and_control''] @
     [''privilege_escalation'', ''request_tampering'', ''reverse_engineering'', ''web_automation''] @
     [''local_probing'', ''network_probing'', ''network_reconnaissance'', ''port_scanning''] @
     [''system_configuration'', ''illicit'']"

definition cyberDeniedCategory :: "string \<Rightarrow> bool" where
  "cyberDeniedCategory category \<longleftrightarrow>
     (let normalized = to_lower (trim_space category) in
      (contains normalized ''cyber'' \<and> normalized \<noteq> ''non_cyber'') \<or> normalized \<in> set denied_categories)"

section \<open>Uncertainty is an allow\<close>

definition unconfirmed_reason :: string where
  "unconfirmed_reason =
     ''Cyber risk was not confirmed; request allowed by '' @ ''uncertainty fail-open policy''"

definition cyberUncertaintyAllowV29 :: "matchers \<Rightarrow> AuditDecision \<Rightarrow> string \<Rightarrow> string \<Rightarrow> AuditDecision" where
  "cyberUncertaintyAllowV29 x candidate reason0 source0 =
     (let original = cleanSemanticDecision x candidate;
          reason = (if trim_space reason0 = [] then unconfirmed_reason else reason0);
          source = (if trim_space source0 = [] then ''model_uncertainty_fail_open_v29'' else source0)
      in no_decision\<lparr>ad_Decision := DecisionAllow, ad_Category := ''audit_uncertainty'', ad_Confidence := 0,
           ad_Reason := truncateString (sanitizeAuditDiagnostic (mx_sanitize x) reason) 240,
           ad_Source := source,
           ad_SemanticReview := Some \<lparr>sr_Status = ''fail_open'', sr_Candidate = original,
             sr_CandidateError = [], sr_ProfileID = 0, sr_Model = [], sr_Outcome = None\<rparr>\<rparr>)"

definition canonicalCyberBlockRiskCodeV29 :: "CyberRule list \<Rightarrow> CyberRule list \<Rightarrow> string \<Rightarrow> bool" where
  "canonicalCyberBlockRiskCodeV29 loaded baseline code0 \<longleftrightarrow>
     (let code = to_upper (trim_space code0) in
      code \<noteq> []
      \<and> (\<exists>r \<in> set (loaded @ baseline). cr_Enabled r \<and> cr_Action r = DecisionBlock
            \<and> equal_fold (trim_space (cr_Code r)) code))"

definition semanticHarmTypes :: "string list" where
  "semanticHarmTypes =
     [''credential_theft'', ''deceptive_access'', ''unauthorized_access'', ''malware'', ''exfiltration''] @
     [''destructive_impact'', ''security_evasion'', ''abusive_ai_operation'']"

definition confirmedCyberBlockV29 :: "matchers \<Rightarrow> CyberRule list \<Rightarrow> CyberRule list \<Rightarrow> AuditDecision \<Rightarrow> bool" where
  "confirmedCyberBlockV29 x loaded baseline d \<longleftrightarrow>
     (if ad_Decision d \<noteq> DecisionBlock then False
      else
        (let evidence = trim_space (ad_Evidence d) in
         if evidence = [] \<or> \<not> mx_concreteHarm x evidence then False
         else if canonicalCyberBlockRiskCodeV29 loaded baseline (ad_RiskCode d) then True
         else ad_EvidenceVerified d \<and> to_lower (trim_space (ad_HarmType d)) \<in> set semanticHarmTypes
           \<and> to_lower (trim_space (ad_EvidenceRelation d)) \<in> {''direct_request'', ''adopted_reference''}))"

definition cyberDecisionNeedsFailOpenV29 :: "matchers \<Rightarrow> CyberRule list \<Rightarrow> CyberRule list \<Rightarrow> AuditDecision \<Rightarrow> bool" where
  "cyberDecisionNeedsFailOpenV29 x loaded baseline d \<longleftrightarrow>
     (if ad_Decision d = DecisionReview then True
      else if ad_Decision d = DecisionBlock then \<not> confirmedCyberBlockV29 x loaded baseline d
      else ad_Decision d = DecisionAllow \<and> ad_policyOriginalDecision d \<noteq> [])"

definition cyberDenyVerdict :: "matchers \<Rightarrow> AuditDecision \<Rightarrow> AuditDecision" where
  "cyberDenyVerdict x d =
     (if ad_Decision d = DecisionAllow then
        (if cyberDeniedCategory (ad_Category d) \<or> ad_RiskCode d \<noteq> [] \<or> \<not> auditConfidenceMeets d (9 / 10)
         then cyberUncertaintyAllowV29 x d
                (''model allow was contradictory or low-confidence; '' @ ''unconfirmed risk is fail-open'')
                ''model_uncertainty_fail_open_v29''
         else d\<lparr>ad_RiskCode := [], ad_Evidence := []\<rparr>)
      else if ad_Decision d = DecisionReview then
        cyberUncertaintyAllowV29 x d
          (''model returned review; '' @ ''review/verification uncertainty is fail-open'')
          ''model_review_fail_open_v29''
      else if ad_Decision d = DecisionBlock then d
      else cyberUncertaintyAllowV29 x d
          (''model returned an unknown decision; '' @ ''unconfirmed risk is fail-open'')
          ''model_uncertainty_fail_open_v29'')"

section \<open>The deterministic gates\<close>

definition provisionalCyberAllowV28 :: "AuditDecision \<Rightarrow> string \<Rightarrow> AuditDecision" where
  "provisionalCyberAllowV28 d reason =
     no_decision\<lparr>ad_Decision := DecisionAllow, ad_Category := ''benign_security_operations'',
       ad_Confidence := max (ad_Confidence d) (95 / 100), ad_ConfidenceKind := ad_ConfidenceKind d,
       ad_ConfidenceLabel := ad_ConfidenceLabel d, ad_Reason := reason,
       ad_Source := ''model_evidence_normalization_v28'', ad_policyOriginalDecision := ad_Decision d\<rparr>"

definition model_sourced :: "AuditDecision \<Rightarrow> bool" where
  "model_sourced d \<longleftrightarrow> is_prefix ''model'' (to_lower (trim_space (ad_Source d)))"

definition no_action_reason :: string where
  "no_action_reason = ''model block lacked concrete '' @ ''prohibited-action evidence''"
definition passive_scan_reason :: string where
  "passive_scan_reason = ''scan terminology is descriptive or passive '' @ ''rather than an active scan operation''"
definition report_review_reason :: string where
  "report_review_reason = ''asset/security report review '' @ ''does not request an active scan operation''"

definition normalizeCyberEvidenceGateV28 :: "matchers \<Rightarrow> string \<Rightarrow> string \<Rightarrow> AuditDecision \<Rightarrow> AuditDecision" where
  "normalizeCyberEvidenceGateV28 x txt source d =
     (if ad_Decision d = DecisionAllow \<or> \<not> model_sourced d then d
      else
        (let evidence = trim_space (ad_Evidence d);
             combined = txt @ [CHR 0x0A] @ source;
             scan = mx_scanCapability x evidence
         in if evidence = [] \<or> (\<not> scan \<and> \<not> mx_concreteHarm x evidence)
            then provisionalCyberAllowV28 d no_action_reason
            else if scan \<and> mx_activeScan x combined \<and> \<not> mx_passiveScan x evidence then d
            else if scan \<and> \<not> mx_concreteHarm x combined
            then provisionalCyberAllowV28 d
                   (if mx_defensiveAsset x combined \<or> mx_passiveScan x combined
                    then report_review_reason else passive_scan_reason)
            else d))"

definition git_scope_reason :: string where
  "git_scope_reason = ''Git history/metadata changes are outside Cyber-only '' @ ''scope absent a concrete security harm''"

definition normalizeCyberOnlyScopeV24 :: "matchers \<Rightarrow> string \<Rightarrow> string \<Rightarrow> AuditDecision \<Rightarrow> AuditDecision" where
  "normalizeCyberOnlyScopeV24 x txt source d =
     (if ad_Decision d = DecisionAllow \<or> \<not> model_sourced d then d
      else if \<not> mx_gitLabel x (ad_RiskCode d @ '' '' @ ad_Category d @ '' '' @ ad_Reason d) then d
      else if \<not> mx_gitOperation x txt \<and> \<not> mx_gitOperation x source then d
      else if trim_space (ad_Evidence d) \<noteq> [] \<and> \<not> mx_gitEvidence x (ad_Evidence d) then d
      else if mx_gitPurpose x txt \<or> mx_gitPurpose x source then d
      else no_decision\<lparr>ad_Decision := DecisionAllow, ad_Category := ''normal_dev'',
             ad_Confidence := max (ad_Confidence d) (95 / 100), ad_ConfidenceKind := ad_ConfidenceKind d,
             ad_ConfidenceLabel := ad_ConfidenceLabel d, ad_Reason := git_scope_reason,
             ad_Source := ''model_scope_normalization'', ad_policyOriginalDecision := ad_Decision d\<rparr>)"

section \<open>Which profiles verify\<close>

record AuditPolicy =
  pol_Mode :: string
  pol_AllowUserProvidedSecrets :: bool
  pol_AllowLocalDebugCredentials :: bool

definition strictAuditPolicy :: AuditPolicy where
  "strictAuditPolicy = \<lparr>pol_Mode = ''strict'', pol_AllowUserProvidedSecrets = False,
     pol_AllowLocalDebugCredentials = False\<rparr>"

definition policyModeKey :: string where "policyModeKey = ''_risk_policy_mode''"
definition userSecretsKey :: string where "userSecretsKey = ''_risk_allow_user_provided_secrets''"
definition localDebugKey :: string where "localDebugKey = ''_risk_allow_local_debug_credentials''"

definition auditPolicyFromProfile :: "AuditProfile \<Rightarrow> AuditPolicy" where
  "auditPolicyFromProfile profile =
     (let ex = ap_Extra profile;
          p1 = (case extra_get ex policyModeKey of
                  Some (JStr mode) \<Rightarrow>
                    if to_lower (trim_space mode) = ''internal_engineering''
                    then \<lparr>pol_Mode = ''internal_engineering'', pol_AllowUserProvidedSecrets = True,
                          pol_AllowLocalDebugCredentials = True\<rparr>
                    else strictAuditPolicy
                | _ \<Rightarrow> strictAuditPolicy);
          p2 = (case extra_get ex userSecretsKey of
                  Some (JBool b) \<Rightarrow> p1\<lparr>pol_AllowUserProvidedSecrets := b\<rparr> | _ \<Rightarrow> p1)
      in case extra_get ex localDebugKey of
           Some (JBool b) \<Rightarrow> p2\<lparr>pol_AllowLocalDebugCredentials := b\<rparr> | _ \<Rightarrow> p2)"

definition governingAuditVerifier :: "AuditProfile \<Rightarrow> AuditProfile \<Rightarrow> AuditProfile" where
  "governingAuditVerifier r verifier =
     (let policy = auditPolicyFromProfile r in
      verifier\<lparr>ap_SystemPrompt := ap_SystemPrompt r, ap_BlockThreshold := ap_BlockThreshold r,
        ap_Extra := extra_set localDebugKey (JBool (pol_AllowLocalDebugCredentials policy))
          (extra_set userSecretsKey (JBool (pol_AllowUserProvidedSecrets policy))
            (extra_set policyModeKey (JStr (pol_Mode policy)) (ap_Extra verifier)))\<rparr>)"

text \<open>A JSON number that is a positive integer a \<open>float64\<close> holds exactly.\<close>

definition auditProfileID :: "json \<Rightarrow> int option" where
  "auditProfileID raw =
     (case raw of
        JNum lit \<Rightarrow>
          (let n = num_value lit in
           if n \<ge> 1 \<and> n \<le> 9007199254740991 \<and> n = of_int \<lfloor>n\<rfloor> then Some \<lfloor>n\<rfloor> else None)
      | _ \<Rightarrow> None)"

definition semanticVerifierProfile ::
    "(string \<Rightarrow> string) \<Rightarrow> (int \<Rightarrow> AuditProfile option) \<Rightarrow> AuditProfile \<Rightarrow> audit_error + AuditProfile" where
  "semanticVerifierProfile sanitize get r =
     (case extra_get (ap_Extra r) verifierKey of
        None \<Rightarrow> Inr (governingAuditVerifier r r)
      | Some raw \<Rightarrow>
          (case auditProfileID raw of
             None \<Rightarrow> Inl (newAuditModelCallError sanitize ''semantic_verifier_configuration'' 0
                            ''_risk_verifier_profile_id must be a positive profile ID'' None)
           | Some i \<Rightarrow>
               if i = ap_ID r then Inr (governingAuditVerifier r r)
               else (case get i of
                       Some p \<Rightarrow> if ap_Enabled p then Inr (governingAuditVerifier r p)
                                 else Inl (newAuditModelCallError sanitize ''semantic_verifier_unavailable'' 0
                                        ''configured semantic verifier profile is unavailable'' None)
                     | None \<Rightarrow> Inl (newAuditModelCallError sanitize ''semantic_verifier_unavailable'' 0
                                        ''configured semantic verifier profile is unavailable'' None))))"

definition model_identity :: "AuditProfile \<Rightarrow> string \<times> string" where
  "model_identity p =
     (trim_right_byte CHR ''/'' (to_lower (trim_space (ap_Endpoint p))), to_lower (trim_space (ap_Model p)))"

definition load_panel_member ::
    "(string \<Rightarrow> string) \<Rightarrow> (int \<Rightarrow> AuditProfile option) \<Rightarrow> AuditProfile \<Rightarrow> int list \<Rightarrow> (string \<times> string) list \<Rightarrow>
     json \<Rightarrow> audit_error + (int \<times> AuditProfile)" where
  "load_panel_member sanitize get r ids models raw =
     (let bad = (\<lambda>class msg. Inl (newAuditModelCallError sanitize class 0 msg None)) in
      case auditProfileID raw of
        None \<Rightarrow> bad ''fusion_configuration'' ''fusion profile ID is invalid or duplicated''
      | Some i \<Rightarrow>
          if i \<in> set ids then bad ''fusion_configuration'' ''fusion profile ID is invalid or duplicated''
          else (case (if i = ap_ID r then Some r
                      else (case get i of Some p \<Rightarrow> if ap_Enabled p then Some p else None | None \<Rightarrow> None)) of
                  None \<Rightarrow> bad ''fusion_profile_unavailable'' ''fusion profile is unavailable''
                | Some p \<Rightarrow>
                    if model_identity p \<in> set models
                    then bad ''fusion_configuration'' ''fusion profiles repeat the same endpoint and model''
                    else Inr (i, p)))"

fun load_panel ::
    "(string \<Rightarrow> string) \<Rightarrow> (int \<Rightarrow> AuditProfile option) \<Rightarrow> AuditProfile \<Rightarrow> int list \<Rightarrow> (string \<times> string) list \<Rightarrow>
     json list \<Rightarrow> audit_error + AuditProfile list" where
  "load_panel sanitize get r ids models [] = Inr []"
| "load_panel sanitize get r ids models (raw # raws) =
     (case load_panel_member sanitize get r ids models raw of
        Inl err \<Rightarrow> Inl err
      | Inr (i, p) \<Rightarrow>
          (case load_panel sanitize get r (i # ids) (model_identity p # models) raws of
             Inl err \<Rightarrow> Inl err
           | Inr ps \<Rightarrow> Inr (governingAuditVerifier r p # ps)))"

definition fusion_shape_message :: string where
  "fusion_shape_message = ''_risk_fusion_profile_ids must contain 2 or 3 '' @ ''distinct enabled audit profile IDs''"

definition auditFusionProfiles ::
    "(string \<Rightarrow> string) \<Rightarrow> (int \<Rightarrow> AuditProfile option) \<Rightarrow> AuditProfile \<Rightarrow>
     audit_error + (AuditProfile list \<times> AuditProfile option)" where
  "auditFusionProfiles sanitize get r =
     (case extra_get (ap_Extra r) fusionProfileIDsKey of
        Some (JArr ids) \<Rightarrow>
          if length ids < 2 \<or> length ids > 3
          then Inl (newAuditModelCallError sanitize ''fusion_configuration'' 0 fusion_shape_message None)
          else (case extra_get (ap_Extra r) fusionAdjudicatorKey of
                  None \<Rightarrow> (case load_panel sanitize get r [] [] ids of Inl err \<Rightarrow> Inl err | Inr ps \<Rightarrow> Inr (ps, None))
                | Some raw \<Rightarrow>
                    (case load_panel sanitize get r [] [] (ids @ [raw]) of
                       Inl err \<Rightarrow> Inl err | Inr ps \<Rightarrow> Inr (butlast ps, Some (last ps))))
      | _ \<Rightarrow> Inl (newAuditModelCallError sanitize ''fusion_configuration'' 0 fusion_shape_message None))"

text \<open>The check at save time; the shape errors are told apart.\<close>

datatype fusion_extra_error = NotAnObject | AdjudicatorWithoutPanel | PanelSize | PanelIDs

fun distinct_ids :: "int list \<Rightarrow> json list \<Rightarrow> bool" where
  "distinct_ids seen [] = True"
| "distinct_ids seen (raw # raws) =
     (case auditProfileID raw of None \<Rightarrow> False | Some i \<Rightarrow> i \<notin> set seen \<and> distinct_ids (i # seen) raws)"

definition validateFusionExtra :: "string \<Rightarrow> fusion_extra_error option" where
  "validateFusionExtra raw =
     (if raw = [] then None
      else (case json_object raw of
              None \<Rightarrow> Some NotAnObject
            | Some ms \<Rightarrow>
                (case lookup ms fusionProfileIDsKey of
                   None \<Rightarrow> if lookup ms fusionAdjudicatorKey \<noteq> None then Some AdjudicatorWithoutPanel else None
                 | Some (JArr ids) \<Rightarrow>
                     if length ids < 2 \<or> length ids > 3 then Some PanelSize
                     else if distinct_ids [] (ids @ (case lookup ms fusionAdjudicatorKey of None \<Rightarrow> [] | Some a \<Rightarrow> [a]))
                     then None else Some PanelIDs
                 | Some _ \<Rightarrow> Some PanelSize)))"

section \<open>Grounding, verification and the verdict\<close>

text \<open>
  A raw model call yields a decision and perhaps an error (a decision with unverified evidence
  comes with one). The state of a request is its call budget and the reviews recorded so far;
  the context's error is read at the places the code reads it.
\<close>

type_synonym raw_answer = "AuditDecision \<times> audit_error option"
type_synonym review_state = "auditSemanticState \<times> AuditSemanticReview list"

definition maxAuditSemanticRecords :: nat where "maxAuditSemanticRecords = 16"

definition record_review :: "AuditSemanticReview \<Rightarrow> review_state \<Rightarrow> review_state" where
  "record_review r st = (case st of (s, rs) \<Rightarrow> (s, rs @ [r]))"

definition reported_reviews :: "review_state \<Rightarrow> AuditSemanticReview list" where
  "reported_reviews st = take maxAuditSemanticRecords (snd st)"

definition finishSemanticReview ::
    "matchers \<Rightarrow> AuditDecision \<Rightarrow> AuditDecision \<Rightarrow> AuditSemanticReview \<Rightarrow> AuditDecision \<times> AuditSemanticReview" where
  "finishSemanticReview x candidate verified review =
     (let s1 = (if ad_Decision verified = DecisionAllow \<and> ad_Decision candidate \<noteq> DecisionAllow
                then ''overturned'' else ''confirmed'');
          s2 = (if ad_Decision candidate = DecisionAllow \<and> ad_Decision verified = DecisionBlock
                then ''escalated'' else s1);
          s3 = (if ad_Decision verified = DecisionReview then ''unresolved'' else s2);
          r = review\<lparr>sr_Outcome := Some (cleanSemanticDecision x verified), sr_Status := s3\<rparr>
      in (verified\<lparr>ad_SemanticReview := Some r\<rparr>, r))"

record grounded_env =
  ge_first :: raw_answer
  ge_second :: raw_answer
  ge_ctxErr :: "audit_error option"

definition error_class :: "(string \<Rightarrow> string) \<Rightarrow> audit_error option \<Rightarrow> string" where
  "error_class sanitize err = fst (auditModelErrorDetails sanitize err)"

definition repair_names :: "bool \<Rightarrow> string \<times> string \<times> string" where
  "repair_names invalidQuote =
     (if invalidQuote then (''evidence_repair'', ''cyber_evidence_unresolved'', ''invalid_evidence'')
      else (''grounding'', ''cyber_operation_unresolved'', ''non_operational_evidence''))"

text \<open>The second answer of a repair, checked: a decision or an error.\<close>

definition checked_repair :: "matchers \<Rightarrow> string \<Rightarrow> raw_answer \<Rightarrow> audit_error + AuditDecision" where
  "checked_repair x failureClass ans =
     (case ans of
        (d, Some err) \<Rightarrow> Inl err
      | (d, None) \<Rightarrow>
          if mx_nonOperational x d
          then Inl (newAuditModelCallError (mx_sanitize x) failureClass 0
                      ''repair still cites only non-operational evidence'' None)
          else Inr (cyberDenyVerdict x d))"

definition unresolved_message :: string where
  "unresolved_message = ''candidate evidence unresolved after one bounded repair; '' @ ''forwarding denied''"

definition repair_candidate ::
    "matchers \<Rightarrow> AuditProfile \<Rightarrow> grounded_env \<Rightarrow> AuditDecision \<Rightarrow> bool \<Rightarrow> review_state \<Rightarrow> raw_answer \<times> review_state" where
  "repair_candidate x profile env d invalidQuote st =
     (case repair_names invalidQuote of (kind, failureClass, candidateError) \<Rightarrow>
        (let review = \<lparr>sr_Status = kind @ ''_error'', sr_Candidate = cleanSemanticDecision x d,
                       sr_CandidateError = candidateError, sr_ProfileID = ap_ID profile,
                       sr_Model = ap_Model profile, sr_Outcome = None\<rparr>;
             failed = (\<lambda>msg cause. (no_decision, Some (newAuditModelCallError (mx_sanitize x) failureClass 0 msg cause)))
         in case reserveReview (fst st) of
              (s, False) \<Rightarrow> (failed ''candidate repair review budget exhausted'' None, record_review review (s, snd st))
            | (s, True) \<Rightarrow>
                (case ge_ctxErr env of
                   Some err \<Rightarrow>
                     (failed ''candidate repair cancelled before dispatch'' (Some err), record_review review (s, snd st))
                 | None \<Rightarrow>
                     (case checked_repair x failureClass (ge_second env) of
                        Inl err \<Rightarrow> (failed unresolved_message (Some err), record_review review (s, snd st))
                      | Inr checked \<Rightarrow>
                          ((checked, None),
                           record_review (review\<lparr>sr_Outcome := Some (cleanSemanticDecision x checked),
                             sr_Status := kind @ (if ad_Decision checked = DecisionAllow then ''_corrected''
                                                  else ''_confirmed'')\<rparr>) (s, snd st))))))"

definition callCyberGroundedModel ::
    "matchers \<Rightarrow> AuditProfile \<Rightarrow> grounded_env \<Rightarrow> review_state \<Rightarrow> raw_answer \<times> review_state" where
  "callCyberGroundedModel x profile env st =
     (case ge_first env of (d, err) \<Rightarrow>
        (let invalidQuote = (error_class (mx_sanitize x) err = ''invalid_evidence''
               \<and> ad_Decision d \<in> {DecisionBlock, DecisionReview})
         in if err \<noteq> None \<and> \<not> invalidQuote then ((d, err), st)
            else if \<not> invalidQuote \<and> \<not> mx_nonOperational x d then ((d, None), st)
            else repair_candidate x profile env d invalidQuote st))"

text \<open>The verifiers, one after another; the first that does not allow ends the pass.\<close>

datatype panel_end = Denied AuditDecision | PanelFailed audit_error | AllAllow AuditDecision | OutOfBudget

definition panel_answer ::
    "matchers \<Rightarrow> string \<Rightarrow> string \<Rightarrow> raw_answer \<Rightarrow> audit_error + AuditDecision" where
  "panel_answer x txt source ans =
     (case ans of
        (d, None) \<Rightarrow> Inr (cyberDenyVerdict x (normalizeCyberOnlyScopeV24 x txt source d))
      | (d, Some err) \<Rightarrow>
          Inl (if error_class (mx_sanitize x) (Some err) = ''invalid_evidence''
               then newAuditModelCallError (mx_sanitize x) ''cyber_evidence_unresolved'' 0
                      ''non-allow verifier evidence is unresolved'' (Some err)
               else err))"

fun panel_loop ::
    "matchers \<Rightarrow> string \<Rightarrow> string \<Rightarrow> (AuditProfile \<Rightarrow> grounded_env) \<Rightarrow> AuditProfile list \<Rightarrow>
     audit_error option \<Rightarrow> AuditDecision \<Rightarrow> AuditProfile option \<Rightarrow> review_state \<Rightarrow>
     panel_end \<times> AuditProfile option \<times> review_state" where
  "panel_loop x txt source env [] failure final lastp st =
     (case failure of Some err \<Rightarrow> PanelFailed err | None \<Rightarrow> AllAllow final, lastp, st)"
| "panel_loop x txt source env (p # ps) failure final lastp st =
     (case reserveReview (fst st) of
        (s, False) \<Rightarrow> (OutOfBudget, lastp, (s, snd st))
      | (s, True) \<Rightarrow>
          (case callCyberGroundedModel x p (env p) (s, snd st) of
             (ans, st') \<Rightarrow>
               (case panel_answer x txt source ans of
                  Inl err \<Rightarrow> panel_loop x txt source env ps (Some err) final (Some p) st'
                | Inr d \<Rightarrow>
                    if ad_Decision d \<noteq> DecisionAllow then (Denied d, Some p, st')
                    else panel_loop x txt source env ps failure d (Some p) st')))"

definition fusion_incomplete_message :: string where
  "fusion_incomplete_message = ''Cyber fusion has missing or invalid assessments; '' @ ''cannot allow''"

definition semanticAdjudicateCyberCandidateV25 ::
    "matchers \<Rightarrow> (int \<Rightarrow> AuditProfile option) \<Rightarrow> AuditProfile \<Rightarrow> string \<Rightarrow> string \<Rightarrow> (AuditProfile \<Rightarrow> grounded_env) \<Rightarrow>
     AuditDecision \<Rightarrow> review_state \<Rightarrow> raw_answer \<times> review_state" where
  "semanticAdjudicateCyberCandidateV25 x get profile txt source env candidate0 st =
     (let candidate = cyberDenyVerdict x (normalizeCyberOnlyScopeV24 x txt source candidate0) in
      if ad_Decision candidate \<noteq> DecisionAllow then ((candidate, None), st)
      else
        (let review = \<lparr>sr_Status = ''error'', sr_Candidate = cleanSemanticDecision x candidate,
                       sr_CandidateError = [], sr_ProfileID = 0, sr_Model = [], sr_Outcome = None\<rparr>;
             fusion = (extra_get (ap_Extra profile) fusionProfileIDsKey \<noteq> None)
         in case semanticVerifierProfile (mx_sanitize x) get profile of
              Inl err \<Rightarrow> ((no_decision, Some err), record_review review st)
            | Inr verifier \<Rightarrow>
                (case (if fusion then map_sum id fst (auditFusionProfiles (mx_sanitize x) get profile)
                       else Inr [verifier]) of
                   Inl err \<Rightarrow> ((no_decision, Some err), record_review review st)
                 | Inr profiles \<Rightarrow>
                     (case panel_loop x txt source env profiles None candidate None st of
                        (res, lastp, st') \<Rightarrow>
                          (let review' = (case lastp of None \<Rightarrow> review
                                 | Some p \<Rightarrow> review\<lparr>sr_ProfileID := ap_ID p, sr_Model := ap_Model p\<rparr>)
                           in case res of
                                Denied d \<Rightarrow>
                                  (case finishSemanticReview x candidate d review' of
                                     (d', r) \<Rightarrow> ((d', None), record_review r st'))
                              | AllAllow d \<Rightarrow>
                                  (case finishSemanticReview x candidate d review' of
                                     (d', r) \<Rightarrow> ((d', None), record_review r st'))
                              | OutOfBudget \<Rightarrow>
                                  ((no_decision, Some (newAuditModelCallError (mx_sanitize x)
                                      ''semantic_review_budget'' 0 ''Cyber verification budget exhausted'' None)),
                                   record_review review' st')
                              | PanelFailed err \<Rightarrow>
                                  ((no_decision, Some (if fusion
                                      then newAuditModelCallError (mx_sanitize x) ''fusion_incomplete'' 0
                                             fusion_incomplete_message (Some err)
                                      else err)), record_review review' st'))))))"

definition extra_true :: "AuditProfile \<Rightarrow> string \<Rightarrow> bool" where
  "extra_true p k \<longleftrightarrow> extra_get (ap_Extra p) k = Some (JBool True)"

definition cyberLowConfidenceAllowNeedsVerification :: "AuditProfile \<Rightarrow> AuditDecision \<Rightarrow> bool" where
  "cyberLowConfidenceAllowNeedsVerification profile d \<longleftrightarrow>
     ad_Decision d = DecisionAllow \<and> ad_ConfidenceKind d \<noteq> ''qualitative'' \<and> ap_BlockThreshold profile > 0
     \<and> ad_Confidence d < ap_BlockThreshold profile"

definition verifyCleanKey :: string where "verifyCleanKey = ''_risk_verify_clean_allows''"
definition verifyWeakKey :: string where "verifyWeakKey = ''_risk_verify_weak_allows''"

text \<open>Does a clean allow need a second pass?\<close>

definition needs_verification :: "bool \<Rightarrow> AuditProfile \<Rightarrow> AuditDecision \<Rightarrow> bool" where
  "needs_verification required profile d \<longleftrightarrow>
     required \<or> extra_get (ap_Extra profile) fusionProfileIDsKey \<noteq> None
     \<or> extra_get (ap_Extra profile) verifierKey \<noteq> None \<or> extra_true profile verifyCleanKey
     \<or> (extra_true profile verifyWeakKey \<and> cyberLowConfidenceAllowNeedsVerification profile d)"

text \<open>The two reasons of \<open>callCyberDenyModel\<close>.\<close>

definition primary_reason :: string where
  "primary_reason = ''Cyber decision requires additional verification; '' @ ''uncertainty is fail-open''"
definition verifier_reason :: string where
  "verifier_reason = ''Cyber verifier could not produce a confirmed canonical block; '' @ ''uncertainty is fail-open''"

text \<open>The gate of a candidate: allowed as uncertain, or kept.\<close>

definition gate_candidate ::
    "matchers \<Rightarrow> CyberRule list \<Rightarrow> CyberRule list \<Rightarrow> string \<Rightarrow> string \<Rightarrow> string \<Rightarrow> string \<Rightarrow> AuditDecision \<Rightarrow>
     AuditDecision + AuditDecision" where
  "gate_candidate x loaded baseline txt source reason src d0 =
     (let d = normalizeCyberEvidenceGateV28 x txt source d0 in
      if cyberDecisionNeedsFailOpenV29 x loaded baseline d
      then Inl (cyberUncertaintyAllowV29 x d reason src) else Inr d)"

definition callCyberDenyModel ::
    "matchers \<Rightarrow> CyberRule list \<Rightarrow> CyberRule list \<Rightarrow> (int \<Rightarrow> AuditProfile option) \<Rightarrow> bool \<Rightarrow> AuditProfile \<Rightarrow>
     string \<Rightarrow> string \<Rightarrow> grounded_env \<Rightarrow> (AuditProfile \<Rightarrow> grounded_env) \<Rightarrow> review_state \<Rightarrow>
     (audit_error + AuditDecision) \<times> review_state" where
  "callCyberDenyModel x loaded baseline get required profile txt source env panel st =
     (case callCyberGroundedModel x profile env st of
        ((d, Some err), st') \<Rightarrow> (Inl err, st')
      | ((d, None), st') \<Rightarrow>
          (case gate_candidate x loaded baseline txt source primary_reason ''model_uncertainty_fail_open_v29'' d of
             Inl passed \<Rightarrow> (Inr passed, st')
           | Inr candidate \<Rightarrow>
               if ad_Decision candidate = DecisionBlock \<or> \<not> needs_verification required profile candidate
               then (Inr (cyberDenyVerdict x candidate), st')
               else
                 (case semanticAdjudicateCyberCandidateV25 x get profile txt source panel candidate st' of
                    ((v, Some err), st'') \<Rightarrow> (Inl err, st'')
                  | ((v, None), st'') \<Rightarrow>
                      (case gate_candidate x loaded baseline txt source verifier_reason
                              ''verifier_uncertainty_fail_open_v29'' v of
                         Inl passed \<Rightarrow> (Inr passed, st'')
                       | Inr verified \<Rightarrow> (Inr (cyberDenyVerdict x verified), st'')))))"

section \<open>What a verdict rests on\<close>

lemma uncertainty_allow [simp]:
  "ad_Decision (cyberUncertaintyAllowV29 x d r s) = DecisionAllow"
  "ad_Confidence (cyberUncertaintyAllowV29 x d r s) = 0"
  "ad_Category (cyberUncertaintyAllowV29 x d r s) = ''audit_uncertainty''"
  "ad_RiskCode (cyberUncertaintyAllowV29 x d r s) = []"
  "ad_ConfidenceKind (cyberUncertaintyAllowV29 x d r s) = []"
  "ad_policyOriginalDecision (cyberUncertaintyAllowV29 x d r s) = []"
  "map_option (ad_Decision \<circ> sr_Candidate) (ad_SemanticReview (cyberUncertaintyAllowV29 x d r s))
     = Some (ad_Decision d)"
  by (simp_all add: cyberUncertaintyAllowV29_def Let_def no_decision_def cleanSemanticDecision_def
      verdict.truncate_def)

lemma cyberDenyVerdict_cases:
  "ad_Decision (cyberDenyVerdict x d) = (if ad_Decision d = DecisionBlock then DecisionBlock else DecisionAllow)"
  "ad_Decision d = DecisionBlock \<Longrightarrow> cyberDenyVerdict x d = d"
  by (simp_all add: cyberDenyVerdict_def)

text \<open>An allow of the verdict is clean, or it says that it is an uncertainty.\<close>

definition clean_allow :: "AuditDecision \<Rightarrow> bool" where
  "clean_allow d \<longleftrightarrow>
     \<not> cyberDeniedCategory (ad_Category d) \<and> ad_RiskCode d = [] \<and> ad_Evidence d = []
     \<and> auditConfidenceMeets d (9 / 10)"

definition declared_uncertain :: "AuditDecision \<Rightarrow> bool" where
  "declared_uncertain d \<longleftrightarrow> ad_Category d = ''audit_uncertainty'' \<and> ad_Confidence d = 0
     \<and> ad_SemanticReview d \<noteq> None"

lemma uncertainty_declared [simp]: "declared_uncertain (cyberUncertaintyAllowV29 x d r s)"
  by (simp add: declared_uncertain_def cyberUncertaintyAllowV29_def Let_def)

lemma cyberDenyVerdict_sound:
  "ad_Decision (cyberDenyVerdict x d) = DecisionAllow \<Longrightarrow>
     clean_allow (cyberDenyVerdict x d) \<or> declared_uncertain (cyberDenyVerdict x d)"
  by (auto simp: cyberDenyVerdict_def clean_allow_def auditConfidenceMeets_def split: if_splits)

lemma gate_candidate_block:
  "gate_candidate x loaded baseline txt source r sr d0 = Inr d \<Longrightarrow>
     ad_Decision d = DecisionBlock \<Longrightarrow> confirmedCyberBlockV29 x loaded baseline d"
  by (auto simp: gate_candidate_def cyberDecisionNeedsFailOpenV29_def Let_def split: if_splits)

lemma gate_candidate_passed:
  "gate_candidate x loaded baseline txt source r sr d0 = Inl d \<Longrightarrow>
     ad_Decision d = DecisionAllow \<and> declared_uncertain d"
  by (auto simp: gate_candidate_def Let_def split: if_splits)

text \<open>A verdict is a confirmed block, a clean allow, or an allow that declares its uncertainty.\<close>

definition sound_verdict :: "matchers \<Rightarrow> CyberRule list \<Rightarrow> CyberRule list \<Rightarrow> AuditDecision \<Rightarrow> bool" where
  "sound_verdict x loaded baseline d \<longleftrightarrow>
     ad_Decision d = DecisionBlock \<and> confirmedCyberBlockV29 x loaded baseline d
     \<or> ad_Decision d = DecisionAllow \<and> (clean_allow d \<or> declared_uncertain d)"

lemma gated_verdict_sound:
  assumes "gate_candidate x loaded baseline txt source r sr d0 = Inr d"
  shows "sound_verdict x loaded baseline (cyberDenyVerdict x d)"
proof (cases "ad_Decision d = DecisionBlock")
  case True
  then show ?thesis
    using gate_candidate_block[OF assms] cyberDenyVerdict_cases(2)[OF True]
    by (simp add: sound_verdict_def)
next
  case False
  then have "ad_Decision (cyberDenyVerdict x d) = DecisionAllow"
    using cyberDenyVerdict_cases(1) by simp
  then show ?thesis using cyberDenyVerdict_sound by (simp add: sound_verdict_def)
qed

lemma callCyberDenyModel_sound:
  assumes "callCyberDenyModel x loaded baseline get required profile txt source env panel st = (Inr d, st')"
  shows "sound_verdict x loaded baseline d"
  using assms
  by (auto simp: callCyberDenyModel_def sound_verdict_def
      dest: gate_candidate_passed gated_verdict_sound[unfolded sound_verdict_def]
      split: prod.splits option.splits sum.splits if_splits)

text \<open>What a confirmed block shows.\<close>

lemma confirmed_block_facts:
  assumes "confirmedCyberBlockV29 x loaded baseline d"
  shows "mx_concreteHarm x (trim_space (ad_Evidence d)) \<and> trim_space (ad_Evidence d) \<noteq> []
    \<and> ((\<exists>r \<in> set (loaded @ baseline). cr_Enabled r \<and> cr_Action r = DecisionBlock
          \<and> equal_fold (trim_space (cr_Code r)) (to_upper (trim_space (ad_RiskCode d))))
       \<or> ad_EvidenceVerified d \<and> to_lower (trim_space (ad_HarmType d)) \<in> set semanticHarmTypes)"
  using assms
  by (auto simp: confirmedCyberBlockV29_def canonicalCyberBlockRiskCodeV29_def Let_def split: if_splits)

section \<open>Panels\<close>

lemma governing_keeps [simp]:
  "ap_ID (governingAuditVerifier r p) = ap_ID p" "ap_Endpoint (governingAuditVerifier r p) = ap_Endpoint p"
  "ap_Model (governingAuditVerifier r p) = ap_Model p" "ap_Enabled (governingAuditVerifier r p) = ap_Enabled p"
  "ap_SystemPrompt (governingAuditVerifier r p) = ap_SystemPrompt r"
  "ap_BlockThreshold (governingAuditVerifier r p) = ap_BlockThreshold r"
  by (simp_all add: governingAuditVerifier_def Let_def)

lemma model_identity_governing [simp]: "model_identity (governingAuditVerifier r p) = model_identity p"
  by (simp add: model_identity_def)

lemma load_panel_member_fresh:
  "load_panel_member sanitize get r ids models raw = Inr (i, p) \<Longrightarrow>
     i \<notin> set ids \<and> model_identity p \<notin> set models \<and> (i = ap_ID r \<and> p = r \<or> get i = Some p \<and> ap_Enabled p)"
  by (auto simp: load_panel_member_def Let_def split: option.splits if_splits)

lemma load_panel_distinct:
  assumes "load_panel sanitize get r ids models raws = Inr ps"
  shows "length ps = length raws \<and> distinct (map model_identity ps)
    \<and> set (map model_identity ps) \<inter> set models = {}
    \<and> (\<forall>p \<in> set ps. ap_SystemPrompt p = ap_SystemPrompt r \<and> ap_BlockThreshold p = ap_BlockThreshold r)"
  using assms
proof (induction raws arbitrary: ids models ps)
  case Nil
  then show ?case by simp
next
  case (Cons raw raws)
  obtain i p where ip: "load_panel_member sanitize get r ids models raw = Inr (i, p)"
    using Cons.prems by (cases "load_panel_member sanitize get r ids models raw") auto
  obtain ps' where ps': "load_panel sanitize get r (i # ids) (model_identity p # models) raws = Inr ps'"
    using Cons.prems ip by (cases "load_panel sanitize get r (i # ids) (model_identity p # models) raws") auto
  have "ps = governingAuditVerifier r p # ps'" using Cons.prems ip ps' by simp
  then show ?case using Cons.IH[OF ps'] load_panel_member_fresh[OF ip] by auto
qed

text \<open>A panel allows only when every member answered, and allowed.\<close>

definition member_allows ::
    "matchers \<Rightarrow> string \<Rightarrow> string \<Rightarrow> (AuditProfile \<Rightarrow> grounded_env) \<Rightarrow> AuditProfile \<Rightarrow> bool" where
  "member_allows x txt source env p \<longleftrightarrow>
     (\<exists>st d. panel_answer x txt source (fst (callCyberGroundedModel x p (env p) st)) = Inr d
        \<and> ad_Decision d = DecisionAllow)"

lemma panel_loop_allows:
  assumes "panel_loop x txt source env ps failure final lastp st = (AllAllow d, lastp', st')"
  shows "failure = None \<and> (\<forall>p \<in> set ps. member_allows x txt source env p)"
  using assms
proof (induction ps arbitrary: failure final lastp st)
  case Nil
  then show ?case by (auto split: option.splits)
next
  case (Cons p ps)
  obtain s ok where res: "reserveReview (fst st) = (s, ok)" by fastforce
  have ok: "ok" using Cons.prems res by (cases ok) auto
  obtain ans s' where call: "callCyberGroundedModel x p (env p) (s, snd st) = (ans, s')" by (rule prod.exhaust)
  show ?case
  proof (cases "panel_answer x txt source ans")
    case (Inl err)
    then have "panel_loop x txt source env ps (Some err) final (Some p) s' = (AllAllow d, lastp', st')"
      using Cons.prems res ok call by simp
    from Cons.IH[OF this] show ?thesis by simp
  next
    case (Inr a)
    then have allow: "ad_Decision a = DecisionAllow"
      using Cons.prems res ok call by (simp split: if_splits)
    then have "panel_loop x txt source env ps failure a (Some p) s' = (AllAllow d, lastp', st')"
      using Cons.prems res ok call Inr by simp
    moreover have "member_allows x txt source env p"
      unfolding member_allows_def using call Inr allow by (intro exI[of _ "(s, snd st)"]) simp
    ultimately show ?thesis using Cons.IH by simp
  qed
qed

lemma panel_loop_denied:
  "panel_loop x txt source env ps failure final lastp st = (Denied d, lastp', st') \<Longrightarrow> ad_Decision d \<noteq> DecisionAllow"
proof (induction ps arbitrary: failure final lastp st)
  case Nil
  then show ?case by (simp split: option.splits)
next
  case (Cons p ps)
  obtain s ok where res: "reserveReview (fst st) = (s, ok)" by (rule prod.exhaust)
  obtain ans s' where call: "callCyberGroundedModel x p (env p) (s, snd st) = (ans, s')" by (rule prod.exhaust)
  from Cons.prems show ?case
    by (simp add: res call split: bool.splits sum.splits if_splits) (blast dest: Cons.IH)+
qed

lemma auditFusionProfiles_panel:
  assumes "auditFusionProfiles sanitize get r = Inr (ps, adjudicator)"
  shows "length ps \<in> {2, 3} \<and> distinct (map model_identity ps)
    \<and> (\<forall>p \<in> set ps. ap_SystemPrompt p = ap_SystemPrompt r \<and> ap_BlockThreshold p = ap_BlockThreshold r)"
proof -
  obtain ids where ids: "extra_get (ap_Extra r) fusionProfileIDsKey = Some (JArr ids)" "2 \<le> length ids" "length ids \<le> 3"
    using assms by (auto simp: auditFusionProfiles_def split: option.splits json.splits if_splits)
  show ?thesis
  proof (cases "extra_get (ap_Extra r) fusionAdjudicatorKey")
    case None
    then have "load_panel sanitize get r [] [] ids = Inr ps"
      using assms ids by (simp add: auditFusionProfiles_def split: sum.splits)
    from load_panel_distinct [OF this] ids show ?thesis by auto
  next
    case (Some raw)
    then obtain all where all: "load_panel sanitize get r [] [] (ids @ [raw]) = Inr all" "ps = butlast all"
      using assms ids by (auto simp: auditFusionProfiles_def split: sum.splits)
    note d = load_panel_distinct [OF all(1)]
    then have "distinct (map model_identity ps)" by (simp add: all(2) map_butlast distinct_butlast)
    moreover have "length ps = length ids" using d by (simp add: all(2))
    moreover have "set ps \<subseteq> set all" unfolding all(2) by (auto dest: in_set_butlastD)
    ultimately show ?thesis using d ids by auto
  qed
qed
section \<open>A repaired review is recorded as an allow\<close>

text \<open>
  The candidate an uncertainty allow keeps is the model's; but a repair has already turned its
  review into an allow, and the verdict wraps that allow once more.
\<close>

lemma repaired_review:
  assumes "ge_first env = (d0, None)" and "mx_nonOperational x d0"
    and "ge_second env = (d, None)" and "ad_Decision d = DecisionReview" and "\<not> mx_nonOperational x d"
    and "ge_ctxErr env = None" and "snd (reserveReview (fst st))"
    and "\<not> needs_verification required profile (cyberDenyVerdict x d)"
  shows "\<exists>v st'. callCyberDenyModel x loaded baseline get required profile txt source env panel st = (Inr v, st')
    \<and> map_option (ad_Decision \<circ> sr_Candidate) (ad_SemanticReview v) = Some DecisionAllow"
proof -
  define v0 where "v0 = cyberDenyVerdict x d"
  have v0: "v0 = cyberUncertaintyAllowV29 x d (''model returned review; '' @ ''review/verification uncertainty is fail-open'')
      ''model_review_fail_open_v29''"
    using assms(4) by (simp add: v0_def cyberDenyVerdict_def)
  obtain s where s: "reserveReview (fst st) = (s, True)" using assms(7) by (cases "reserveReview (fst st)") auto
  have nq: "error_class (mx_sanitize x) None = []" by (simp add: error_class_def auditModelErrorDetails_def)
  obtain st1 where g: "callCyberGroundedModel x profile env st = ((v0, None), st1)"
    using assms(1-6) s nq by (simp add: callCyberGroundedModel_def repair_candidate_def repair_names_def
        checked_repair_def v0_def)
  have allow: "ad_Decision v0 = DecisionAllow" and orig: "ad_policyOriginalDecision v0 = []"
    by (simp_all add: v0)
  have gate: "gate_candidate x loaded baseline txt source r sr v0 = Inr v0" for r sr
    using allow orig
    by (simp add: gate_candidate_def normalizeCyberEvidenceGateV28_def cyberDecisionNeedsFailOpenV29_def)
  have low: "\<not> auditConfidenceMeets v0 (9 / 10)" by (simp add: v0 auditConfidenceMeets_def)
  have "callCyberDenyModel x loaded baseline get required profile txt source env panel st
      = (Inr (cyberDenyVerdict x v0), st1)"
    using assms(8) allow by (simp add: callCyberDenyModel_def g gate v0_def [symmetric])
  moreover have "map_option (ad_Decision \<circ> sr_Candidate) (ad_SemanticReview (cyberDenyVerdict x v0)) = Some DecisionAllow"
    using allow low by (simp add: cyberDenyVerdict_def)
  ultimately show ?thesis by blast
qed

end
