(* ===== verification/Ttl_Cache.thy ===== *)
theory Ttl_Cache
  imports Prelude
begin

text \<open>
  The two caches with a time to live: the routes of the gateway (\<open>getRoute\<close>, \<open>InvalidateRoute\<close>
  of \<open>gateway.go\<close>) and the audit profiles (\<open>getAuditProfile\<close>, \<open>InvalidateProfiles\<close> of
  \<open>audit_cache.go\<close>). A read that misses fetches from the database without a lock and stores the
  answer afterwards, with an expiry counted from the moment the read began, so a read is two
  steps and other reads and invalidations may come in between. Times are integers.
\<close>

type_synonym ('k, 'v) ttl_cache = "'k \<rightharpoonup> 'v \<times> int"

definition auditProfileCacheTTL :: int where
  "auditProfileCacheTTL = 10000000000"

section \<open>Routes\<close>

text \<open>The lookup under the read lock, and the store under the write lock.\<close>

definition cached_route :: "(string, 'r) ttl_cache \<Rightarrow> int \<Rightarrow> string \<Rightarrow> 'r option" where
  "cached_route cache now slug =
     (case cache slug of Some (route, expiresAt) \<Rightarrow> if expiresAt > now then Some route else None
      | None \<Rightarrow> None)"

definition store_route :: "int \<Rightarrow> int \<Rightarrow> string \<Rightarrow> 'r \<Rightarrow> (string, 'r) ttl_cache \<Rightarrow> (string, 'r) ttl_cache" where
  "store_route ttl now slug route cache = cache(slug \<mapsto> (route, now + ttl))"

definition InvalidateRoute :: "string \<Rightarrow> (string, 'r) ttl_cache \<Rightarrow> (string, 'r) ttl_cache" where
  "InvalidateRoute slug cache = (if slug = [] then Map.empty else cache(slug := None))"

text \<open>The whole read, when nothing interferes: \<open>db\<close> is the database's answer.\<close>

definition getRoute ::
    "int \<Rightarrow> int \<Rightarrow> string \<Rightarrow> 'r option \<Rightarrow> (string, 'r) ttl_cache \<Rightarrow> (string, 'r) ttl_cache \<times> 'r option" where
  "getRoute ttl now slug db cache =
     (case cached_route cache now slug of
        Some route \<Rightarrow> (cache, Some route)
      | None \<Rightarrow> (case db of None \<Rightarrow> (cache, None) | Some route \<Rightarrow> (store_route ttl now slug route cache, Some route)))"

section \<open>Audit profiles\<close>

text \<open>Key 0 stands for the default profile; \<open>mandatory\<close> composes the system prompt.\<close>

definition profile_key :: "int option \<Rightarrow> int" where
  "profile_key i = (case i of None \<Rightarrow> 0 | Some k \<Rightarrow> k)"

definition cached_profile :: "(int, 'p) ttl_cache \<Rightarrow> int \<Rightarrow> int \<Rightarrow> 'p option" where
  "cached_profile cache now k =
     (case cache k of None \<Rightarrow> None | Some (p, expiresAt) \<Rightarrow> if expiresAt > now then Some p else None)"

definition store_profile :: "int \<Rightarrow> int \<Rightarrow> 'p \<Rightarrow> (int, 'p) ttl_cache \<Rightarrow> (int, 'p) ttl_cache" where
  "store_profile now k p cache = cache(k \<mapsto> (p, now + auditProfileCacheTTL))"

definition InvalidateProfiles :: "(int, 'p) ttl_cache \<Rightarrow> (int, 'p) ttl_cache" where
  "InvalidateProfiles cache = Map.empty"

definition getAuditProfile ::
    "'e option \<Rightarrow> ('p \<Rightarrow> 'p) \<Rightarrow> int \<Rightarrow> int option \<Rightarrow> 'e + 'p \<Rightarrow> (int, 'p) ttl_cache \<Rightarrow> (int, 'p) ttl_cache \<times> ('e + 'p)" where
  "getAuditProfile ctxErr mandatory now i db cache =
     (case ctxErr of
        Some err \<Rightarrow> (cache, Inl err)
      | None \<Rightarrow>
          (case cached_profile cache now (profile_key i) of
             Some p \<Rightarrow> (cache, Inr p)
           | None \<Rightarrow>
               (case db of
                  Inl err \<Rightarrow> (cache, Inl err)
                | Inr p \<Rightarrow> (store_profile now (profile_key i) (mandatory p) cache, Inr (mandatory p)))))"

section \<open>Contract\<close>

text \<open>
  \<open>fetched t k v\<close> stores what a read begun at \<open>t\<close> got; \<open>dropped a\<close> is an invalidation. A hit at
  \<open>t\<close> comes from a read begun less than a time to live before.
\<close>

locale ttl_store =
  fixes drops :: "'a \<Rightarrow> 'k \<Rightarrow> bool"
    and hit :: "'s \<Rightarrow> int \<Rightarrow> 'k \<Rightarrow> 'v option"
    and fetched :: "int \<Rightarrow> 'k \<Rightarrow> 'v \<Rightarrow> 's \<Rightarrow> 's"
    and dropped :: "'a \<Rightarrow> 's \<Rightarrow> 's"
    and empty :: 's
    and ttl :: int
  assumes hit_empty: "hit empty t k = None"
    and hit_fetched: "hit (fetched t0 k v s) t k = (if t < t0 + ttl then Some v else None)"
    and hit_other: "j \<noteq> k \<Longrightarrow> hit (fetched t0 j v s) t k = hit s t k"
    and hit_dropped: "hit (dropped a s) t k = Some v \<Longrightarrow> hit s t k = Some v"
    and hit_drops: "drops a k \<Longrightarrow> hit (dropped a s) t k = None"

datatype ('k, 'v, 'a) cache_op = Fetched int 'k 'v | Dropped 'a

primrec cache_step ::
    "(int \<Rightarrow> 'k \<Rightarrow> 'v \<Rightarrow> 's \<Rightarrow> 's) \<Rightarrow> ('a \<Rightarrow> 's \<Rightarrow> 's) \<Rightarrow> ('k, 'v, 'a) cache_op \<Rightarrow> 's \<Rightarrow> 's" where
  "cache_step fetched dropped (Fetched t k v) s = fetched t k v s"
| "cache_step fetched dropped (Dropped a) s = dropped a s"

context ttl_store
begin

lemma step_hit:
  assumes "hit (cache_step fetched dropped c s) t k = Some v"
  shows "hit s t k = Some v \<or> (\<exists>t0. c = Fetched t0 k v \<and> t < t0 + ttl)"
proof (cases c)
  case (Fetched t0 j u)
  then have h: "hit (fetched t0 j u s) t k = Some v" using assms by (simp only: cache_step.simps)
  show ?thesis
  proof (cases "j = k")
    case True
    then have "(if t < t0 + ttl then Some u else None) = Some v" using h by (simp only: hit_fetched)
    then have "t < t0 + ttl \<and> u = v" by (simp split: if_splits)
    then show ?thesis using Fetched True by blast
  next
    case False
    from h have "hit s t k = Some v" unfolding hit_other[OF False] .
    then show ?thesis by blast
  qed
next
  case (Dropped a)
  then have "hit (dropped a s) t k = Some v" using assms by (simp only: cache_step.simps)
  then show ?thesis using hit_dropped by blast
qed

lemma fresh_from:
  assumes "hit s t k = None"
  shows "hit (fold (cache_step fetched dropped) ops s) t k = Some v \<Longrightarrow>
     \<exists>t0. Fetched t0 k v \<in> set ops \<and> t < t0 + ttl"
proof (induction ops rule: rev_induct)
  case Nil
  then show ?case using assms by simp
next
  case (snoc c ops)
  then have "hit (cache_step fetched dropped c (fold (cache_step fetched dropped) ops s)) t k = Some v"
    by simp
  from step_hit[OF this] snoc.IH show ?case by auto
qed

lemma fresh:
  "hit (fold (cache_step fetched dropped) ops empty) t k = Some v \<Longrightarrow>
     \<exists>t0. Fetched t0 k v \<in> set ops \<and> t < t0 + ttl"
  by (rule fresh_from [OF hit_empty])

text \<open>What a hit after an invalidation shows was stored after it.\<close>

lemma fresh_after:
  assumes "drops a k" and "hit (fold (cache_step fetched dropped) (before @ Dropped a # after) empty) t k = Some v"
  shows "\<exists>t0. Fetched t0 k v \<in> set after \<and> t < t0 + ttl"
proof -
  have h: "hit (fold (cache_step fetched dropped) after
      (dropped a (fold (cache_step fetched dropped) before empty))) t k = Some v"
    using assms(2) by simp
  show ?thesis by (rule fresh_from [OF hit_drops [OF assms(1)] h])
qed

end

interpretation route_store: ttl_store "\<lambda>a k. a = [] \<or> a = k" cached_route "store_route r" InvalidateRoute Map.empty r for r :: int
  by unfold_locales (auto simp: cached_route_def store_route_def InvalidateRoute_def split: if_splits)

interpretation profile_store: ttl_store "\<lambda>_ _. True" cached_profile store_profile
  "\<lambda>_ :: unit. InvalidateProfiles" Map.empty auditProfileCacheTTL
  by unfold_locales (auto simp: cached_profile_def store_profile_def InvalidateProfiles_def)

text \<open>The reads in terms of the two steps.\<close>

lemma getRoute_steps:
  "getRoute ttl now slug db cache =
     (case cached_route cache now slug of Some r \<Rightarrow> (cache, Some r)
      | None \<Rightarrow> (case db of None \<Rightarrow> cache | Some r \<Rightarrow> store_route ttl now slug r cache, db))"
  by (auto simp: getRoute_def split: option.split)

text \<open>An invalidation between the two steps of a read is undone by the second.\<close>

lemma invalidated_then_stored:
  "0 < ttl \<Longrightarrow> t0 \<le> t \<Longrightarrow> t < t0 + ttl \<Longrightarrow>
     cached_route (store_route ttl t0 slug old (InvalidateRoute a cache)) t slug = Some old"
  by (simp add: cached_route_def store_route_def)

end
