(* ===== verification/Diagnostics.thy ===== *)
theory Diagnostics
  imports Audit_Types Token_Usage
begin

text \<open>
  The failure reasons of a trace: \<open>upstream_diagnostics.go\<close> and \<open>traceFailureReason\<close> of
  \<open>audit_diagnostics.go\<close>. The texts the program shows are kept as their runes.
\<close>

section \<open>Reasons in an upstream answer\<close>

text \<open>Following a path of keys through decoded objects.\<close>

fun json_path :: "string list \<Rightarrow> json \<Rightarrow> json option" where
  "json_path [] v = Some v"
| "json_path (k # ks) v =
     (case v of JObj ms \<Rightarrow> (case lookup ms k of None \<Rightarrow> None | Some w \<Rightarrow> json_path ks w) | _ \<Rightarrow> None)"

definition failure_paths :: "string list list" where
  "failure_paths = [[''error'', ''message''], [''error'', ''detail''], [''message''], [''detail'']]"

definition nonblank :: "json option \<Rightarrow> string option" where
  "nonblank v = (case v of Some (JStr s) \<Rightarrow> if trim_space s \<noteq> [] then Some s else None | _ \<Rightarrow> None)"

fun first_some :: "'a option list \<Rightarrow> 'a option" where
  "first_some [] = None"
| "first_some (Some x # xs) = Some x"
| "first_some (None # xs) = first_some xs"

definition jsonFailureReason :: "(string \<Rightarrow> string) \<Rightarrow> string \<Rightarrow> string" where
  "jsonFailureReason sanitize body =
     (case json_object body of
        None \<Rightarrow> []
      | Some payload \<Rightarrow>
          (case first_some (map (\<lambda>path. nonblank (json_path path (JObj payload))) failure_paths @
                            [nonblank (lookup payload ''error'')]) of
             None \<Rightarrow> [] | Some t \<Rightarrow> sanitizeAuditDiagnostic sanitize t))"

definition line_reason :: "(string \<Rightarrow> string) \<Rightarrow> string \<Rightarrow> string" where
  "line_reason sanitize rawLine =
     (let line = trim_space rawLine in
      if \<not> is_prefix ''data:'' line then []
      else (let data = trim_space (trim_prefix line ''data:'') in
            if data = [] \<or> data = ''[DONE]'' then [] else jsonFailureReason sanitize data))"

definition extractUpstreamFailureReason :: "(string \<Rightarrow> string) \<Rightarrow> string \<Rightarrow> string" where
  "extractUpstreamFailureReason sanitize evidence =
     (if evidence = [] then []
      else (let txt = to_valid_utf8 evidence in
            firstNonEmpty (map (line_reason sanitize) (split_byte (CHR 0x0A) txt) @
              [jsonFailureReason sanitize evidence, sanitizeAuditDiagnostic sanitize txt])))"

definition recordUpstreamFailureMetadata ::
    "(string \<Rightarrow> string) \<Rightarrow> string \<Rightarrow> int \<Rightarrow> string \<Rightarrow> string \<Rightarrow> metadata \<Rightarrow> metadata" where
  "recordUpstreamFailureMetadata sanitize riskCode upstreamStatus evidence stage0 m =
     (let stage = trim_space stage0; reason = extractUpstreamFailureReason sanitize evidence in
      set_if (reason \<noteq> []) ''upstream_error_reason'' (MStr reason)
        (set_if (upstreamStatus > 0) ''upstream_error_http_status'' (MInt upstreamStatus)
          (set_if (trim_space riskCode \<noteq> []) ''upstream_error_class'' (MStr (trim_space riskCode))
            (set_if (stage \<noteq> []) ''failure_stage'' (MStr stage) m))))"

section \<open>The reason shown for a failed request\<close>

definition of_runes :: "nat list \<Rightarrow> string" where
  "of_runes rs = concat (map encode_rune rs)"

definition reason_ROUTE_NOT_FOUND :: string where
  "reason_ROUTE_NOT_FOUND = of_runes
    [28192, 36947, 36335, 30001, 19981, 23384, 22312, 25110, 24050, 31105, 29992]"

definition reason_GATEWAY_AUTH_FAILED :: string where
  "reason_GATEWAY_AUTH_FAILED = of_runes
    [78, 101, 119, 32, 65, 80, 73, 32, 28192, 36947, 32, 75, 101, 121,
     32, 26657, 39564, 22833, 36133]"

definition reason_RATE_LIMITED :: string where
  "reason_RATE_LIMITED = of_runes
    [35831, 27714, 35302, 21457, 32593, 20851, 38480, 27969]"

definition reason_GATEWAY_OVERLOADED :: string where
  "reason_GATEWAY_OVERLOADED = of_runes
    [32593, 20851, 20840, 23616, 24182, 21457, 24050, 28385]"

definition reason_REQUEST_TOO_LARGE :: string where
  "reason_REQUEST_TOO_LARGE = of_runes
    [35831, 27714, 20307, 36229, 36807, 32593, 20851, 23383, 33410, 23433, 20840, 19978, 38480, 65307,
     26597, 30475, 35831, 27714, 20307, 22823, 23567, 12289, 24179, 21488, 19978, 38480, 21644, 36229,
     20986, 37327]"

definition reason_REQUEST_READ_ERROR :: string where
  "reason_REQUEST_READ_ERROR = of_runes
    [32593, 20851, 35835, 21462, 35831, 27714, 20307, 22833, 36133]"

definition reason_AUDIT_MODEL_UNAVAILABLE :: string where
  "reason_AUDIT_MODEL_UNAVAILABLE = of_runes
    [27809, 26377, 21487, 29992, 30340, 23457, 35745, 27169, 22411]"

definition reason_AUDIT_MODEL_ERROR :: string where
  "reason_AUDIT_MODEL_ERROR = of_runes
    [23457, 35745, 27169, 22411, 35843, 29992, 25110, 36820, 22238, 26684, 24335, 24322, 24120]"

definition reason_AUDIT_CONTEXT_TOO_LARGE :: string where
  "reason_AUDIT_CONTEXT_TOO_LARGE = of_runes
    [23457, 35745, 35831, 27714, 36229, 36807, 27169, 22411, 19978, 19979, 25991, 19988, 20998, 27573,
     23457, 35745, 20173, 26080, 27861, 23436, 25104]"

definition reason_AUDIT_REVIEW_REQUIRED :: string where
  "reason_AUDIT_REVIEW_REQUIRED = of_runes
    [23457, 35745, 27169, 22411, 35201, 27714, 36827, 19968, 27493, 22797, 26680]"

definition reason_ROUTE_CONCURRENCY_LIMITED :: string where
  "reason_ROUTE_CONCURRENCY_LIMITED = of_runes
    [35813, 28192, 36947, 36335, 30001, 24182, 21457, 24050, 28385]"

definition reason_GATEWAY_CONFIG_ERROR :: string where
  "reason_GATEWAY_CONFIG_ERROR = of_runes
    [28192, 36947, 36335, 30001, 37197, 32622, 26080, 25928]"

definition reason_UPSTREAM_CONNECTION_ERROR :: string where
  "reason_UPSTREAM_CONNECTION_ERROR = of_runes
    [26080, 27861, 36830, 25509, 30495, 23454, 19978, 28216, 27169, 22411]"

definition reason_UPSTREAM_TIMEOUT :: string where
  "reason_UPSTREAM_TIMEOUT = of_runes
    [30495, 23454, 19978, 28216, 27169, 22411, 35831, 27714, 36229, 26102]"

definition reason_UPSTREAM_MODEL_STATUS :: string where
  "reason_UPSTREAM_MODEL_STATUS = of_runes
    [30495, 23454, 19978, 28216, 27169, 22411, 36820, 22238, 32, 72, 84, 84, 80, 32]"

definition reason_UPSTREAM_MODEL_ERROR :: string where
  "reason_UPSTREAM_MODEL_ERROR = of_runes
    [30495, 23454, 19978, 28216, 27169, 22411, 36820, 22238, 38169, 35823]"

definition reason_UPSTREAM_STREAM_ERROR :: string where
  "reason_UPSTREAM_STREAM_ERROR = of_runes
    [30495, 23454, 19978, 28216, 27969, 24335, 21709, 24212, 36820, 22238, 38169, 35823, 20107, 20214]"

definition reason_UPSTREAM_STREAM_INTERRUPTED :: string where
  "reason_UPSTREAM_STREAM_INTERRUPTED = of_runes
    [30495, 23454, 19978, 28216, 27969, 24335, 36830, 25509, 22312, 23436, 25104, 21069, 20013, 26029,
     65307, 26597, 30475, 27969, 35835, 21462, 35786, 26029, 21644, 23436, 25104, 26631, 35760]"

definition reason_UPSTREAM_STREAM_TIMEOUT :: string where
  "reason_UPSTREAM_STREAM_TIMEOUT = of_runes
    [30495, 23454, 19978, 28216, 27969, 24335, 21709, 24212, 36229, 36807, 37197, 32622, 30340, 31354,
     38386, 36229, 26102, 65307, 21482, 26377, 36830, 32493, 26080, 20107, 20214, 25165, 20250, 35302,
     21457, 65292, 19981, 20877, 38480, 21046, 24635, 29983, 25104, 26102, 38271]"

definition reason_UPSTREAM_READ_ERROR :: string where
  "reason_UPSTREAM_READ_ERROR = of_runes
    [35835, 21462, 30495, 23454, 19978, 28216, 21709, 24212, 22833, 36133]"

definition reason_CLIENT_DISCONNECT :: string where
  "reason_CLIENT_DISCONNECT = of_runes
    [23458, 25143, 31471, 22312, 21709, 24212, 20256, 36755, 23436, 25104, 21069, 26029, 24320, 36830,
     25509]"

definition reason_CYBER :: string where
  "reason_CYBER = of_runes
    [35831, 27714, 21629, 20013, 32, 67, 121, 98, 101, 114, 32, 39118, 25511, 35268,
     21017, 25110, 35821, 20041, 23457, 35745]"

text \<open>The standard reason of a risk code.\<close>

definition standard_reasons :: "(string \<times> string) list" where
  "standard_reasons =
    [(''ROUTE_NOT_FOUND'', reason_ROUTE_NOT_FOUND),
     (''GATEWAY_AUTH_FAILED'', reason_GATEWAY_AUTH_FAILED),
     (''RATE_LIMITED'', reason_RATE_LIMITED),
     (''GATEWAY_OVERLOADED'', reason_GATEWAY_OVERLOADED),
     (''REQUEST_TOO_LARGE'', reason_REQUEST_TOO_LARGE),
     (''REQUEST_READ_ERROR'', reason_REQUEST_READ_ERROR),
     (''AUDIT_MODEL_UNAVAILABLE'', reason_AUDIT_MODEL_UNAVAILABLE),
     (''AUDIT_MODEL_ERROR'', reason_AUDIT_MODEL_ERROR),
     (''AUDIT_CONTEXT_TOO_LARGE'', reason_AUDIT_CONTEXT_TOO_LARGE),
     (''AUDIT_REVIEW_REQUIRED'', reason_AUDIT_REVIEW_REQUIRED),
     (''ROUTE_CONCURRENCY_LIMITED'', reason_ROUTE_CONCURRENCY_LIMITED),
     (''GATEWAY_CONFIG_ERROR'', reason_GATEWAY_CONFIG_ERROR),
     (''UPSTREAM_CONNECTION_ERROR'', reason_UPSTREAM_CONNECTION_ERROR),
     (''UPSTREAM_TIMEOUT'', reason_UPSTREAM_TIMEOUT),
     (''UPSTREAM_MODEL_ERROR'', reason_UPSTREAM_MODEL_ERROR),
     (''UPSTREAM_STREAM_ERROR'', reason_UPSTREAM_STREAM_ERROR),
     (''UPSTREAM_STREAM_INTERRUPTED'', reason_UPSTREAM_STREAM_INTERRUPTED),
     (''UPSTREAM_STREAM_TIMEOUT'', reason_UPSTREAM_STREAM_TIMEOUT),
     (''UPSTREAM_READ_ERROR'', reason_UPSTREAM_READ_ERROR),
     (''CLIENT_DISCONNECT'', reason_CLIENT_DISCONNECT)]"

definition stated :: "metadata \<Rightarrow> string \<Rightarrow> string option" where
  "stated m k = (case m k of Some (MStr s) \<Rightarrow> if trim_space s \<noteq> [] then Some s else None | _ \<Rightarrow> None)"

definition standard_reason :: "string \<Rightarrow> int \<Rightarrow> string" where
  "standard_reason riskCode upstreamStatus =
     (if riskCode = ''UPSTREAM_MODEL_ERROR'' \<and> upstreamStatus > 0
      then reason_UPSTREAM_MODEL_STATUS @ dec_int upstreamStatus
      else (case lookup standard_reasons riskCode of
              Some reason \<Rightarrow> reason
            | None \<Rightarrow> if is_prefix ''CYBER_'' riskCode then reason_CYBER else trim_space riskCode))"

definition traceFailureReason :: "string \<Rightarrow> int \<Rightarrow> metadata \<Rightarrow> string" where
  "traceFailureReason riskCode upstreamStatus m =
     (case first_some [stated m ''error_reason'',
                       (if is_prefix ''AUDIT_'' riskCode \<or> is_prefix ''CYBER_'' riskCode
                        then stated m ''audit_reason'' else None),
                       stated m ''upstream_error_reason''] of
        Some reason \<Rightarrow> truncateString reason auditDiagnosticTextLimit
      | None \<Rightarrow> standard_reason riskCode upstreamStatus)"

section \<open>The guidance shown with a block\<close>

definition guidance_credential_access :: string where
  "guidance_credential_access = of_runes
    [35831, 26680, 23545, 20973, 25454, 26469, 28304, 21450, 23454, 38469, 25805, 20316, 65306, 29992,
     25143, 20027, 21160, 36755, 20837, 24182, 29992, 20110, 27491, 24120, 35748, 35777, 65292, 19981,
     31561, 20110, 20174, 38544, 34255, 23384, 20648, 25552, 21462, 12289, 31363, 21462, 25110, 25259,
     38706, 31192, 23494, 12290, 26412, 22320, 24320, 21457, 35828, 26126, 19981, 26159, 20840, 35831,
     27714, 35905, 20813, 65307, 23384, 22312, 23454, 38469, 31105, 29992, 25805, 20316, 20173, 20250,
     25298, 32477, 12290]"

definition guidance_malware :: string where
  "guidance_malware = of_runes
    [22914, 26524, 30446, 30340, 26159, 38450, 24481, 25110, 20998, 26512, 65292, 35831, 25913, 20026,
     25551, 36848, 26679, 26412, 20998, 26512, 12289, 73, 79, 67, 32, 25552, 21462, 12289,
     26816, 27979, 12289, 38548, 31163, 12289, 28165, 29702, 12289, 20462, 22797, 25110, 38459, 26029,
     30446, 26631, 65292, 19981, 35201, 35201, 27714, 29983, 25104, 12289, 37096, 32626, 25110, 32500,
     25345, 24694, 24847, 36733, 33655, 12290]"

definition guidance_defense_evasion :: string where
  "guidance_defense_evasion = of_runes
    [22914, 26524, 26159, 22312, 20570, 20860, 23481, 24615, 25110, 38450, 24481, 27979, 35797, 65292,
     35831, 25551, 36848, 26816, 27979, 21453, 35843, 35797, 47, 38450, 25252, 20860, 23481, 38382,
     39064, 12289, 26085, 24535, 20998, 26512, 25110, 20462, 22797, 30446, 26631, 65292, 19981, 35201,
     35201, 27714, 20851, 38381, 12289, 32469, 36807, 25110, 35268, 36991, 30495, 23454, 23433, 20840,
     25511, 21046, 12290]"

definition guidance_execution :: string where
  "guidance_execution = of_runes
    [22914, 26524, 26159, 22312, 25490, 38556, 25110, 25480, 26435, 27979, 35797, 65292, 35831, 25551,
     36848, 28431, 27934, 39564, 35777, 12289, 20462, 22797, 12289, 32531, 35299, 21644, 26368, 23567,
     22797, 29616, 33539, 22260, 65292, 36991, 20813, 35201, 27714, 38754, 21521, 30495, 23454, 30446,
     26631, 30340, 21487, 30452, 25509, 21033, 29992, 25110, 25552, 26435, 33021, 21147, 12290]"

definition guidance_local_probing :: string where
  "guidance_local_probing = of_runes
    [26412, 26426, 29616, 26377, 36830, 25509, 12289, 30417, 21548, 31471, 21475, 19982, 32, 80,
     73, 68, 32, 30340, 21482, 35835, 26597, 30475, 19981, 31561, 20110, 20027, 21160, 25195,
     25551, 65307, 20027, 21160, 25506, 27979, 12289, 25915, 20987, 20390, 23519, 21450, 28151, 21512,
     31105, 29992, 25805, 20316, 20173, 25298, 32477, 12290, 35831, 26680, 23545, 21629, 20013, 30340,
     26159, 23454, 38469, 25805, 20316, 65292, 36824, 26159, 21629, 20196, 21517, 19982, 36164, 26009,
     35828, 26126, 12290]"

definition guidance_reconnaissance :: string where
  "guidance_reconnaissance = of_runes
    [22914, 26524, 26159, 36164, 20135, 31649, 29702, 25110, 38450, 24481, 25195, 25551, 65292, 35831,
     26126, 30830, 35828, 26126, 33258, 26377, 36164, 20135, 12289, 36164, 20135, 30424, 28857, 12289,
     26292, 38706, 38754, 26816, 26597, 25110, 28431, 27934, 20462, 22797, 30446, 26631, 65292, 24182,
     38480, 21046, 22312, 24517, 35201, 30340, 39564, 35777, 33539, 22260, 12290]"

definition guidance_exfiltration :: string where
  "guidance_exfiltration = of_runes
    [22914, 26524, 26159, 22312, 25490, 26597, 25968, 25454, 27844, 38706, 65292, 35831, 25913, 20026,
     25551, 36848, 26816, 27979, 12289, 23457, 35745, 12289, 38459, 26029, 12289, 21462, 35777, 25110,
     39564, 35777, 25968, 25454, 27969, 21521, 65292, 19981, 35201, 35201, 27714, 23548, 20986, 20182,
     20154, 25110, 26410, 25480, 26435, 25968, 25454, 12290]"

definition guidance_other :: string where
  "guidance_other = of_runes
    [35831, 26680, 23545, 21629, 20013, 35777, 25454, 26159, 21542, 30830, 23454, 21253, 21547, 31105,
     29992, 25805, 20316, 65307, 26222, 36890, 26412, 22320, 24320, 21457, 12289, 35748, 35777, 35774,
     35745, 21644, 37197, 32622, 35828, 26126, 19981, 24212, 21333, 29420, 25104, 20026, 25915, 20987,
     20381, 25454, 12290, 35823, 21028, 35831, 25552, 20132, 35831, 27714, 36861, 36394, 20449, 24687,
     65292, 19981, 33021, 20165, 38752, 25913, 20889, 29992, 36884, 35828, 26126, 25918, 34892, 23454,
     38469, 31105, 29992, 25805, 20316, 12290]"

definition category_guidance :: "(string \<times> string) list" where
  "category_guidance =
    [(''credential_access'', guidance_credential_access),
     (''credential_theft'', guidance_credential_access),
     (''malware'', guidance_malware),
     (''command_and_control'', guidance_malware),
     (''persistence'', guidance_malware),
     (''defense_evasion'', guidance_defense_evasion),
     (''execution'', guidance_execution),
     (''privilege_escalation'', guidance_execution),
     (''local_probing'', guidance_local_probing),
     (''reconnaissance'', guidance_reconnaissance),
     (''exfiltration'', guidance_exfiltration)]"

definition cyberRuleUserGuidance :: "string \<Rightarrow> string" where
  "cyberRuleUserGuidance category =
     (case lookup category_guidance category of Some g \<Rightarrow> g | None \<Rightarrow> guidance_other)"

definition guidance_uncertain :: string where
  "guidance_uncertain = of_runes
    [35831, 26126, 30830, 26412, 27425, 35201, 25191, 34892, 30340, 21160, 20316, 19982, 30446, 26631,
     65292, 24182, 21306, 20998, 24341, 29992, 36164, 26009, 21644, 23454, 38469, 25805, 20316, 65307,
     26080, 38656, 25913, 20889, 25104, 38450, 24481, 25110, 21462, 35777, 26415, 35821, 12290]"

definition auditModelUserGuidance :: "string \<Rightarrow> string" where
  "auditModelUserGuidance category =
     (if category = ''audit_uncertainty'' then guidance_uncertain else cyberRuleUserGuidance (trim_space category))"

section \<open>Lemmas\<close>

lemma first_some_None: "first_some xs = None \<longleftrightarrow> set xs \<subseteq> {None}"
  by (induction xs rule: first_some.induct) auto

text \<open>A benign audit never explains a failure of another stage.\<close>

lemma reason_ignores_audit:
  assumes "\<not> is_prefix ''AUDIT_'' riskCode" and "\<not> is_prefix ''CYBER_'' riskCode"
  shows "traceFailureReason riskCode st (m(''audit_reason'' := v)) = traceFailureReason riskCode st m"
  using assms by (simp add: traceFailureReason_def stated_def)

end
