(* ===== verification/Audit_Engine.thy ===== *)
theory Audit_Engine
  imports Audit_Verdict Ttl_Cache Diagnostics "HOL-Library.Product_Lexorder"
begin

text \<open>
  The audit of a request (\<open>Audit\<close> of \<open>audit.go\<close>): the enabled rules (\<open>ReloadRules\<close>,
  \<open>matchCyberDenyRulesContext\<close>), the profile (\<open>auditProfileFailure\<close>), the walk over the models, and
  the policy of the last resort. Matching one rule, the extraction of the text and the context's
  error at each place it is read are inputs.
\<close>

section \<open>The rule snapshot\<close>

record AuditEngine =
  en_rules :: "CyberRule list"
  en_ruleLoadFailed :: bool

datatype rule_error = ListFailed | InvalidRule int | EmptyRule int | UnsupportedRule int

definition rule_fault :: "(string \<Rightarrow> bool) \<Rightarrow> CyberRule \<Rightarrow> rule_error option" where
  "rule_fault compiles r =
     (if cr_PatternType r = ''regex'' then (if compiles (cr_Pattern r) then None else Some (InvalidRule (cr_ID r)))
      else if cr_PatternType r = ''contains'' \<or> cr_PatternType r = ''exact''
      then (if to_lower (trim_space (cr_Pattern r)) = [] then Some (EmptyRule (cr_ID r)) else None)
      else Some (UnsupportedRule (cr_ID r)))"

fun first_fault :: "(string \<Rightarrow> bool) \<Rightarrow> CyberRule list \<Rightarrow> rule_error option" where
  "first_fault compiles [] = None"
| "first_fault compiles (r # rs) =
     (case rule_fault compiles r of Some e \<Rightarrow> Some e | None \<Rightarrow> first_fault compiles rs)"

text \<open>The stable sort: higher priority first, then lower id.\<close>

definition rule_key :: "CyberRule \<Rightarrow> int \<times> int" where
  "rule_key r = (- cr_Priority r, cr_ID r)"

definition ReloadRules ::
    "(string \<Rightarrow> bool) \<Rightarrow> CyberRule list option \<Rightarrow> AuditEngine \<Rightarrow> AuditEngine \<times> rule_error option" where
  "ReloadRules compiles listed e =
     (case listed of
        None \<Rightarrow> (e\<lparr>en_ruleLoadFailed := True\<rparr>, Some ListFailed)
      | Some rules \<Rightarrow>
          (case first_fault compiles rules of
             Some err \<Rightarrow> (e\<lparr>en_ruleLoadFailed := True\<rparr>, Some err)
           | None \<Rightarrow> (e\<lparr>en_rules := sort_key rule_key rules, en_ruleLoadFailed := False\<rparr>, None)))"

datatype rule_input_error = MissingField | PatternLength | BadPattern | BadPatternType | BadAction

definition ValidateCyberRule :: "(string \<Rightarrow> bool) \<Rightarrow> CyberRule \<Rightarrow> rule_input_error option" where
  "ValidateCyberRule compiles r =
     (if trim_space (cr_Code r) = [] \<or> trim_space (cr_Name r) = [] \<or> trim_space (cr_Category r) = []
      then Some MissingField
      else if length (cr_Pattern r) = 0 \<or> length (cr_Pattern r) > 8192 then Some PatternLength
      else if cr_PatternType r = ''regex'' \<and> \<not> compiles (cr_Pattern r) then Some BadPattern
      else if cr_PatternType r \<notin> {''regex'', ''contains'', ''exact''} then Some BadPatternType
      else if cr_Action r \<notin> {DecisionAllow, DecisionBlock, DecisionReview} then Some BadAction
      else None)"

section \<open>Matching the rules\<close>

record RuleSuppression =
  rs_RuleCode :: string
  rs_UnitIndex :: int
  rs_Reason :: string
  rs_MatchedText :: string

record RuleMatch =
  rm_RuleID :: int
  rm_RulePosition :: nat
  rm_RuleCode :: string
  rm_RuleName :: string
  rm_RuleDescription :: string
  rm_Category :: string
  rm_Action :: string
  rm_Priority :: int
  rm_PatternType :: string
  rm_Pattern :: string
  rm_Indicators :: "string list"
  rm_MatchedText :: string
  rm_Context :: string
  rm_UserGuidance :: string
  rm_Downgraded :: bool
  rm_DowngradeReason :: string
  rm_UnitIndex :: int
  rm_UnitKind :: string
  rm_InputView :: string

text \<open>
  What matching one rule against the prepared units yields: the suppressed candidates, an error,
  whether a unit matched, and the place of the match, its redacted text and context and the
  indicators read off it.
\<close>

record rule_outcome =
  ro_suppressions :: "RuleSuppression list"
  ro_error :: "audit_error option"
  ro_matched :: bool
  ro_unitIndex :: int
  ro_unitKind :: string
  ro_indicators :: "string list"
  ro_matchedText :: string
  ro_context :: string

definition cap_weak :: "RuleSuppression list \<Rightarrow> RuleSuppression list \<Rightarrow> RuleSuppression list" where
  "cap_weak weak items = foldl (\<lambda>w i. if length w < 16 then w @ [i] else w) weak items"

definition appendRuleSuppressionV26 ::
    "RuleSuppression list \<Rightarrow> CyberRule \<Rightarrow> rule_outcome \<Rightarrow> string \<Rightarrow> RuleSuppression list" where
  "appendRuleSuppressionV26 items r out reason =
     (if reason = [] \<or> length items \<ge> 16 then items
      else items @ [\<lparr>rs_RuleCode = cr_Code r, rs_UnitIndex = ro_unitIndex out, rs_Reason = reason,
                     rs_MatchedText = ro_matchedText out\<rparr>])"

definition rule_block :: "CyberRule \<Rightarrow> AuditDecision" where
  "rule_block r = no_decision\<lparr>ad_Decision := DecisionBlock, ad_RiskCode := cr_Code r, ad_Category := cr_Category r,
     ad_Source := ''rule'', ad_RuleID := cr_ID r,
     ad_Reason := ''enabled Cyber block rule triggered '' @ ''with current-request evidence''\<rparr>"

definition rule_diagnostics :: "CyberRule \<Rightarrow> nat \<Rightarrow> rule_outcome \<Rightarrow> RuleMatch" where
  "rule_diagnostics r position out =
     \<lparr>rm_RuleID = cr_ID r, rm_RulePosition = position, rm_RuleCode = cr_Code r, rm_RuleName = cr_Name r,
      rm_RuleDescription = cr_Description r, rm_Category = cr_Category r, rm_Action = cr_Action r,
      rm_Priority = cr_Priority r, rm_PatternType = cr_PatternType r, rm_Pattern = cr_Pattern r,
      rm_Indicators = ro_indicators out, rm_MatchedText = ro_matchedText out, rm_Context = ro_context out,
      rm_UserGuidance = cyberRuleUserGuidance (cr_Category r), rm_Downgraded = False, rm_DowngradeReason = [],
      rm_UnitIndex = ro_unitIndex out, rm_UnitKind = ro_unitKind out, rm_InputView = []\<rparr>"

record rule_scan =
  sc_decision :: "AuditDecision option"
  sc_match :: "RuleMatch option"
  sc_weak :: "RuleSuppression list"
  sc_error :: "audit_error option"

fun scan_rules ::
    "(nat \<Rightarrow> audit_error option) \<Rightarrow> (CyberRule \<Rightarrow> rule_outcome) \<Rightarrow> nat \<Rightarrow> CyberRule list \<Rightarrow>
     RuleSuppression list \<Rightarrow> rule_scan" where
  "scan_rules ctxErr match i [] weak = \<lparr>sc_decision = None, sc_match = None, sc_weak = weak, sc_error = None\<rparr>"
| "scan_rules ctxErr match i (r # rs) weak =
     (case ctxErr i of
        Some err \<Rightarrow> \<lparr>sc_decision = None, sc_match = None, sc_weak = weak, sc_error = Some err\<rparr>
      | None \<Rightarrow>
          if \<not> cr_Enabled r then scan_rules ctxErr match (i + 1) rs weak
          else
            (let out = match r; weak1 = cap_weak weak (ro_suppressions out) in
             case ro_error out of
               Some err \<Rightarrow> \<lparr>sc_decision = None, sc_match = None, sc_weak = weak1, sc_error = Some err\<rparr>
             | None \<Rightarrow>
                 if \<not> ro_matched out then scan_rules ctxErr match (i + 1) rs weak1
                 else if cr_Action r \<noteq> DecisionBlock
                 then scan_rules ctxErr match (i + 1) rs
                        (appendRuleSuppressionV26 weak1 r out ''non_block_rule_requires_semantic_review'')
                 else \<lparr>sc_decision = Some (rule_block r), sc_match = Some (rule_diagnostics r (i + 1) out),
                        sc_weak = weak1, sc_error = None\<rparr>))"

definition matchCyberDenyRulesContext ::
    "(nat \<Rightarrow> audit_error option) \<Rightarrow> (CyberRule \<Rightarrow> rule_outcome) \<Rightarrow> CyberRule list \<Rightarrow> CyberRule list \<Rightarrow> rule_scan" where
  "matchCyberDenyRulesContext ctxErr match loaded baseline =
     scan_rules ctxErr match 0 (loaded @ baseline) []"

section \<open>The audit of one request\<close>

record AuditExtraction =
  ex_Text :: string
  ex_ruleText :: string
  ex_CoverageStatus :: string
  ex_CoverageIssues :: "string list"
  ex_SerializedToolDocuments :: nat
  ex_Scope :: string

record AuditResult =
  ar_Decision :: AuditDecision
  ar_ModelDecision :: "verdict option"
  ar_ErrorClass :: string
  ar_FailureStage :: string
  ar_InputPartial :: bool
  ar_Extraction :: AuditExtraction
  ar_RequestedProfileID :: "int option"
  ar_PromptHMAC :: string
  ar_TextBytes :: nat
  ar_PolicyMode :: string
  ar_RuleMatch :: "RuleMatch option"
  ar_RuleSuppressions :: "RuleSuppression list"
  ar_Model :: string
  ar_ProfileID :: int
  ar_ProfileName :: string
  ar_HTTPStatus :: int
  ar_Call :: auditCallMetadata
  ar_ModelAttempts :: int
  ar_ModelRetries :: int
  ar_FallbackCount :: int
  ar_Attempts :: "AuditAttempt list"
  ar_ModelsTried :: "string list"
  ar_TokensOverLimit :: int

text \<open>The result before any phase: an allow whose source is \<open>empty\<close>.\<close>

definition initial_result :: "int option \<Rightarrow> (string \<Rightarrow> string) \<Rightarrow> AuditExtraction \<Rightarrow> bool \<Rightarrow> AuditResult" where
  "initial_result requested hmac ex partial =
     \<lparr>ar_Decision = no_decision\<lparr>ad_Decision := DecisionAllow, ad_Confidence := 1, ad_Source := ''empty''\<rparr>,
      ar_ModelDecision = None, ar_ErrorClass = [], ar_FailureStage = [], ar_InputPartial = partial,
      ar_Extraction = ex, ar_RequestedProfileID = requested, ar_PromptHMAC = hmac (ex_Text ex),
      ar_TextBytes = length (ex_Text ex), ar_PolicyMode = cyberDenyMode, ar_RuleMatch = None,
      ar_RuleSuppressions = [], ar_Model = [], ar_ProfileID = 0, ar_ProfileName = [], ar_HTTPStatus = 0,
      ar_Call = empty_call_metadata, ar_ModelAttempts = 0, ar_ModelRetries = 0, ar_FallbackCount = 0,
      ar_Attempts = [], ar_ModelsTried = [], ar_TokensOverLimit = 0\<rparr>"

text \<open>The closure \<open>fail\<close>: a failed phase is an allow that says why.\<close>

definition failure_class :: "(string \<Rightarrow> string) \<Rightarrow> audit_error \<Rightarrow> string" where
  "failure_class sanitize err =
     (if is_canceled err then ''audit_cancelled''
      else if is_deadline err then ''audit_deadline_exceeded''
      else fst (auditModelErrorDetails sanitize (Some err)))"

definition fail_audit :: "(string \<Rightarrow> string) \<Rightarrow> audit_error \<Rightarrow> string \<Rightarrow> AuditResult \<Rightarrow> AuditResult" where
  "fail_audit sanitize err stage result =
     (let class = failure_class sanitize err;
          reason = (if class = ''audit_deadline_exceeded'' \<or> class = ''audit_cancelled''
                    then ''audit stopped during '' @ stage @ '': '' @ class
                    else snd (snd (auditModelErrorDetails sanitize (Some err))))
      in result\<lparr>ar_ErrorClass := class, ar_FailureStage := stage,
           ar_Decision := no_decision\<lparr>ad_Decision := DecisionAllow, ad_Category := ''audit_uncertainty'',
             ad_Confidence := 0, ad_Reason := reason, ad_Source := ''platform_uncertainty_fail_open_v29''\<rparr>\<rparr>)"

definition auditIncompleteInputDecision :: "string list \<Rightarrow> AuditDecision" where
  "auditIncompleteInputDecision issues =
     no_decision\<lparr>ad_Decision := DecisionAllow, ad_Category := ''audit_uncertainty'', ad_Confidence := 0,
       ad_Reason := ''audit input coverage is incomplete: '' @ join '', '' issues,
       ad_Source := ''coverage_fail_open_v29''\<rparr>"

datatype audit_point = AtExtraction | AtScope | BeforeProfile | AfterLookup

datatype profile_answer = Found AuditProfile | LookupDeadline | LookupCanceled | NotFound | LookupError

record audit_env =
  av_x :: matchers
  av_ctxErr :: "audit_point \<Rightarrow> audit_error option"
  av_extraction :: "audit_error option \<times> AuditExtraction"
  av_hmac :: "string \<Rightarrow> string"
  av_baseline :: "CyberRule list"
  av_scanErr :: "bool \<Rightarrow> nat \<Rightarrow> audit_error option"
  av_match :: "string \<Rightarrow> CyberRule \<Rightarrow> rule_outcome"
  av_profile :: profile_answer
  av_get :: "int \<Rightarrow> AuditProfile option"
  av_walk :: "bool \<Rightarrow> string \<Rightarrow> failover_env"

definition set_view :: "string \<Rightarrow> rule_scan \<Rightarrow> rule_scan" where
  "set_view view sc = sc\<lparr>sc_match := map_option (\<lambda>m. m\<lparr>rm_InputView := view\<rparr>) (sc_match sc)\<rparr>"

text \<open>Both representations of the input are scanned, the decoded one only when the first is clear.\<close>

definition scan_input :: "audit_env \<Rightarrow> AuditEngine \<Rightarrow> AuditExtraction \<Rightarrow> rule_scan" where
  "scan_input v e ex =
     (let first = set_view ''raw_input'' (matchCyberDenyRulesContext (av_scanErr v False)
            (av_match v (ex_ruleText ex)) (en_rules e) (av_baseline v))
      in if sc_decision first = None \<and> sc_error first = None \<and> ex_SerializedToolDocuments ex > 0 then
           (let second = set_view ''decoded_tool_text'' (matchCyberDenyRulesContext (av_scanErr v True)
                  (av_match v (ex_Text ex)) (en_rules e) (av_baseline v))
            in second\<lparr>sc_weak := cap_weak (sc_weak first) (sc_weak second)\<rparr>)
         else first)"

definition auditProfileFailure :: "audit_env \<Rightarrow> audit_error option" where
  "auditProfileFailure v =
     (let fail = (\<lambda>class msg. Some (newAuditModelCallError (mx_sanitize (av_x v)) class 0 msg None)) in
      case av_ctxErr v AfterLookup of
        Some err \<Rightarrow> (case av_profile v of Found p \<Rightarrow> if ap_Enabled p then None else Some err | _ \<Rightarrow> Some err)
      | None \<Rightarrow>
          (case av_profile v of
             LookupDeadline \<Rightarrow> fail ''audit_profile_lookup_timeout''
                                 ''audit profile lookup timed out; model enabled state is unknown''
           | LookupCanceled \<Rightarrow> fail ''audit_cancelled'' ''audit profile lookup cancelled''
           | NotFound \<Rightarrow> fail ''audit_profile_not_found'' ''selected or default audit profile does not exist''
           | LookupError \<Rightarrow> fail ''audit_profile_lookup_failed''
                              (''audit profile storage lookup failed; '' @ ''model enabled state is unknown'')
           | Found p \<Rightarrow> if ap_Enabled p then None
                        else fail ''audit_profile_disabled'' ''selected audit profile is disabled''))"

definition tokens_over :: "auditCallMetadata \<Rightarrow> int" where
  "tokens_over c =
     (let used = cm_RequestedTokens c + cm_ObservedOutputTokens c in
      if used > cm_ContextWindowTokens c \<and> cm_ContextWindowTokens c > 0 then used - cm_ContextWindowTokens c else 0)"

definition with_walk :: "AuditProfile \<Rightarrow> auditFailoverMetadata \<Rightarrow> AuditResult \<Rightarrow> AuditResult" where
  "with_walk used m result =
     result\<lparr>ar_Model := ap_Model used, ar_ProfileID := ap_ID used, ar_ProfileName := ap_Name used,
       ar_Call := fm_CallMetadata m, ar_ModelAttempts := fm_AttemptCount m, ar_ModelRetries := fm_ModelRetryCount m,
       ar_FallbackCount := fm_FallbackCount m, ar_Attempts := fm_Attempts m,
       ar_ModelsTried := auditAttemptModelNames (fm_Attempts m),
       ar_TokensOverLimit := tokens_over (fm_CallMetadata m)\<rparr>"

definition raw_model_decision :: "matchers \<Rightarrow> AuditDecision \<Rightarrow> verdict" where
  "raw_model_decision x d =
     (let raw = (case ad_SemanticReview d of None \<Rightarrow> cleanSemanticDecision x d | Some r \<Rightarrow> sr_Candidate r)
      in if ad_policyOriginalDecision raw \<noteq> [] then raw\<lparr>ad_Decision := ad_policyOriginalDecision raw\<rparr> else raw)"

definition final_review_reason :: string where
  "final_review_reason = ''final Cyber decision remained review; '' @ ''uncertainty is fail-open''"

text \<open>The phase of the models; \<open>err\<close> is the context's error after a failed walk.\<close>

definition audit_model ::
    "audit_env \<Rightarrow> audit_error option \<Rightarrow> RuleSuppression list \<Rightarrow> AuditProfile \<Rightarrow> AuditResult \<Rightarrow> AuditResult" where
  "audit_model v err weak profile result0 =
     (let x = av_x v; txt = ex_Text (ar_Extraction result0) in
      case callModelWithFailover (av_walk v (weak \<noteq> []) txt) (av_get v) (cyberDenyProfile profile) of
        (res, used, m) \<Rightarrow>
          (let result = with_walk used m result0 in
           case res of
             Inl e \<Rightarrow>
               (let (class0, status0, reason0) = auditModelErrorDetails (mx_sanitize x) (Some e);
                    (class, status, reason) =
                      (if err \<noteq> None \<and> \<not> is_prefix ''cyber_'' class0 \<and> \<not> is_prefix ''fusion_'' class0
                       then auditModelErrorDetails (mx_sanitize x) err else (class0, status0, reason0))
                in result\<lparr>ar_ErrorClass := class,
                     ar_FailureStage := (if class = ''audit_capacity_exceeded'' then ''planning'' else ''model''),
                     ar_HTTPStatus := status,
                     ar_Decision := no_decision\<lparr>ad_Decision := DecisionAllow, ad_Category := ''audit_uncertainty'',
                       ad_Confidence := 0, ad_Reason := reason, ad_Source := ''model_error_fail_open_v29''\<rparr>\<rparr>)
           | Inr d \<Rightarrow>
               result\<lparr>ar_ModelDecision := Some (raw_model_decision x d),
                 ar_Decision := (if ad_Decision d = DecisionReview
                   then cyberUncertaintyAllowV29 x d final_review_reason ''model_review_fail_open_v29'' else d)\<rparr>))"

definition rules_unavailable :: "(string \<Rightarrow> string) \<Rightarrow> audit_error" where
  "rules_unavailable sanitize = newAuditModelCallError sanitize ''rules_unavailable'' 0
     ''enabled Cyber rule snapshot could not be refreshed'' None"

text \<open>From a clear scan on: the snapshot, the coverage, the profile, the models.\<close>

definition audit_profile ::
    "audit_env \<Rightarrow> audit_error option \<Rightarrow> RuleSuppression list \<Rightarrow> AuditResult \<Rightarrow> AuditResult" where
  "audit_profile v err weak r =
     (case av_ctxErr v BeforeProfile of
        Some er \<Rightarrow> fail_audit (mx_sanitize (av_x v)) er ''profile'' r
      | None \<Rightarrow>
          (case (auditProfileFailure v, av_profile v) of
             (Some er, _) \<Rightarrow> fail_audit (mx_sanitize (av_x v)) er ''profile'' r
           | (None, Found p) \<Rightarrow> audit_model v err weak p r
           | (None, _) \<Rightarrow> r))"

definition audit_rules ::
    "audit_env \<Rightarrow> audit_error option \<Rightarrow> AuditEngine \<Rightarrow> AuditExtraction \<Rightarrow> AuditResult \<Rightarrow> AuditResult" where
  "audit_rules v err e ex r0 =
     (let sanitize = mx_sanitize (av_x v);
          sc = scan_input v e ex;
          r = r0\<lparr>ar_RuleMatch := sc_match sc, ar_RuleSuppressions := sc_weak sc\<rparr>
      in case sc_error sc of
           Some er \<Rightarrow> fail_audit sanitize er ''rules'' r
         | None \<Rightarrow>
             (case sc_decision sc of
                Some d \<Rightarrow> r\<lparr>ar_Decision := d\<rparr>
              | None \<Rightarrow>
                  if en_ruleLoadFailed e then fail_audit sanitize (rules_unavailable sanitize) ''rules'' r
                  else if ex_CoverageStatus ex \<noteq> ''complete'' then
                    r\<lparr>ar_ErrorClass := ''input_coverage'', ar_FailureStage := ''coverage'',
                      ar_Decision := auditIncompleteInputDecision (ex_CoverageIssues ex)\<rparr>
                  else audit_profile v err (sc_weak sc) r))"

definition Audit ::
    "audit_env \<Rightarrow> audit_error option \<Rightarrow> AuditEngine \<Rightarrow> int option \<Rightarrow> AuditResult" where
  "Audit v err e requested =
     (let sanitize = mx_sanitize (av_x v);
          (extractionErr, ex) = av_extraction v;
          r0 = initial_result requested (av_hmac v) ex (extractionErr \<noteq> None)
      in case (extractionErr, av_ctxErr v AtExtraction, av_ctxErr v AtScope) of
           (Some er, _, _) \<Rightarrow> fail_audit sanitize er ''extraction'' r0
         | (None, Some er, _) \<Rightarrow> fail_audit sanitize er ''extraction'' r0
         | (None, None, Some er) \<Rightarrow> fail_audit sanitize er ''scope'' r0
         | (None, None, None) \<Rightarrow> audit_rules v err e ex r0)"

text \<open>What the trace says about the audit: \<open>audit_decision_finalized\<close> and \<open>audit_completed\<close>.\<close>

definition audit_decision_finalized :: "AuditResult \<Rightarrow> bool" where
  "audit_decision_finalized r \<longleftrightarrow>
     ar_ErrorClass r = [] \<and> ad_Source (ar_Decision r) \<noteq> ''platform'' \<and> ad_Source (ar_Decision r) \<noteq> ''fail_open''"

definition audit_completed :: "AuditResult \<Rightarrow> bool" where
  "audit_completed r \<longleftrightarrow>
     audit_decision_finalized r \<and> ex_CoverageStatus (ar_Extraction r) \<noteq> ''incomplete''
     \<and> (cm_ChunkCount (ar_Call r) = 0 \<or> cm_ChunksCompleted (ar_Call r) = cm_ChunkCount (ar_Call r))"

end
