(* ===== verification/Audit_Pipeline.thy ===== *)
theory Audit_Pipeline
  imports Audit_Engine
begin

text \<open>
  The audit put together: the rule snapshot, the scan and its deciding rule, a chunked model call
  whose chunks are judged by \<open>callCyberDenyModel\<close> (\<open>callModel\<close>, \<open>callModelChunks\<close> and
  \<open>callModelOnceWithEvidenceSource\<close> under the cyber-deny policy), and what the result of \<open>Audit\<close>
  rests on.
\<close>

section \<open>The snapshot\<close>

lemma first_fault_None: "first_fault c rs = None \<longleftrightarrow> (\<forall>r \<in> set rs. rule_fault c r = None)"
  by (induction rs) (auto split: option.split)

lemma ReloadRules_ok:
  assumes "ReloadRules c (Some rs) e = (e', None)"
  shows "mset (en_rules e') = mset rs" "sorted (map rule_key (en_rules e'))" "\<not> en_ruleLoadFailed e'"
    "\<forall>r \<in> set (en_rules e'). rule_fault c r = None"
  using assms by (auto simp: ReloadRules_def first_fault_None split: option.splits)

lemma ReloadRules_error:
  assumes "ReloadRules c listed e = (e', Some err)"
  shows "en_rules e' = en_rules e" "en_ruleLoadFailed e'"
  using assms by (auto simp: ReloadRules_def split: option.splits)

section \<open>The scan and its deciding rule\<close>

text \<open>A rule vetoes when it is an enabled block rule that matched.\<close>

definition veto :: "(CyberRule \<Rightarrow> rule_outcome) \<Rightarrow> CyberRule \<Rightarrow> bool" where
  "veto match r \<longleftrightarrow> cr_Enabled r \<and> cr_Action r = DecisionBlock \<and> ro_matched (match r)"

lemma scan_rules_find:
  assumes "\<And>i. ctxErr i = None" and "\<forall>r \<in> set rs. ro_error (match r) = None"
  shows "sc_decision (scan_rules ctxErr match i rs weak) = map_option rule_block (find (veto match) rs)
    \<and> sc_error (scan_rules ctxErr match i rs weak) = None"
  using assms(2) by (induction rs arbitrary: i weak) (auto simp: assms(1) veto_def Let_def)

lemma scan_rules_sound:
  "sc_decision (scan_rules ctxErr match i rs weak) = Some d \<Longrightarrow>
     sc_error (scan_rules ctxErr match i rs weak) = None \<and> (\<exists>r \<in> set rs. veto match r \<and> d = rule_block r)"
  by (induction rs arbitrary: i weak)
    (auto simp: veto_def Let_def split: option.splits if_splits)

lemma cap_weak_length: "length w \<le> 16 \<Longrightarrow> length (cap_weak w items) \<le> 16"
  unfolding cap_weak_def by (induction items arbitrary: w) auto

lemma append_suppression_length: "length w \<le> 16 \<Longrightarrow> length (appendRuleSuppressionV26 w r out reason) \<le> 16"
  by (simp add: appendRuleSuppressionV26_def)

lemma scan_weak_length:
  "length weak \<le> 16 \<Longrightarrow> length (sc_weak (scan_rules ctxErr match i rs weak)) \<le> 16"
proof (induction rs arbitrary: i weak)
  case (Cons r rs)
  note w = cap_weak_length [OF Cons.prems, of "ro_suppressions (match r)"]
  show ?case
    using Cons.IH [OF Cons.prems] Cons.IH [OF w] Cons.IH [OF append_suppression_length [OF w]] w Cons.prems
    by (simp add: Let_def split: option.split)
qed simp

text \<open>In a sorted snapshot the deciding rule is the one of the highest priority.\<close>

lemma find_sorted_least:
  "sorted (map rule_key rs) \<Longrightarrow> find P rs = Some r \<Longrightarrow> q \<in> set rs \<Longrightarrow> P q \<Longrightarrow> rule_key r \<le> rule_key q"
  by (induction rs) (auto split: if_splits)

lemma find_append: "find P (xs @ ys) = (case find P xs of None \<Rightarrow> find P ys | Some x \<Rightarrow> Some x)"
  by (induction xs) auto

lemma set_view_simps [simp]:
  "sc_decision (set_view w sc) = sc_decision sc" "sc_error (set_view w sc) = sc_error sc"
  "sc_weak (set_view w sc) = sc_weak sc"
  by (simp_all add: set_view_def)

lemma scan_input_sound:
  assumes "sc_decision (scan_input v e ex) = Some d"
  shows "sc_error (scan_input v e ex) = None
    \<and> (\<exists>r \<in> set (en_rules e @ av_baseline v). d = rule_block r
         \<and> (veto (av_match v (ex_ruleText ex)) r \<or> veto (av_match v (ex_Text ex)) r))"
  using assms
  by (auto simp: scan_input_def matchCyberDenyRulesContext_def Let_def split: if_splits
      dest!: scan_rules_sound)

section \<open>A model call under the cyber-deny policy\<close>

text \<open>
  One round over the chunks of a request: the order in which the results arrive, the answers the
  models give for each chunk, and the context's error at the two places it is read. A chunk that
  the checkpoint holds is not sent again.
\<close>

record chunk_run =
  cu_checkpoint :: "string checkpoint"
  cu_ids :: "nat \<Rightarrow> string"
  cu_order :: "nat list"
  cu_before :: "audit_error option"
  cu_after :: "audit_error option"
  cu_raw :: "nat \<Rightarrow> grounded_env"
  cu_panel :: "nat \<Rightarrow> AuditProfile \<Rightarrow> grounded_env"
  cu_state :: "nat \<Rightarrow> review_state"

record cyber_call =
  cc_x :: matchers
  cc_loaded :: "CyberRule list"
  cc_baseline :: "CyberRule list"
  cc_get :: "int \<Rightarrow> AuditProfile option"
  cc_required :: bool

text \<open>\<open>callModelOnceWithEvidenceSource\<close> under the policy.\<close>

definition callModelOnce ::
    "cyber_call \<Rightarrow> AuditProfile \<Rightarrow> string \<Rightarrow> string \<Rightarrow> grounded_env \<Rightarrow> (AuditProfile \<Rightarrow> grounded_env) \<Rightarrow>
     review_state \<Rightarrow> audit_error + AuditDecision" where
  "callModelOnce c p txt source env panel st =
     fst (callCyberDenyModel (cc_x c) (cc_loaded c) (cc_baseline c) (cc_get c) (cc_required c) p txt source env panel st)"

definition chunk_answer :: "cyber_call \<Rightarrow> AuditProfile \<Rightarrow> chunk_run \<Rightarrow> string list \<Rightarrow> nat \<Rightarrow> audit_error + AuditDecision" where
  "chunk_answer c p run chunks i =
     (case checkpoint_get (cu_checkpoint run) (cu_ids run i) of
        Some d \<Rightarrow> Inr d
      | None \<Rightarrow> callModelOnce c p (decorateAuditChunk (chunks ! i) i (length chunks)) (chunks ! i)
                  (cu_raw run i) (cu_panel run i) (cu_state run i))"

definition cyber_round ::
    "cyber_call \<Rightarrow> AuditProfile \<Rightarrow> chunk_run \<Rightarrow> string list \<Rightarrow>
     string checkpoint \<times> (audit_error + AuditDecision) \<times> nat" where
  "cyber_round c p run chunks =
     callModelChunks (mx_sanitize (cc_x c)) (cu_ids run) (cu_checkpoint run) (length chunks)
       (map (\<lambda>i. (i, chunk_answer c p run chunks i)) (if length chunks = 1 then [0] else cu_order run))
       (cu_before run) (cu_after run)"

text \<open>A block that the verdict confirmed, or an allow.\<close>

definition backed :: "matchers \<Rightarrow> CyberRule list \<Rightarrow> CyberRule list \<Rightarrow> AuditDecision \<Rightarrow> bool" where
  "backed x loaded baseline d \<longleftrightarrow> ad_Decision d = DecisionAllow \<or> confirmedCyberBlockV29 x loaded baseline d"

definition backed_result :: "cyber_call \<Rightarrow> audit_error + AuditDecision \<Rightarrow> bool" where
  "backed_result c res \<longleftrightarrow> (\<forall>d. res = Inr d \<longrightarrow> backed (cc_x c) (cc_loaded c) (cc_baseline c) d)"

lemma sound_backed: "sound_verdict x loaded baseline d \<Longrightarrow> backed x loaded baseline d"
  by (auto simp: sound_verdict_def backed_def)

lemma confirmed_is_block: "confirmedCyberBlockV29 x loaded baseline d \<Longrightarrow> ad_Decision d = DecisionBlock"
  by (simp add: confirmedCyberBlockV29_def split: if_splits)

lemma callModelOnce_backed: "backed_result c (callModelOnce c p txt source env panel st)"
  unfolding backed_result_def callModelOnce_def
proof (intro allI impI)
  fix d
  assume d: "fst (callCyberDenyModel (cc_x c) (cc_loaded c) (cc_baseline c) (cc_get c) (cc_required c) p txt source
    env panel st) = Inr d"
  obtain st' where "callCyberDenyModel (cc_x c) (cc_loaded c) (cc_baseline c) (cc_get c) (cc_required c) p txt source
    env panel st = (Inr d, st')"
    using d by (metis prod.collapse)
  from callCyberDenyModel_sound [OF this] show "backed (cc_x c) (cc_loaded c) (cc_baseline c) d"
    by (rule sound_backed)
qed

lemma confirmed_decorate [simp]:
  "confirmedCyberBlockV29 x loaded baseline (decorateChunkDecision d i n) = confirmedCyberBlockV29 x loaded baseline d"
  by (simp add: confirmedCyberBlockV29_def decorateChunkDecision_def Let_def)

definition allows_only :: "'id checkpoint \<Rightarrow> bool" where
  "allows_only cp \<longleftrightarrow> (\<forall>i d. checkpoint_get cp i = Some d \<longrightarrow> ad_Decision d = DecisionAllow)"

lemma chunk_answer_backed: "allows_only (cu_checkpoint run) \<Longrightarrow> backed_result c (chunk_answer c p run chunks i)"
  using callModelOnce_backed
  by (auto simp: chunk_answer_def allows_only_def backed_result_def backed_def split: option.splits)

text \<open>The verdict on the chunks is the block of one of them, an error, or an allow.\<close>

lemma conclude_backed:
  assumes "\<forall>(i, res) \<in> set rs. backed_result c res"
  shows "backed_result c (conclude f n after (foldl (collect f) collector_start rs))"
proof -
  define col where "col = foldl (collect f) collector_start rs"
  have inv: "collector_inv rs col" unfolding col_def by (rule collector_run_inv)
  have backed_at: "backed (cc_x c) (cc_loaded c) (cc_baseline c) d" if "(i, Inr d) \<in> set rs" for i d
    using assms that by (auto simp: backed_result_def)
  have review: "co_strongestReview col = None"
  proof (cases "co_strongestReview col")
    case (Some p)
    obtain i d where "p = (i, d)" by (rule prod.exhaust)
    with Some inv have "(i, Inr d) \<in> set rs \<and> ad_Decision d = DecisionReview"
      by (simp add: collector_inv_def review_inv_def)
    with backed_at confirmed_is_block show ?thesis by (fastforce simp: backed_def)
  qed simp
  show ?thesis
  proof (cases "co_firstBlock col")
    case None
    then show ?thesis
      using review unfolding col_def [symmetric]
      by (auto simp: conclude_def backed_result_def backed_def all_chunks_allowed_def split: option.splits if_splits)
  next
    case (Some p)
    obtain i d where p: "p = (i, d)" by (rule prod.exhaust)
    with Some inv have "(i, Inr d) \<in> set rs" "ad_Decision d = DecisionBlock"
      by (simp_all add: collector_inv_def block_inv_def)
    with backed_at have "backed (cc_x c) (cc_loaded c) (cc_baseline c) (decorateChunkDecision d i n)"
      by (fastforce simp: backed_def)
    then show ?thesis
      unfolding col_def [symmetric] by (simp add: conclude_def Some p backed_result_def)
  qed
qed

lemma cyber_round_backed:
  assumes "allows_only (cu_checkpoint run)" and "cyber_round c p run chunks = (cp, res, n)"
  shows "backed_result c res"
proof -
  note ans = chunk_answer_backed [OF assms(1), of c p chunks]
  have cached: "backed_result c (Inr d)" if "checkpoint_get (cu_checkpoint run) i = Some d" for i d
    using assms(1) that by (auto simp: allows_only_def backed_result_def backed_def)
  have con: "backed_result c (conclude f m after (foldl (collect f) collector_start
      (map (\<lambda>i. (i, chunk_answer c p run chunks i)) is)))" for f m after "is"
    by (rule conclude_backed) (use ans in auto)
  show ?thesis
    using assms(2) ans con cached
    by (auto simp: cyber_round_def callModelChunks_def Let_def backed_result_def split: if_splits option.splits)
qed

lemma checkpoint_put_allows: "allows_only cp \<Longrightarrow> allows_only (checkpoint_put i res cp)"
  using checkpoint_allows [of cp] by (simp add: allows_only_def)

lemma cyber_round_allows:
  assumes "allows_only (cu_checkpoint run)" and "cyber_round c p run chunks = (cp, res, n)"
  shows "allows_only cp"
proof -
  have "allows_only (foldl (\<lambda>c (i, res). checkpoint_put (ids i) res c) cp0 rs)" if "allows_only cp0" for ids cp0 rs
    by (rule foldl_invariant [where P = allows_only]) (use that checkpoint_put_allows in auto)
  then show ?thesis
    using assms checkpoint_put_allows
    by (auto simp: cyber_round_def callModelChunks_def Let_def split: if_splits option.splits)
qed

text \<open>One call: the whole text, and the rounds of chunks when it does not fit.\<close>

record call_run =
  cl_limits :: audit_limits
  cl_outputTokens :: int
  cl_ctxErr :: "nat \<Rightarrow> audit_error option"
  cl_single :: "grounded_env \<times> (AuditProfile \<Rightarrow> grounded_env) \<times> review_state"
  cl_round :: "nat \<Rightarrow> chunk_run"
  cl_reused :: "nat \<Rightarrow> nat"
  cl_state :: auditSemanticState

definition cyber_call_env :: "cyber_call \<Rightarrow> AuditProfile \<Rightarrow> string \<Rightarrow> call_run \<Rightarrow> call_env" where
  "cyber_call_env c p src q =
     \<lparr>cx_limits = cl_limits q, cx_outputTokens = cl_outputTokens q, cx_sanitize = mx_sanitize (cc_x c),
      cx_budgeted = True, cx_ctxErr = cl_ctxErr q,
      cx_single = (case cl_single q of (env, panel, st) \<Rightarrow> callModelOnce c p src src env panel st),
      cx_round = (\<lambda>retry chunks. case cyber_round c p (cl_round q retry) chunks of (cp, res, n) \<Rightarrow>
                    (res, n, cl_reused q retry))\<rparr>"

definition cyber_model :: "cyber_call \<Rightarrow> AuditProfile \<Rightarrow> string \<Rightarrow> call_run \<Rightarrow> auditCallMetadata \<Rightarrow>
    (audit_error + AuditDecision) \<times> auditCallMetadata" where
  "cyber_model c p src q resume =
     (case callModel (cyber_call_env c p src q) resume src (cl_state q) of (res, m, s) \<Rightarrow> (res, m))"

lemma rechunk_result:
  assumes "\<And>retry chunks res n m. cx_round x retry chunks = (res, n, m) \<Longrightarrow> \<forall>d. res = Inr d \<longrightarrow> P d"
  shows "rechunk x src n retry b m lastErr s = (Inr d, m', s') \<Longrightarrow> P d"
proof (induction n arbitrary: retry b m lastErr s)
  case (Suc left)
  let ?chunks = "fst (splitAuditTextWithOffsets src b (al_chunkOverlapBytes (cx_limits x)))"
  obtain res n u where round: "cx_round x retry ?chunks = (res, n, u)" by (metis prod_cases3)
  show ?case
    using Suc.prems assms [OF round]
    by (auto simp: Let_def round split: if_splits option.splits sum.splits dest: Suc.IH)
qed simp

definition run_clean :: "call_run \<Rightarrow> bool" where
  "run_clean q \<longleftrightarrow> (\<forall>retry. allows_only (cu_checkpoint (cl_round q retry)))"

lemma cyber_model_backed:
  assumes "run_clean q" and "cyber_model c p src q resume = (Inr d, m)"
  shows "backed (cc_x c) (cc_loaded c) (cc_baseline c) d"
proof -
  let ?P = "backed (cc_x c) (cc_loaded c) (cc_baseline c)" and ?x = "cyber_call_env c p src q"
  have round: "\<forall>d. res = Inr d \<longrightarrow> ?P d" if "cx_round ?x retry chunks = (res, n, u)" for retry chunks res n u
    using assms(1) that cyber_round_backed [of "cl_round q retry" c p chunks]
    by (auto simp: run_clean_def cyber_call_env_def backed_result_def split: prod.splits)
  have single: "\<forall>d. cx_single ?x = Inr d \<longrightarrow> ?P d"
    using callModelOnce_backed by (auto simp: cyber_call_env_def backed_result_def split: prod.splits)
  obtain s where "callModel ?x resume src (cl_state q) = (Inr d, m, s)"
    using assms(2) by (auto simp: cyber_model_def split: prod.splits)
  moreover have "?P d" if "rechunk ?x src n retry b m0 lastErr s0 = (Inr d, m, s)" for n retry b m0 lastErr s0
    using that by (rule rechunk_result [where P = ?P, rotated]) (use round in blast)
  ultimately show ?thesis
    using single by (auto simp: callModel_def Let_def split: if_splits sum.splits)
qed

section \<open>The walk, and the result of the audit\<close>

definition cyber_failover ::
    "cyber_call \<Rightarrow> string \<Rightarrow> (AuditProfile \<Rightarrow> nat \<Rightarrow> call_run) \<Rightarrow> failover_env \<Rightarrow> failover_env" where
  "cyber_failover c src runs x =
     x\<lparr>fe_cyberDeny := True, fe_sanitize := mx_sanitize (cc_x c),
       fe_call := (\<lambda>p attempt fmt resume. cyber_model c p src (runs p attempt) resume)\<rparr>"

definition cyber_audit ::
    "audit_env \<Rightarrow> AuditEngine \<Rightarrow> (AuditProfile \<Rightarrow> nat \<Rightarrow> call_run) \<Rightarrow> failover_env \<Rightarrow> audit_env" where
  "cyber_audit v e runs x =
     v\<lparr>av_walk := (\<lambda>required src. cyber_failover
         \<lparr>cc_x = av_x v, cc_loaded = en_rules e, cc_baseline = av_baseline v, cc_get = av_get v,
          cc_required = required\<rparr> src runs x)\<rparr>"

text \<open>An answer of the walk is the answer of one of its calls.\<close>

definition call_answers :: "failover_env \<Rightarrow> AuditDecision \<Rightarrow> bool" where
  "call_answers x d \<longleftrightarrow> (\<exists>p a f cm cm'. fe_call x p a f cm = (Inr d, cm'))"

lemma call_answersI: "fe_call x p a f cm = (Inr d, cm') \<Longrightarrow> call_answers x d"
  unfolding call_answers_def by blast

lemma attempt_loop_source:
  "attempt_loop x pidx p attempt left fmt resume m = (Answered d, m') \<Longrightarrow> call_answers x d"
proof (induction left arbitrary: attempt fmt resume m)
  case 0
  then show ?case
    by (subst (asm) attempt_loop.simps)
      (auto simp: Let_def split: option.splits prod.splits sum.splits if_splits dest: call_answersI)
next
  case (Suc left)
  from Suc.prems show ?case
    by (subst (asm) attempt_loop.simps)
      (auto simp: Let_def split: option.splits prod.splits sum.splits if_splits dest: Suc.IH call_answersI)
qed

lemma profile_loop_source:
  "profile_loop x r pidx used le ps m = (WalkAnswered d q, m') \<Longrightarrow> call_answers x d"
proof (induction ps arbitrary: pidx used le m)
  case (Cons p ps)
  from Cons.prems show ?case
    by (auto simp: Let_def split: option.splits prod.splits attempt_end.splits if_splits
        dest: attempt_loop_source Cons.IH)
qed simp

lemma walk_source:
  assumes "callModelWithFailover x get r = (Inr d, q, m)"
  shows "(\<exists>err. fe_cyberDeny x \<and> d = cyberModelErrorAllowV29 (fe_sanitize x) err)
    \<or> call_answers x d"
  using assms profile_loop_source
  by (auto simp: callModelWithFailover_def split: prod.splits walk_end.splits if_splits)

lemma cyber_walk_backed:
  assumes "\<forall>p a. run_clean (runs p a)"
    and "callModelWithFailover (cyber_failover c src runs x) get r = (Inr d, q, m)"
  shows "backed (cc_x c) (cc_loaded c) (cc_baseline c) d"
  using walk_source [OF assms(2)]
proof (elim disjE exE)
  assume "call_answers (cyber_failover c src runs x) d"
  then obtain p a cm cm' where "cyber_model c p src (runs p a) cm = (Inr d, cm')"
    by (auto simp: call_answers_def cyber_failover_def)
  with cyber_model_backed assms(1) show ?thesis by blast
qed (auto simp: backed_def)

lemma cyber_walk_answers:
  "\<exists>d q m. callModelWithFailover (cyber_failover c src runs x) get r = (Inr d, q, m)"
proof -
  obtain res q m where w: "callModelWithFailover (cyber_failover c src runs x) get r = (res, q, m)"
    by (metis prod_cases3)
  have "fe_cyberDeny (cyber_failover c src runs x)" by (simp add: cyber_failover_def)
  from callModelWithFailover_cyber [OF this w] w show ?thesis by auto
qed

lemma fail_audit_simps [simp]:
  "ad_Decision (ar_Decision (fail_audit f err stage r)) = DecisionAllow"
  "ad_Category (ar_Decision (fail_audit f err stage r)) = ''audit_uncertainty''"
  "ad_Confidence (ar_Decision (fail_audit f err stage r)) = 0"
  "ar_FailureStage (fail_audit f err stage r) = stage"
  "ar_ErrorClass (fail_audit f err stage r) = failure_class f err"
  by (simp_all add: fail_audit_def Let_def)

lemma no_decision_allow [simp]: "ad_Decision (no_decision\<lparr>ad_Decision := d\<rparr>) = d"
  by simp

lemma rule_block_simps [simp]:
  "ad_Decision (rule_block r) = DecisionBlock" "ad_RiskCode (rule_block r) = cr_Code r"
  "ad_RuleID (rule_block r) = cr_ID r" "ad_Source (rule_block r) = ''rule''"
  by (simp_all add: rule_block_def)

text \<open>What an audit's decision rests on, phase by phase.\<close>

definition grounded :: "audit_env \<Rightarrow> AuditEngine \<Rightarrow> AuditResult \<Rightarrow> bool" where
  "grounded v e r \<longleftrightarrow> ad_Decision (ar_Decision r) = DecisionAllow
     \<or> (\<exists>q \<in> set (en_rules e @ av_baseline v). cr_Enabled q \<and> cr_Action q = DecisionBlock
          \<and> ar_Decision r = rule_block q)
     \<or> confirmedCyberBlockV29 (av_x v) (en_rules e) (av_baseline v) (ar_Decision r)"

lemma audit_model_grounded:
  assumes "\<forall>p a. run_clean (runs p a)"
  shows "grounded v e (audit_model (cyber_audit v e runs x) err weak p r)"
proof -
  let ?c = "\<lparr>cc_x = av_x v, cc_loaded = en_rules e, cc_baseline = av_baseline v, cc_get = av_get v,
     cc_required = weak \<noteq> []\<rparr>"
  obtain d q m where w: "callModelWithFailover (cyber_failover ?c (ex_Text (ar_Extraction r)) runs x) (av_get v)
      (cyberDenyProfile p) = (Inr d, q, m)"
    using cyber_walk_answers by blast
  have "backed (av_x v) (en_rules e) (av_baseline v) d"
    using cyber_walk_backed [OF assms w] by simp
  then show ?thesis
    using w by (auto simp: audit_model_def cyber_audit_def grounded_def backed_def Let_def)
qed

lemma scan_input_cong [simp]: "scan_input (cyber_audit v e runs x) = scan_input v"
  by (simp add: fun_eq_iff scan_input_def cyber_audit_def Let_def)

lemma Audit_grounded:
  assumes "\<forall>p a. run_clean (runs p a)"
  shows "grounded v e (Audit (cyber_audit v e runs x) err e requested)"
proof -
  have profile: "grounded v e (audit_profile (cyber_audit v e runs x) err weak r)"
    if "ad_Decision (ar_Decision r) = DecisionAllow" for weak r
    using audit_model_grounded [OF assms] that
    by (auto simp: audit_profile_def grounded_def split: option.splits profile_answer.splits)
  have rules: "grounded v e (audit_rules (cyber_audit v e runs x) err e ex r)"
    if "ad_Decision (ar_Decision r) = DecisionAllow" for ex r
  proof (cases "sc_decision (scan_input v e ex)")
    case None
    then show ?thesis
      using profile that by (auto simp: audit_rules_def Let_def grounded_def auditIncompleteInputDecision_def split: option.split)
  next
    case (Some d)
    from scan_input_sound [OF this] obtain q where q: "q \<in> set (en_rules e @ av_baseline v)" "d = rule_block q"
        "cr_Enabled q" "cr_Action q = DecisionBlock" and "sc_error (scan_input v e ex) = None"
      by (auto simp: veto_def)
    then show ?thesis using Some by (auto simp: audit_rules_def Let_def grounded_def)
  qed
  obtain xerr ex where ex: "av_extraction (cyber_audit v e runs x) = (xerr, ex)" by (rule prod.exhaust)
  have start: "ad_Decision (ar_Decision (initial_result requested h ex p)) = DecisionAllow" for h p
    by (simp add: initial_result_def)
  show ?thesis
    using rules [OF start]
    by (auto simp: Audit_def ex Let_def grounded_def split: option.split)
qed

section \<open>Chunks that are all allowed\<close>

text \<open>
  The verdict on the whole is then a fresh allow of category \<open>benign\<close>: whatever a chunk said of its
  uncertainty, and its review, is gone; only the lowest confidence is kept.
\<close>

lemma conclude_all_allow:
  assumes "length rs = n" and "\<forall>(i, res) \<in> set rs. \<exists>d. res = Inr d \<and> ad_Decision d = DecisionAllow"
  shows "\<exists>low. conclude f n None (foldl (collect f) collector_start rs) = Inr (all_chunks_allowed low n)
    \<and> (\<forall>(i, res) \<in> set rs. \<forall>d. res = Inr d \<longrightarrow> low \<le> ad_Confidence d)"
proof -
  define c where "c = foldl (collect f) collector_start rs"
  have inv: "block_inv rs c" "error_inv rs c" "review_inv rs c" "allow_inv rs c"
    using collector_run_inv [of rs f] by (simp_all add: c_def collector_inv_def)
  have allow: "ad_Decision d = DecisionAllow" if "(i, Inr d) \<in> set rs" for i d using assms(2) that by fastforce
  have kinds: "kinds rs \<subseteq> {Allows}" using assms(2) by fastforce
  have "co_firstBlock c = None" and "co_completed c = n"
    using inv(1) allow assms(1) by (auto simp: block_inv_def split: option.splits)
  moreover have "co_firstError c = None" using inv(2) kinds by (auto simp: error_inv_def)
  moreover have "co_strongestReview c = None"
    using inv(3) allow by (cases "co_strongestReview c") (fastforce simp: review_inv_def)+
  ultimately have "conclude f n None c = Inr (all_chunks_allowed (co_allowConfidence c) n)"
    by (simp add: conclude_def)
  moreover have "\<forall>(i, res) \<in> set rs. \<forall>d. res = Inr d \<longrightarrow> co_allowConfidence c \<le> ad_Confidence d"
    using inv(4) allow by (fastforce simp: allow_inv_def)
  ultimately show ?thesis unfolding c_def by blast
qed

section \<open>A walk that no model answers\<close>

definition never_answers :: "failover_env \<Rightarrow> bool" where
  "never_answers x \<longleftrightarrow> (\<forall>p a f cm. \<exists>err. fst (fe_call x p a f cm) = Inl err)"

lemma dead_walk:
  assumes "fe_cyberDeny x" and "never_answers x"
  shows "\<exists>err q m. callModelWithFailover x get r = (Inr (cyberModelErrorAllowV29 (fe_sanitize x) err), q, m)"
proof -
  obtain res q m where w: "callModelWithFailover x get r = (res, q, m)" by (metis prod_cases3)
  obtain d where d: "res = Inr d" using callModelWithFailover_cyber [OF assms(1) w] by blast
  have "\<not> call_answers x d"
  proof
    assume "call_answers x d"
    then obtain p a f cm cm' where "fe_call x p a f cm = (Inr d, cm')" by (auto simp: call_answers_def)
    moreover obtain err where "fst (fe_call x p a f cm) = Inl err"
      using assms(2) unfolding never_answers_def by metis
    ultimately show False by simp
  qed
  with walk_source [OF w [unfolded d]] w d show ?thesis by auto
qed

lemma cyberModelErrorAllowV29_simps [simp]:
  "ad_Source (cyberModelErrorAllowV29 f err) = ''model_error_fail_open_v29''"
  "ad_SemanticReview (cyberModelErrorAllowV29 f err) = None"
  "ad_policyOriginalDecision (cyberModelErrorAllowV29 f err) = []"
  by (simp_all add: cyberModelErrorAllowV29_def Let_def no_decision_def split: prod.split)

text \<open>When the audit gets as far as the models.\<close>

definition reaches_models :: "audit_env \<Rightarrow> AuditEngine \<Rightarrow> AuditProfile \<Rightarrow> bool" where
  "reaches_models v e p \<longleftrightarrow>
     fst (av_extraction v) = None \<and> (\<forall>point \<in> {AtExtraction, AtScope, BeforeProfile, AfterLookup}. av_ctxErr v point = None)
     \<and> sc_error (scan_input v e (snd (av_extraction v))) = None \<and> sc_decision (scan_input v e (snd (av_extraction v))) = None
     \<and> \<not> en_ruleLoadFailed e \<and> ex_CoverageStatus (snd (av_extraction v)) = ''complete''
     \<and> av_profile v = Found p \<and> ap_Enabled p"

lemma Audit_reaches:
  assumes "reaches_models v e p"
  shows "\<exists>weak r. Audit v err e requested = audit_model v err weak p r
    \<and> ar_ErrorClass r = [] \<and> ar_ModelDecision r = None \<and> ex_Text (ar_Extraction r) = ex_Text (snd (av_extraction v))"
proof -
  obtain ex where ex: "av_extraction v = (None, ex)"
    using assms by (cases "av_extraction v") (auto simp: reaches_models_def)
  show ?thesis
    using assms
    by (simp add: reaches_models_def Audit_def ex audit_rules_def audit_profile_def auditProfileFailure_def Let_def
        initial_result_def) (intro exI conjI, rule refl, simp_all)
qed

lemma audit_model_dead:
  assumes "fe_cyberDeny (av_walk v (weak \<noteq> []) (ex_Text (ar_Extraction r)))"
    and "never_answers (av_walk v (weak \<noteq> []) (ex_Text (ar_Extraction r)))"
    and "ar_ErrorClass r = []"
  shows "ar_ErrorClass (audit_model v err weak p r) = [] \<and> audit_decision_finalized (audit_model v err weak p r)
    \<and> map_option ad_Decision (ar_ModelDecision (audit_model v err weak p r)) = Some DecisionAllow
    \<and> ad_Source (ar_Decision (audit_model v err weak p r)) = ''model_error_fail_open_v29''"
proof -
  obtain er q m where w: "callModelWithFailover (av_walk v (weak \<noteq> []) (ex_Text (ar_Extraction r))) (av_get v)
      (cyberDenyProfile p) = (Inr (cyberModelErrorAllowV29 (fe_sanitize (av_walk v (weak \<noteq> []) (ex_Text (ar_Extraction r)))) er), q, m)"
    using dead_walk [OF assms(1,2)] by blast
  show ?thesis
    using assms(3)
    by (simp add: audit_model_def w with_walk_def raw_model_decision_def audit_decision_finalized_def Let_def
        cleanSemanticDecision_def verdict.truncate_def)
qed

end
