(* ===== verification/Security.thy ===== *)
theory Security
  imports Gateway_Http "HOL-Library.Word"
begin

unbundle bit_operations_syntax

text \<open>
  \<open>security.go\<close> and \<open>trace_payload.go\<close>: sealed secrets, keyed digests, tracking signatures,
  generated identifiers and the stored request payload. The primitives of the Go library (AES-GCM,
  HMAC, SHA-256, gzip, the random source) are the fields of \<open>crypto\<close>; \<open>aead_law\<close> and \<open>gzip_law\<close>
  say what the code relies on. A request's JWT and the hash of a password are left to their libraries.
\<close>

section \<open>Primitives\<close>

text \<open>
  \<open>cy_seal key nonce plaintext ad\<close> is the sealed text with its tag; \<open>cy_gunzip n b\<close> reads at most
  \<open>n\<close> bytes of what \<open>b\<close> decompresses to.
\<close>

record crypto =
  cy_keyOK :: "string \<Rightarrow> bool"
  cy_seal :: "string \<Rightarrow> string \<Rightarrow> string \<Rightarrow> string \<Rightarrow> string"
  cy_open :: "string \<Rightarrow> string \<Rightarrow> string \<Rightarrow> string \<Rightarrow> string option"
  cy_hmac :: "string \<Rightarrow> string \<Rightarrow> string"
  cy_sha256 :: "string \<Rightarrow> string"
  cy_gzip :: "string \<Rightarrow> string"
  cy_gunzip :: "nat \<Rightarrow> string \<Rightarrow> string option"

definition nonceSize :: nat where "nonceSize = 12"
definition tagSize :: nat where "tagSize = 16"

definition aead_law :: "crypto \<Rightarrow> bool" where
  "aead_law cy \<longleftrightarrow>
     (\<forall>key nonce p ad. cy_open cy key nonce (cy_seal cy key nonce p ad) ad = Some p
        \<and> length (cy_seal cy key nonce p ad) = length p + tagSize)"

definition gzip_law :: "crypto \<Rightarrow> bool" where
  "gzip_law cy \<longleftrightarrow> (\<forall>n b. cy_gunzip cy n (cy_gzip cy b) = Some (take n b) \<and> cy_gzip cy b \<noteq> [])"

section \<open>Hexadecimal\<close>

definition hex_byte :: "char \<Rightarrow> string" where
  "hex_byte c = [hex_char (byte c div 16), hex_char (byte c mod 16)]"

definition hex_encode :: "string \<Rightarrow> string" where
  "hex_encode s = concat (map hex_byte s)"

fun hex_decode :: "string \<Rightarrow> string option" where
  "hex_decode [] = Some []"
| "hex_decode [c] = None"
| "hex_decode (a # b # s) =
     (case (hex_digit a, hex_digit b, hex_decode s) of
        (Some x, Some y, Some t) \<Rightarrow> Some (char_of (x * 16 + y) # t)
      | _ \<Rightarrow> None)"

lemma hex_digit_char: "n < 16 \<Longrightarrow> hex_digit (hex_char n) = Some n"
  by (auto simp: hex_digit_def hex_char_def Let_def)

lemma nibbles: "byte c div 16 < 16" "byte c mod 16 < 16"
proof -
  have "byte c < 16 * 16" using nat_of_char_less_256 [of c] by simp
  then show "byte c div 16 < 16" by (rule less_mult_imp_div_less)
qed simp

lemma hex_decode_encode [simp]: "hex_decode (hex_encode s) = Some s"
proof (induction s)
  case Nil
  then show ?case by (simp add: hex_encode_def)
next
  case (Cons c s)
  have "byte c div 16 * 16 + byte c mod 16 = byte c" by simp
  then show ?case
    using Cons by (simp add: hex_encode_def hex_byte_def hex_digit_char nibbles)
qed

lemma length_hex_encode [simp]: "length (hex_encode s) = 2 * length s"
  by (induction s) (auto simp: hex_encode_def hex_byte_def)

text \<open>Printable ASCII: what \<open>TrimSpace\<close> leaves alone.\<close>

definition graphic :: "char \<Rightarrow> bool" where
  "graphic c \<longleftrightarrow> 33 \<le> byte c \<and> byte c < 127"

lemma strip_leading_graphic:
  assumes "s = [] \<or> graphic (hd s)" and "list_all (\<lambda>e. e = [] \<or> \<not> graphic (hd e)) encs"
  shows "strip_leading encs s = s"
proof -
  have "find (\<lambda>e. e \<noteq> [] \<and> is_prefix e s) encs = None"
    using assms by (auto simp: find_None_iff list_all_iff is_prefix_iff)
  then show ?thesis by (simp add: strip_leading.simps [of encs s])
qed

lemma trim_space_graphic: "list_all graphic s \<Longrightarrow> trim_space s = s"
proof -
  assume g: "list_all graphic s"
  have e: "list_all (\<lambda>e. e = [] \<or> \<not> graphic (hd e)) space_encodings"
    "list_all (\<lambda>e. e = [] \<or> \<not> graphic (hd e)) (map rev space_encodings)"
    by (simp_all add: space_encodings_def graphic_def)
  have "s = [] \<or> graphic (hd s)" "rev s = [] \<or> graphic (hd (rev s))"
    using g by (auto simp: list_all_iff hd_rev dest: last_in_set hd_in_set)
  then show ?thesis
    using strip_leading_graphic [OF _ e(1), of s] strip_leading_graphic [OF _ e(2), of "rev s"]
    by (simp add: trim_space_def trim_left_space_def trim_right_space_def)
qed

lemma hex_char_graphic: "n < 16 \<Longrightarrow> graphic (hex_char n)"
  by (auto simp: graphic_def hex_char_def)

lemma hex_encode_graphic: "list_all graphic (hex_encode s)"
proof (induction s)
  case (Cons c s)
  then show ?case by (simp add: hex_encode_def hex_byte_def hex_char_graphic nibbles)
qed (simp add: hex_encode_def)

section \<open>Sealed secrets\<close>

datatype crypto_error = BadKey | NoRandom | BadVersion | Truncated | NotAuthentic | BadFormat | BadGzip | PayloadTooLarge

text \<open>\<open>random\<close> is what the random source yields, or no bytes.\<close>

definition Encrypt :: "crypto \<Rightarrow> string \<Rightarrow> string option \<Rightarrow> string \<Rightarrow> string \<Rightarrow> crypto_error + string" where
  "Encrypt cy key random scope plaintext =
     (if plaintext = [] then Inr []
      else if \<not> cy_keyOK cy key then Inl BadKey
      else (case random of
              None \<Rightarrow> Inl NoRandom
            | Some nonce \<Rightarrow> Inr ([CHR 0x01] @ nonce @ cy_seal cy key nonce plaintext scope)))"

definition Decrypt :: "crypto \<Rightarrow> string \<Rightarrow> string \<Rightarrow> string \<Rightarrow> crypto_error + string" where
  "Decrypt cy key scope ciphertext =
     (if ciphertext = [] then Inr []
      else if hd ciphertext \<noteq> CHR 0x01 then Inl BadVersion
      else if \<not> cy_keyOK cy key then Inl BadKey
      else if length ciphertext < 1 + nonceSize + tagSize then Inl Truncated
      else (case cy_open cy key (take nonceSize (drop 1 ciphertext)) (drop (1 + nonceSize) ciphertext) scope of
              None \<Rightarrow> Inl NotAuthentic
            | Some p \<Rightarrow> Inr p))"

lemma Encrypt_Decrypt:
  assumes "aead_law cy" and "cy_keyOK cy key" and "length nonce = nonceSize"
  shows "\<exists>c. Encrypt cy key (Some nonce) scope p = Inr c \<and> Decrypt cy key scope c = Inr p
    \<and> (p \<noteq> [] \<longrightarrow> c \<noteq> [])"
  using assms by (auto simp: Encrypt_def Decrypt_def aead_law_def nonceSize_def tagSize_def)

lemma Encrypt_length:
  assumes "aead_law cy" and "Encrypt cy key (Some nonce) scope p = Inr c" and "p \<noteq> []" and "length nonce = nonceSize"
  shows "length c = length p + 29"
  using assms by (auto simp: Encrypt_def aead_law_def nonceSize_def tagSize_def split: if_splits)

section \<open>Keyed digests\<close>

definition mac_input :: "string \<Rightarrow> string \<Rightarrow> string" where
  "mac_input scope value = scope @ [CHR 0x00] @ value"

definition Digest :: "crypto \<Rightarrow> string \<Rightarrow> string \<Rightarrow> string \<Rightarrow> string" where
  "Digest cy key scope value = hex_encode (cy_hmac cy key (mac_input scope value))"

definition VerifyDigest :: "crypto \<Rightarrow> string \<Rightarrow> string \<Rightarrow> string \<Rightarrow> string \<Rightarrow> bool" where
  "VerifyDigest cy key scope value expectedHex =
     (case hex_decode (Digest cy key scope value) of
        None \<Rightarrow> False
      | Some actual \<Rightarrow> (case hex_decode expectedHex of None \<Rightarrow> False | Some expected \<Rightarrow> actual = expected))"

definition PromptHMAC :: "crypto \<Rightarrow> string \<Rightarrow> string \<Rightarrow> string" where
  "PromptHMAC cy key txt = Digest cy key ''prompt-hmac-v1'' txt"

lemma VerifyDigest_iff:
  "VerifyDigest cy key scope value expected \<longleftrightarrow> hex_decode expected = Some (cy_hmac cy key (mac_input scope value))"
  by (auto simp: VerifyDigest_def Digest_def split: option.split)

text \<open>Scopes without a zero byte keep the inputs of the MAC apart.\<close>

lemma mac_input_inject:
  assumes "CHR 0x00 \<notin> set a" and "CHR 0x00 \<notin> set b"
  shows "mac_input a v = mac_input b w \<longleftrightarrow> a = b \<and> v = w"
proof
  assume eq: "mac_input a v = mac_input b w"
  have "takeWhile (\<lambda>c. c \<noteq> CHR 0x00) (mac_input a v) = a" "takeWhile (\<lambda>c. c \<noteq> CHR 0x00) (mac_input b w) = b"
    using assms by (auto simp: mac_input_def takeWhile_append)
  with eq show "a = b \<and> v = w" by (simp add: mac_input_def)
qed simp

section \<open>Signatures of tracking requests\<close>

definition TrackingCanonical :: "crypto \<Rightarrow> string \<Rightarrow> string \<Rightarrow> string \<Rightarrow> string" where
  "TrackingCanonical cy timestamp nonce body =
     timestamp @ [CHR 0x0A] @ nonce @ [CHR 0x0A] @ hex_encode (cy_sha256 cy body)"

definition SignTracking :: "crypto \<Rightarrow> string \<Rightarrow> string \<Rightarrow> string \<Rightarrow> string \<Rightarrow> string" where
  "SignTracking cy secret timestamp nonce body =
     hex_encode (cy_hmac cy secret (TrackingCanonical cy timestamp nonce body))"

definition VerifyTrackingSignature ::
    "crypto \<Rightarrow> string \<Rightarrow> string \<Rightarrow> string \<Rightarrow> string \<Rightarrow> string \<Rightarrow> bool" where
  "VerifyTrackingSignature cy secret timestamp nonce body signature0 =
     (let signature = trim_space (trim_prefix signature0 ''sha256='') in
      case hex_decode (SignTracking cy secret timestamp nonce body) of
        None \<Rightarrow> False
      | Some expected \<Rightarrow> (case hex_decode signature of None \<Rightarrow> False | Some actual \<Rightarrow> expected = actual))"

lemma VerifyTrackingSignature_iff:
  "VerifyTrackingSignature cy secret ts nonce body sig \<longleftrightarrow>
     hex_decode (trim_space (trim_prefix sig ''sha256='')) = Some (cy_hmac cy secret (TrackingCanonical cy ts nonce body))"
  by (auto simp: VerifyTrackingSignature_def SignTracking_def Let_def split: option.split)

text \<open>The canonical text determines its parts when timestamp and nonce have no line feed.\<close>

lemma TrackingCanonical_inject:
  assumes "CHR 0x0A \<notin> set t" "CHR 0x0A \<notin> set t'" "CHR 0x0A \<notin> set n" "CHR 0x0A \<notin> set n'"
    and "TrackingCanonical cy t n b = TrackingCanonical cy t' n' b'"
  shows "t = t' \<and> n = n' \<and> cy_sha256 cy b = cy_sha256 cy b'"
proof -
  let ?p = "\<lambda>c. c \<noteq> CHR 0x0A"
  have t: "takeWhile ?p (TrackingCanonical cy t n b) = t" "takeWhile ?p (TrackingCanonical cy t' n' b') = t'"
    using assms(1,2) by (auto simp: TrackingCanonical_def takeWhile_append)
  then have "t = t'" using assms(5) by simp
  with assms(5) have r: "n @ [CHR 0x0A] @ hex_encode (cy_sha256 cy b) = n' @ [CHR 0x0A] @ hex_encode (cy_sha256 cy b')"
    by (simp add: TrackingCanonical_def)
  have "takeWhile ?p (n @ [CHR 0x0A] @ x) = n" "takeWhile ?p (n' @ [CHR 0x0A] @ x) = n'" for x
    using assms(3,4) by (auto simp: takeWhile_append)
  with r have "n = n'" by metis
  with r have "hex_encode (cy_sha256 cy b) = hex_encode (cy_sha256 cy b')" by simp
  then have "Some (cy_sha256 cy b) = Some (cy_sha256 cy b')" by (metis hex_decode_encode)
  with \<open>t = t'\<close> \<open>n = n'\<close> show ?thesis by simp
qed

section \<open>The stored request payload\<close>

definition traceRequestPayloadScopePrefix :: string where
  "traceRequestPayloadScopePrefix = ''trace-request-payload-v1:''"

definition sealTraceRequestPayload ::
    "crypto \<Rightarrow> string \<Rightarrow> string option \<Rightarrow> string \<Rightarrow> string \<Rightarrow> crypto_error + string" where
  "sealTraceRequestPayload cy key random requestID body =
     (if requestID = [] \<or> body = [] then Inr []
      else Encrypt cy key random (traceRequestPayloadScopePrefix @ requestID) ([CHR 0x01] @ cy_gzip cy body))"

definition openTraceRequestPayload ::
    "crypto \<Rightarrow> string \<Rightarrow> string \<Rightarrow> string \<Rightarrow> int \<Rightarrow> crypto_error + string" where
  "openTraceRequestPayload cy key requestID ciphertext maximum0 =
     (if requestID = [] \<or> ciphertext = [] then Inr []
      else
        (case Decrypt cy key (traceRequestPayloadScopePrefix @ requestID) ciphertext of
           Inl err \<Rightarrow> Inl err
         | Inr packed \<Rightarrow>
             if length packed < 2 \<or> hd packed \<noteq> CHR 0x01 then Inl BadFormat
             else
               (let maximum = (if maximum0 \<le> 0 then 64 * 1024 * 1024 else maximum0) in
                case cy_gunzip cy (nat (maximum + 1)) (tl packed) of
                  None \<Rightarrow> Inl BadGzip
                | Some payload \<Rightarrow> if int (length payload) > maximum then Inl PayloadTooLarge else Inr payload)))"

lemma open_sealed:
  assumes "aead_law cy" and "gzip_law cy" and "cy_keyOK cy key" and "length nonce = nonceSize"
    and "requestID \<noteq> []" and "body \<noteq> []"
  shows "\<exists>c. sealTraceRequestPayload cy key (Some nonce) requestID body = Inr c \<and> c \<noteq> []
    \<and> openTraceRequestPayload cy key requestID c maximum =
        (if int (length body) \<le> (if maximum \<le> 0 then 64 * 1024 * 1024 else maximum) then Inr body
         else Inl PayloadTooLarge)"
proof -
  let ?scope = "traceRequestPayloadScopePrefix @ requestID" and ?p = "[CHR 0x01] @ cy_gzip cy body"
  let ?max = "if maximum \<le> 0 then 64 * 1024 * 1024 else maximum"
  obtain c where c: "Encrypt cy key (Some nonce) ?scope ?p = Inr c" "Decrypt cy key ?scope c = Inr ?p" "c \<noteq> []"
    using Encrypt_Decrypt [OF assms(1,3,4), of ?scope ?p] by auto
  have "cy_gzip cy body \<noteq> []" and z: "\<And>n. cy_gunzip cy n (cy_gzip cy body) = Some (take n body)"
    using assms(2) by (auto simp: gzip_law_def)
  then have l: "\<not> length ?p < 2" by (cases "cy_gzip cy body") auto
  have "openTraceRequestPayload cy key requestID c maximum =
      (if int (length (take (nat (?max + 1)) body)) > ?max then Inl PayloadTooLarge else Inr (take (nat (?max + 1)) body))"
    using c l assms(5) by (simp add: openTraceRequestPayload_def z Let_def)
  also have "\<dots> = (if int (length body) \<le> ?max then Inr body else Inl PayloadTooLarge)" by auto
  finally show ?thesis using c assms(5,6) by (intro exI [of _ c]) (simp add: sealTraceRequestPayload_def)
qed

section \<open>Generated secrets and identifiers\<close>

definition url_char :: "nat \<Rightarrow> char" where
  "url_char n = (if n < 26 then char_of (65 + n) else if n < 52 then char_of (71 + n)
     else if n < 62 then char_of (n - 4) else if n = 62 then CHR ''-'' else CHR ''_'')"

text \<open>\<open>base64.RawURLEncoding\<close>.\<close>

fun base64_url :: "string \<Rightarrow> string" where
  "base64_url [] = []"
| "base64_url [a] = [url_char (byte a div 4), url_char (byte a mod 4 * 16)]"
| "base64_url [a, b] =
     [url_char (byte a div 4), url_char (byte a mod 4 * 16 + byte b div 16), url_char (byte b mod 16 * 4)]"
| "base64_url (a # b # c # s) =
     [url_char (byte a div 4), url_char (byte a mod 4 * 16 + byte b div 16),
      url_char (byte b mod 16 * 4 + byte c div 64), url_char (byte c mod 64)] @ base64_url s"

text \<open>\<open>random n\<close> is what the random source yields for \<open>n\<close> bytes.\<close>

definition GenerateSecret :: "(nat \<Rightarrow> string option) \<Rightarrow> int \<Rightarrow> crypto_error + string" where
  "GenerateSecret random bytesCount =
     (case random (nat (if bytesCount < 16 then 16 else bytesCount)) of
        None \<Rightarrow> Inl NoRandom | Some buffer \<Rightarrow> Inr (base64_url buffer))"

definition set_bits8 :: "8 word \<Rightarrow> 8 word \<Rightarrow> char \<Rightarrow> char" where
  "set_bits8 keep add c = char_of (unat ((word_of_nat (byte c) AND keep) OR add))"

definition NewRequestID :: "crypto \<Rightarrow> string option \<Rightarrow> int \<Rightarrow> string" where
  "NewRequestID cy random unixNano =
     (let buffer0 = (case random of Some b \<Rightarrow> b | None \<Rightarrow> take 16 (cy_sha256 cy (dec_int unixNano)));
          buffer1 = buffer0[6 := set_bits8 0x0F 0x40 (buffer0 ! 6)];
          buffer = buffer1[8 := set_bits8 0x3F 0x80 (buffer1 ! 8)];
          h = hex_encode buffer
      in take 8 h @ ''-'' @ take 4 (drop 8 h) @ ''-'' @ take 4 (drop 12 h) @ ''-'' @ take 4 (drop 16 h) @ ''-''
         @ take 12 (drop 20 h))"

lemma length_base64_url: "length (base64_url s) = (4 * length s + 2) div 3"
  by (induction s rule: base64_url.induct) auto

lemma set_bits8_version: "byte (set_bits8 0x0F 0x40 c) div 16 = 4"
proof -
  have "list_all (\<lambda>n. unat (((word_of_nat n :: 8 word) AND 0x0F) OR 0x40) div 16 = 4) [0..<256]"
    by code_simp
  then have "\<forall>n \<in> {0..<256}. unat (((word_of_nat n :: 8 word) AND 0x0F) OR 0x40) div 16 = 4"
    by (simp only: list_all_iff atLeast_upt set_upt)
  moreover have "byte c \<in> {0..<256}" by simp
  ultimately have "unat (((word_of_nat (byte c) :: 8 word) AND 0x0F) OR 0x40) div 16 = 4" by blast
  moreover have "unat w < 256" for w :: "8 word" using unsigned_less [of w, where ?'a = nat] by simp
  ultimately show ?thesis by (simp add: set_bits8_def)
qed

lemma set_bits8_variant: "byte (set_bits8 0x3F 0x80 c) div 64 = 2"
proof -
  have "list_all (\<lambda>n. unat (((word_of_nat n :: 8 word) AND 0x3F) OR 0x80) div 64 = 2) [0..<256]"
    by code_simp
  then have "\<forall>n \<in> {0..<256}. unat (((word_of_nat n :: 8 word) AND 0x3F) OR 0x80) div 64 = 2"
    by (simp only: list_all_iff atLeast_upt set_upt)
  moreover have "byte c \<in> {0..<256}" by simp
  ultimately have "unat (((word_of_nat (byte c) :: 8 word) AND 0x3F) OR 0x80) div 64 = 2" by blast
  moreover have "unat w < 256" for w :: "8 word" using unsigned_less [of w, where ?'a = nat] by simp
  ultimately show ?thesis by (simp add: set_bits8_def)
qed

lemma hex_encode_nth: "i < length s \<Longrightarrow> hex_encode s ! (2 * i) = hex_char (byte (s ! i) div 16)"
proof (induction s arbitrary: i)
  case (Cons c s)
  then show ?case by (cases i) (auto simp: hex_encode_def hex_byte_def nth_append)
qed simp

lemma hex_encode_id: "list_all (\<lambda>c. request_id_char c \<and> graphic c) (hex_encode s)"
proof (induction s)
  case (Cons c s)
  have "request_id_char (hex_char n) \<and> graphic (hex_char n)" if "n < 16" for n
    using that by (auto simp: request_id_char_def hex_char_def graphic_def is_digit_def is_lower_def)
  with Cons show ?case by (simp add: hex_encode_def hex_byte_def nibbles)
qed (simp add: hex_encode_def)

text \<open>A generated identifier is a version 4 UUID that the gateway itself accepts.\<close>

lemma NewRequestID_valid:
  assumes "\<And>b. random = Some b \<Longrightarrow> length b = 16" and "\<And>s. length (cy_sha256 cy s) = 32"
  shows "length (NewRequestID cy random now) = 36"
    and "normalizeRequestID (NewRequestID cy random now) = NewRequestID cy random now"
    and "NewRequestID cy random now ! 14 = CHR ''4''"
proof -
  define b0 where "b0 = (case random of Some b \<Rightarrow> b | None \<Rightarrow> take 16 (cy_sha256 cy (dec_int now)))"
  define b where "b = b0[6 := set_bits8 0x0F 0x40 (b0 ! 6), 8 := set_bits8 0x3F 0x80 (b0[6 := set_bits8 0x0F 0x40 (b0 ! 6)] ! 8)]"
  have l0: "length b0 = 16" using assms by (auto simp: b0_def split: option.split)
  then have l: "length b = 16" by (simp add: b_def)
  define h where "h = hex_encode b"
  have lh: "length h = 32" by (simp add: h_def l)
  have new: "NewRequestID cy random now = take 8 h @ ''-'' @ take 4 (drop 8 h) @ ''-'' @ take 4 (drop 12 h) @ ''-''
      @ take 4 (drop 16 h) @ ''-'' @ take 12 (drop 20 h)"
    by (simp add: NewRequestID_def Let_def h_def b_def b0_def)
  show len: "length (NewRequestID cy random now) = 36" by (simp add: new lh)
  have ok: "\<forall>c \<in> set h. request_id_char c \<and> graphic c"
    using hex_encode_id [of b] by (simp add: h_def list_all_iff)
  have dash: "request_id_char (CHR ''-'')" "graphic (CHR ''-'')" by code_simp+
  have all: "list_all (\<lambda>c. request_id_char c \<and> graphic c) (NewRequestID cy random now)"
    unfolding new list_all_iff using ok dash by (auto dest: in_set_takeD in_set_dropD)
  then have "trim_space (NewRequestID cy random now) = NewRequestID cy random now"
    by (intro trim_space_graphic) (simp add: list_all_iff)
  then show "normalizeRequestID (NewRequestID cy random now) = NewRequestID cy random now"
    using all len by (auto simp: normalizeRequestID_def Let_def list_all_iff)
  have "h ! 12 = hex_char (byte (b ! 6) div 16)" using hex_encode_nth [of 6 b] l by (simp add: h_def)
  also have "\<dots> = hex_char 4" using l0 by (simp add: b_def set_bits8_version)
  also have "\<dots> = CHR ''4''" by code_simp
  finally have "h ! 12 = CHR ''4''" .
  then show "NewRequestID cy random now ! 14 = CHR ''4''"
    by (simp add: new nth_append lh)
qed

end
