(* ===== verification/Gateway_Server.thy ===== *)
theory Gateway_Server
  imports Audit_Pipeline Security Diagnostics Stream_Proxy Rate_Guard Request_Limits
begin

text \<open>
  \<open>ServeHTTP\<close> of \<open>gateway.go\<close> as a machine: one step of a request is the code between two
  accesses to what requests share (the rate and slot guard, the route cache, the two channels, the
  trace writer, the upstream), and any number of requests interleave. The deferred calls are steps
  of their own, in the order Go runs them. What the program reads from its surroundings (clocks, the
  database, Redis, the client, the upstream, the random source) is the \<open>req_env\<close> of a request.
\<close>

section \<open>Configuration, surroundings and state\<close>

record gw_config =
  gc_RequestMaxBytes :: int
  gc_RequestHardMaxBytes :: int
  gc_LargeRequestThresholdBytes :: int
  gc_LargeRequestMaxConcurrency :: nat
  gc_GlobalMaxConcurrency :: nat
  gc_ErrorHTTPStatus :: int
  gc_TraceStoreRequestPayload :: bool
  gc_AuditRequestTimeoutMS :: int
  gc_RouteCacheTTL :: int
  gc_ResponseInspectMaxBytes :: int
  gc_StreamHeartbeat :: bool

text \<open>Code outside the model: cryptography, URL parsing, the redaction patterns, time formatting.\<close>

record gw_program = gw_config +
  gl_cy :: crypto
  gl_masterKey :: string
  gl_parse :: "string \<Rightarrow> url option"
  gl_new_request :: "string \<Rightarrow> url \<Rightarrow> bool"
  gl_sanitize :: "string \<Rightarrow> string"
  gl_format_time :: "time \<Rightarrow> string"

record upstream_response =
  us_StatusCode :: int
  us_Headers :: headers
  us_Body :: string
  us_BodyError :: "string option"
  us_Events :: "sse_input list"

text \<open>
  \<open>g.client.Do\<close>: a response, or a failure with the cause of the request's context, whether the
  error is a deadline, and whether the client's own context has ended.
\<close>

datatype upstream_outcome = DoFailed cancel_cause bool bool | DoAnswered upstream_response

record req_env =
  qe_request :: http_request
  qe_generated :: string
  qe_started :: time
  qe_lookupTime :: int
  qe_db :: "Route option"
  qe_rateUp :: bool
  qe_rateMs :: int
  qe_rateNs :: int
  qe_random :: "string option"
  qe_audit :: "Route \<Rightarrow> string \<Rightarrow> AuditResult \<times> int"
  qe_clientGone :: bool
  qe_goneMs :: int
  qe_acquireUp :: bool
  qe_acquireMs :: int
  qe_token :: string
  qe_do :: upstream_outcome
  qe_headerMs :: int
  qe_releaseUp :: bool
  qe_completed :: time
  qe_room :: "nat option"

record gateway =
  gw_guard :: RedisGuard
  gw_cache :: "(string, Route) ttl_cache"
  gw_global :: nat
  gw_large :: nat
  gw_submitted :: "(nat \<times> TraceEvent) list"
  gw_sent :: "(nat \<times> upstream_request) list"
  gw_observed :: "(nat \<times> string \<times> int \<times> string) list"

datatype phase =
    PStart | PLookup | PLoad | PAuthorize | PRate | PGlobal | PLarge | PRead | PAudit | PAcquire | PSend | PAwait
  | PRelay upstream_response | PLeaving | PLeft

record handler =
  hd_phase :: phase
  hd_w :: response_writer
  hd_trace :: TraceEvent
  hd_finished :: bool
  hd_requestID :: string
  hd_route :: Route
  hd_body :: string
  hd_slot :: slot
  hd_large :: bool
  hd_global :: bool

definition no_route :: Route where
  "no_route = \<lparr>rt_ID = 0, rt_Slug = [], rt_Name = [], rt_BaseURL = [], rt_Provider = [], rt_AuthMode = [],
     rt_SecretHeader = [], rt_AuditProfileID = None, rt_Enabled = False, rt_FailClosed = False,
     rt_RequestTimeoutMS = 0, rt_MaxConcurrency = 0, rt_RateLimitRPS = 0, rt_RateLimitBurst = 0,
     rt_UpstreamSecretCiphertext = [], rt_InboundKeyDigest = []\<rparr>"

definition fresh_handler :: "req_env \<Rightarrow> handler" where
  "fresh_handler q = \<lparr>hd_phase = PStart, hd_w = fresh_writer (qe_room q), hd_trace = empty_trace,
     hd_finished = False, hd_requestID = [], hd_route = no_route, hd_body = [], hd_slot = NoSlot,
     hd_large = False, hd_global = False\<rparr>"

type_synonym serving = "gateway \<times> handler"

section \<open>Finishing\<close>

text \<open>The closure \<open>finish\<close>: the trace is completed and submitted once.\<close>

definition finish ::
    "gw_program \<Rightarrow> nat \<Rightarrow> req_env \<Rightarrow> string \<Rightarrow> string \<Rightarrow> int \<Rightarrow> int \<Rightarrow> int \<Rightarrow> serving \<Rightarrow> serving" where
  "finish c k q decision riskCode status upstreamStatus responseBytes s =
     (case s of (g, h) \<Rightarrow>
        if hd_finished h then (g, h)
        else
          (let latency = (qe_completed q - qe_started q) div millisecond;
               t1 = (hd_trace h)\<lparr>te_Decision := decision, te_RiskCode := riskCode, te_HTTPStatus := status,
                      te_UpstreamStatus := upstreamStatus, te_ResponseBytes := responseBytes,
                      te_CompletedAt := qe_completed q, te_LatencyMS := latency\<rparr>;
               m1 = (te_Metadata t1)(''gateway_completed_at'' \<mapsto> MStr (gl_format_time c (qe_completed q)),
                      ''timeline_duration_ms'' \<mapsto> MInt latency);
               m2 = set_if (riskCode \<noteq> []) ''error_reason''
                      (MStr (traceFailureReason riskCode upstreamStatus m1)) m1;
               t = t1\<lparr>te_Metadata := m2\<rparr>
           in (g\<lparr>gw_submitted := gw_submitted g @ [(k, t)]\<rparr>, h\<lparr>hd_trace := t, hd_finished := True\<rparr>)))"

definition leave :: "serving \<Rightarrow> serving" where
  "leave s = (case s of (g, h) \<Rightarrow> (g, h\<lparr>hd_phase := PLeaving\<rparr>))"

definition on_writer :: "(response_writer \<Rightarrow> response_writer) \<Rightarrow> serving \<Rightarrow> serving" where
  "on_writer f s = (case s of (g, h) \<Rightarrow> (g, h\<lparr>hd_w := f (hd_w h)\<rparr>))"

definition on_trace :: "(TraceEvent \<Rightarrow> TraceEvent) \<Rightarrow> serving \<Rightarrow> serving" where
  "on_trace f s = (case s of (g, h) \<Rightarrow> (g, h\<lparr>hd_trace := f (hd_trace h)\<rparr>))"

definition put :: "string \<Rightarrow> mval \<Rightarrow> TraceEvent \<Rightarrow> TraceEvent" where
  "put k v t = t\<lparr>te_Metadata := (te_Metadata t)(k \<mapsto> v)\<rparr>"

definition put_all :: "(string \<times> mval) list \<Rightarrow> TraceEvent \<Rightarrow> TraceEvent" where
  "put_all kvs t = foldl (\<lambda>t (k, v). put k v t) t kvs"

definition proceed :: "phase \<Rightarrow> serving \<Rightarrow> serving" where
  "proceed p s = (case s of (g, h) \<Rightarrow> (g, h\<lparr>hd_phase := p\<rparr>))"

text \<open>The two ways a request is turned down: an API error, and the 555 of the risk control.\<close>

definition refuse :: "gw_program \<Rightarrow> nat \<Rightarrow> req_env \<Rightarrow> string \<Rightarrow> int \<Rightarrow> string \<Rightarrow> serving \<Rightarrow> serving" where
  "refuse c k q code status message s =
     (let s1 = finish c k q ''error'' code status 0 0 s in
      leave (on_writer (\<lambda>w. writeGatewayError w status (hd_requestID (snd s1)) code message) s1))"

definition deny ::
    "gw_program \<Rightarrow> nat \<Rightarrow> req_env \<Rightarrow> string \<Rightarrow> string \<Rightarrow> int \<Rightarrow> string \<Rightarrow> serving \<Rightarrow> serving" where
  "deny c k q decision code upstreamStatus message s =
     (let s1 = finish c k q decision code (gc_ErrorHTTPStatus c) upstreamStatus 0 s in
      leave (on_writer (\<lambda>w. writeRiskError w (gc_ErrorHTTPStatus c) (hd_requestID (snd s1)) code message) s1))"

section \<open>From the arrival to the body\<close>

text \<open>The identity of a request and where it comes from; the two identities the client sent.\<close>

definition inbound_ids :: "req_env \<Rightarrow> string \<times> string" where
  "inbound_ids q = (normalizeRequestID (header_get (rq_Headers (qe_request q)) ''X-Request-ID''),
     normalizeRequestID (header_get (rq_Headers (qe_request q)) ''X-Oneapi-Request-Id''))"

definition request_identity :: "req_env \<Rightarrow> string \<times> string" where
  "request_identity q =
     (case inbound_ids q of (xRequestID, oneAPIRequestID) \<Rightarrow>
        (let inboundRequestID = firstNonEmpty [xRequestID, oneAPIRequestID];
             source = (if xRequestID = [] \<and> oneAPIRequestID \<noteq> [] then ''x_oneapi_request_id'' else ''x_request_id'')
         in if inboundRequestID = [] then (qe_generated q, ''generated'') else (inboundRequestID, source)))"

definition identity_headers :: "gw_program \<Rightarrow> req_env \<Rightarrow> response_writer \<Rightarrow> response_writer" where
  "identity_headers c q w =
     set_header ''X-Risk-Started-At'' (gl_format_time c (qe_started q))
       (set_header ''X-Oneapi-Request-Id'' (fst (request_identity q))
         (set_header ''X-Risk-Request-ID'' (fst (request_identity q)) w))"

definition initial_trace :: "gw_program \<Rightarrow> req_env \<Rightarrow> TraceEvent" where
  "initial_trace c q =
     (let r = qe_request q; (xRequestID, oneAPIRequestID) = inbound_ids q in
      put_all [(''request_id_source'', MStr (snd (request_identity q))),
               (''gateway_started_at'', MStr (gl_format_time c (qe_started q))),
               (''audit_started'', MBool False), (''upstream_started'', MBool False)]
        (empty_trace\<lparr>te_RequestID := fst (request_identity q), te_Source := ''gateway'', te_RouteSlug := rq_Route r,
           te_NewAPIRequestID := firstNonEmpty
             [normalizeRequestID (header_get (rq_Headers r) ''X-NewAPI-Request-ID''), oneAPIRequestID,
              firstNonEmpty [xRequestID, oneAPIRequestID]],
           te_ExternalUserID := normalizeIdentifier (firstNonEmpty
             [header_get (rq_Headers r) ''X-NewAPI-User-ID'', header_get (rq_Headers r) ''X-User-ID'']),
           te_Endpoint := truncateString (rq_Wildcard r) 300, te_StartedAt := qe_started q,
           te_CreatedAt := qe_started q\<rparr>))"

definition step_start :: "gw_program \<Rightarrow> nat \<Rightarrow> req_env \<Rightarrow> serving \<Rightarrow> serving" where
  "step_start c k q s =
     (case s of (g, h) \<Rightarrow>
        (let r = qe_request q;
             requestID = fst (request_identity q);
             h1 = h\<lparr>hd_requestID := requestID, hd_w := identity_headers c q (hd_w h)\<rparr>
         in if rq_Method r = ''CONNECT'' \<or> rq_Method r = ''TRACE'' then
              leave (on_writer (\<lambda>w. writeGatewayError w 405 requestID ''METHOD_NOT_ALLOWED'' ''method is not allowed'') (g, h1))
            else if rq_Route r = [] then
              leave (on_writer (\<lambda>w. writeGatewayError w 404 requestID ''ROUTE_NOT_FOUND'' ''risk route not found'') (g, h1))
            else proceed PLookup (g, h1\<lparr>hd_trace := initial_trace c q\<rparr>)))"

text \<open>\<open>getRoute\<close> in its two steps, and what follows each answer.\<close>

definition no_such_route :: "gw_program \<Rightarrow> nat \<Rightarrow> req_env \<Rightarrow> serving \<Rightarrow> serving" where
  "no_such_route c k q s = refuse c k q ''ROUTE_NOT_FOUND'' 404 ''risk route not found'' s"

definition route_found :: "gw_program \<Rightarrow> nat \<Rightarrow> req_env \<Rightarrow> Route \<Rightarrow> serving \<Rightarrow> serving" where
  "route_found c k q route s =
     (if \<not> rt_Enabled route then no_such_route c k q s
      else (case s of (g, h) \<Rightarrow> proceed PAuthorize (g, h\<lparr>hd_route := route\<rparr>)))"

definition step_lookup :: "gw_program \<Rightarrow> nat \<Rightarrow> req_env \<Rightarrow> serving \<Rightarrow> serving" where
  "step_lookup c k q s =
     (case cached_route (gw_cache (fst s)) (qe_lookupTime q) (rq_Route (qe_request q)) of
        Some route \<Rightarrow> route_found c k q route s
      | None \<Rightarrow> proceed PLoad s)"

definition step_load :: "gw_program \<Rightarrow> nat \<Rightarrow> req_env \<Rightarrow> serving \<Rightarrow> serving" where
  "step_load c k q s =
     (case qe_db q of
        None \<Rightarrow> no_such_route c k q s
      | Some route \<Rightarrow>
          (case s of (g, h) \<Rightarrow>
             route_found c k q route (g\<lparr>gw_cache := store_route (gc_RouteCacheTTL c) (qe_lookupTime q)
               (rq_Route (qe_request q)) route (gw_cache g)\<rparr>, h)))"

definition inbound_credential :: "http_request \<Rightarrow> string" where
  "inbound_credential r =
     (let key = trim_space (header_get (rq_Headers r) ''X-Risk-Gateway-Key'') in
      if key = [] then bearerToken (header_get (rq_Headers r) ''Authorization'') else key)"

definition authorized :: "gw_program \<Rightarrow> http_request \<Rightarrow> Route \<Rightarrow> bool" where
  "authorized c r route =
     VerifyDigest (gl_cy c) (gl_masterKey c) ''route-inbound-key-v1'' (inbound_credential r) (rt_InboundKeyDigest route)"

definition step_authorize :: "gw_program \<Rightarrow> nat \<Rightarrow> req_env \<Rightarrow> serving \<Rightarrow> serving" where
  "step_authorize c k q s =
     (if authorized c (qe_request q) (hd_route (snd s)) then proceed PRate s
      else refuse c k q ''GATEWAY_AUTH_FAILED'' 401 ''invalid gateway credential'' s)"

definition client_identity :: "req_env \<Rightarrow> TraceEvent \<Rightarrow> string" where
  "client_identity q t = firstNonEmpty [te_ExternalUserID t, remoteIP (rq_RemoteAddr (qe_request q))]"

definition rate_key :: "gw_program \<Rightarrow> req_env \<Rightarrow> TraceEvent \<Rightarrow> string" where
  "rate_key c q t = take 32 (Digest (gl_cy c) (gl_masterKey c) ''rate-limit-key-v1''
     (rq_Route (qe_request q) @ ''|'' @ client_identity q t))"

definition step_rate :: "gw_program \<Rightarrow> nat \<Rightarrow> req_env \<Rightarrow> serving \<Rightarrow> serving" where
  "step_rate c k q s =
     (case s of (g, h) \<Rightarrow>
        (case Allow (qe_rateUp q) (qe_rateMs q) (qe_rateNs q) (rate_key c q (hd_trace h))
                (rt_RateLimitRPS (hd_route h)) (rt_RateLimitBurst (hd_route h)) (gw_guard g) of
           (guard, ok) \<Rightarrow>
             (let s1 = (g\<lparr>gw_guard := guard\<rparr>, h) in
              if ok then proceed PGlobal s1
              else (let s2 = finish c k q ''error'' ''RATE_LIMITED'' 429 0 0 s1 in
                    leave (on_writer (\<lambda>w. writeGatewayError (set_header ''Retry-After'' ''1'' w) 429 (hd_requestID h)
                             ''RATE_LIMITED'' ''request rate limit exceeded'') s2)))))"

text \<open>\<open>select\<close> on a channel of tokens: a token is taken when there is room.\<close>

definition take_token :: "nat \<Rightarrow> nat \<Rightarrow> nat option" where
  "take_token capacity n = (if n < capacity then Some (n + 1) else None)"

definition step_global :: "gw_program \<Rightarrow> nat \<Rightarrow> req_env \<Rightarrow> serving \<Rightarrow> serving" where
  "step_global c k q s =
     (case s of (g, h) \<Rightarrow>
        (case take_token (gc_GlobalMaxConcurrency c) (gw_global g) of
           None \<Rightarrow> refuse c k q ''GATEWAY_OVERLOADED'' 503 ''gateway concurrency limit reached'' s
         | Some n \<Rightarrow> proceed PLarge (g\<lparr>gw_global := n\<rparr>, h\<lparr>hd_global := True\<rparr>)))"

section \<open>The body\<close>

definition mode_name :: "limit_mode \<Rightarrow> string" where
  "mode_name m = (case m of Configured \<Rightarrow> ''configured'' | AutoActualSize \<Rightarrow> ''auto_actual_size''
     | AutoHardCeiling \<Rightarrow> ''auto_hard_ceiling'')"

definition body_policy :: "gw_program \<Rightarrow> req_env \<Rightarrow> requestBodyLimitPolicy" where
  "body_policy c q =
     resolveRequestBodyLimit (gc_RequestMaxBytes c) (gc_RequestHardMaxBytes c) (rq_ContentLength (qe_request q))"

definition configured_remediation :: string where
  "configured_remediation =
     ''The explicit REQUEST_MAX_BYTES soft limit rejected this body before audit and upstream. '' @
     ''Set REQUEST_MAX_BYTES=0 to use automatic actual-size admission, or reduce/externalize the payload.''"

definition ceiling_remediation :: "int \<Rightarrow> string" where
  "ceiling_remediation hard =
     ''The request exceeds the automatic hard ceiling REQUEST_HARD_MAX_BYTES='' @ dec_int hard @
     ''. Reduce/split the payload, replace inline base64 files or images with URLs, '' @
     ''or raise the hard ceiling only with a bounded large-request concurrency budget. '' @
     ''Audit and upstream were not called.''"

text \<open>The size recorded, the limit and the excess of \<open>markRequestTooLarge\<close>.\<close>

definition too_large_sizes :: "int \<Rightarrow> requestBodyLimitPolicy \<Rightarrow> int \<times> int \<times> int" where
  "too_large_sizes requestBytes0 policy =
     (let limitBytes = (if EffectiveLimitBytes policy < 1 then 1 else EffectiveLimitBytes policy);
          requestBytes = (if requestBytes0 \<le> limitBytes then limitBytes + 1 else requestBytes0)
      in (requestBytes, limitBytes, requestBytes - limitBytes))"

definition too_large_reason :: "int \<Rightarrow> requestBodyLimitPolicy \<Rightarrow> bool \<Rightarrow> string" where
  "too_large_reason requestBytes0 policy exact =
     (case too_large_sizes requestBytes0 policy of (requestBytes, limitBytes, overBytes) \<Rightarrow>
        (let qualifier = (if exact then [] else ''at least '') in
         ''Risk Gateway ingress rejected the request before audit and upstream: request body is '' @ qualifier @
         dec_int requestBytes @ '' bytes; '' @ mode_name (Mode policy) @ '' effective limit is '' @ dec_int limitBytes @
         '' bytes; hard ceiling is '' @ dec_int (HardLimitBytes policy) @ '' bytes; over limit by '' @ qualifier @
         dec_int overBytes @ '' bytes''))"

definition markRequestTooLarge :: "int \<Rightarrow> requestBodyLimitPolicy \<Rightarrow> bool \<Rightarrow> TraceEvent \<Rightarrow> TraceEvent" where
  "markRequestTooLarge requestBytes0 policy exact t =
     (case too_large_sizes requestBytes0 policy of (requestBytes, limitBytes, overBytes) \<Rightarrow>
        (let t1 = put_all
           [(''error_class'', MStr ''request_body_too_large''), (''error_origin'', MStr ''risk_gateway''),
            (''failure_stage'', MStr ''gateway_ingress''), (''failure_component'', MStr ''request_body_guard''),
            (''limit_owner'', MStr ''risk_gateway''),
            (''limit_config'', MStr (if Mode policy \<noteq> Configured then ''REQUEST_HARD_MAX_BYTES'' else ''REQUEST_MAX_BYTES'')),
            (''limit_scope'', MStr ''inbound_http_request_body''), (''limit_unit'', MStr ''bytes''),
            (''request_body_limit_mode'', MStr (mode_name (Mode policy))),
            (''request_body_hard_limit_bytes'', MInt (HardLimitBytes policy)),
            (''audit_started'', MBool False), (''upstream_started'', MBool False),
            (''request_body_bytes'', MInt requestBytes), (''request_body_limit_bytes'', MInt limitBytes),
            (''request_body_over_limit_bytes'', MInt overBytes), (''request_body_size_exact'', MBool exact)]
           (t\<lparr>te_RequestBytes := requestBytes\<rparr>);
         t2 = (if Mode policy = Configured
               then put ''request_body_remediation'' (MStr configured_remediation)
                      (put ''request_body_recommended_limit_bytes''
                        (MInt (recommendedRequestMaxBytes requestBytes (HardLimitBytes policy))) t1)
               else put ''request_body_remediation'' (MStr (ceiling_remediation (HardLimitBytes policy))) t1)
         in put ''error_reason'' (MStr (too_large_reason requestBytes0 policy exact)) t2))"

definition limit_headers :: "requestBodyLimitPolicy \<Rightarrow> response_writer \<Rightarrow> response_writer" where
  "limit_headers policy w =
     set_header ''X-Risk-Request-Hard-Limit-Bytes'' (dec_int (HardLimitBytes policy))
       (set_header ''X-Risk-Request-Limit-Bytes'' (dec_int (EffectiveLimitBytes policy))
         (set_header ''X-Risk-Request-Limit-Mode'' (mode_name (Mode policy)) w))"

definition refuse_too_large ::
    "gw_program \<Rightarrow> nat \<Rightarrow> req_env \<Rightarrow> int \<Rightarrow> bool \<Rightarrow> serving \<Rightarrow> serving" where
  "refuse_too_large c k q bytes exact s =
     (let policy = body_policy c q;
          s1 = on_trace (markRequestTooLarge bytes policy exact) s;
          s2 = on_writer (\<lambda>w. set_header ''X-Risk-Request-Size-Exact'' (if exact then ''true'' else ''false'')
                 (limit_headers policy (set_header ''X-Risk-Request-Bytes''
                   (dec_int (te_RequestBytes (hd_trace (snd s1)))) w))) s1
      in deny c k q ''error'' ''REQUEST_TOO_LARGE'' 0 (too_large_reason bytes policy exact) s2)"

definition policy_trace :: "requestBodyLimitPolicy \<Rightarrow> TraceEvent \<Rightarrow> TraceEvent" where
  "policy_trace policy t =
     (let t1 = put_all [(''request_body_limit_mode'', MStr (mode_name (Mode policy))),
                 (''request_body_effective_limit_bytes'', MInt (EffectiveLimitBytes policy)),
                 (''request_body_hard_limit_bytes'', MInt (HardLimitBytes policy))] t
      in if ConfiguredLimitBytes policy > 0
         then put ''request_body_configured_limit_bytes'' (MInt (ConfiguredLimitBytes policy)) t1 else t1)"

definition large_refusal :: "gw_program \<Rightarrow> gateway \<Rightarrow> TraceEvent \<Rightarrow> TraceEvent" where
  "large_refusal c g t = put_all
     [(''error_origin'', MStr ''risk_gateway''), (''failure_stage'', MStr ''gateway_ingress''),
      (''failure_component'', MStr ''large_request_memory_guard''),
      (''large_request_max_concurrency'', MInt (int (gc_LargeRequestMaxConcurrency c))),
      (''large_request_active'', MInt (int (gw_large g))), (''retryable'', MBool True),
      (''retry_after_seconds'', MInt 1), (''security_violation'', MBool False),
      (''error_reason'', MStr (''large request concurrency limit reached; '' @
         ''retry when another large request finishes''))] t"

text \<open>The limit on the length the client announced, and the slot of a large body.\<close>

definition step_large :: "gw_program \<Rightarrow> nat \<Rightarrow> req_env \<Rightarrow> serving \<Rightarrow> serving" where
  "step_large c k q s0 =
     (let policy = body_policy c q; len = rq_ContentLength (qe_request q);
          s = on_writer (limit_headers policy) (on_trace (policy_trace policy) s0)
      in if ExceedsKnownLength policy len then refuse_too_large c k q len True s
         else if \<not> requestBodyNeedsLargeSlot len (gc_LargeRequestThresholdBytes c) then proceed PRead s
         else
           (case s of (g, h) \<Rightarrow>
              (case take_token (gc_LargeRequestMaxConcurrency c) (gw_large g) of
                 Some n \<Rightarrow>
                   proceed PRead (on_trace (put_all [(''large_request_slot'', MBool True),
                       (''large_request_max_concurrency'', MInt (int (gc_LargeRequestMaxConcurrency c)))])
                     (g\<lparr>gw_large := n\<rparr>, h\<lparr>hd_large := True\<rparr>))
               | None \<Rightarrow>
                   (let s1 = finish c k q ''error'' ''LARGE_REQUEST_CONCURRENCY_LIMITED'' 503 0 0
                               (on_trace (large_refusal c g) s) in
                    leave (on_writer (\<lambda>w. writeGatewayError (set_header ''Retry-After'' ''1'' w) 503
                             (hd_requestID h) ''LARGE_REQUEST_CONCURRENCY_LIMITED''
                             ''large request concurrency limit reached'') s1)))))"

text \<open>\<open>io.ReadAll\<close> of a \<open>MaxBytesReader\<close>: the bytes read, and what ended the reading.\<close>

datatype read_end = ReadAll | TooManyBytes | ReadFailure string

definition read_body :: "int \<Rightarrow> http_request \<Rightarrow> string \<times> read_end" where
  "read_body limit r =
     (if int (length (rq_Body r)) > limit then (take (nat limit) (rq_Body r), TooManyBytes)
      else (rq_Body r, case rq_BodyError r of None \<Rightarrow> ReadAll | Some e \<Rightarrow> ReadFailure e))"

text \<open>
  Decoding into a struct matches keys without regard to case; a \<open>null\<close> leaves the field alone and
  any other value that is no string is an error. (Of several members with one key the last counts.)
\<close>

fun model_field :: "(string \<times> json) list \<Rightarrow> string \<Rightarrow> string option" where
  "model_field [] m = Some m"
| "model_field ((k, v) # ms) m =
     (if \<not> equal_fold k ''model'' then model_field ms m
      else (case v of JStr t \<Rightarrow> model_field ms t | JNull \<Rightarrow> model_field ms m | _ \<Rightarrow> None))"

definition ExtractRequestedModel :: "string \<Rightarrow> string" where
  "ExtractRequestedModel body =
     (case json_unmarshal body of
        Some (JObj ms) \<Rightarrow> (case model_field ms [] of None \<Rightarrow> [] | Some m \<Rightarrow> truncateString m 200)
      | _ \<Rightarrow> [])"

definition store_payload :: "gw_program \<Rightarrow> req_env \<Rightarrow> string \<Rightarrow> string \<Rightarrow> TraceEvent \<Rightarrow> TraceEvent" where
  "store_payload c q requestID body t =
     (if gc_TraceStoreRequestPayload c \<and> body \<noteq> [] then
        (case sealTraceRequestPayload (gl_cy c) (gl_masterKey c) (qe_random q) requestID body of
           Inl err \<Rightarrow> put_all [(''request_payload_stored'', MBool False),
                             (''request_payload_error'', MStr ''encryption_failed'')] t
         | Inr ciphertext \<Rightarrow>
             put_all [(''request_payload_stored'', MBool (ciphertext \<noteq> [])),
                (''request_payload_bytes'', MInt (int (length body))),
                (''request_payload_ciphertext_bytes'', MInt (int (length ciphertext))),
                (''request_payload_format'', MStr ''gzip+aes256gcm-v1'')]
               (t\<lparr>te_RequestPayloadCiphertext := ciphertext\<rparr>))
      else t)"

definition step_read :: "gw_program \<Rightarrow> nat \<Rightarrow> req_env \<Rightarrow> serving \<Rightarrow> serving" where
  "step_read c k q s =
     (let limit = EffectiveLimitBytes (body_policy c q) in
      case read_body limit (qe_request q) of
        (body, TooManyBytes) \<Rightarrow>
          refuse_too_large c k q (if int (length body) > limit + 1 then int (length body) else limit + 1) False s
      | (body, ReadFailure err) \<Rightarrow>
          deny c k q ''error'' ''REQUEST_READ_ERROR'' 0 ''gateway could not read the request body''
            (on_trace (\<lambda>t. put_all [(''error_class'', MStr ''request_body_read''),
                 (''error_reason'', MStr (truncateString (''failed to read request body: '' @ err) auditDiagnosticTextLimit))]
               (t\<lparr>te_RequestBytes := int (length body)\<rparr>)) s)
      | (body, ReadAll) \<Rightarrow>
          (case on_trace (\<lambda>t. store_payload c q (hd_requestID (snd s)) body
                   (t\<lparr>te_RequestBytes := int (length body), te_Model := ExtractRequestedModel body\<rparr>)) s of
             (g, h) \<Rightarrow> proceed PAudit (g, h\<lparr>hd_body := body\<rparr>)))"

section \<open>The audit\<close>

definition rule_metadata :: "RuleMatch \<Rightarrow> (string \<times> mval) list" where
  "rule_metadata m =
     [(''audit_rule_id'', MInt (rm_RuleID m)), (''audit_rule_position'', MInt (int (rm_RulePosition m))),
      (''audit_rule_code'', MStr (rm_RuleCode m)), (''audit_rule_name'', MStr (rm_RuleName m)),
      (''audit_rule_description'', MStr (truncateString (rm_RuleDescription m) 1000)),
      (''audit_rule_category'', MStr (rm_Category m)), (''audit_rule_action'', MStr (rm_Action m)),
      (''audit_rule_priority'', MInt (rm_Priority m)), (''audit_rule_pattern_type'', MStr (rm_PatternType m)),
      (''audit_rule_pattern'', MStr (truncateString (rm_Pattern m) 1600)),
      (''audit_rule_indicators'', MList (map MStr (rm_Indicators m))),
      (''audit_rule_match'', MStr (truncateString (rm_MatchedText m) 1200)),
      (''audit_rule_context'', MStr (truncateString (rm_Context m) 1600)),
      (''audit_user_guidance'', MStr (truncateString (rm_UserGuidance m) 1200))] @
     (if rm_Downgraded m
      then [(''audit_rule_downgraded_to_review'', MBool True),
            (''audit_rule_downgrade_reason'', MStr (truncateString (rm_DowngradeReason m) 1200))]
      else [])"

definition put_positive :: "(string \<times> int) list \<Rightarrow> metadata \<Rightarrow> metadata" where
  "put_positive kvs m = foldl (\<lambda>m (k, n). set_if (n > 0) k (MInt n) m) m kvs"

definition call_metadata :: "auditCallMetadata \<Rightarrow> metadata \<Rightarrow> metadata" where
  "call_metadata cm m =
     put_positive [(''audit_chunk_count'', int (cm_ChunkCount cm)), (''audit_chunk_bytes'', cm_ChunkBytes cm),
        (''audit_observed_output_tokens'', cm_ObservedOutputTokens cm), (''audit_requested_tokens'', cm_RequestedTokens cm),
        (''audit_context_window_tokens'', cm_ContextWindowTokens cm), (''audit_retry_count'', int (cm_RetryCount cm)),
        (''audit_chunk_retry_count'', int (cm_RetryCount cm)), (''audit_input_tokens'', cm_RequestedTokens cm)]
       (set_if (cm_Mode cm \<noteq> []) ''audit_mode'' (MStr (cm_Mode cm))
         (m(''audit_input_tokens_lower_bound'' \<mapsto> MBool (cm_RequestedTokensLowerBound cm),
            ''audit_chunks_completed'' \<mapsto> MInt (int (cm_ChunksCompleted cm)),
            ''audit_chunks_reused'' \<mapsto> MInt (int (cm_ChunksReused cm)))))"

definition walk_metadata :: "AuditResult \<Rightarrow> metadata \<Rightarrow> metadata" where
  "walk_metadata r m =
     put_positive [(''audit_tokens_over_limit'', ar_TokensOverLimit r), (''audit_profile_id'', ar_ProfileID r),
        (''audit_model_attempts'', ar_ModelAttempts r), (''audit_model_retries'', ar_ModelRetries r),
        (''audit_fallback_count'', ar_FallbackCount r)]
       (set_if (ar_ProfileName r \<noteq> []) ''audit_profile_name'' (MStr (ar_ProfileName r))
         (set_if (ar_ModelsTried r \<noteq> []) ''audit_models_tried'' (MList (map MStr (ar_ModelsTried r)))
           (set_if (ar_Model r \<noteq> []) ''audit_model'' (MStr (ar_Model r)) m)))"

definition decision_metadata :: "AuditResult \<Rightarrow> metadata \<Rightarrow> metadata" where
  "decision_metadata r m =
     (let m1 = m(''audit_effective_decision'' \<mapsto> MStr (ad_Decision (ar_Decision r)),
                 ''audit_input_partial'' \<mapsto> MBool (ar_InputPartial r),
                 ''audit_coverage_status'' \<mapsto> MStr (ex_CoverageStatus (ar_Extraction r)),
                 ''audit_serialized_tool_documents'' \<mapsto> MInt (int (ex_SerializedToolDocuments (ar_Extraction r))),
                 ''audit_decision_finalized'' \<mapsto> MBool (audit_decision_finalized r),
                 ''audit_completed'' \<mapsto> MBool (audit_completed r))
      in set_if (ar_FailureStage r \<noteq> []) ''audit_failure_stage'' (MStr (ar_FailureStage r))
           (set_if (ex_CoverageIssues (ar_Extraction r) \<noteq> []) ''audit_coverage_issues''
              (MList (map MStr (ex_CoverageIssues (ar_Extraction r))))
              (case ar_RuleMatch r of
                 None \<Rightarrow> (case ar_RequestedProfileID r of None \<Rightarrow> m1 | Some i \<Rightarrow> m1(''audit_requested_profile_id'' \<mapsto> MInt i))
               | Some rm \<Rightarrow>
                   (case ar_RequestedProfileID r of None \<Rightarrow> m1 | Some i \<Rightarrow> m1(''audit_requested_profile_id'' \<mapsto> MInt i))
                     (''audit_rule_input_view'' \<mapsto> MStr (rm_InputView rm)))))"

text \<open>The input that triggered the verdict: verified evidence of the model, otherwise the rule's match.\<close>

definition evidence_metadata :: "AuditResult \<Rightarrow> metadata \<Rightarrow> metadata" where
  "evidence_metadata r m =
     (let d = ar_Decision r in
      if ad_EvidenceVerified d then
        (let m1 = m(''audit_model_evidence'' \<mapsto> MStr (truncateString (ad_Evidence d) 1200),
                    ''audit_model_evidence_context'' \<mapsto> MStr (truncateString (ad_EvidenceContext d) 1600),
                    ''audit_model_evidence_verified'' \<mapsto> MBool True,
                    ''audit_model_evidence_match_mode'' \<mapsto> MStr (ad_EvidenceMatchMode d),
                    ''audit_trigger_input'' \<mapsto> MStr (truncateString (ad_Evidence d) 1200),
                    ''audit_trigger_context'' \<mapsto> MStr (truncateString (ad_EvidenceContext d) 1600),
                    ''audit_model_user_guidance'' \<mapsto>
                      MStr (truncateString (auditModelUserGuidance (ad_Category d)) 1200))
         in if ad_EvidenceChunkIndex d > 0
            then m1(''audit_model_evidence_chunk_index'' \<mapsto> MInt (ad_EvidenceChunkIndex d),
                    ''audit_model_evidence_chunk_count'' \<mapsto> MInt (ad_EvidenceChunkCount d))
            else m1)
      else (case ar_RuleMatch r of
              None \<Rightarrow> m
            | Some rm \<Rightarrow> m(''audit_trigger_input'' \<mapsto> MStr (truncateString (rm_MatchedText rm) 1200),
                         ''audit_trigger_context'' \<mapsto> MStr (truncateString (rm_Context rm) 1600))))"

text \<open>
  What \<open>ServeHTTP\<close> records of the audit. Entries that only repeat measurements (counts of the
  extraction, timings of the stages, contract versions and the build, suppressed candidates,
  attempts, reviews and model inputs, the diagnostics of the answer) are left out.
\<close>

definition audit_trace :: "AuditResult \<Rightarrow> int \<Rightarrow> TraceEvent \<Rightarrow> TraceEvent" where
  "audit_trace r latencyMs t =
     (let d = ar_Decision r;
          m1 = (te_Metadata t)(''audit_source'' \<mapsto> MStr (ad_Source d), ''audit_category'' \<mapsto> MStr (ad_Category d),
                 ''audit_input_scope'' \<mapsto> MStr (ex_Scope (ar_Extraction r)),
                 ''audit_policy_mode'' \<mapsto> MStr (ar_PolicyMode r));
          m2 = (case ar_RuleMatch r of None \<Rightarrow> m1 | Some rm \<Rightarrow> foldl (\<lambda>m (k, v). m(k \<mapsto> v)) m1 (rule_metadata rm));
          m3 = set_if (ad_Reason d \<noteq> []) ''audit_reason''
                 (MStr (truncateString (ad_Reason d) auditDiagnosticTextLimit)) m2;
          m4 = evidence_metadata r (decision_metadata r m3);
          m5 = set_if (ar_ErrorClass r \<noteq> []) ''audit_error_class'' (MStr (ar_ErrorClass r)) m4;
          m6 = set_if (ar_HTTPStatus r > 0) ''audit_http_status'' (MInt (ar_HTTPStatus r)) m5
      in t\<lparr>te_AuditLatencyMS := latencyMs, te_PromptHMAC := ar_PromptHMAC r,
           te_Metadata := walk_metadata r (call_metadata (ar_Call r) m6)\<rparr>)"

text \<open>The message of a block.\<close>

definition block_message :: "AuditResult \<Rightarrow> string" where
  "block_message r =
     (let default = (if ad_EvidenceVerified (ar_Decision r) then auditModelUserGuidance (ad_Category (ar_Decision r))
                     else ''request rejected by risk control'') in
      case ar_RuleMatch r of
        Some m \<Rightarrow> if trim_space (rm_UserGuidance m) \<noteq> [] then rm_UserGuidance m else default
      | None \<Rightarrow> default)"

definition step_audit :: "gw_program \<Rightarrow> nat \<Rightarrow> req_env \<Rightarrow> serving \<Rightarrow> serving" where
  "step_audit c k q s0 =
     (case qe_audit q (hd_route (snd s0)) (hd_body (snd s0)) of
        (r, latencyMs) \<Rightarrow>
          (let s = on_trace (\<lambda>t. audit_trace r latencyMs
                 ((if gc_AuditRequestTimeoutMS c > 0 then put ''audit_budget_ms'' (MInt (gc_AuditRequestTimeoutMS c)) else id)
                   (put ''audit_started'' (MBool True) t))) s0
           in if ad_Decision (ar_Decision r) = DecisionBlock then
                deny c k q DecisionBlock (firstNonEmpty [ad_RiskCode (ar_Decision r), ''CYBER_POLICY_BLOCK'']) 0
                  (block_message r) s
              else if qe_clientGone q then
                leave (finish c k q ''error'' ''CLIENT_DISCONNECT'' 499 0 0
                  (on_trace (put_all [(''failure_stage'', MStr ''client_disconnect''),
                     (''error_class'', MStr ''CLIENT_DISCONNECT''),
                     (''client_disconnect_during_audit'', MBool True),
                     (''client_disconnect_after_ms'', MInt (qe_goneMs q))]) s))
              else
                proceed PAcquire
                  (if ad_Decision (ar_Decision r) = DecisionAllow \<and> ar_ErrorClass r = ''audit_deadline_exceeded''
                   then on_trace (put_all [(''audit_timeout_fail_open'', MBool True),
                          (''audit_timeout_fail_open_after_ms'', MInt latencyMs)]) s
                   else s)))"

section \<open>The upstream\<close>

definition timeout_ms :: "Route \<Rightarrow> int" where
  "timeout_ms route = (if rt_RequestTimeoutMS route \<le> 0 then 120000 else rt_RequestTimeoutMS route)"

definition step_acquire :: "gw_program \<Rightarrow> nat \<Rightarrow> req_env \<Rightarrow> serving \<Rightarrow> serving" where
  "step_acquire c k q s =
     (case s of (g, h) \<Rightarrow>
        (case Acquire (qe_acquireUp q) (qe_acquireMs q) (qe_token q) (''route:'' @ rq_Route (qe_request q))
                (rt_MaxConcurrency (hd_route h)) (timeout_ms (hd_route h) + 30000) (gw_guard g) of
           (guard, None) \<Rightarrow>
             refuse c k q ''ROUTE_CONCURRENCY_LIMITED'' 503 ''route concurrency limit reached'' (g\<lparr>gw_guard := guard\<rparr>, h)
         | (guard, Some sl) \<Rightarrow> proceed PSend (g\<lparr>gw_guard := guard\<rparr>, h\<lparr>hd_slot := sl\<rparr>)))"

definition step_send :: "gw_program \<Rightarrow> nat \<Rightarrow> req_env \<Rightarrow> serving \<Rightarrow> serving" where
  "step_send c k q s =
     (case s of (g, h) \<Rightarrow>
        (case buildUpstreamRequest (gl_parse c) (gl_new_request c)
                (\<lambda>scope ct. case Decrypt (gl_cy c) (gl_masterKey c) scope ct of Inl e \<Rightarrow> None | Inr p \<Rightarrow> Some p)
                (qe_request q) (hd_route h) (hd_body h) (hd_requestID h) of
           Inl err \<Rightarrow>
             deny c k q ''error'' ''GATEWAY_CONFIG_ERROR'' 0 ''gateway route configuration is invalid''
               (on_trace (put ''error_class'' (MStr ''route_configuration'')) s)
         | Inr up \<Rightarrow>
             proceed PAwait (on_trace (put ''upstream_started'' (MBool True))
               (g\<lparr>gw_sent := gw_sent g @ [(k, up)]\<rparr>, h))))"

definition observe_failure :: "nat \<Rightarrow> string \<Rightarrow> int \<Rightarrow> string \<Rightarrow> serving \<Rightarrow> serving" where
  "observe_failure k riskCode status evidence s =
     (case s of (g, h) \<Rightarrow> (g\<lparr>gw_observed := gw_observed g @ [(k, riskCode, status, evidence)]\<rparr>, h))"

definition failure_trace :: "gw_program \<Rightarrow> string \<Rightarrow> int \<Rightarrow> string \<Rightarrow> string \<Rightarrow> TraceEvent \<Rightarrow> TraceEvent" where
  "failure_trace c riskCode status evidence stage t =
     t\<lparr>te_Metadata := recordUpstreamFailureMetadata (gl_sanitize c) riskCode status evidence stage (te_Metadata t)\<rparr>"

definition step_await :: "gw_program \<Rightarrow> nat \<Rightarrow> req_env \<Rightarrow> serving \<Rightarrow> serving" where
  "step_await c k q s0 =
     (let s = on_trace (put ''upstream_header_latency_ms'' (MInt (qe_headerMs q))) s0 in
      case qe_do q of
        DoFailed cause errDeadline clientEnded \<Rightarrow>
          (let failed = (\<lambda>riskCode. deny c k q ''error'' riskCode 0 ''upstream model request failed''
                 (on_trace (put_all [(''failure_stage'', MStr ''upstream_connect''),
                    (''error_class'', MStr riskCode)]) s))
           in if cause = RequestTimeout \<or> errDeadline \<or> cause = cancel_cause.DeadlineExceeded then failed ''UPSTREAM_TIMEOUT''
              else if cause = cancel_cause.Canceled \<and> clientEnded then
                leave (finish c k q ''error'' ''CLIENT_DISCONNECT'' 499 0 0
                  (on_trace (put_all [(''failure_stage'', MStr ''client_disconnect''),
                     (''error_class'', MStr ''CLIENT_DISCONNECT''),
                     (''client_disconnect_after_ms'', MInt (qe_goneMs q))]) s))
              else failed ''UPSTREAM_CONNECTION_ERROR'')
      | DoAnswered r \<Rightarrow>
          (let status = us_StatusCode r in
           if status < 200 \<or> status \<ge> 300 then
             (let failureBody = take adaptiveProviderErrorLimit (us_Body r) in
              deny c k q ''error'' ''UPSTREAM_MODEL_ERROR'' status ''upstream model returned an error''
                (on_trace (failure_trace c ''UPSTREAM_MODEL_ERROR'' status failureBody ''upstream_http'')
                  (on_trace (put ''error_class'' (MStr ''upstream_http_error''))
                    (observe_failure k ''UPSTREAM_MODEL_ERROR'' status failureBody s))))
           else proceed (PRelay r) s))"

section \<open>The relay\<close>

definition relay_env :: "gw_program \<Rightarrow> handler \<Rightarrow> upstream_response \<Rightarrow> sse_env" where
  "relay_env c h r = \<lparr>se_StatusCode = us_StatusCode r, se_Headers = us_Headers r, se_RequestID = hd_requestID h,
     se_ErrorHTTPStatus = gc_ErrorHTTPStatus c, se_Heartbeat = gc_StreamHeartbeat c\<rparr>"

definition is_event_stream :: "upstream_response \<Rightarrow> bool" where
  "is_event_stream r = contains (to_lower (header_get (us_Headers r) ''Content-Type'')) ''text/event-stream''"

text \<open>What follows a relay that ended with a risk code, or without one.\<close>

definition relay_done ::
    "gw_program \<Rightarrow> nat \<Rightarrow> req_env \<Rightarrow> string \<Rightarrow> string \<Rightarrow> string \<Rightarrow> int \<Rightarrow> int \<Rightarrow> int \<Rightarrow> string \<Rightarrow> bool \<Rightarrow> serving \<Rightarrow> serving" where
  "relay_done c k q learned stage riskCode status upstreamStatus bytes evidence logical s =
     (if riskCode = [] then leave (finish c k q DecisionAllow [] status upstreamStatus bytes s)
      else
        (let s1 = (if riskCode = learned then observe_failure k riskCode upstreamStatus evidence s else s);
             s2 = on_trace (failure_trace c riskCode upstreamStatus evidence
                    (if riskCode = ''CLIENT_DISCONNECT'' then ''client_disconnect'' else stage)) s1;
             s3 = (if logical then on_trace (put ''stream_error_semantics'' (MStr ''logical_555_after_headers'')) s2 else s2)
         in leave (finish c k q ''error'' riskCode status upstreamStatus bytes s3)))"

definition step_stream :: "gw_program \<Rightarrow> nat \<Rightarrow> req_env \<Rightarrow> upstream_response \<Rightarrow> serving \<Rightarrow> serving" where
  "step_stream c k q r s =
     (case s of (g, h) \<Rightarrow>
        (case proxySSE (relay_env c h r) (hd_w h) (us_Events r) of
           (Finished res, st) \<Rightarrow>
             relay_done c k q ''UPSTREAM_STREAM_ERROR'' ''upstream_stream'' (sr_riskCode res) (sr_status res)
               (us_StatusCode r) (sr_total res) (sr_evidence res)
               (sr_committed res \<and> sr_riskCode res \<in> {''UPSTREAM_STREAM_ERROR'', ''UPSTREAM_STREAM_INTERRUPTED'',
                  ''UPSTREAM_STREAM_TIMEOUT''})
               (on_trace (\<lambda>t. recordUpstreamObservationMetadata t (ss_obs st))
                 (on_trace (put_all [(''upstream_timeout_scope'', MStr ''response_headers_then_stream_idle''),
                    (''upstream_stream_idle_timeout_ms'', MInt (timeout_ms (hd_route h)))])
                  (on_writer (\<lambda>w. ss_w st) s)))
         | _ \<Rightarrow> s))"

definition step_buffered :: "gw_program \<Rightarrow> nat \<Rightarrow> req_env \<Rightarrow> upstream_response \<Rightarrow> serving \<Rightarrow> serving" where
  "step_buffered c k q r s =
     (case s of (g, h) \<Rightarrow>
        (case proxyBuffered (gc_ResponseInspectMaxBytes c) (relay_env c h r) (hd_w h) (us_Body r) (us_BodyError r)
                no_observation of
           (res, w, ob) \<Rightarrow>
             relay_done c k q ''UPSTREAM_MODEL_ERROR'' ''upstream_response'' (br_riskCode res) (br_status res)
               (us_StatusCode r) (br_total res) (br_evidence res) False
               (on_trace (\<lambda>t. recordUpstreamObservationMetadata t ob)
                 (on_trace (put ''upstream_timeout_scope'' (MStr ''full_response'')) (on_writer (\<lambda>_. w) s)))))"

definition step_relay :: "gw_program \<Rightarrow> nat \<Rightarrow> req_env \<Rightarrow> upstream_response \<Rightarrow> serving \<Rightarrow> serving" where
  "step_relay c k q r s = (if is_event_stream r then step_stream c k q r s else step_buffered c k q r s)"

section \<open>The deferred calls, and the machine\<close>

definition step_leave :: "req_env \<Rightarrow> serving \<Rightarrow> serving" where
  "step_leave q s =
     (case s of (g, h) \<Rightarrow>
        if hd_slot h \<noteq> NoSlot
        then (g\<lparr>gw_guard := release_slot (qe_releaseUp q) (hd_slot h) (gw_guard g)\<rparr>, h\<lparr>hd_slot := NoSlot\<rparr>)
        else if hd_large h then (g\<lparr>gw_large := gw_large g - 1\<rparr>, h\<lparr>hd_large := False\<rparr>)
        else if hd_global h then (g\<lparr>gw_global := gw_global g - 1\<rparr>, h\<lparr>hd_global := False\<rparr>)
        else (g, h\<lparr>hd_phase := PLeft\<rparr>))"

definition serve :: "gw_program \<Rightarrow> nat \<Rightarrow> req_env \<Rightarrow> serving \<Rightarrow> serving" where
  "serve c k q s =
     (case hd_phase (snd s) of
        PStart \<Rightarrow> step_start c k q s
      | PLookup \<Rightarrow> step_lookup c k q s
      | PLoad \<Rightarrow> step_load c k q s
      | PAuthorize \<Rightarrow> step_authorize c k q s
      | PRate \<Rightarrow> step_rate c k q s
      | PGlobal \<Rightarrow> step_global c k q s
      | PLarge \<Rightarrow> step_large c k q s
      | PRead \<Rightarrow> step_read c k q s
      | PAudit \<Rightarrow> step_audit c k q s
      | PAcquire \<Rightarrow> step_acquire c k q s
      | PSend \<Rightarrow> step_send c k q s
      | PAwait \<Rightarrow> step_await c k q s
      | PRelay r \<Rightarrow> step_relay c k q r s
      | PLeaving \<Rightarrow> step_leave q s
      | PLeft \<Rightarrow> s)"

text \<open>
  Any number of requests, an administrator who invalidates routes, and whoever else uses the same
  Redis (other gateways, expiry).
\<close>

type_synonym system = "gateway \<times> (nat \<rightharpoonup> handler)"

inductive gw_step :: "gw_program \<Rightarrow> (nat \<Rightarrow> req_env) \<Rightarrow> system \<Rightarrow> system \<Rightarrow> bool"
  for c :: gw_program and env :: "nat \<Rightarrow> req_env" where
  Arrive: "hs k = None \<Longrightarrow> gw_step c env (g, hs) (g, hs(k \<mapsto> fresh_handler (env k)))"
| Serve: "hs k = Some h \<Longrightarrow> serve c k (env k) (g, h) = (g', h') \<Longrightarrow> gw_step c env (g, hs) (g', hs(k \<mapsto> h'))"
| Invalidate: "gw_step c env (g, hs) (g\<lparr>gw_cache := InvalidateRoute slug (gw_cache g)\<rparr>, hs)"
| Elsewhere: "gw_step c env (g, hs) (g\<lparr>gw_guard := guard\<rparr>, hs)"

inductive_cases gw_stepE: "gw_step c env s s'"

definition gw_start :: "system \<Rightarrow> bool" where
  "gw_start s \<longleftrightarrow> (case s of (g, hs) \<Rightarrow> gw_global g = 0 \<and> gw_large g = 0 \<and> gw_cache g = Map.empty \<and> gw_submitted g = [] \<and> gw_sent g = []
     \<and> gw_observed g = [] \<and> hs = Map.empty)"

abbreviation gw_reach :: "gw_program \<Rightarrow> (nat \<Rightarrow> req_env) \<Rightarrow> system \<Rightarrow> bool" where
  "gw_reach c env \<equiv> reachable gw_start (gw_step c env)"

end
