(* ===== verification/Gateway_Safety.thy ===== *)
theory Gateway_Safety
  imports Gateway_Server
begin

text \<open>
  What the machine of \<open>Gateway_Server\<close> guarantees: the typing of a request's state, the tokens of
  the two channels, one trace and at most one upstream request each, what must hold before a
  request is forwarded, the refinement of a small life-cycle specification, and termination.
\<close>

section \<open>What the combinators change\<close>

named_theorems serving_simps \<open>projections of the small operations on a gateway and a handler\<close>

lemma leave_simps [serving_simps]:
  "fst (leave s) = fst s" "hd_phase (snd (leave s)) = PLeaving" "hd_finished (snd (leave s)) = hd_finished (snd s)"
  "hd_slot (snd (leave s)) = hd_slot (snd s)" "hd_large (snd (leave s)) = hd_large (snd s)"
  "hd_global (snd (leave s)) = hd_global (snd s)" "hd_route (snd (leave s)) = hd_route (snd s)"
  "hd_body (snd (leave s)) = hd_body (snd s)" "hd_requestID (snd (leave s)) = hd_requestID (snd s)"
  by (simp_all add: leave_def split: prod.split)

lemma proceed_simps [serving_simps]:
  "fst (proceed p s) = fst s" "hd_phase (snd (proceed p s)) = p" "hd_finished (snd (proceed p s)) = hd_finished (snd s)"
  "hd_slot (snd (proceed p s)) = hd_slot (snd s)" "hd_large (snd (proceed p s)) = hd_large (snd s)"
  "hd_global (snd (proceed p s)) = hd_global (snd s)" "hd_route (snd (proceed p s)) = hd_route (snd s)"
  "hd_body (snd (proceed p s)) = hd_body (snd s)" "hd_requestID (snd (proceed p s)) = hd_requestID (snd s)"
  by (simp_all add: proceed_def split: prod.split)

lemma on_writer_simps [serving_simps]:
  "fst (on_writer f s) = fst s" "hd_phase (snd (on_writer f s)) = hd_phase (snd s)"
  "hd_finished (snd (on_writer f s)) = hd_finished (snd s)"
  "hd_slot (snd (on_writer f s)) = hd_slot (snd s)" "hd_large (snd (on_writer f s)) = hd_large (snd s)"
  "hd_global (snd (on_writer f s)) = hd_global (snd s)" "hd_route (snd (on_writer f s)) = hd_route (snd s)"
  "hd_body (snd (on_writer f s)) = hd_body (snd s)" "hd_requestID (snd (on_writer f s)) = hd_requestID (snd s)"
  by (simp_all add: on_writer_def split: prod.split)

lemma on_trace_simps [serving_simps]:
  "fst (on_trace f s) = fst s" "hd_phase (snd (on_trace f s)) = hd_phase (snd s)"
  "hd_finished (snd (on_trace f s)) = hd_finished (snd s)"
  "hd_slot (snd (on_trace f s)) = hd_slot (snd s)" "hd_large (snd (on_trace f s)) = hd_large (snd s)"
  "hd_global (snd (on_trace f s)) = hd_global (snd s)" "hd_route (snd (on_trace f s)) = hd_route (snd s)"
  "hd_body (snd (on_trace f s)) = hd_body (snd s)" "hd_requestID (snd (on_trace f s)) = hd_requestID (snd s)"
  by (simp_all add: on_trace_def split: prod.split)

lemma observe_failure_simps [serving_simps]:
  "snd (observe_failure k rc st ev s) = snd s"
  "gw_global (fst (observe_failure k rc st ev s)) = gw_global (fst s)"
  "gw_large (fst (observe_failure k rc st ev s)) = gw_large (fst s)"
  "gw_sent (fst (observe_failure k rc st ev s)) = gw_sent (fst s)"
  "gw_submitted (fst (observe_failure k rc st ev s)) = gw_submitted (fst s)"
  "gw_cache (fst (observe_failure k rc st ev s)) = gw_cache (fst s)"
  by (simp_all add: observe_failure_def split: prod.split)

abbreviation submitters :: "serving \<Rightarrow> nat list" where
  "submitters s \<equiv> map fst (gw_submitted (fst s))"

lemma finish_simps [serving_simps]:
  "hd_phase (snd (finish c k q d rc st us b s)) = hd_phase (snd s)"
  "hd_finished (snd (finish c k q d rc st us b s)) = True"
  "hd_slot (snd (finish c k q d rc st us b s)) = hd_slot (snd s)"
  "hd_large (snd (finish c k q d rc st us b s)) = hd_large (snd s)"
  "hd_global (snd (finish c k q d rc st us b s)) = hd_global (snd s)"
  "hd_route (snd (finish c k q d rc st us b s)) = hd_route (snd s)"
  "hd_body (snd (finish c k q d rc st us b s)) = hd_body (snd s)"
  "hd_requestID (snd (finish c k q d rc st us b s)) = hd_requestID (snd s)"
  "gw_global (fst (finish c k q d rc st us b s)) = gw_global (fst s)"
  "gw_large (fst (finish c k q d rc st us b s)) = gw_large (fst s)"
  "gw_sent (fst (finish c k q d rc st us b s)) = gw_sent (fst s)"
  "gw_cache (fst (finish c k q d rc st us b s)) = gw_cache (fst s)"
  "submitters (finish c k q d rc st us b s) = submitters s @ (if hd_finished (snd s) then [] else [k])"
  by (simp_all add: finish_def Let_def split: prod.split)

lemma refuse_simps [serving_simps]:
  "hd_phase (snd (refuse c k q code st msg s)) = PLeaving" "hd_finished (snd (refuse c k q code st msg s)) = True"
  "hd_slot (snd (refuse c k q code st msg s)) = hd_slot (snd s)"
  "hd_large (snd (refuse c k q code st msg s)) = hd_large (snd s)"
  "hd_global (snd (refuse c k q code st msg s)) = hd_global (snd s)"
  "gw_global (fst (refuse c k q code st msg s)) = gw_global (fst s)"
  "gw_large (fst (refuse c k q code st msg s)) = gw_large (fst s)"
  "gw_sent (fst (refuse c k q code st msg s)) = gw_sent (fst s)"
  "gw_cache (fst (refuse c k q code st msg s)) = gw_cache (fst s)"
  "submitters (refuse c k q code st msg s) = submitters s @ (if hd_finished (snd s) then [] else [k])"
  by (simp_all add: refuse_def Let_def serving_simps)

lemma deny_simps [serving_simps]:
  "hd_phase (snd (deny c k q d code us msg s)) = PLeaving" "hd_finished (snd (deny c k q d code us msg s)) = True"
  "hd_slot (snd (deny c k q d code us msg s)) = hd_slot (snd s)"
  "hd_large (snd (deny c k q d code us msg s)) = hd_large (snd s)"
  "hd_global (snd (deny c k q d code us msg s)) = hd_global (snd s)"
  "gw_global (fst (deny c k q d code us msg s)) = gw_global (fst s)"
  "gw_large (fst (deny c k q d code us msg s)) = gw_large (fst s)"
  "gw_sent (fst (deny c k q d code us msg s)) = gw_sent (fst s)"
  "gw_cache (fst (deny c k q d code us msg s)) = gw_cache (fst s)"
  "submitters (deny c k q d code us msg s) = submitters s @ (if hd_finished (snd s) then [] else [k])"
  by (simp_all add: deny_def Let_def serving_simps)

lemma refuse_too_large_simps [serving_simps]:
  "hd_phase (snd (refuse_too_large c k q b ex s)) = PLeaving" "hd_finished (snd (refuse_too_large c k q b ex s)) = True"
  "hd_slot (snd (refuse_too_large c k q b ex s)) = hd_slot (snd s)"
  "hd_large (snd (refuse_too_large c k q b ex s)) = hd_large (snd s)"
  "hd_global (snd (refuse_too_large c k q b ex s)) = hd_global (snd s)"
  "gw_global (fst (refuse_too_large c k q b ex s)) = gw_global (fst s)"
  "gw_large (fst (refuse_too_large c k q b ex s)) = gw_large (fst s)"
  "gw_sent (fst (refuse_too_large c k q b ex s)) = gw_sent (fst s)"
  "gw_cache (fst (refuse_too_large c k q b ex s)) = gw_cache (fst s)"
  "submitters (refuse_too_large c k q b ex s) = submitters s @ (if hd_finished (snd s) then [] else [k])"
  by (simp_all add: refuse_too_large_def Let_def serving_simps)

lemma relay_done_simps [serving_simps]:
  "hd_phase (snd (relay_done c k q l sg rc st us b ev lg s)) = PLeaving"
  "hd_finished (snd (relay_done c k q l sg rc st us b ev lg s)) = True"
  "hd_slot (snd (relay_done c k q l sg rc st us b ev lg s)) = hd_slot (snd s)"
  "hd_large (snd (relay_done c k q l sg rc st us b ev lg s)) = hd_large (snd s)"
  "hd_global (snd (relay_done c k q l sg rc st us b ev lg s)) = hd_global (snd s)"
  "gw_global (fst (relay_done c k q l sg rc st us b ev lg s)) = gw_global (fst s)"
  "gw_large (fst (relay_done c k q l sg rc st us b ev lg s)) = gw_large (fst s)"
  "gw_sent (fst (relay_done c k q l sg rc st us b ev lg s)) = gw_sent (fst s)"
  "gw_cache (fst (relay_done c k q l sg rc st us b ev lg s)) = gw_cache (fst s)"
  "submitters (relay_done c k q l sg rc st us b ev lg s) = submitters s @ (if hd_finished (snd s) then [] else [k])"
  by (simp_all add: relay_done_def Let_def serving_simps)

section \<open>The typing of a request\<close>

text \<open>A request without a method or a slug the gateway serves is answered before its trace exists.\<close>

definition untraced :: "req_env \<Rightarrow> bool" where
  "untraced q \<longleftrightarrow> rq_Method (qe_request q) = ''CONNECT'' \<or> rq_Method (qe_request q) = ''TRACE''
     \<or> rq_Route (qe_request q) = []"

datatype stage = Waiting | Admitted | Cleared | Forwarded | Closing | Gone

fun stage_of :: "phase \<Rightarrow> stage" where
  "stage_of PAudit = Admitted"
| "stage_of PLarge = Admitted"
| "stage_of PRead = Admitted"
| "stage_of PAcquire = Cleared"
| "stage_of PSend = Cleared"
| "stage_of PAwait = Forwarded"
| "stage_of (PRelay r) = Forwarded"
| "stage_of PLeaving = Closing"
| "stage_of PLeft = Gone"
| "stage_of PStart = Waiting"
| "stage_of PLookup = Waiting"
| "stage_of PLoad = Waiting"
| "stage_of PAuthorize = Waiting"
| "stage_of PRate = Waiting"
| "stage_of PGlobal = Waiting"

abbreviation stage :: "handler \<Rightarrow> stage" where
  "stage h \<equiv> stage_of (hd_phase h)"

text \<open>Which of the tokens and the trace each phase comes with.\<close>

definition well_phased :: "req_env \<Rightarrow> handler \<Rightarrow> bool" where
  "well_phased q h \<longleftrightarrow>
     (untraced q \<longrightarrow> hd_phase h \<in> {PStart, PLeaving, PLeft}) \<and>
     (case stage h of
        Waiting \<Rightarrow> \<not> hd_finished h \<and> hd_slot h = NoSlot \<and> \<not> hd_large h \<and> \<not> hd_global h
      | Admitted \<Rightarrow> \<not> hd_finished h \<and> hd_slot h = NoSlot \<and> hd_global h \<and> (hd_phase h = PLarge \<longrightarrow> \<not> hd_large h)
      | Cleared \<Rightarrow> \<not> hd_finished h \<and> hd_global h \<and> (hd_phase h = PAcquire \<longrightarrow> hd_slot h = NoSlot)
      | Forwarded \<Rightarrow> \<not> hd_finished h \<and> hd_global h
      | Closing \<Rightarrow> hd_finished h = (\<not> untraced q) \<and> (hd_slot h \<noteq> NoSlot \<or> hd_large h \<longrightarrow> hd_global h)
      | Gone \<Rightarrow> hd_finished h = (\<not> untraced q) \<and> hd_slot h = NoSlot \<and> \<not> hd_large h \<and> \<not> hd_global h)"

lemma fresh_well_phased: "well_phased q (fresh_handler q)"
  by (simp add: well_phased_def fresh_handler_def)

section \<open>What one step does to the shared state\<close>

definition same_tokens :: "serving \<Rightarrow> serving \<Rightarrow> bool" where
  "same_tokens s s' \<longleftrightarrow> hd_large (snd s') = hd_large (snd s) \<and> hd_global (snd s') = hd_global (snd s)
     \<and> gw_global (fst s') = gw_global (fst s) \<and> gw_large (fst s') = gw_large (fst s)"

definition same_history :: "serving \<Rightarrow> serving \<Rightarrow> bool" where
  "same_history s s' \<longleftrightarrow> gw_sent (fst s') = gw_sent (fst s) \<and> submitters s' = submitters s
     \<and> hd_finished (snd s') = hd_finished (snd s)"

inductive effect :: "gw_program \<Rightarrow> nat \<Rightarrow> req_env \<Rightarrow> serving \<Rightarrow> serving \<Rightarrow> bool"
  for c :: gw_program and k :: nat and q :: req_env where
  Quiet: "stage (snd s') = stage (snd s) \<Longrightarrow> same_tokens s s' \<Longrightarrow> same_history s s' \<Longrightarrow> effect c k q s s'"
| TurnAway: "untraced q \<Longrightarrow> stage (snd s) = Waiting \<Longrightarrow> stage (snd s') = Closing \<Longrightarrow> same_tokens s s' \<Longrightarrow>
    same_history s s' \<Longrightarrow> effect c k q s s'"
| Close: "\<not> untraced q \<Longrightarrow> stage (snd s) \<notin> {Closing, Gone} \<Longrightarrow> stage (snd s') = Closing \<Longrightarrow> same_tokens s s' \<Longrightarrow>
    gw_sent (fst s') = gw_sent (fst s) \<Longrightarrow> \<not> hd_finished (snd s) \<Longrightarrow> hd_finished (snd s') \<Longrightarrow>
    submitters s' = submitters s @ [k] \<Longrightarrow> effect c k q s s'"
| Admit: "\<not> untraced q \<Longrightarrow> stage (snd s) = Waiting \<Longrightarrow> stage (snd s') = Admitted \<Longrightarrow> same_history s s' \<Longrightarrow>
    gw_global (fst s) < gc_GlobalMaxConcurrency c \<Longrightarrow> gw_global (fst s') = gw_global (fst s) + 1 \<Longrightarrow>
    \<not> hd_global (snd s) \<Longrightarrow> hd_global (snd s') \<Longrightarrow> hd_large (snd s') = hd_large (snd s) \<Longrightarrow>
    gw_large (fst s') = gw_large (fst s) \<Longrightarrow> effect c k q s s'"
| AdmitLarge: "stage (snd s) = Admitted \<Longrightarrow> stage (snd s') = Admitted \<Longrightarrow> same_history s s' \<Longrightarrow>
    gw_large (fst s) < gc_LargeRequestMaxConcurrency c \<Longrightarrow> gw_large (fst s') = gw_large (fst s) + 1 \<Longrightarrow>
    \<not> hd_large (snd s) \<Longrightarrow> hd_large (snd s') \<Longrightarrow> hd_global (snd s') = hd_global (snd s) \<Longrightarrow>
    gw_global (fst s') = gw_global (fst s) \<Longrightarrow> effect c k q s s'"
| Clear: "stage (snd s) = Admitted \<Longrightarrow> stage (snd s') = Cleared \<Longrightarrow> same_tokens s s' \<Longrightarrow> same_history s s' \<Longrightarrow>
    effect c k q s s'"
| Forward: "stage (snd s) = Cleared \<Longrightarrow> stage (snd s') = Forwarded \<Longrightarrow> same_tokens s s' \<Longrightarrow>
    gw_sent (fst s') = gw_sent (fst s) @ [(k, up)] \<Longrightarrow> submitters s' = submitters s \<Longrightarrow>
    hd_finished (snd s') = hd_finished (snd s) \<Longrightarrow> effect c k q s s'"
| FreeLarge: "stage (snd s) = Closing \<Longrightarrow> stage (snd s') = Closing \<Longrightarrow> same_history s s' \<Longrightarrow>
    hd_large (snd s) \<Longrightarrow> \<not> hd_large (snd s') \<Longrightarrow> gw_large (fst s') = gw_large (fst s) - 1 \<Longrightarrow>
    hd_global (snd s') = hd_global (snd s) \<Longrightarrow> gw_global (fst s') = gw_global (fst s) \<Longrightarrow> effect c k q s s'"
| FreeGlobal: "stage (snd s) = Closing \<Longrightarrow> stage (snd s') = Closing \<Longrightarrow> same_history s s' \<Longrightarrow>
    \<not> hd_large (snd s) \<Longrightarrow> hd_global (snd s) \<Longrightarrow> \<not> hd_global (snd s') \<Longrightarrow>
    gw_global (fst s') = gw_global (fst s) - 1 \<Longrightarrow>
    hd_large (snd s') = hd_large (snd s) \<Longrightarrow> gw_large (fst s') = gw_large (fst s) \<Longrightarrow> effect c k q s s'"
| Depart: "stage (snd s) = Closing \<Longrightarrow> \<not> hd_large (snd s) \<Longrightarrow> \<not> hd_global (snd s) \<Longrightarrow> stage (snd s') = Gone \<Longrightarrow>
    same_tokens s s' \<Longrightarrow> same_history s s' \<Longrightarrow> effect c k q s s'"

lemma start_effect:
  "hd_phase h = PStart \<Longrightarrow> well_phased q h \<Longrightarrow> effect c k q (g, h) (step_start c k q (g, h))"
  by (cases "untraced q")
    (auto simp: step_start_def Let_def serving_simps same_tokens_def same_history_def untraced_def
      intro: effect.Quiet effect.TurnAway split: prod.split if_splits)

lemmas effect_simps = serving_simps same_tokens_def same_history_def

lemma no_such_route_effect:
  assumes "stage (snd s) = Waiting" and "\<not> hd_finished (snd s)" and "\<not> untraced q"
  shows "effect c k q s (no_such_route c k q s)"
  by (rule effect.Close) (use assms in \<open>simp_all add: no_such_route_def effect_simps\<close>)

lemma route_found_effect:
  assumes "stage (snd s) = Waiting" and "\<not> hd_finished (snd s)" and "\<not> untraced q"
  shows "effect c k q s (route_found c k q route (fst s\<lparr>gw_cache := cache\<rparr>, snd s))"
proof (cases "rt_Enabled route")
  case True
  show ?thesis
    by (rule effect.Quiet) (use True assms in \<open>simp_all add: route_found_def effect_simps\<close>)
next
  case False
  show ?thesis
    by (rule effect.Close) (use False assms in \<open>simp_all add: route_found_def no_such_route_def effect_simps\<close>)
qed

lemma lookup_effect:
  assumes "hd_phase h = PLookup" and "well_phased q h"
  shows "effect c k q (g, h) (step_lookup c k q (g, h))"
proof (cases "cached_route (gw_cache g) (qe_lookupTime q) (rq_Route (qe_request q))")
  case None
  show ?thesis
    by (rule effect.Quiet) (use None assms in \<open>simp_all add: step_lookup_def effect_simps\<close>)
next
  case (Some route)
  with assms route_found_effect [of "(g, h)" q c k route "gw_cache g"] show ?thesis
    by (auto simp: step_lookup_def well_phased_def)
qed

lemma load_effect:
  assumes "hd_phase h = PLoad" and "well_phased q h"
  shows "effect c k q (g, h) (step_load c k q (g, h))"
proof (cases "qe_db q")
  case None
  with assms no_such_route_effect [of "(g, h)" q c k] show ?thesis by (auto simp: step_load_def well_phased_def)
next
  case (Some route)
  with assms route_found_effect [of "(g, h)" q c k route] show ?thesis
    by (auto simp: step_load_def well_phased_def)
qed

lemma authorize_effect:
  assumes "hd_phase h = PAuthorize" and "well_phased q h"
  shows "effect c k q (g, h) (step_authorize c k q (g, h))"
proof (cases "authorized c (qe_request q) (hd_route h)")
  case True
  show ?thesis by (rule effect.Quiet) (use True assms in \<open>simp_all add: step_authorize_def effect_simps\<close>)
next
  case False
  show ?thesis
    by (rule effect.Close) (use False assms in \<open>auto simp: step_authorize_def well_phased_def effect_simps\<close>)
qed

lemma rate_effect:
  assumes "hd_phase h = PRate" and "well_phased q h"
  shows "effect c k q (g, h) (step_rate c k q (g, h))"
proof -
  obtain guard ok where a: "Allow (qe_rateUp q) (qe_rateMs q) (qe_rateNs q) (rate_key c q (hd_trace h))
      (rt_RateLimitRPS (hd_route h)) (rt_RateLimitBurst (hd_route h)) (gw_guard g) = (guard, ok)" by fastforce
  show ?thesis
  proof (cases ok)
    case True
    show ?thesis by (rule effect.Quiet) (use True a assms in \<open>simp_all add: step_rate_def effect_simps\<close>)
  next
    case False
    show ?thesis
      by (rule effect.Close)
        (use False a assms in \<open>auto simp: step_rate_def well_phased_def effect_simps Let_def\<close>)
  qed
qed

lemma global_effect:
  assumes "hd_phase h = PGlobal" and "well_phased q h"
  shows "effect c k q (g, h) (step_global c k q (g, h))"
proof (cases "gw_global g < gc_GlobalMaxConcurrency c")
  case True
  show ?thesis
    by (rule effect.Admit)
      (use True assms in \<open>auto simp: step_global_def take_token_def well_phased_def effect_simps\<close>)
next
  case False
  show ?thesis
    by (rule effect.Close)
      (use False assms in \<open>auto simp: step_global_def take_token_def well_phased_def effect_simps\<close>)
qed

lemma refuse_too_large_effect:
  assumes "\<not> hd_finished (snd s)" and "stage (snd s) = Admitted" and "\<not> untraced q"
    and "fst s1 = fst s" and "hd_finished (snd s1) = hd_finished (snd s)" and "hd_large (snd s1) = hd_large (snd s)"
    and "hd_global (snd s1) = hd_global (snd s)"
  shows "effect c k q s (refuse_too_large c k q bytes exact s1)"
  by (rule effect.Close) (use assms in \<open>simp_all add: effect_simps\<close>)

lemma large_effect:
  assumes "hd_phase h = PLarge" and "well_phased q h"
  shows "effect c k q (g, h) (step_large c k q (g, h))"
proof -
  let ?pol = "body_policy c q" and ?len = "rq_ContentLength (qe_request q)"
  let ?s = "on_writer (limit_headers ?pol) (on_trace (policy_trace ?pol) (g, h))"
  consider (known) "ExceedsKnownLength ?pol ?len"
    | (small) "\<not> ExceedsKnownLength ?pol ?len" "\<not> requestBodyNeedsLargeSlot ?len (gc_LargeRequestThresholdBytes c)"
    | (large) "\<not> ExceedsKnownLength ?pol ?len" "requestBodyNeedsLargeSlot ?len (gc_LargeRequestThresholdBytes c)"
    by blast
  then show ?thesis
  proof cases
    case known
    with assms show ?thesis
      by (auto simp: step_large_def Let_def well_phased_def effect_simps intro!: refuse_too_large_effect)
  next
    case small
    show ?thesis
      by (rule effect.Quiet) (use small assms in \<open>simp_all add: step_large_def Let_def effect_simps\<close>)
  next
    case large
    obtain g1 h1 where s: "?s = (g1, h1)" by fastforce
    then have same: "g1 = g" "hd_finished h1 = hd_finished h" "hd_global h1 = hd_global h" "hd_large h1 = hd_large h"
      by (metis effect_simps fst_conv snd_conv)+
    show ?thesis
    proof (cases "gw_large g < gc_LargeRequestMaxConcurrency c")
      case True
      show ?thesis
        by (rule effect.AdmitLarge)
          (use True large s same assms in \<open>simp_all add: step_large_def Let_def take_token_def well_phased_def effect_simps\<close>)
    next
      case False
      show ?thesis
        by (rule effect.Close)
          (use False large s same assms in \<open>auto simp: step_large_def Let_def take_token_def well_phased_def effect_simps\<close>)
    qed
  qed
qed

lemma read_effect:
  assumes "hd_phase h = PRead" and "well_phased q h"
  shows "effect c k q (g, h) (step_read c k q (g, h))"
proof -
  let ?limit = "EffectiveLimitBytes (body_policy c q)"
  obtain body how where r: "read_body ?limit (qe_request q) = (body, how)" by fastforce
  show ?thesis
  proof (cases how)
    case ReadAll
    let ?s = "on_trace (\<lambda>t. store_payload c q (hd_requestID h) body
      (t\<lparr>te_RequestBytes := int (length body), te_Model := ExtractRequestedModel body\<rparr>)) (g, h)"
    have "hd_finished (snd ?s) = hd_finished h" "hd_large (snd ?s) = hd_large h" "hd_global (snd ?s) = hd_global h"
      "fst ?s = g" by (simp_all add: effect_simps)
    moreover obtain g1 h1 where "?s = (g1, h1)" by fastforce
    ultimately show ?thesis
      by (intro effect.Quiet) (use ReadAll r assms in \<open>simp_all add: step_read_def Let_def effect_simps\<close>)
  next
    case TooManyBytes
    with r assms show ?thesis
      by (auto simp: step_read_def Let_def well_phased_def intro!: refuse_too_large_effect)
  next
    case (ReadFailure err)
    show ?thesis
      by (rule effect.Close)
        (use ReadFailure r assms in \<open>auto simp: step_read_def Let_def well_phased_def effect_simps\<close>)
  qed
qed

lemma audit_effect:
  assumes "hd_phase h = PAudit" and "well_phased q h"
  shows "effect c k q (g, h) (step_audit c k q (g, h))"
proof -
  obtain r ms where a: "qe_audit q (hd_route h) (hd_body h) = (r, ms)" by fastforce
  consider (block) "ad_Decision (ar_Decision r) = DecisionBlock"
    | (gone) "ad_Decision (ar_Decision r) \<noteq> DecisionBlock" "qe_clientGone q"
    | (clear) "ad_Decision (ar_Decision r) \<noteq> DecisionBlock" "\<not> qe_clientGone q" by blast
  then show ?thesis
  proof cases
    case block
    show ?thesis
      by (rule effect.Close) (use block a assms in \<open>auto simp: step_audit_def Let_def well_phased_def effect_simps\<close>)
  next
    case gone
    show ?thesis
      by (rule effect.Close) (use gone a assms in \<open>auto simp: step_audit_def Let_def well_phased_def effect_simps\<close>)
  next
    case clear
    show ?thesis
      by (rule effect.Clear) (use clear a assms in \<open>simp_all add: step_audit_def Let_def effect_simps\<close>)
  qed
qed

lemma acquire_effect:
  assumes "hd_phase h = PAcquire" and "well_phased q h"
  shows "effect c k q (g, h) (step_acquire c k q (g, h))"
proof -
  obtain guard sl where a: "Acquire (qe_acquireUp q) (qe_acquireMs q) (qe_token q) (''route:'' @ rq_Route (qe_request q))
      (rt_MaxConcurrency (hd_route h)) (timeout_ms (hd_route h) + 30000) (gw_guard g) = (guard, sl)" by fastforce
  show ?thesis
  proof (cases sl)
    case None
    show ?thesis
      by (rule effect.Close) (use None a assms in \<open>auto simp: step_acquire_def well_phased_def effect_simps\<close>)
  next
    case (Some t)
    show ?thesis
      by (rule effect.Quiet) (use Some a assms in \<open>simp_all add: step_acquire_def effect_simps\<close>)
  qed
qed

text \<open>What \<open>buildUpstreamRequest\<close> makes of a request.\<close>

definition built :: "gw_program \<Rightarrow> req_env \<Rightarrow> Route \<Rightarrow> string \<Rightarrow> string \<Rightarrow> build_error + upstream_request" where
  "built c q route body requestID =
     buildUpstreamRequest (gl_parse c) (gl_new_request c)
       (\<lambda>scope ct. case Decrypt (gl_cy c) (gl_masterKey c) scope ct of Inl e \<Rightarrow> None | Inr p \<Rightarrow> Some p)
       (qe_request q) route body requestID"

lemma send_effect:
  assumes "hd_phase h = PSend" and "well_phased q h"
  shows "effect c k q (g, h) (step_send c k q (g, h))"
proof (cases "built c q (hd_route h) (hd_body h) (hd_requestID h)")
  case (Inl err)
  show ?thesis
    by (rule effect.Close)
      (use Inl assms in \<open>auto simp: step_send_def built_def well_phased_def effect_simps\<close>)
next
  case (Inr up)
  show ?thesis
    by (rule effect.Forward [where up = up]) (use Inr assms in \<open>simp_all add: step_send_def built_def effect_simps\<close>)
qed

lemma closing_effect:
  assumes "stage (snd s) = Forwarded" and "well_phased q (snd s)"
    and "stage (snd s') = Closing" and "same_tokens s s'" and "gw_sent (fst s') = gw_sent (fst s)"
    and "hd_finished (snd s')" and "submitters s' = submitters s @ [k]"
  shows "effect c k q s s'"
  by (rule effect.Close) (use assms in \<open>auto simp: well_phased_def\<close>)

lemma await_effect:
  assumes "hd_phase h = PAwait" and "well_phased q h"
  shows "effect c k q (g, h) (step_await c k q (g, h))"
proof -
  have f: "\<not> hd_finished h" using assms by (simp add: well_phased_def)
  show ?thesis
  proof (cases "qe_do q")
    case (DoFailed cause dl ended)
    with assms f show ?thesis
      by (intro closing_effect) (simp_all add: step_await_def Let_def effect_simps)
  next
    case (DoAnswered r)
    show ?thesis
    proof (cases "us_StatusCode r < 200 \<or> us_StatusCode r \<ge> 300")
      case True
      with DoAnswered assms f show ?thesis
        by (intro closing_effect) (simp_all add: step_await_def Let_def effect_simps)
    next
      case False
      show ?thesis
        by (rule effect.Quiet) (use False DoAnswered assms in \<open>simp_all add: step_await_def Let_def effect_simps\<close>)
    qed
  qed
qed

lemma relay_effect:
  assumes "hd_phase h = PRelay r" and "well_phased q h"
  shows "effect c k q (g, h) (step_relay c k q r (g, h))"
proof -
  have f: "\<not> hd_finished h" using assms by (simp add: well_phased_def)
  show ?thesis
  proof (cases "is_event_stream r")
    case True
    obtain ph st where p: "proxySSE (relay_env c h r) (hd_w h) (us_Events r) = (ph, st)" by fastforce
    have "effect c k q (g, h) (g, h)"
      by (rule effect.Quiet) (simp_all add: same_tokens_def same_history_def)
    with True p assms f show ?thesis
      by (cases ph)
        (auto simp: step_relay_def step_stream_def effect_simps intro!: closing_effect)
  next
    case False
    obtain res w ob where p: "proxyBuffered (gc_ResponseInspectMaxBytes c) (relay_env c h r) (hd_w h) (us_Body r)
        (us_BodyError r) no_observation = (res, w, ob)" by (metis prod_cases3)
    with False assms f show ?thesis
      by (intro closing_effect) (simp_all add: step_relay_def step_buffered_def effect_simps)
  qed
qed

lemma leave_effect:
  assumes "hd_phase h = PLeaving" and "well_phased q h"
  shows "effect c k q (g, h) (step_leave q (g, h))"
proof -
  consider (slot) "hd_slot h \<noteq> NoSlot" | (large) "hd_slot h = NoSlot" "hd_large h"
    | (global) "hd_slot h = NoSlot" "\<not> hd_large h" "hd_global h"
    | (none) "hd_slot h = NoSlot" "\<not> hd_large h" "\<not> hd_global h" by blast
  then show ?thesis
  proof cases
    case slot
    then show ?thesis using assms
      by (intro effect.Quiet) (simp_all add: step_leave_def effect_simps)
  next
    case large
    then show ?thesis using assms
      by (intro effect.FreeLarge) (simp_all add: step_leave_def effect_simps)
  next
    case global
    then show ?thesis using assms
      by (intro effect.FreeGlobal) (simp_all add: step_leave_def effect_simps)
  next
    case none
    then show ?thesis using assms
      by (intro effect.Depart) (simp_all add: step_leave_def effect_simps)
  qed
qed

lemma serve_effect:
  assumes "well_phased q h"
  shows "effect c k q (g, h) (serve c k q (g, h))"
proof (cases "hd_phase h")
  case PLeft
  then show ?thesis
    by (intro effect.Quiet) (simp_all add: serve_def effect_simps)
qed (use assms in \<open>simp_all add: serve_def start_effect lookup_effect load_effect authorize_effect rate_effect
    global_effect large_effect read_effect audit_effect acquire_effect send_effect await_effect relay_effect leave_effect\<close>)

text \<open>The phase a step leads to, and the slot it leaves.\<close>

definition slot_kept :: "handler \<Rightarrow> handler \<Rightarrow> bool" where
  "slot_kept h h' \<longleftrightarrow> hd_slot h' = hd_slot h \<and> hd_phase h' \<noteq> PLeft
     \<and> (hd_phase h' = PLarge \<longrightarrow> hd_phase h = PGlobal) \<and> (hd_phase h' = PAcquire \<longrightarrow> hd_phase h = PAudit)
     \<and> (hd_phase h' \<in> {PStart, PSend} \<longrightarrow> h' = h)"

lemma read_slot:
  "hd_phase h = PRead \<Longrightarrow> slot_kept h (snd (step_read c k q (g, h)))"
proof -
  assume p: "hd_phase h = PRead"
  let ?limit = "EffectiveLimitBytes (body_policy c q)"
  obtain body how where r: "read_body ?limit (qe_request q) = (body, how)" by fastforce
  show ?thesis
  proof (cases how)
    case ReadAll
    obtain g1 h1 where s: "on_trace (\<lambda>t. store_payload c q (hd_requestID h) body
      (t\<lparr>te_RequestBytes := int (length body), te_Model := ExtractRequestedModel body\<rparr>)) (g, h) = (g1, h1)"
      by fastforce
    then have "hd_slot h1 = hd_slot h" by (metis serving_simps snd_conv)
    with ReadAll r s p show ?thesis by (simp add: slot_kept_def step_read_def Let_def serving_simps)
  qed (use r p in \<open>simp_all add: slot_kept_def step_read_def Let_def serving_simps\<close>)
qed

lemma start_slot: "hd_phase h = PStart \<Longrightarrow> slot_kept h (snd (step_start c k q (g, h)))"
  by (simp add: slot_kept_def step_start_def Let_def serving_simps)

lemma found_slot:
  "hd_phase (snd s) \<in> {PLookup, PLoad} \<Longrightarrow> hd_slot (snd s) = hd_slot h \<Longrightarrow> slot_kept h (snd (route_found c k q route s))"
  by (cases s) (simp add: slot_kept_def route_found_def no_such_route_def serving_simps)

lemma lookup_slot: "hd_phase h = PLookup \<Longrightarrow> slot_kept h (snd (step_lookup c k q (g, h)))"
  by (simp add: step_lookup_def found_slot slot_kept_def [of h "snd (proceed p s)" for p s] serving_simps split: option.split)

lemma load_slot: "hd_phase h = PLoad \<Longrightarrow> slot_kept h (snd (step_load c k q (g, h)))"
  by (simp add: step_load_def found_slot no_such_route_def slot_kept_def [of h "snd (refuse c k q x y z s)" for x y z s]
      serving_simps split: option.split)

lemma authorize_slot: "hd_phase h = PAuthorize \<Longrightarrow> slot_kept h (snd (step_authorize c k q (g, h)))"
  by (simp add: slot_kept_def step_authorize_def serving_simps)

lemma rate_slot: "hd_phase h = PRate \<Longrightarrow> slot_kept h (snd (step_rate c k q (g, h)))"
  by (simp add: slot_kept_def step_rate_def Let_def serving_simps split: prod.split)

lemma global_slot: "hd_phase h = PGlobal \<Longrightarrow> slot_kept h (snd (step_global c k q (g, h)))"
  by (simp add: slot_kept_def step_global_def take_token_def Let_def serving_simps)

lemma large_slot:
  assumes "hd_phase h = PLarge"
  shows "slot_kept h (snd (step_large c k q (g, h)))"
proof -
  obtain g1 h1 where s: "on_writer (limit_headers (body_policy c q)) (on_trace (policy_trace (body_policy c q)) (g, h)) = (g1, h1)"
    by fastforce
  then have "hd_slot h1 = hd_slot h" by (metis serving_simps snd_conv)
  with s assms show ?thesis
    by (simp add: slot_kept_def step_large_def take_token_def Let_def serving_simps)
qed

lemma audit_slot: "hd_phase h = PAudit \<Longrightarrow> slot_kept h (snd (step_audit c k q (g, h)))"
  by (simp add: slot_kept_def step_audit_def Let_def serving_simps split: prod.split)

lemma send_slot: "hd_phase h = PSend \<Longrightarrow> slot_kept h (snd (step_send c k q (g, h)))"
  by (simp add: slot_kept_def step_send_def serving_simps split: sum.split)

lemma await_slot: "hd_phase h = PAwait \<Longrightarrow> slot_kept h (snd (step_await c k q (g, h)))"
  by (simp add: slot_kept_def step_await_def Let_def serving_simps split: upstream_outcome.split)

lemma relay_slot: "hd_phase h = PRelay r \<Longrightarrow> slot_kept h (snd (step_relay c k q r (g, h)))"
  by (simp add: slot_kept_def step_relay_def step_stream_def step_buffered_def serving_simps
      split: prod.split sse_phase.split)

lemma serve_slot:
  "hd_phase h \<notin> {PAcquire, PLeaving, PLeft} \<Longrightarrow> slot_kept h (snd (serve c k q (g, h)))"
  by (cases "hd_phase h") (simp_all add: serve_def start_slot lookup_slot load_slot authorize_slot rate_slot
      global_slot large_slot read_slot audit_slot send_slot await_slot relay_slot)

lemma start_untraced:
  "hd_phase h = PStart \<Longrightarrow> untraced q \<Longrightarrow> hd_phase (snd (serve c k q (g, h))) = PLeaving"
  by (auto simp: serve_def step_start_def Let_def serving_simps untraced_def)

lemma acquire_phase:
  "hd_phase h = PAcquire \<Longrightarrow> hd_phase (snd (serve c k q (g, h))) \<in> {PSend, PLeaving}"
  by (auto simp: serve_def step_acquire_def serving_simps split: prod.split option.split)

lemma leave_phase:
  "hd_phase h = PLeaving \<Longrightarrow> hd_phase (snd (serve c k q (g, h))) =
     (if hd_slot h = NoSlot \<and> \<not> hd_large h \<and> \<not> hd_global h then PLeft else PLeaving)"
  by (simp add: serve_def step_leave_def)

lemma leave_slot:
  "hd_phase h = PLeaving \<Longrightarrow> hd_slot (snd (serve c k q (g, h))) = NoSlot"
  by (simp add: serve_def step_leave_def)

lemma serve_well_phased:
  assumes "well_phased q h"
  shows "well_phased q (snd (serve c k q (g, h)))"
proof (cases "hd_phase h \<in> {PAcquire, PLeaving, PLeft}")
  case False
  then have slot: "slot_kept h (snd (serve c k q (g, h)))" by (simp add: serve_slot)
  have open_stage: "stage h \<noteq> Closing" "stage h \<noteq> Gone" using False by (cases "hd_phase h"; simp)+
  have "untraced q \<longrightarrow> hd_phase h = PStart" using assms False by (simp add: well_phased_def)
  with start_untraced [of h q c k g]
  have bare: "untraced q \<longrightarrow> hd_phase (snd (serve c k q (g, h))) = PLeaving" by blast
  show ?thesis using serve_effect [OF assms, of c k g]
  proof cases
    case Quiet
    with assms slot bare False show ?thesis
      by (cases "hd_phase h"; cases "hd_phase (snd (serve c k q (g, h)))")
        (auto simp: well_phased_def same_tokens_def same_history_def slot_kept_def)
  qed (use assms slot bare False open_stage in \<open>auto simp: well_phased_def same_tokens_def same_history_def slot_kept_def
      split: stage.splits\<close>)
next
  case True
  then consider (acquire) "hd_phase h = PAcquire" | (leaving) "hd_phase h = PLeaving" | (left) "hd_phase h = PLeft"
    by auto
  then show ?thesis
  proof cases
    case acquire
    with assms have nb: "\<not> untraced q" by (auto simp: well_phased_def)
    show ?thesis using serve_effect [OF assms, of c k g] acquire_phase [OF acquire, of c k q g]
      by cases (use acquire assms nb in \<open>auto simp: well_phased_def same_tokens_def same_history_def\<close>)
  next
    case leaving
    show ?thesis using serve_effect [OF assms, of c k g] leave_phase [OF leaving, of c k q g] leave_slot [OF leaving, of c k q g]
      by cases (use leaving assms in \<open>auto simp: well_phased_def same_tokens_def same_history_def split: if_splits\<close>)
  next
    case left
    with assms show ?thesis by (simp add: serve_def)
  qed
qed

end
