(* ===== verification/Gateway_Spec.thy ===== *)
theory Gateway_Spec
  imports Gateway_Safety
begin

text \<open>
  The life cycle of requests as a specification over sets of request numbers, what follows from
  it, and the proof that the gateway's machine refines it.
\<close>

section \<open>The specification\<close>

record life_spec =
  sp_stage :: "nat \<rightharpoonup> stage"
  sp_global :: "nat set"
  sp_large :: "nat set"
  sp_traced :: "nat list"
  sp_sent :: "nat list"

inductive spec_step :: "nat \<Rightarrow> nat \<Rightarrow> (nat \<Rightarrow> bool) \<Rightarrow> life_spec \<Rightarrow> life_spec \<Rightarrow> bool"
  for gmax :: nat and lmax :: nat and bare :: "nat \<Rightarrow> bool" where
  Begin: "sp_stage a k = None \<Longrightarrow> spec_step gmax lmax bare a (a\<lparr>sp_stage := (sp_stage a)(k \<mapsto> Waiting)\<rparr>)"
| Reject: "sp_stage a k = Some Waiting \<Longrightarrow> bare k \<Longrightarrow>
    spec_step gmax lmax bare a (a\<lparr>sp_stage := (sp_stage a)(k \<mapsto> Closing)\<rparr>)"
| End: "sp_stage a k = Some st \<Longrightarrow> st \<notin> {Closing, Gone} \<Longrightarrow> \<not> bare k \<Longrightarrow>
    spec_step gmax lmax bare a (a\<lparr>sp_stage := (sp_stage a)(k \<mapsto> Closing), sp_traced := sp_traced a @ [k]\<rparr>)"
| Admit: "sp_stage a k = Some Waiting \<Longrightarrow> \<not> bare k \<Longrightarrow> card (sp_global a) < gmax \<Longrightarrow>
    spec_step gmax lmax bare a (a\<lparr>sp_stage := (sp_stage a)(k \<mapsto> Admitted), sp_global := insert k (sp_global a)\<rparr>)"
| AdmitLarge: "sp_stage a k = Some Admitted \<Longrightarrow> card (sp_large a) < lmax \<Longrightarrow>
    spec_step gmax lmax bare a (a\<lparr>sp_large := insert k (sp_large a)\<rparr>)"
| Clear: "sp_stage a k = Some Admitted \<Longrightarrow>
    spec_step gmax lmax bare a (a\<lparr>sp_stage := (sp_stage a)(k \<mapsto> Cleared)\<rparr>)"
| Forward: "sp_stage a k = Some Cleared \<Longrightarrow>
    spec_step gmax lmax bare a (a\<lparr>sp_stage := (sp_stage a)(k \<mapsto> Forwarded), sp_sent := sp_sent a @ [k]\<rparr>)"
| ReturnLarge: "sp_stage a k = Some Closing \<Longrightarrow>
    spec_step gmax lmax bare a (a\<lparr>sp_large := sp_large a - {k}\<rparr>)"
| ReturnGlobal: "sp_stage a k = Some Closing \<Longrightarrow> k \<notin> sp_large a \<Longrightarrow>
    spec_step gmax lmax bare a (a\<lparr>sp_global := sp_global a - {k}\<rparr>)"
| Depart: "sp_stage a k = Some Closing \<Longrightarrow> k \<notin> sp_global a \<Longrightarrow> k \<notin> sp_large a \<Longrightarrow>
    spec_step gmax lmax bare a (a\<lparr>sp_stage := (sp_stage a)(k \<mapsto> Gone)\<rparr>)"

definition spec_start :: "life_spec \<Rightarrow> bool" where
  "spec_start a \<longleftrightarrow> a = \<lparr>sp_stage = Map.empty, sp_global = {}, sp_large = {}, sp_traced = [], sp_sent = []\<rparr>"

text \<open>What the specification promises.\<close>

definition running :: "life_spec \<Rightarrow> nat set" where
  "running a = {k. sp_stage a k \<in> {Some Admitted, Some Cleared, Some Forwarded}}"

definition ending :: "life_spec \<Rightarrow> nat set" where
  "ending a = {k. sp_stage a k \<in> {Some Closing, Some Gone}}"

definition tokens_ok :: "nat \<Rightarrow> nat \<Rightarrow> life_spec \<Rightarrow> bool" where
  "tokens_ok gmax lmax a \<longleftrightarrow> finite (sp_global a) \<and> card (sp_global a) \<le> gmax \<and> card (sp_large a) \<le> lmax
     \<and> sp_large a \<subseteq> sp_global a \<and> running a \<subseteq> sp_global a
     \<and> sp_global a \<subseteq> running a \<union> {k. sp_stage a k = Some Closing}"

definition history_ok :: "(nat \<Rightarrow> bool) \<Rightarrow> life_spec \<Rightarrow> bool" where
  "history_ok bare a \<longleftrightarrow> distinct (sp_traced a) \<and> set (sp_traced a) = {k \<in> ending a. \<not> bare k}
     \<and> distinct (sp_sent a) \<and> set (sp_sent a) \<subseteq> {k. sp_stage a k = Some Forwarded} \<union> ending a
     \<and> (\<forall>k. bare k \<longrightarrow> sp_stage a k \<in> {None, Some Waiting, Some Closing, Some Gone})
     \<and> (\<forall>k \<in> set (sp_sent a). \<not> bare k)"

lemma spec_tokens:
  assumes "spec_step gmax lmax bare a a'" and "tokens_ok gmax lmax a"
  shows "tokens_ok gmax lmax a'"
  using assms
proof cases
  case (Admit k)
  with assms(2) show ?thesis
    by (auto simp: tokens_ok_def running_def card_insert_if)
next
  case (AdmitLarge k)
  with assms(2) have "finite (sp_large a)" by (auto simp: tokens_ok_def intro: finite_subset)
  with AdmitLarge assms(2) show ?thesis
    by (auto simp: tokens_ok_def running_def card_insert_if)
next
  case (ReturnLarge k)
  from card_Diff1_le [of "sp_large a" k] ReturnLarge assms(2) show ?thesis
    by (auto simp: tokens_ok_def running_def)
next
  case (ReturnGlobal k)
  from card_Diff1_le [of "sp_global a" k] ReturnGlobal assms(2) show ?thesis
    by (auto simp: tokens_ok_def running_def)
qed (auto simp: tokens_ok_def running_def)

lemma spec_history:
  assumes "spec_step gmax lmax bare a a'" and "history_ok bare a"
  shows "history_ok bare a'"
  using assms
  by cases (auto simp: history_ok_def ending_def)

lemma spec_sound:
  assumes "reachable spec_start (spec_step gmax lmax bare) a"
  shows "tokens_ok gmax lmax a" and "history_ok bare a"
proof -
  show "tokens_ok gmax lmax a"
    by (rule reachable_invariant [OF assms _ spec_tokens]) (simp_all add: spec_start_def tokens_ok_def running_def)
  show "history_ok bare a"
    by (rule reachable_invariant [OF assms _ spec_history]) (simp_all add: spec_start_def history_ok_def ending_def)
qed

section \<open>The gateway refines it\<close>

definition holders :: "(nat \<rightharpoonup> handler) \<Rightarrow> nat set" where
  "holders hs = {k. \<exists>h. hs k = Some h \<and> hd_global h}"

definition large_holders :: "(nat \<rightharpoonup> handler) \<Rightarrow> nat set" where
  "large_holders hs = {k. \<exists>h. hs k = Some h \<and> hd_large h}"

definition stages :: "(nat \<rightharpoonup> handler) \<Rightarrow> (nat \<rightharpoonup> stage)" where
  "stages hs = (\<lambda>k. map_option stage (hs k))"

definition life :: "system \<Rightarrow> life_spec" where
  "life s = (case s of (g, hs) \<Rightarrow>
     \<lparr>sp_stage = stages hs, sp_global = holders hs, sp_large = large_holders hs,
      sp_traced = map fst (gw_submitted g), sp_sent = map fst (gw_sent g)\<rparr>)"

text \<open>The typing of every request, and the channels count exactly the tokens that are out.\<close>

definition counted :: "(nat \<Rightarrow> req_env) \<Rightarrow> system \<Rightarrow> bool" where
  "counted env s \<longleftrightarrow> (case s of (g, hs) \<Rightarrow>
     (\<forall>k h. hs k = Some h \<longrightarrow> well_phased (env k) h) \<and> finite (dom hs)
     \<and> gw_global g = card (holders hs) \<and> gw_large g = card (large_holders hs))"

lemma holders_upd: "holders (hs(k \<mapsto> h)) = (if hd_global h then insert k (holders hs) else holders hs - {k})"
  by (auto simp: holders_def)

lemma large_holders_upd:
  "large_holders (hs(k \<mapsto> h)) = (if hd_large h then insert k (large_holders hs) else large_holders hs - {k})"
  by (auto simp: large_holders_def)

lemma finite_holders: "finite (dom hs) \<Longrightarrow> finite (holders hs) \<and> finite (large_holders hs)"
  by (auto simp: holders_def large_holders_def dom_def intro: finite_subset [rotated])

lemma stages_upd: "stages (hs(k \<mapsto> h)) = (stages hs)(k \<mapsto> stage h)"
  by (auto simp: stages_def)

lemma effect_counted:
  assumes "effect c k q (g, h) (g', h')" and "counted env (g, hs)" and "hs k = Some h"
  shows "gw_global g' = card (holders (hs(k \<mapsto> h')))" and "gw_large g' = card (large_holders (hs(k \<mapsto> h')))"
proof -
  have fin: "finite (holders hs)" "finite (large_holders hs)"
    and n: "gw_global g = card (holders hs)" "gw_large g = card (large_holders hs)"
    using assms(2) finite_holders by (auto simp: counted_def)
  have mem: "k \<in> holders hs \<longleftrightarrow> hd_global h" "k \<in> large_holders hs \<longleftrightarrow> hd_large h"
    using assms(3) by (auto simp: holders_def large_holders_def)
  show "gw_global g' = card (holders (hs(k \<mapsto> h')))"
    using assms(1) by cases
      (use fin n mem in \<open>auto simp: holders_upd same_tokens_def card_insert_if insert_absorb card_Diff_singleton_if\<close>)
  show "gw_large g' = card (large_holders (hs(k \<mapsto> h')))"
    using assms(1) by cases
      (use fin n mem in \<open>auto simp: large_holders_upd same_tokens_def card_insert_if insert_absorb card_Diff_singleton_if\<close>)
qed

lemma spec_step_eq: "spec_step gmax lmax bare a b \<Longrightarrow> b = b' \<Longrightarrow> spec_step gmax lmax bare a b'"
  by simp

lemma effect_sim:
  assumes "effect c k (env k) (g, h) (g', h')" and "counted env (g, hs)" and "hs k = Some h"
  shows "life (g', hs(k \<mapsto> h')) = life (g, hs)
    \<or> spec_step (gc_GlobalMaxConcurrency c) (gc_LargeRequestMaxConcurrency c) (\<lambda>j. untraced (env j))
        (life (g, hs)) (life (g', hs(k \<mapsto> h')))"
proof -
  let ?a = "life (g, hs)" and ?b = "life (g', hs(k \<mapsto> h'))"
  let ?S = "spec_step (gc_GlobalMaxConcurrency c) (gc_LargeRequestMaxConcurrency c) (\<lambda>j. untraced (env j))"
  have n: "gw_global g = card (holders hs)" "gw_large g = card (large_holders hs)"
    using assms(2) by (auto simp: counted_def)
  have mem: "k \<in> holders hs \<longleftrightarrow> hd_global h" "k \<in> large_holders hs \<longleftrightarrow> hd_large h"
    using assms(3) by (auto simp: holders_def large_holders_def)
  have st: "stages hs k = Some (stage h)" using assms(3) by (simp add: stages_def)
  note S = life_def holders_upd large_holders_upd stages_upd fun_upd_idem same_tokens_def
    same_history_def insert_absorb
  show ?thesis using assms(1)
  proof cases
    case Quiet
    with assms(3) mem st have "?b = ?a" by (simp add: S)
    then show ?thesis by blast
  next
    case TurnAway
    with st mem have "?S ?a ?b" by (intro spec_step_eq [OF spec_step.Reject [of ?a k]]) (simp_all add: S)
    then show ?thesis by blast
  next
    case Close
    with st mem have "?S ?a ?b" by (intro spec_step_eq [OF spec_step.End [of ?a k "stage h"]]) (simp_all add: S)
    then show ?thesis by blast
  next
    case Admit
    with st mem n have "?S ?a ?b" by (intro spec_step_eq [OF spec_step.Admit [of ?a k]]) (simp_all add: S)
    then show ?thesis by blast
  next
    case AdmitLarge
    with st mem n assms(3) have "?S ?a ?b"
      by (intro spec_step_eq [OF spec_step.AdmitLarge [of ?a k]]) (simp_all add: S)
    then show ?thesis by blast
  next
    case Clear
    with st mem have "?S ?a ?b" by (intro spec_step_eq [OF spec_step.Clear [of ?a k]]) (simp_all add: S)
    then show ?thesis by blast
  next
    case (Forward up)
    with st mem have "?S ?a ?b" by (intro spec_step_eq [OF spec_step.Forward [of ?a k]]) (simp_all add: S)
    then show ?thesis by blast
  next
    case FreeLarge
    with st mem assms(3) have "?S ?a ?b"
      by (intro spec_step_eq [OF spec_step.ReturnLarge [of ?a k]]) (simp_all add: S)
    then show ?thesis by blast
  next
    case FreeGlobal
    with st mem assms(3) have "?S ?a ?b"
      by (intro spec_step_eq [OF spec_step.ReturnGlobal [of ?a k]]) (simp_all add: S)
    then show ?thesis by blast
  next
    case Depart
    with st mem have "?S ?a ?b" by (intro spec_step_eq [OF spec_step.Depart [of ?a k]]) (simp_all add: S)
    then show ?thesis by blast
  qed
qed

abbreviation gw_spec :: "gw_program \<Rightarrow> (nat \<Rightarrow> req_env) \<Rightarrow> life_spec \<Rightarrow> life_spec \<Rightarrow> bool" where
  "gw_spec c env \<equiv> spec_step (gc_GlobalMaxConcurrency c) (gc_LargeRequestMaxConcurrency c) (\<lambda>j. untraced (env j))"

lemma fresh_facts: "\<not> hd_global (fresh_handler q)" "\<not> hd_large (fresh_handler q)" "stage (fresh_handler q) = Waiting"
  by (simp_all add: fresh_handler_def)

lemma arrive_counted:
  assumes "counted env (g, hs)" and "hs k = None"
  shows "counted env (g, hs(k \<mapsto> fresh_handler (env k)))"
proof -
  have "k \<notin> holders hs" "k \<notin> large_holders hs" using assms(2) by (simp_all add: holders_def large_holders_def)
  with assms(1) show ?thesis
    by (simp add: counted_def fresh_well_phased holders_upd large_holders_upd fresh_facts)
qed

lemma step_counted:
  assumes "counted env s" and "gw_step c env s s'"
  shows "counted env s'"
  using assms(2)
proof cases
  case (Serve hs k h g g' h')
  have wp: "well_phased (env k) h" using assms(1) Serve by (simp add: counted_def)
  have "effect c k (env k) (g, h) (g', h')"
    using serve_effect [OF wp, of c k g] Serve by simp
  moreover have "well_phased (env k) h'"
    using serve_well_phased [OF wp, of c k g] Serve by simp
  ultimately show ?thesis
    using assms(1) Serve effect_counted [of c k "env k" g h g' h' env hs]
    by (simp add: counted_def)
qed (use assms(1) arrive_counted in \<open>auto simp: counted_def\<close>)

lemma step_refines:
  assumes "counted env s" and "gw_step c env s s'"
  shows "life s' = life s \<or> gw_spec c env (life s) (life s')"
  using assms(2)
proof cases
  case (Arrive hs k g)
  have "k \<notin> holders hs" "k \<notin> large_holders hs" using Arrive by (simp_all add: holders_def large_holders_def)
  with Arrive have "gw_spec c env (life s) (life s')"
    by (intro spec_step_eq [OF spec_step.Begin [of "life s" k]])
      (simp_all add: life_def stages_upd holders_upd large_holders_upd fresh_facts, simp add: stages_def)
  then show ?thesis ..
next
  case (Serve hs k h g g' h')
  have wp: "well_phased (env k) h" using assms(1) Serve by (simp add: counted_def)
  have "effect c k (env k) (g, h) (g', h')"
    using serve_effect [OF wp, of c k g] Serve by simp
  with effect_sim [of c k env g h g' h' hs] assms(1) Serve show ?thesis by simp
qed (simp_all add: life_def)

interpretation gateway: refinement gw_start "gw_step c env" spec_start "gw_spec c env" life "counted env"
  for c :: gw_program and env :: "nat \<Rightarrow> req_env"
proof
  fix s assume "gw_start s"
  then show "counted env s" and "spec_start (life s)"
    by (auto simp: gw_start_def spec_start_def life_def counted_def holders_def large_holders_def stages_def)
qed (erule (1) step_counted, erule (1) step_refines)

text \<open>Runs of a single request.\<close>

lemma serves_reach:
  assumes "gw_reach c env (g, hs)" and "hs k = Some h" and "((serve c k (env k)) ^^ n) (g, h) = (g', h')"
  shows "gw_reach c env (g', hs(k \<mapsto> h'))"
  using assms
proof (induction n arbitrary: g h hs)
  case 0
  then show ?case by (simp add: fun_upd_idem)
next
  case (Suc n)
  obtain g1 h1 where one: "serve c k (env k) (g, h) = (g1, h1)" by fastforce
  with Suc.prems(1,2) have "gw_reach c env (g1, hs(k \<mapsto> h1))"
    by (meson gw_step.Serve reachable_step)
  moreover have "((serve c k (env k)) ^^ n) (g1, h1) = (g', h')"
    using Suc.prems(3) one by (simp add: funpow_swap1)
  ultimately have "gw_reach c env (g', (hs(k \<mapsto> h1))(k \<mapsto> h'))"
    using Suc.IH [where hs = "hs(k \<mapsto> h1)"] by (metis fun_upd_same)
  then show ?case by (simp only: fun_upd_upd)
qed

lemma alone_reach:
  assumes "gw_start (g, Map.empty)" and "((serve c k (env k)) ^^ n) (g, fresh_handler (env k)) = (g', h')"
  shows "gw_reach c env (g', [k \<mapsto> h'])"
proof -
  have "gw_reach c env (g, Map.empty)" by (rule reachable_start) (rule assms(1))
  moreover have "gw_step c env (g, Map.empty) (g, Map.empty(k \<mapsto> fresh_handler (env k)))"
    by (rule gw_step.Arrive) simp
  ultimately have "gw_reach c env (g, Map.empty(k \<mapsto> fresh_handler (env k)))" by (rule reachable_step)
  from serves_reach [OF this _ assms(2)] show ?thesis by simp
qed

lemmas gateway_promises = spec_sound [OF gateway.refines]

lemma count_pairs:
  "distinct (map fst xs) \<Longrightarrow> length (filter (\<lambda>(j, x). j = k) xs) = (if k \<in> set (map fst xs) then 1 else 0)"
  by (induction xs) (auto simp: filter_empty_conv image_iff split: prod.splits)

lemma history_facts:
  assumes "gw_reach c env (g, hs)" and "hs k = Some h"
  shows "distinct (map fst (gw_submitted g))" and "distinct (map fst (gw_sent g))"
    and "k \<in> set (map fst (gw_submitted g)) \<longleftrightarrow> hd_finished h"
    and "k \<in> set (map fst (gw_sent g)) \<Longrightarrow> stage h \<in> {Forwarded, Closing, Gone}"
    and "hd_finished h \<longleftrightarrow> stage h \<in> {Closing, Gone} \<and> \<not> untraced (env k)"
proof -
  have wp: "well_phased (env k) h" using gateway.invariant [OF assms(1)] assms(2) by (simp add: counted_def)
  then show fin: "hd_finished h \<longleftrightarrow> stage h \<in> {Closing, Gone} \<and> \<not> untraced (env k)"
    by (cases "stage h") (auto simp: well_phased_def)
  have ok: "history_ok (\<lambda>j. untraced (env j)) (life (g, hs))" by (rule gateway_promises(2)) (rule assms(1))
  then show "distinct (map fst (gw_submitted g))" and "distinct (map fst (gw_sent g))"
    by (simp_all add: history_ok_def life_def)
  have "k \<in> ending (life (g, hs)) \<longleftrightarrow> stage h \<in> {Closing, Gone}"
    using assms(2) by (simp add: ending_def life_def stages_def)
  with ok fin show "k \<in> set (map fst (gw_submitted g)) \<longleftrightarrow> hd_finished h"
    by (simp add: history_ok_def) (simp add: life_def)
  show "stage h \<in> {Forwarded, Closing, Gone}" if "k \<in> set (map fst (gw_sent g))"
    using ok that assms(2) by (auto simp: history_ok_def life_def ending_def stages_def)
qed

end
