(* ===== verification/Gateway_Vetting.thy ===== *)
theory Gateway_Vetting
  imports Gateway_Spec
begin

text \<open>
  What a request has passed when it is forwarded, and that every request comes to its end.
\<close>

section \<open>What has been checked at each phase\<close>

text \<open>The checks before the upstream come one after the other; \<open>level\<close> counts them.\<close>

fun level :: "phase \<Rightarrow> nat" where
  "level PStart = 0"
| "level PLookup = 1"
| "level PLoad = 1"
| "level PAuthorize = 2"
| "level PRate = 3"
| "level PGlobal = 3"
| "level PLarge = 3"
| "level PRead = 4"
| "level PAudit = 5"
| "level PAcquire = 6"
| "level PSend = 6"
| "level PAwait = 0"
| "level (PRelay r) = 0"
| "level PLeaving = 0"
| "level PLeft = 0"

text \<open>A route the database gave for the slug, to this request or to an earlier one.\<close>

definition from_db :: "(nat \<Rightarrow> req_env) \<Rightarrow> string \<Rightarrow> Route \<Rightarrow> bool" where
  "from_db env slug route \<longleftrightarrow> (\<exists>j. qe_db (env j) = Some route \<and> rq_Route (qe_request (env j)) = slug)"

definition passed_audit :: "req_env \<Rightarrow> Route \<Rightarrow> string \<Rightarrow> bool" where
  "passed_audit q route body \<longleftrightarrow>
     ad_Decision (ar_Decision (fst (qe_audit q route body))) \<noteq> DecisionBlock \<and> \<not> qe_clientGone q"

definition read_whole :: "gw_program \<Rightarrow> req_env \<Rightarrow> string \<Rightarrow> bool" where
  "read_whole c q body \<longleftrightarrow> read_body (EffectiveLimitBytes (body_policy c q)) (qe_request q) = (body, ReadAll)"

definition announced_ok :: "gw_program \<Rightarrow> req_env \<Rightarrow> bool" where
  "announced_ok c q \<longleftrightarrow> \<not> ExceedsKnownLength (body_policy c q) (rq_ContentLength (qe_request q))"

definition vetted :: "gw_program \<Rightarrow> (nat \<Rightarrow> req_env) \<Rightarrow> nat \<Rightarrow> handler \<Rightarrow> bool" where
  "vetted c env k h \<longleftrightarrow> (let n = level (hd_phase h); q = env k; route = hd_route h; body = hd_body h in
     (1 \<le> n \<longrightarrow> hd_requestID h = fst (request_identity q))
     \<and> (2 \<le> n \<longrightarrow> rt_Enabled route \<and> from_db env (rq_Route (qe_request q)) route)
     \<and> (3 \<le> n \<longrightarrow> authorized c (qe_request q) route)
     \<and> (4 \<le> n \<longrightarrow> announced_ok c q)
     \<and> (5 \<le> n \<longrightarrow> read_whole c q body)
     \<and> (6 \<le> n \<longrightarrow> passed_audit q route body))"

text \<open>A request that may be sent.\<close>

definition justified :: "gw_program \<Rightarrow> (nat \<Rightarrow> req_env) \<Rightarrow> nat \<Rightarrow> upstream_request \<Rightarrow> bool" where
  "justified c env k up \<longleftrightarrow> (\<exists>route body. let q = env k in
     rt_Enabled route \<and> from_db env (rq_Route (qe_request q)) route \<and> authorized c (qe_request q) route
     \<and> announced_ok c q \<and> read_whole c q body \<and> passed_audit q route body
     \<and> built c q route body (fst (request_identity q)) = Inr up)"

definition cache_from_db :: "(nat \<Rightarrow> req_env) \<Rightarrow> gateway \<Rightarrow> bool" where
  "cache_from_db env g \<longleftrightarrow> (\<forall>slug route e. gw_cache g slug = Some (route, e) \<longrightarrow> from_db env slug route)"

text \<open>What a step of request \<open>k\<close> must keep.\<close>

definition vets :: "gw_program \<Rightarrow> (nat \<Rightarrow> req_env) \<Rightarrow> nat \<Rightarrow> gateway \<Rightarrow> serving \<Rightarrow> bool" where
  "vets c env k g s' \<longleftrightarrow> vetted c env k (snd s') \<and> cache_from_db env (fst s')
     \<and> (\<forall>x \<in> set (gw_sent (fst s')). x \<in> set (gw_sent g) \<or> (\<exists>up. x = (k, up) \<and> justified c env k up))"

lemma vetted_ended: "level (hd_phase h) = 0 \<Longrightarrow> vetted c env k h"
  by (simp add: vetted_def)

lemma vets_ended:
  "level (hd_phase (snd s')) = 0 \<Longrightarrow> gw_cache (fst s') = gw_cache g \<Longrightarrow> gw_sent (fst s') = gw_sent g \<Longrightarrow>
   cache_from_db env g \<Longrightarrow> vets c env k g s'"
  by (simp add: vets_def vetted_ended cache_from_db_def)

lemma vets_on:
  "vetted c env k (snd s') \<Longrightarrow> gw_cache (fst s') = gw_cache g \<Longrightarrow> gw_sent (fst s') = gw_sent g \<Longrightarrow>
   cache_from_db env g \<Longrightarrow> vets c env k g s'"
  by (simp add: vets_def cache_from_db_def)

lemma start_vets:
  assumes "hd_phase h = PStart" and "cache_from_db env g"
  shows "vets c env k g (step_start c k (env k) (g, h))"
proof (cases "untraced (env k)")
  case True
  with assms show ?thesis
    by (intro vets_ended) (auto simp: step_start_def untraced_def Let_def serving_simps)
next
  case False
  with assms show ?thesis
    by (intro vets_on) (auto simp: step_start_def untraced_def vetted_def Let_def serving_simps)
qed

lemma route_found_vets:
  assumes "hd_requestID (snd s) = fst (request_identity (env k))" and "cache_from_db env (fst s)"
    and "from_db env (rq_Route (qe_request (env k))) route" and "gw_sent (fst s) = gw_sent g"
  shows "vets c env k g (route_found c k (env k) route s)"
proof (cases "rt_Enabled route")
  case True
  with assms show ?thesis
    by (cases s) (simp add: vets_def route_found_def vetted_def Let_def serving_simps)
next
  case False
  with assms show ?thesis
    by (cases s) (simp add: vets_def route_found_def no_such_route_def vetted_ended cache_from_db_def serving_simps)
qed

lemma lookup_vets:
  assumes "hd_phase h = PLookup" and "cache_from_db env g" and "vetted c env k h"
  shows "vets c env k g (step_lookup c k (env k) (g, h))"
proof (cases "cached_route (gw_cache g) (qe_lookupTime (env k)) (rq_Route (qe_request (env k)))")
  case None
  with assms show ?thesis by (simp add: step_lookup_def vets_on vetted_def Let_def serving_simps)
next
  case (Some route)
  then have "from_db env (rq_Route (qe_request (env k))) route"
    using assms(2) by (auto simp: cached_route_def cache_from_db_def split: option.splits prod.splits if_splits)
  with Some assms show ?thesis
    by (simp add: step_lookup_def vetted_def Let_def route_found_vets)
qed

lemma load_vets:
  assumes "hd_phase h = PLoad" and "cache_from_db env g" and "vetted c env k h"
  shows "vets c env k g (step_load c k (env k) (g, h))"
proof (cases "qe_db (env k)")
  case None
  with assms show ?thesis by (simp add: step_load_def no_such_route_def vets_ended serving_simps)
next
  case (Some route)
  then have db: "from_db env (rq_Route (qe_request (env k))) route" by (auto simp: from_db_def)
  have "cache_from_db env (g\<lparr>gw_cache := store_route ttl now (rq_Route (qe_request (env k))) route (gw_cache g)\<rparr>)" for ttl now
    using assms(2) db by (simp add: cache_from_db_def store_route_def)
  with Some db assms show ?thesis
    by (simp add: step_load_def vetted_def Let_def route_found_vets)
qed

lemma authorize_vets:
  "hd_phase h = PAuthorize \<Longrightarrow> cache_from_db env g \<Longrightarrow> vetted c env k h \<Longrightarrow>
   vets c env k g (step_authorize c k (env k) (g, h))"
  by (cases "authorized c (qe_request (env k)) (hd_route h)")
    (simp_all add: step_authorize_def vets_on vets_ended vetted_def Let_def serving_simps)

lemma rate_vets:
  assumes "hd_phase h = PRate" and "cache_from_db env g" and "vetted c env k h"
  shows "vets c env k g (step_rate c k (env k) (g, h))"
proof -
  obtain guard ok where "Allow (qe_rateUp (env k)) (qe_rateMs (env k)) (qe_rateNs (env k)) (rate_key c (env k) (hd_trace h))
      (rt_RateLimitRPS (hd_route h)) (rt_RateLimitBurst (hd_route h)) (gw_guard g) = (guard, ok)" by fastforce
  with assms show ?thesis
    by (cases ok) (simp_all add: step_rate_def vets_on vets_ended vetted_def Let_def serving_simps)
qed

lemma global_vets:
  "hd_phase h = PGlobal \<Longrightarrow> cache_from_db env g \<Longrightarrow> vetted c env k h \<Longrightarrow>
   vets c env k g (step_global c k (env k) (g, h))"
  by (cases "gw_global g < gc_GlobalMaxConcurrency c")
    (simp_all add: step_global_def take_token_def vets_on vets_ended vetted_def Let_def serving_simps)

lemma large_vets:
  assumes "hd_phase h = PLarge" and "cache_from_db env g" and "vetted c env k h"
  shows "vets c env k g (step_large c k (env k) (g, h))"
proof -
  let ?pol = "body_policy c (env k)"
  obtain g1 h1 where s: "on_writer (limit_headers ?pol) (on_trace (policy_trace ?pol) (g, h)) = (g1, h1)"
    by fastforce
  then have same: "g1 = g" "hd_route h1 = hd_route h" "hd_requestID h1 = hd_requestID h"
    by (metis serving_simps fst_conv snd_conv)+
  show ?thesis
  proof (cases "announced_ok c (env k)")
    case True
    with s same assms show ?thesis
      by (cases "requestBodyNeedsLargeSlot (rq_ContentLength (qe_request (env k))) (gc_LargeRequestThresholdBytes c)";
          cases "gw_large g < gc_LargeRequestMaxConcurrency c")
        (simp_all add: step_large_def announced_ok_def take_token_def vets_on vets_ended vetted_def Let_def serving_simps)
  next
    case False
    with s same assms show ?thesis
      by (simp add: step_large_def announced_ok_def vets_ended Let_def serving_simps)
  qed
qed

lemma read_vets:
  assumes "hd_phase h = PRead" and "cache_from_db env g" and "vetted c env k h"
  shows "vets c env k g (step_read c k (env k) (g, h))"
proof -
  let ?limit = "EffectiveLimitBytes (body_policy c (env k))"
  obtain body how where r: "read_body ?limit (qe_request (env k)) = (body, how)" by fastforce
  show ?thesis
  proof (cases how)
    case ReadAll
    obtain g1 h1 where s: "on_trace (\<lambda>t. store_payload c (env k) (hd_requestID h) body
      (t\<lparr>te_RequestBytes := int (length body), te_Model := ExtractRequestedModel body\<rparr>)) (g, h) = (g1, h1)"
      by fastforce
    then have same: "g1 = g" "hd_route h1 = hd_route h" "hd_requestID h1 = hd_requestID h"
      by (metis serving_simps fst_conv snd_conv)+
    from ReadAll r have whole: "read_whole c (env k) body" by (simp add: read_whole_def)
    from ReadAll r s same whole assms show ?thesis
      by (simp add: step_read_def vets_on vetted_def Let_def serving_simps)
  qed (use r assms in \<open>simp_all add: step_read_def vets_ended Let_def serving_simps\<close>)
qed

lemma audit_vets:
  assumes "hd_phase h = PAudit" and "cache_from_db env g" and "vetted c env k h"
  shows "vets c env k g (step_audit c k (env k) (g, h))"
proof (cases "passed_audit (env k) (hd_route h) (hd_body h)")
  case True
  with assms show ?thesis
    by (cases "qe_audit (env k) (hd_route h) (hd_body h)")
      (simp add: step_audit_def passed_audit_def vets_on vetted_def Let_def serving_simps)
next
  case False
  obtain r ms where a: "qe_audit (env k) (hd_route h) (hd_body h) = (r, ms)" by fastforce
  show ?thesis
  proof (cases "ad_Decision (ar_Decision r) = DecisionBlock")
    case True
    with a assms show ?thesis by (simp add: step_audit_def vets_ended Let_def serving_simps)
  next
    case unblocked: False
    with False a assms show ?thesis
      by (simp add: step_audit_def passed_audit_def vets_ended Let_def serving_simps)
  qed
qed

lemma acquire_vets:
  assumes "hd_phase h = PAcquire" and "cache_from_db env g" and "vetted c env k h"
  shows "vets c env k g (step_acquire c k (env k) (g, h))"
proof -
  obtain guard sl where "Acquire (qe_acquireUp (env k)) (qe_acquireMs (env k)) (qe_token (env k))
      (''route:'' @ rq_Route (qe_request (env k))) (rt_MaxConcurrency (hd_route h)) (timeout_ms (hd_route h) + 30000)
      (gw_guard g) = (guard, sl)" by fastforce
  with assms show ?thesis
    by (cases sl) (simp_all add: step_acquire_def vets_on vets_ended vetted_def Let_def serving_simps)
qed

lemma send_vets:
  assumes "hd_phase h = PSend" and "cache_from_db env g" and "vetted c env k h"
  shows "vets c env k g (step_send c k (env k) (g, h))"
proof (cases "built c (env k) (hd_route h) (hd_body h) (hd_requestID h)")
  case (Inl err)
  with assms show ?thesis by (simp add: step_send_def built_def vets_ended serving_simps)
next
  case (Inr up)
  have "justified c env k up"
    unfolding justified_def
    by (rule exI [of _ "hd_route h"], rule exI [of _ "hd_body h"])
      (use Inr assms in \<open>auto simp: vetted_def Let_def\<close>)
  with Inr assms show ?thesis
    by (simp add: vets_def step_send_def built_def vetted_ended cache_from_db_def serving_simps)
qed

lemma await_vets:
  assumes "hd_phase h = PAwait" and "cache_from_db env g"
  shows "vets c env k g (step_await c k (env k) (g, h))"
  by (rule vets_ended)
    (use assms in \<open>simp_all add: step_await_def Let_def serving_simps split: upstream_outcome.split\<close>)

lemma relay_vets:
  assumes "hd_phase h = PRelay r" and "cache_from_db env g"
  shows "vets c env k g (step_relay c k (env k) r (g, h))"
  by (rule vets_ended)
    (use assms in \<open>simp_all add: step_relay_def step_stream_def step_buffered_def serving_simps
      split: prod.split sse_phase.split\<close>)

lemma leave_vets:
  assumes "hd_phase h = PLeaving" and "cache_from_db env g"
  shows "vets c env k g (step_leave (env k) (g, h))"
  by (rule vets_ended) (use assms in \<open>simp_all add: step_leave_def\<close>)

lemma serve_vets:
  assumes "cache_from_db env g" and "vetted c env k h"
  shows "vets c env k g (serve c k (env k) (g, h))"
  by (cases "hd_phase h")
    (use assms in \<open>simp_all add: serve_def start_vets lookup_vets load_vets authorize_vets rate_vets global_vets
      large_vets read_vets audit_vets acquire_vets send_vets await_vets relay_vets leave_vets vets_on\<close>)

section \<open>Every request sent upstream was justified\<close>

definition all_vetted :: "gw_program \<Rightarrow> (nat \<Rightarrow> req_env) \<Rightarrow> system \<Rightarrow> bool" where
  "all_vetted c env s \<longleftrightarrow> (case s of (g, hs) \<Rightarrow> cache_from_db env g
     \<and> (\<forall>k h. hs k = Some h \<longrightarrow> vetted c env k h) \<and> (\<forall>(k, up) \<in> set (gw_sent g). justified c env k up))"

lemma step_vetted:
  assumes "all_vetted c env s" and "gw_step c env s s'"
  shows "all_vetted c env s'"
  using assms(2)
proof cases
  case (Arrive hs k g)
  with assms(1) show ?thesis
    by (auto simp: all_vetted_def vetted_def fresh_handler_def)
next
  case (Serve hs k h g g' h')
  with assms(1) serve_vets [of env g c k h] have "vets c env k g (g', h')" by (auto simp: all_vetted_def)
  with assms(1) Serve show ?thesis by (fastforce simp: all_vetted_def vets_def)
next
  case (Invalidate g slug hs)
  with assms(1) show ?thesis
    by (auto simp: all_vetted_def cache_from_db_def InvalidateRoute_def split: if_splits)
next
  case (Elsewhere g guard hs)
  with assms(1) show ?thesis by (simp add: all_vetted_def cache_from_db_def)
qed

lemma reach_vetted: "gw_reach c env s \<Longrightarrow> all_vetted c env s"
  by (erule reachable_invariant [OF _ _ step_vetted])
    (auto simp: gw_start_def all_vetted_def cache_from_db_def)

section \<open>Every request ends\<close>

text \<open>
  A stream ends when its reader reports the end or an error, or its context is done; the idle timer
  brings the last about when the upstream falls silent.
\<close>

fun ends_stream :: "sse_input \<Rightarrow> bool" where
  "ends_stream HeartbeatTick = False"
| "ends_stream (NextEvent e) = False"
| "ends_stream (CtxDone cause err) = True"
| "ends_stream (ReadFailed cause err) = True"
| "ends_stream EndOfStream = True"
| "ends_stream ResultsClosed = True"

definition stream_ends :: "upstream_response \<Rightarrow> bool" where
  "stream_ends r \<longleftrightarrow> (\<exists>x \<in> set (us_Events r). ends_stream x)"

lemma finished_stays: "foldl (sse_step env) (Finished res, st) inputs = (Finished res, st)"
  by (induction inputs) simp_all

lemma end_finishes:
  assumes "ends_stream x"
  shows "\<exists>res. fst (sse_step env ps x) = Finished res"
proof (cases ps)
  case (Pair ph st)
  with assms show ?thesis
    by (cases ph; cases x) (auto simp: initial_step_def streaming_step_def finish_with_def client_gone_def
        fail_before_start_def fail_streaming_def Let_def split: prod.split)
qed

lemma proxySSE_finishes:
  assumes "\<exists>x \<in> set inputs. ends_stream x"
  shows "\<exists>res. fst (proxySSE env w inputs) = Finished res"
proof -
  from assms obtain x where x: "ends_stream x" "x \<in> set inputs" by blast
  then obtain xs ys where inputs: "inputs = xs @ x # ys" by (auto dest: split_list)
  obtain res st where "sse_step env (foldl (sse_step env) (sse_start w) xs) x = (Finished res, st)"
    using end_finishes [OF x(1)] by (metis prod.collapse)
  then show ?thesis by (simp add: proxySSE_def inputs finished_stays)
qed

fun phase_rank :: "phase \<Rightarrow> nat" where
  "phase_rank PStart = 17"
| "phase_rank PLookup = 16"
| "phase_rank PLoad = 15"
| "phase_rank PAuthorize = 14"
| "phase_rank PRate = 13"
| "phase_rank PGlobal = 12"
| "phase_rank PLarge = 11"
| "phase_rank PRead = 10"
| "phase_rank PAudit = 9"
| "phase_rank PAcquire = 8"
| "phase_rank PSend = 7"
| "phase_rank PAwait = 6"
| "phase_rank (PRelay r) = 5"
| "phase_rank PLeaving = 1"
| "phase_rank PLeft = 0"

definition rank :: "handler \<Rightarrow> nat" where
  "rank h = phase_rank (hd_phase h) +
     (if hd_phase h = PLeaving then (if hd_slot h \<noteq> NoSlot then 1 else 0) + (if hd_large h then 1 else 0)
        + (if hd_global h then 1 else 0) else 0)"

lemma rank_leaving: "hd_phase h = PLeaving \<Longrightarrow> rank h \<le> 4"
  by (simp add: rank_def)

lemma rank_phase: "hd_phase h \<noteq> PLeaving \<Longrightarrow> rank h = phase_rank (hd_phase h)"
  by (simp add: rank_def)

text \<open>A step either turns to leaving or goes to a later phase.\<close>

lemma rank_drops:
  assumes "hd_phase h' = PLeaving \<or> phase_rank (hd_phase h') < phase_rank (hd_phase h)"
    and "5 \<le> phase_rank (hd_phase h)"
  shows "rank h' < rank h"
proof -
  have "hd_phase h \<noteq> PLeaving" using assms(2) by auto
  then have h: "rank h = phase_rank (hd_phase h)" by (rule rank_phase)
  show ?thesis
  proof (cases "hd_phase h' = PLeaving")
    case True
    with rank_leaving [of h'] h assms(2) show ?thesis by simp
  next
    case False
    with h assms(1) show ?thesis by (simp add: rank_phase)
  qed
qed

definition goes_on :: "req_env \<Rightarrow> phase \<Rightarrow> handler \<Rightarrow> bool" where
  "goes_on q p h' \<longleftrightarrow> (hd_phase h' = PLeaving \<or> phase_rank (hd_phase h') < phase_rank p)
     \<and> (\<forall>r. hd_phase h' = PRelay r \<longrightarrow> qe_do q = DoAnswered r)"

lemma goes_on_read:
  "goes_on q PRead (snd (step_read c k q (g, h)))"
proof -
  obtain body how where r: "read_body (EffectiveLimitBytes (body_policy c q)) (qe_request q) = (body, how)" by fastforce
  show ?thesis
  proof (cases how)
    case ReadAll
    obtain g1 h1 where s: "on_trace (\<lambda>t. store_payload c q (hd_requestID h) body
      (t\<lparr>te_RequestBytes := int (length body), te_Model := ExtractRequestedModel body\<rparr>)) (g, h) = (g1, h1)"
      by fastforce
    with ReadAll r show ?thesis by (simp add: goes_on_def step_read_def Let_def serving_simps)
  qed (use r in \<open>simp_all add: goes_on_def step_read_def Let_def serving_simps\<close>)
qed

lemma goes_on_large: "goes_on q PLarge (snd (step_large c k q (g, h)))"
proof -
  obtain g1 h1 where s: "on_writer (limit_headers (body_policy c q)) (on_trace (policy_trace (body_policy c q)) (g, h)) = (g1, h1)"
    by fastforce
  then show ?thesis
    by (simp add: goes_on_def step_large_def take_token_def Let_def serving_simps)
qed

lemma goes_on_found:
  "goes_on q PLookup (snd (route_found c k q route s))" "goes_on q PLoad (snd (route_found c k q route s))"
  "goes_on q PLoad (snd (no_such_route c k q s))"
  by (cases s, simp add: goes_on_def route_found_def no_such_route_def serving_simps)+

lemma goes_on_steps:
  "goes_on q PStart (snd (step_start c k q (g, h)))"
  "goes_on q PLookup (snd (step_lookup c k q (g, h)))"
  "goes_on q PLoad (snd (step_load c k q (g, h)))"
  "goes_on q PAuthorize (snd (step_authorize c k q (g, h)))"
  "goes_on q PRate (snd (step_rate c k q (g, h)))"
  "goes_on q PGlobal (snd (step_global c k q (g, h)))"
  "goes_on q PAudit (snd (step_audit c k q (g, h)))"
  "goes_on q PAcquire (snd (step_acquire c k q (g, h)))"
  "goes_on q PSend (snd (step_send c k q (g, h)))"
  "goes_on q PAwait (snd (step_await c k q (g, h)))"
proof -
  show "goes_on q PStart (snd (step_start c k q (g, h)))"
    by (simp add: goes_on_def step_start_def Let_def serving_simps)
  show "goes_on q PLookup (snd (step_lookup c k q (g, h)))"
    by (simp add: step_lookup_def goes_on_found split: option.split) (simp add: goes_on_def serving_simps)
  show "goes_on q PLoad (snd (step_load c k q (g, h)))"
    by (simp add: step_load_def goes_on_found split: option.split)
  show "goes_on q PAuthorize (snd (step_authorize c k q (g, h)))"
    by (simp add: goes_on_def step_authorize_def serving_simps)
  show "goes_on q PRate (snd (step_rate c k q (g, h)))"
    by (simp add: goes_on_def step_rate_def Let_def serving_simps split: prod.split)
  show "goes_on q PGlobal (snd (step_global c k q (g, h)))"
    by (simp add: goes_on_def step_global_def take_token_def serving_simps)
  show "goes_on q PAudit (snd (step_audit c k q (g, h)))"
    by (simp add: goes_on_def step_audit_def Let_def serving_simps split: prod.split)
  show "goes_on q PAcquire (snd (step_acquire c k q (g, h)))"
    by (simp add: goes_on_def step_acquire_def serving_simps split: prod.split option.split)
  show "goes_on q PSend (snd (step_send c k q (g, h)))"
    by (simp add: goes_on_def step_send_def serving_simps split: sum.split)
  show "goes_on q PAwait (snd (step_await c k q (g, h)))"
    by (simp add: goes_on_def step_await_def Let_def serving_simps split: upstream_outcome.split)
qed

lemma goes_on_relay:
  assumes "is_event_stream r \<longrightarrow> stream_ends r"
  shows "goes_on q (PRelay r) (snd (step_relay c k q r (g, h)))"
proof (cases "is_event_stream r")
  case True
  with assms proxySSE_finishes [of "us_Events r" "relay_env c h r" "hd_w h"]
  obtain res st where "proxySSE (relay_env c h r) (hd_w h) (us_Events r) = (Finished res, st)"
    by (metis stream_ends_def prod.collapse)
  with True show ?thesis by (simp add: goes_on_def step_relay_def step_stream_def serving_simps)
next
  case False
  then show ?thesis
    by (simp add: goes_on_def step_relay_def step_buffered_def serving_simps split: prod.split)
qed

lemma leave_drops: "hd_phase h = PLeaving \<Longrightarrow> rank (snd (step_leave q (g, h))) < rank h"
  by (simp add: step_leave_def rank_def)

lemma serve_drops:
  assumes "hd_phase h \<noteq> PLeft" and "\<And>r. qe_do q = DoAnswered r \<Longrightarrow> is_event_stream r \<longrightarrow> stream_ends r"
    and "\<forall>r. hd_phase h = PRelay r \<longrightarrow> qe_do q = DoAnswered r"
  shows "rank (snd (serve c k q (g, h))) < rank h"
    and "\<forall>r. hd_phase (snd (serve c k q (g, h))) = PRelay r \<longrightarrow> qe_do q = DoAnswered r"
proof -
  consider (leaving) "hd_phase h = PLeaving" | (on) "goes_on q (hd_phase h) (snd (serve c k q (g, h)))"
    "hd_phase h \<noteq> PLeaving"
    using assms goes_on_relay [of _ q]
    by (cases "hd_phase h") (simp_all add: serve_def goes_on_steps goes_on_large goes_on_read)
  then have "rank (snd (serve c k q (g, h))) < rank h
    \<and> (\<forall>r. hd_phase (snd (serve c k q (g, h))) = PRelay r \<longrightarrow> qe_do q = DoAnswered r)"
  proof cases
    case leaving
    then show ?thesis using leave_drops [OF leaving] by (simp add: serve_def step_leave_def)
  next
    case on
    moreover have "5 \<le> phase_rank (hd_phase h)" using assms(1) on(2) by (cases "hd_phase h") simp_all
    ultimately show ?thesis by (simp add: goes_on_def rank_drops)
  qed
  then show "rank (snd (serve c k q (g, h))) < rank h"
    and "\<forall>r. hd_phase (snd (serve c k q (g, h))) = PRelay r \<longrightarrow> qe_do q = DoAnswered r" by blast+
qed

text \<open>The steps of one request, each on the shared state it finds.\<close>

definition own_steps :: "gw_program \<Rightarrow> nat \<Rightarrow> req_env \<Rightarrow> gateway list \<Rightarrow> handler \<Rightarrow> handler" where
  "own_steps c k q gs h = foldl (\<lambda>h g. snd (serve c k q (g, h))) h gs"

lemma own_steps_left: "hd_phase h = PLeft \<Longrightarrow> own_steps c k q gs h = h"
  by (induction gs) (simp_all add: own_steps_def serve_def)

lemma own_steps_end:
  assumes "\<And>r. qe_do q = DoAnswered r \<Longrightarrow> is_event_stream r \<longrightarrow> stream_ends r"
    and "\<forall>r. hd_phase h = PRelay r \<longrightarrow> qe_do q = DoAnswered r" and "rank h \<le> length gs"
  shows "hd_phase (own_steps c k q gs h) = PLeft"
  using assms(2,3)
proof (induction gs arbitrary: h)
  case Nil
  then have "rank h = 0" by simp
  then show ?case by (cases "hd_phase h") (auto simp: rank_def own_steps_def)
next
  case (Cons g gs)
  show ?case
  proof (cases "hd_phase h = PLeft")
    case True
    then show ?thesis by (simp add: own_steps_left)
  next
    case False
    let ?h = "snd (serve c k q (g, h))"
    note d = serve_drops [OF False assms(1) Cons.prems(1), of c k g]
    have "rank ?h \<le> length gs" using d(1) Cons.prems(2) by simp
    with d(2) Cons.IH [of ?h] show ?thesis by (simp add: own_steps_def)
  qed
qed

lemma own_steps_well_phased: "well_phased q h \<Longrightarrow> well_phased q (own_steps c k q gs h)"
  unfolding own_steps_def by (rule foldl_invariant) (auto simp: serve_well_phased)

end
