(* ===== verification/Gateway_Passage.thy ===== *)
theory Gateway_Passage
  imports Gateway_Vetting
begin

text \<open>
  The way of a request that nothing stops: which checks it must pass, and that it is then forwarded.
\<close>

record standing =
  vw_phase :: phase
  vw_route :: Route
  vw_requestID :: string
  vw_body :: string
  vw_guard :: RedisGuard
  vw_sent :: "(nat \<times> upstream_request) list"
  vw_global :: nat
  vw_large :: nat

definition view :: "serving \<Rightarrow> standing" where
  "view s = \<lparr>vw_phase = hd_phase (snd s), vw_route = hd_route (snd s), vw_requestID = hd_requestID (snd s),
     vw_body = hd_body (snd s), vw_guard = gw_guard (fst s), vw_sent = gw_sent (fst s),
     vw_global = gw_global (fst s), vw_large = gw_large (fst s)\<rparr>"

lemma view_on [simp]:
  "view (on_writer f s) = view s" "view (on_trace t s) = view s"
  "view (proceed p s) = (view s)\<lparr>vw_phase := p\<rparr>"
  by (simp_all add: view_def serving_simps)

lemma view_pair: "view (g, h) = \<lparr>vw_phase = hd_phase h, vw_route = hd_route h, vw_requestID = hd_requestID h,
    vw_body = hd_body h, vw_guard = gw_guard g, vw_sent = gw_sent g, vw_global = gw_global g, vw_large = gw_large g\<rparr>"
  by (simp add: view_def)

text \<open>Each step, when its check is passed.\<close>

lemma pass_start:
  assumes "hd_phase h = PStart" and "\<not> untraced q"
  shows "view (serve c k q (g, h)) = (view (g, h))\<lparr>vw_phase := PLookup, vw_requestID := fst (request_identity q)\<rparr>
    \<and> hd_trace (snd (serve c k q (g, h))) = initial_trace c q \<and> gw_cache (fst (serve c k q (g, h))) = gw_cache g"
  using assms by (simp add: serve_def step_start_def untraced_def Let_def view_pair proceed_def)

lemma pass_lookup:
  assumes "hd_phase h = PLookup" and "cached_route (gw_cache g) (qe_lookupTime q) (rq_Route (qe_request q)) = None"
  shows "serve c k q (g, h) = (g, h\<lparr>hd_phase := PLoad\<rparr>)"
  using assms by (simp add: serve_def step_lookup_def proceed_def)

lemma pass_load:
  assumes "hd_phase h = PLoad" and "qe_db q = Some route" and "rt_Enabled route"
  shows "view (serve c k q (g, h)) = (view (g, h))\<lparr>vw_phase := PAuthorize, vw_route := route\<rparr>
    \<and> hd_trace (snd (serve c k q (g, h))) = hd_trace h"
  using assms by (simp add: serve_def step_load_def route_found_def view_pair proceed_def)

lemma pass_authorize:
  assumes "hd_phase h = PAuthorize" and "authorized c (qe_request q) (hd_route h)"
  shows "serve c k q (g, h) = (g, h\<lparr>hd_phase := PRate\<rparr>)"
  using assms by (simp add: serve_def step_authorize_def proceed_def)

lemma pass_rate:
  assumes "hd_phase h = PRate"
    and "Allow (qe_rateUp q) (qe_rateMs q) (qe_rateNs q) (rate_key c q (hd_trace h))
      (rt_RateLimitRPS (hd_route h)) (rt_RateLimitBurst (hd_route h)) (gw_guard g) = (guard, True)"
  shows "view (serve c k q (g, h)) = (view (g, h))\<lparr>vw_phase := PGlobal, vw_guard := guard\<rparr>"
  using assms by (simp add: serve_def step_rate_def view_pair)

lemma pass_global:
  assumes "vw_phase (view s) = PGlobal" and "vw_global (view s) < gc_GlobalMaxConcurrency c"
  shows "view (serve c k q s) = (view s)\<lparr>vw_phase := PLarge, vw_global := vw_global (view s) + 1\<rparr>"
  using assms by (cases s) (simp add: serve_def step_global_def take_token_def view_pair)

lemma pass_large:
  assumes "vw_phase (view s) = PLarge" and "announced_ok c q"
    and "requestBodyNeedsLargeSlot (rq_ContentLength (qe_request q)) (gc_LargeRequestThresholdBytes c) \<longrightarrow>
      vw_large (view s) < gc_LargeRequestMaxConcurrency c"
  shows "\<exists>m. view (serve c k q s) = (view s)\<lparr>vw_phase := PRead, vw_large := m\<rparr>"
proof -
  let ?pol = "body_policy c q"
  obtain g h where s: "on_writer (limit_headers ?pol) (on_trace (policy_trace ?pol) s) = (g, h)" by fastforce
  then have v: "view s = view (g, h)" by (metis view_on(1,2))
  have "hd_phase (snd s) = PLarge" using assms(1) by (simp add: view_def)
  with s v assms show ?thesis
    by (cases "requestBodyNeedsLargeSlot (rq_ContentLength (qe_request q)) (gc_LargeRequestThresholdBytes c)")
      (auto simp: serve_def step_large_def announced_ok_def take_token_def Let_def view_pair)
qed

lemma pass_read:
  assumes "vw_phase (view s) = PRead" and "read_whole c q body"
  shows "view (serve c k q s) = (view s)\<lparr>vw_phase := PAudit, vw_body := body\<rparr>"
proof -
  obtain g h where s: "on_trace (\<lambda>t. store_payload c q (hd_requestID (snd s)) body
      (t\<lparr>te_RequestBytes := int (length body), te_Model := ExtractRequestedModel body\<rparr>)) s = (g, h)" by fastforce
  then have v: "view s = view (g, h)" by (metis view_on(2))
  have "hd_phase (snd s) = PRead" using assms(1) by (simp add: view_def)
  with s v assms(2) show ?thesis
    by (simp add: serve_def step_read_def read_whole_def Let_def view_pair)
qed

lemma pass_audit:
  assumes "vw_phase (view s) = PAudit" and "passed_audit q (vw_route (view s)) (vw_body (view s))"
  shows "view (serve c k q s) = (view s)\<lparr>vw_phase := PAcquire\<rparr>"
proof -
  obtain r ms where a: "qe_audit q (hd_route (snd s)) (hd_body (snd s)) = (r, ms)" by fastforce
  have "hd_phase (snd s) = PAudit" using assms(1) by (simp add: view_def)
  with a assms(2) show ?thesis
    by (simp add: serve_def step_audit_def passed_audit_def Let_def view_def [of s] view_def [of "proceed p t" for p t]
        serving_simps)
qed

lemma pass_acquire:
  assumes "vw_phase (view s) = PAcquire"
    and "Acquire (qe_acquireUp q) (qe_acquireMs q) (qe_token q) (''route:'' @ rq_Route (qe_request q))
      (rt_MaxConcurrency (vw_route (view s))) (timeout_ms (vw_route (view s)) + 30000) (vw_guard (view s)) = (guard, Some sl)"
  shows "view (serve c k q s) = (view s)\<lparr>vw_phase := PSend, vw_guard := guard\<rparr>"
  using assms by (cases s) (simp add: serve_def step_acquire_def view_pair)

lemma pass_send:
  assumes "vw_phase (view s) = PSend"
    and "built c q (vw_route (view s)) (vw_body (view s)) (vw_requestID (view s)) = Inr up"
  shows "view (serve c k q s) = (view s)\<lparr>vw_phase := PAwait, vw_sent := vw_sent (view s) @ [(k, up)]\<rparr>"
  using assms by (cases s) (simp add: serve_def step_send_def built_def view_pair)

section \<open>The whole way\<close>

text \<open>
  \<open>open_way\<close>: the checks of a request that arrives alone at a gateway in state \<open>g\<close>; the rate guard
  answers first, the slot guard in the state that leaves.
\<close>

definition open_way :: "gw_program \<Rightarrow> req_env \<Rightarrow> gateway \<Rightarrow> Route \<Rightarrow> string \<Rightarrow> bool" where
  "open_way c q g route body \<longleftrightarrow>
     \<not> untraced q \<and> cached_route (gw_cache g) (qe_lookupTime q) (rq_Route (qe_request q)) = None
     \<and> qe_db q = Some route \<and> rt_Enabled route \<and> authorized c (qe_request q) route
     \<and> gw_global g < gc_GlobalMaxConcurrency c \<and> announced_ok c q
     \<and> (requestBodyNeedsLargeSlot (rq_ContentLength (qe_request q)) (gc_LargeRequestThresholdBytes c) \<longrightarrow>
          gw_large g < gc_LargeRequestMaxConcurrency c)
     \<and> read_whole c q body \<and> passed_audit q route body
     \<and> (case Allow (qe_rateUp q) (qe_rateMs q) (qe_rateNs q) (rate_key c q (initial_trace c q))
              (rt_RateLimitRPS route) (rt_RateLimitBurst route) (gw_guard g) of
          (guard, ok) \<Rightarrow> ok \<and> snd (Acquire (qe_acquireUp q) (qe_acquireMs q) (qe_token q)
              (''route:'' @ rq_Route (qe_request q)) (rt_MaxConcurrency route) (timeout_ms route + 30000) guard) \<noteq> None)"

lemma passage:
  assumes "open_way c q g route body" and "built c q route body (fst (request_identity q)) = Inr up"
  shows "gw_sent (fst (((serve c k q) ^^ 11) (g, fresh_handler q))) = gw_sent g @ [(k, up)]
    \<and> hd_phase (snd (((serve c k q) ^^ 11) (g, fresh_handler q))) = PAwait"
proof -
  define st where "st n = ((serve c k q) ^^ n) (g, fresh_handler q)" for n
  have st0: "st 0 = (g, fresh_handler q)" and next_st: "st (Suc n) = serve c k q (st n)" for n
    by (simp_all add: st_def)
  define v where "v = \<lparr>vw_phase = PStart, vw_route = no_route, vw_requestID = fst (request_identity q),
    vw_body = [], vw_guard = gw_guard g, vw_sent = gw_sent g, vw_global = gw_global g, vw_large = gw_large g\<rparr>"
  obtain guard where rate: "Allow (qe_rateUp q) (qe_rateMs q) (qe_rateNs q) (rate_key c q (initial_trace c q))
      (rt_RateLimitRPS route) (rt_RateLimitBurst route) (gw_guard g) = (guard, True)"
    using assms(1) by (auto simp: open_way_def split: prod.splits)
  obtain guard' r where acq: "Acquire (qe_acquireUp q) (qe_acquireMs q) (qe_token q)
      (''route:'' @ rq_Route (qe_request q)) (rt_MaxConcurrency route) (timeout_ms route + 30000) guard = (guard', r)"
    by fastforce
  with assms(1) rate have "r \<noteq> None" by (simp add: open_way_def)
  with acq obtain sl where slot: "Acquire (qe_acquireUp q) (qe_acquireMs q) (qe_token q)
      (''route:'' @ rq_Route (qe_request q)) (rt_MaxConcurrency route) (timeout_ms route + 30000) guard = (guard', Some sl)"
    by blast
  have f: "hd_phase (fresh_handler q) = PStart" by (simp add: fresh_handler_def)
  have 1: "view (st 1) = v\<lparr>vw_phase := PLookup\<rparr> \<and> hd_trace (snd (st 1)) = initial_trace c q \<and> gw_cache (fst (st 1)) = gw_cache g"
    using pass_start [OF f, of q c k g] assms(1)
    by (simp add: next_st [of 0, simplified] st0 v_def open_way_def view_pair fresh_handler_def)
  obtain g1 h1 where p1: "st 1 = (g1, h1)" by fastforce
  have 2: "st 2 = (g1, h1\<lparr>hd_phase := PLoad\<rparr>)"
    using pass_lookup [of h1 g1 q c k] 1 p1 assms(1) next_st [of 1] by (simp add: view_pair v_def open_way_def numeral_2_eq_2)
  have 3: "view (st 3) = v\<lparr>vw_phase := PAuthorize, vw_route := route\<rparr> \<and> hd_trace (snd (st 3)) = initial_trace c q"
    using pass_load [of "h1\<lparr>hd_phase := PLoad\<rparr>" q route c k g1] 1 2 p1 assms(1) next_st [of 2]
    by (simp add: view_pair v_def open_way_def numeral_3_eq_3 numeral_2_eq_2)
  obtain g3 h3 where p3: "st 3 = (g3, h3)" by fastforce
  have 4: "st 4 = (g3, h3\<lparr>hd_phase := PRate\<rparr>)"
    using pass_authorize [of h3 c q k g3] 3 p3 assms(1) next_st [of 3] by (simp add: view_pair v_def open_way_def)
  have 5: "view (st 5) = v\<lparr>vw_phase := PGlobal, vw_route := route, vw_guard := guard\<rparr>"
    using pass_rate [of "h3\<lparr>hd_phase := PRate\<rparr>" q c g3 guard k] 3 4 p3 rate next_st [of 4] by (simp add: view_pair v_def)
  have 6: "view (st 6) = (view (st 5))\<lparr>vw_phase := PLarge, vw_global := gw_global g + 1\<rparr>"
    using pass_global [of "st 5" c k q] 5 assms(1) next_st [of 5] by (simp add: v_def open_way_def)
  obtain m where 7: "view (st 7) = (view (st 6))\<lparr>vw_phase := PRead, vw_large := m\<rparr>"
    using pass_large [of "st 6" c q k] 5 6 assms(1) next_st [of 6] by (auto simp: v_def open_way_def)
  have 8: "view (st 8) = (view (st 7))\<lparr>vw_phase := PAudit, vw_body := body\<rparr>"
    using pass_read [of "st 7" c q body k] 7 assms(1) next_st [of 7] by (simp add: open_way_def)
  have 9: "view (st 9) = (view (st 8))\<lparr>vw_phase := PAcquire\<rparr>"
    using pass_audit [of "st 8" q c k] 5 6 7 8 assms(1) next_st [of 8] by (simp add: v_def open_way_def)
  have 10: "view (st 10) = (view (st 9))\<lparr>vw_phase := PSend, vw_guard := guard'\<rparr>"
    using pass_acquire [of "st 9" q guard' sl c k] 5 6 7 8 9 slot next_st [of 9] by (simp add: v_def)
  have 11: "view (st 11) = (view (st 10))\<lparr>vw_phase := PAwait, vw_sent := gw_sent g @ [(k, up)]\<rparr>"
    using pass_send [of "st 10" c q up k] 5 6 7 8 9 10 assms(2) next_st [of 10] by (simp add: v_def)
  from 11 show ?thesis by (simp add: st_def [of 11, symmetric] view_def)
qed

end
