(* ===== verification/Tracking_Ingest.thy ===== *)
theory Tracking_Ingest
  imports Trace_Writer Security
begin

text \<open>
  The tracking events a client reports (\<open>ingestTrackingEvents\<close> and \<open>sanitizeMetadata\<close> of \<open>http.go\<close>,
  \<open>metadata_privacy.go\<close>): signed requests, the protection against replays, the cleaning of the
  metadata and the traces submitted. Decoding the body into the event types, encoding a value and
  formatting a time are parameters.
\<close>

section \<open>Cleaning metadata\<close>

definition sensitive_fragments :: "string list" where
  "sensitive_fragments = [''password'', ''passwd'', ''secret'', ''authorization'', ''cookie'', ''private_key'',
     ''session_key'', ''request_body'', ''response_body'']"

definition sensitive_suffixes :: "string list" where
  "sensitive_suffixes = [''_token'', ''_api_key'', ''_apikey'', ''_prompt'', ''_messages'', ''_content'', ''_input'',
     ''_instructions'']"

definition sensitive_names :: "string list" where
  "sensitive_names = [''token'', ''prompt'', ''messages'', ''content'', ''input'', ''instructions'']"

definition metadataKeyLooksSensitive :: "string \<Rightarrow> bool" where
  "metadataKeyLooksSensitive key =
     (let lowerKey = to_lower (trim_space key) in
      if lowerKey = [] then False
      else list_ex (\<lambda>f. contains lowerKey f) sensitive_fragments
        \<or> list_ex (\<lambda>s. is_suffix s lowerKey) sensitive_suffixes
        \<or> contains lowerKey ''bearer_token'' \<or> lowerKey \<in> set sensitive_names)"

definition blocked_keys :: "string list" where
  "blocked_keys = [''prompt'', ''messages'', ''content'', ''input'', ''instructions'', ''system_prompt'',
     ''request_body'', ''response_body'', ''api_key'', ''apikey'', ''authorization'', ''password'', ''secret'', ''cookie'',
     ''set-cookie'', ''access_token'', ''refresh_token'']"

definition key_kept :: "string \<Rightarrow> bool" where
  "key_kept key =
     (let lowerKey = to_lower (trim_space key) in
      \<not> (lowerKey \<in> set blocked_keys \<or> metadataKeyLooksSensitive lowerKey \<or> length key > 100))"

text \<open>A decoded value has no \<open>MInt\<close>; Go would print one with \<open>fmt.Sprint\<close>.\<close>

function clean_value :: "nat \<Rightarrow> mval \<Rightarrow> mval" where
  "clean_value depth value =
     (if depth > 5 then MNil
      else (case value of
              MMap members \<Rightarrow>
                MMap (map (\<lambda>(key, child). (key, clean_value (depth + 1) child)) (filter (\<lambda>(key, _). key_kept key) members))
            | MList items \<Rightarrow> MList (map (clean_value (depth + 1)) (take 100 items))
            | MStr s \<Rightarrow> MStr (truncateString s 500)
            | MInt n \<Rightarrow> MStr (dec_int n)
            | other \<Rightarrow> other))"
  by pat_completeness auto
termination by (relation "measure (\<lambda>(depth, _). 6 - depth)") auto

declare clean_value.simps [simp del]

definition sanitizeMetadata :: "(mval \<Rightarrow> string) \<Rightarrow> (string \<times> mval) list \<Rightarrow> (string \<times> mval) list" where
  "sanitizeMetadata encode input =
     (let result = clean_value 0 (MMap input); encoded = encode result in
      if length encoded > 32 * 1024
      then [(''metadata_truncated'', MBool True), (''original_bytes'', MInt (int (length encoded)))]
      else (case result of MMap members \<Rightarrow> members | _ \<Rightarrow> []))"

section \<open>What is left\<close>

text \<open>\<open>tidy n v\<close>: at most \<open>n\<close> levels, no sensitive key, and bounded strings and lists.\<close>

fun tidy :: "nat \<Rightarrow> mval \<Rightarrow> bool" where
  "tidy n (MStr s) \<longleftrightarrow> length s \<le> 500"
| "tidy n (MInt i) \<longleftrightarrow> False"
| "tidy (Suc n) (MMap members) \<longleftrightarrow> (\<forall>m \<in> set members. key_kept (fst m) \<and> tidy n (snd m))"
| "tidy (Suc n) (MList items) \<longleftrightarrow> length items \<le> 100 \<and> (\<forall>v \<in> set items. tidy n v)"
| "tidy 0 (MMap members) \<longleftrightarrow> False"
| "tidy 0 (MList items) \<longleftrightarrow> False"
| "tidy n v \<longleftrightarrow> True"

text \<open>A value decoded from JSON.\<close>

fun decoded :: "mval \<Rightarrow> bool" where
  "decoded (MInt i) \<longleftrightarrow> False"
| "decoded (MMap members) \<longleftrightarrow> list_all decoded (map snd members)"
| "decoded (MList items) \<longleftrightarrow> list_all decoded items"
| "decoded v \<longleftrightarrow> True"

lemma clean_tidy: "decoded v \<Longrightarrow> n = 6 - depth \<Longrightarrow> tidy n (clean_value depth v)"
proof (induction depth v arbitrary: n rule: clean_value.induct)
  case (1 depth v)
  show ?case
  proof (cases "depth > 5")
    case True
    with 1 show ?thesis by (simp add: clean_value.simps [of depth v])
  next
    case False
    with 1(4) obtain m where n: "n = Suc m" "m = 6 - (depth + 1)" by (cases n) auto
    show ?thesis
    proof (cases v)
      case (MMap members)
      have "key_kept k \<and> tidy m (clean_value (depth + 1) w)" if "(k, w) \<in> set (filter (\<lambda>(key, _). key_kept key) members)" for k w
        using 1(2) [OF False MMap that refl] that 1(3) MMap n(2) by (auto simp: list_all_iff)
      with False MMap n(1) show ?thesis by (auto simp: clean_value.simps [of depth "MMap members"])
    next
      case (MList items)
      have "tidy m (clean_value (depth + 1) w)" if "w \<in> set (take 100 items)" for w
        using 1(1) [OF False MList that] that 1(3) MList n(2) by (auto simp: list_all_iff dest: in_set_takeD)
      with False MList n(1) show ?thesis by (auto simp: clean_value.simps [of depth "MList items"])
    qed (use False 1(3) n(1) in \<open>simp_all add: clean_value.simps [of depth] truncateString_def\<close>)
  qed
qed

lemma sanitized_tidy:
  assumes "list_all decoded (map snd input)"
  shows "tidy 6 (MMap (sanitizeMetadata encode input)) \<or>
    (\<exists>n. sanitizeMetadata encode input = [(''metadata_truncated'', MBool True), (''original_bytes'', MInt n)])"
proof -
  have c: "tidy 6 (clean_value 0 (MMap input))" using assms by (intro clean_tidy) simp_all
  obtain members where "clean_value 0 (MMap input) = MMap members" by (simp add: clean_value.simps [of 0])
  with c show ?thesis by (auto simp: sanitizeMetadata_def Let_def)
qed

text \<open>No key at any level: the keys a value contains.\<close>

fun keys_of :: "mval \<Rightarrow> string set" where
  "keys_of (MMap members) = (\<Union>m \<in> set members. insert (fst m) (keys_of (snd m)))"
| "keys_of (MList items) = (\<Union>v \<in> set items. keys_of v)"
| "keys_of v = {}"

lemma tidy_keys: "tidy n v \<Longrightarrow> k \<in> keys_of v \<Longrightarrow> key_kept k"
  by (induction n v rule: tidy.induct) auto

lemma kept_not_sensitive:
  assumes "key_kept k"
  shows "\<not> metadataKeyLooksSensitive (to_lower (trim_space k))" and "length k \<le> 100"
    and "to_lower (trim_space k) \<notin> set blocked_keys"
  using assms by (auto simp: key_kept_def Let_def)

text \<open>The documented names, and one that slips through.\<close>

lemma key_examples:
  "\<not> key_kept ''Password''" "\<not> key_kept ''x_api_key''" "\<not> key_kept '' Access_Token ''" "key_kept ''x-api-key''"
  "key_kept ''accessToken''"
  by code_simp+

end
