(* ===== verification/Tracking_Requests.thy ===== *)
theory Tracking_Requests
  imports Tracking_Ingest Audit_Types
begin

text \<open>
  The endpoint for tracking events (\<open>ingestTrackingEvents\<close> of \<open>http.go\<close>): a signed request is
  checked in the order of the code, its nonce is used up, and each of its events becomes a trace. The
  other submitters and the workers of the trace writer run between two submissions. Decoding the body
  into the event types, encoding a value, formatting a time and the answers of PostgreSQL and Redis
  are fields of the environment.
\<close>

section \<open>The endpoint\<close>

record TrackingClient =
  tc_SecretCiphertext :: string
  tc_Enabled :: bool

record tracking_config =
  tg_clockSkew :: duration
  tg_nonceTTLms :: int
  tg_capacity :: nat
  tg_batchSize :: nat
  tg_key :: string

text \<open>
  \<open>ie_clock\<close>, \<open>ie_nonceMs\<close> and \<open>ie_now\<close> are the readings of the clock for the skew, in the nonce
  register and before the first event; \<open>ie_fresh i\<close>, \<open>ie_up i\<close> and \<open>ie_others i\<close> belong to event \<open>i\<close>:
  a new identifier, the fate of a dead-letter push, and what else happened before its submission.
\<close>

record tracking_env =
  ie_readFails :: bool
  ie_clock :: time
  ie_client :: "string \<Rightarrow> TrackingClient option"
  ie_redisUp :: bool
  ie_dbUp :: bool
  ie_nonceMs :: int
  ie_envelope :: "string \<Rightarrow> TrackingEvent list option"
  ie_single :: "string \<Rightarrow> TrackingEvent option"
  ie_now :: time
  ie_fresh :: "nat \<Rightarrow> string"
  ie_up :: "nat \<Rightarrow> bool"
  ie_others :: "nat \<Rightarrow> writer_input list"
  ie_encode :: "mval \<Rightarrow> string"
  ie_format :: "time \<Rightarrow> string"

datatype api_response = ApiError int string string | Accepted int int time

definition maxTrackingBody :: nat where "maxTrackingBody = 2 * 1024 * 1024"

text \<open>\<open>time.Unix\<close> adds the seconds from year 1 to 1970 in 64 bits; \<open>Duration.Abs\<close> saturates.\<close>

definition unix_time :: "int \<Rightarrow> time" where
  "unix_time seconds = wrap64 (seconds + 62135596800) * second"

definition duration_abs :: "duration \<Rightarrow> duration" where
  "duration_abs d = (if d \<ge> 0 then d else if d = min_int64 then max_int64 else - d)"

definition duration_ms :: "duration \<Rightarrow> int" where
  "duration_ms d = (if d < 0 then - (- d div millisecond) else d div millisecond)"

definition stale :: "tracking_config \<Rightarrow> time \<Rightarrow> string \<Rightarrow> bool" where
  "stale cfg clock timestampText =
     (case parse_int64 timestampText of
        None \<Rightarrow> True
      | Some timestamp \<Rightarrow> duration_abs (time_sub clock (unix_time timestamp)) > tg_clockSkew cfg)"

definition authentic :: "crypto \<Rightarrow> tracking_config \<Rightarrow> TrackingClient \<Rightarrow> string \<Rightarrow> string \<Rightarrow> string \<Rightarrow> string \<Rightarrow> bool" where
  "authentic cy cfg client timestampText nonce body signature =
     (case Decrypt cy (tg_key cfg) ''tracking-client-secret-v1'' (tc_SecretCiphertext client) of
        Inl err \<Rightarrow> False
      | Inr secret \<Rightarrow> VerifyTrackingSignature cy secret timestampText nonce body signature)"

definition tracking_events :: "tracking_env \<Rightarrow> string \<Rightarrow> TrackingEvent list option" where
  "tracking_events env body =
     (case ie_envelope env body of
        Some (e # es) \<Rightarrow> Some (e # es)
      | _ \<Rightarrow> (case ie_single env body of
               None \<Rightarrow> None
             | Some single \<Rightarrow> if tk_RequestID single = [] then None else Some [single]))"

section \<open>One event\<close>

definition tracking_decision :: "string \<Rightarrow> string" where
  "tracking_decision d0 =
     (let decision = to_lower (trim_space d0) in
      if decision \<noteq> DecisionAllow \<and> decision \<noteq> DecisionBlock \<and> decision \<noteq> ''error'' \<and> decision \<noteq> DecisionReview
      then ''unknown'' else decision)"

definition tracking_metadata :: "tracking_env \<Rightarrow> TrackingEvent \<Rightarrow> trackingTimeline \<Rightarrow> metadata" where
  "tracking_metadata env event timeline =
     (let m0 = map_of (sanitizeMetadata (ie_encode env) (tk_Metadata event));
          m1 = (if tk_OccurredAt event \<noteq> 0
                then m0(''occurred_at'' \<mapsto> MStr (ie_format env (tk_OccurredAt event))) else m0)
      in m1(''tracking_started_at'' \<mapsto> MStr (ie_format env (tl_StartedAt timeline)),
            ''tracking_completed_at'' \<mapsto> MStr (ie_format env (tl_CompletedAt timeline)),
            ''tracking_ingested_at'' \<mapsto> MStr (ie_format env (tl_IngestedAt timeline)),
            ''tracking_time_source'' \<mapsto> MStr (tl_Source timeline),
            ''tracking_clock_offset_ms'' \<mapsto> MInt (duration_ms (tl_ClockOffset timeline))))"

text \<open>\<open>now\<close> is not the zero time, so the clock \<open>deriveTrackingTimeline\<close> falls back on is not read.\<close>

definition tracking_trace :: "tracking_env \<Rightarrow> string \<Rightarrow> nat \<Rightarrow> TrackingEvent \<Rightarrow> TraceEvent" where
  "tracking_trace env keyID i event =
     (let requestID0 = normalizeRequestID (tk_RequestID event);
          requestID = (if requestID0 = [] then ie_fresh env i else requestID0);
          timeline = deriveTrackingTimeline (ie_now env) event (ie_now env);
          externalEventID = truncateString (firstNonEmpty [tk_EventID event, requestID]) 200
      in empty_trace\<lparr>te_RequestID := requestID, te_ExternalEventID := keyID @ '':'' @ externalEventID,
           te_Source := ''newapi'', te_RouteSlug := truncateString (tk_RouteSlug event) 100,
           te_NewAPIRequestID := normalizeRequestID (tk_NewAPIRequestID event),
           te_ExternalUserID := normalizeIdentifier (tk_ExternalUserID event),
           te_Model := truncateString (tk_Model event) 200, te_Endpoint := truncateString (tk_Endpoint event) 300,
           te_Decision := tracking_decision (tk_Decision event),
           te_RiskCode := truncateString (tk_RiskCode event) 200, te_HTTPStatus := tk_HTTPStatus event,
           te_UpstreamStatus := tk_UpstreamStatus event, te_LatencyMS := tk_LatencyMS event,
           te_AuditLatencyMS := tk_AuditLatencyMS event, te_RequestBytes := tk_RequestBytes event,
           te_ResponseBytes := tk_ResponseBytes event, te_PromptHMAC := truncateString (tk_PromptHMAC event) 128,
           te_Metadata := tracking_metadata env event timeline, te_StartedAt := tl_StartedAt timeline,
           te_CompletedAt := tl_CompletedAt timeline, te_IngestedAt := tl_IngestedAt timeline,
           te_CreatedAt := ie_now env\<rparr>)"

text \<open>The loop over the events: event \<open>i\<close> is submitted after whatever else happened before it.\<close>

fun submit_events ::
    "tracking_config \<Rightarrow> tracking_env \<Rightarrow> string \<Rightarrow> nat \<Rightarrow> TrackingEvent list \<Rightarrow> trace_writer \<Rightarrow> trace_writer \<times> int \<times> int" where
  "submit_events cfg env keyID i [] w = (w, 0, 0)"
| "submit_events cfg env keyID i (event # rest) w =
     (let w1 = foldl (writer_step (tg_capacity cfg) (tg_batchSize cfg)) w (ie_others env i);
          (w2, queued) = Submit (tg_capacity cfg) (ie_fresh env i) (ie_now env) (ie_up env i)
                           (tracking_trace env keyID i event) w1;
          (w3, accepted, deferred) = submit_events cfg env keyID (i + 1) rest w2
      in (w3, if queued then (accepted + 1, deferred) else (accepted, deferred + 1)))"

section \<open>The checks\<close>

type_synonym tracking_state = "trace_writer \<times> nonce_table"

definition use_nonce ::
    "tracking_config \<Rightarrow> tracking_env \<Rightarrow> string \<Rightarrow> string \<Rightarrow> tracking_state \<Rightarrow> tracking_state \<times> (string + bool)" where
  "use_nonce cfg env keyID nonce st =
     (case st of (w, table) \<Rightarrow>
        case UseNonce (ie_redisUp env) (ie_dbUp env) (ie_nonceMs env) keyID nonce (tg_nonceTTLms cfg)
               (ts_redis (bw_world w), table) of
          ((g, table'), r) \<Rightarrow> ((w\<lparr>bw_world := (bw_world w)\<lparr>ts_redis := g\<rparr>\<rparr>, table'), r))"

definition invalid_signature :: "string \<Rightarrow> api_response" where
  "invalid_signature message = ApiError 401 ''invalid_signature'' message"

definition ingest_payload ::
    "tracking_config \<Rightarrow> tracking_env \<Rightarrow> string \<Rightarrow> string \<Rightarrow> tracking_state \<Rightarrow> tracking_state \<times> api_response" where
  "ingest_payload cfg env keyID body st =
     (case tracking_events env body of
        None \<Rightarrow> (st, ApiError 400 ''invalid_payload'' ''payload must contain one event or an events array'')
      | Some events \<Rightarrow>
          if length events > 1000
          then (st, ApiError 400 ''batch_too_large'' ''a tracking batch may contain at most 1000 events'')
          else (case submit_events cfg env keyID 0 events (fst st) of
                  (w, accepted, deferred) \<Rightarrow> ((w, snd st), Accepted accepted deferred (ie_now env))))"

definition ingestTrackingEvents ::
    "crypto \<Rightarrow> tracking_config \<Rightarrow> tracking_env \<Rightarrow> headers \<Rightarrow> string \<Rightarrow> tracking_state \<Rightarrow> tracking_state \<times> api_response" where
  "ingestTrackingEvents cy cfg env header body st =
     (let keyID = trim_space (header_get header ''X-Risk-Key-Id'');
          timestampText = trim_space (header_get header ''X-Risk-Timestamp'');
          nonce = trim_space (header_get header ''X-Risk-Nonce'');
          signature = trim_space (header_get header ''X-Risk-Signature'')
      in if ie_readFails env \<or> length body > maxTrackingBody
         then (st, ApiError 413 ''request_too_large'' ''tracking payload is too large'')
         else if keyID = [] \<or> timestampText = [] \<or> nonce = [] \<or> signature = [] \<or> length nonce > 200
         then (st, invalid_signature ''signed tracking headers are required'')
         else if stale cfg (ie_clock env) timestampText
         then (st, ApiError 401 ''stale_signature'' ''tracking signature timestamp is outside the allowed window'')
         else (case ie_client env keyID of
           None \<Rightarrow> (st, invalid_signature ''tracking client is not authorized'')
         | Some client \<Rightarrow>
             if \<not> tc_Enabled client then (st, invalid_signature ''tracking client is not authorized'')
             else if \<not> authentic cy cfg client timestampText nonce body signature
             then (st, invalid_signature ''tracking signature is invalid'')
             else (case use_nonce cfg env keyID nonce st of
               (st', Inl err) \<Rightarrow>
                 (st', ApiError 503 ''nonce_store_unavailable'' ''tracking replay protection is unavailable'')
             | (st', Inr False) \<Rightarrow>
                 (st', ApiError 409 ''replayed_request'' ''tracking nonce has already been used'')
             | (st', Inr True) \<Rightarrow> ingest_payload cfg env keyID body st')))"

section \<open>What the loop does\<close>

text \<open>The inputs of the trace writer while the events are submitted.\<close>

fun tracking_inputs :: "tracking_env \<Rightarrow> string \<Rightarrow> nat \<Rightarrow> TrackingEvent list \<Rightarrow> writer_input list" where
  "tracking_inputs env keyID i [] = []"
| "tracking_inputs env keyID i (event # rest) =
     ie_others env i @ SubmitCall (ie_fresh env i) (ie_now env) (ie_up env i) (tracking_trace env keyID i event)
       # tracking_inputs env keyID (i + 1) rest"

lemma submit_events_run:
  "submit_events cfg env keyID i events w = (w', a, d) \<Longrightarrow>
     w' = foldl (writer_step (tg_capacity cfg) (tg_batchSize cfg)) w (tracking_inputs env keyID i events)
     \<and> a + d = int (length events) \<and> 0 \<le> a \<and> 0 \<le> d"
proof (induction events arbitrary: i w w' a d)
  case (Cons event rest)
  let ?w1 = "foldl (writer_step (tg_capacity cfg) (tg_batchSize cfg)) w (ie_others env i)"
  obtain w2 q where s: "Submit (tg_capacity cfg) (ie_fresh env i) (ie_now env) (ie_up env i)
      (tracking_trace env keyID i event) ?w1 = (w2, q)" by fastforce
  obtain w3 a' d' where r: "submit_events cfg env keyID (i + 1) rest w2 = (w3, a', d')"
    by (cases "submit_events cfg env keyID (i + 1) rest w2") auto
  have "w' = w3 \<and> (a, d) = (if q then (a' + 1, d') else (a', d' + 1))"
    using Cons.prems s r by (auto simp: Let_def)
  with Cons.IH [OF r] s show ?case by (auto split: if_splits)
qed simp

text \<open>The traces of the request; they are among the submitted ones.\<close>

fun own_traces :: "tracking_env \<Rightarrow> string \<Rightarrow> nat \<Rightarrow> TrackingEvent list \<Rightarrow> TraceEvent list" where
  "own_traces env keyID i [] = []"
| "own_traces env keyID i (event # rest) =
     complete_event (ie_fresh env i) (ie_now env) (tracking_trace env keyID i event) # own_traces env keyID (i + 1) rest"

lemma own_traces_submitted: "mset (own_traces env keyID i events) \<subseteq># mset (submitted (tracking_inputs env keyID i events))"
  by (induction events arbitrary: i) (simp_all add: submitted_append subset_mset.add_increasing)

lemma length_own_traces [simp]: "length (own_traces env keyID i events) = length events"
  by (induction events arbitrary: i) simp_all

section \<open>What an accepted request has passed\<close>

definition signed_headers :: "headers \<Rightarrow> string \<times> string \<times> string \<times> string" where
  "signed_headers header =
     (trim_space (header_get header ''X-Risk-Key-Id''), trim_space (header_get header ''X-Risk-Timestamp''),
      trim_space (header_get header ''X-Risk-Nonce''), trim_space (header_get header ''X-Risk-Signature''))"

text \<open>\<open>passed_checks\<close>: everything that is tested before the nonce.\<close>

definition passed_checks :: "crypto \<Rightarrow> tracking_config \<Rightarrow> tracking_env \<Rightarrow> headers \<Rightarrow> string \<Rightarrow> bool" where
  "passed_checks cy cfg env header body \<longleftrightarrow>
     \<not> ie_readFails env \<and> length body \<le> maxTrackingBody
     \<and> (case signed_headers header of (keyID, timestampText, nonce, signature) \<Rightarrow>
          keyID \<noteq> [] \<and> timestampText \<noteq> [] \<and> nonce \<noteq> [] \<and> signature \<noteq> [] \<and> length nonce \<le> 200
          \<and> \<not> stale cfg (ie_clock env) timestampText
          \<and> (\<exists>client. ie_client env keyID = Some client \<and> tc_Enabled client
               \<and> authentic cy cfg client timestampText nonce body signature))"

text \<open>The request as its checks, its nonce and its payload.\<close>

lemma ingest_cases:
  assumes "signed_headers header = (keyID, timestampText, nonce, signature)"
  shows "(\<not> passed_checks cy cfg env header body \<and> (\<exists>code kind message. (code = 413 \<or> code = 401)
            \<and> ingestTrackingEvents cy cfg env header body st = (st, ApiError code kind message)))
    \<or> (passed_checks cy cfg env header body
        \<and> ingestTrackingEvents cy cfg env header body st =
          (case use_nonce cfg env keyID nonce st of
             (st', Inl err) \<Rightarrow>
               (st', ApiError 503 ''nonce_store_unavailable'' ''tracking replay protection is unavailable'')
           | (st', Inr False) \<Rightarrow>
               (st', ApiError 409 ''replayed_request'' ''tracking nonce has already been used'')
           | (st', Inr True) \<Rightarrow> ingest_payload cfg env keyID body st'))"
proof -
  have h: "trim_space (header_get header ''X-Risk-Key-Id'') = keyID"
    "trim_space (header_get header ''X-Risk-Timestamp'') = timestampText"
    "trim_space (header_get header ''X-Risk-Nonce'') = nonce"
    "trim_space (header_get header ''X-Risk-Signature'') = signature"
    using assms by (simp_all add: signed_headers_def)
  show ?thesis
  proof (cases "passed_checks cy cfg env header body")
    case True
    then show ?thesis using assms
      by (auto simp: passed_checks_def ingestTrackingEvents_def h Let_def)
  next
    case False
    then show ?thesis using assms
      by (auto simp: passed_checks_def ingestTrackingEvents_def h Let_def invalid_signature_def split: option.split)
  qed
qed

lemma authenticD:
  assumes "authentic cy cfg client timestampText nonce body signature"
  shows "\<exists>secret. Decrypt cy (tg_key cfg) ''tracking-client-secret-v1'' (tc_SecretCiphertext client) = Inr secret
    \<and> hex_decode (trim_space (trim_prefix signature ''sha256='')) =
        Some (cy_hmac cy secret (TrackingCanonical cy timestampText nonce body))"
  using assms by (auto simp: authentic_def VerifyTrackingSignature_iff split: sum.splits)

lemma not_staleD:
  assumes "\<not> stale cfg clock timestampText" and "tg_clockSkew cfg < max_int64"
  shows "\<exists>ts. parse_int64 timestampText = Some ts \<and> \<bar>clock - unix_time ts\<bar> \<le> tg_clockSkew cfg"
  using assms by (auto simp: stale_def duration_abs_def time_sub_def min_int64_def max_int64_def split: option.splits if_splits)

lemma ingest_payload_cases:
  "(\<exists>kind message. ingest_payload cfg env keyID body st = (st, ApiError 400 kind message))
   \<or> (\<exists>events w a d. tracking_events env body = Some events \<and> length events \<le> 1000
        \<and> submit_events cfg env keyID 0 events (fst st) = (w, a, d)
        \<and> ingest_payload cfg env keyID body st = ((w, snd st), Accepted a d (ie_now env)))"
  by (cases "tracking_events env body") (auto simp: ingest_payload_def split: prod.split)

lemma ingest_payload_accepted:
  assumes "ingest_payload cfg env keyID body (w, table) = (st', Accepted a d now)"
  shows "\<exists>events. tracking_events env body = Some events \<and> events \<noteq> [] \<and> length events \<le> 1000
    \<and> st' = (foldl (writer_step (tg_capacity cfg) (tg_batchSize cfg)) w (tracking_inputs env keyID 0 events), table)
    \<and> a + d = int (length events) \<and> 0 \<le> a \<and> 0 \<le> d"
proof -
  obtain events where e: "tracking_events env body = Some events" "length events \<le> 1000"
    using assms by (auto simp: ingest_payload_def split: option.splits if_splits)
  then have "events \<noteq> []" by (auto simp: tracking_events_def split: option.splits list.splits if_splits)
  with assms e submit_events_run [of cfg env keyID 0 events w] show ?thesis
    by (auto simp: ingest_payload_def split: prod.splits)
qed

section \<open>The traces\<close>

text \<open>A metadata value with no sensitive key at any level.\<close>

definition private_metadata :: "metadata \<Rightarrow> bool" where
  "private_metadata m \<longleftrightarrow> (\<forall>k v. m k = Some v \<longrightarrow> key_kept k \<and> (\<forall>k' \<in> keys_of v. key_kept k'))"

lemma private_metadata_upd:
  assumes "private_metadata m" and "key_kept k" and "keys_of v = {}"
  shows "private_metadata (m(k \<mapsto> v))"
  using assms by (auto simp: private_metadata_def)

lemma tracking_keys:
  "key_kept ''occurred_at''" "key_kept ''tracking_started_at''" "key_kept ''tracking_completed_at''"
  "key_kept ''tracking_ingested_at''" "key_kept ''tracking_time_source''" "key_kept ''tracking_clock_offset_ms''"
  "key_kept ''metadata_truncated''" "key_kept ''original_bytes''"
  by code_simp+

lemma sanitized_private:
  assumes "list_all decoded (map snd input)"
  shows "private_metadata (map_of (sanitizeMetadata encode input))"
proof -
  from sanitized_tidy [OF assms, of encode] consider
      (tidy) "tidy 6 (MMap (sanitizeMetadata encode input))"
    | (cut) n where "sanitizeMetadata encode input = [(''metadata_truncated'', MBool True), (''original_bytes'', MInt n)]"
    by blast
  then show ?thesis
  proof cases
    case tidy
    have "key_kept k \<and> (\<forall>k' \<in> keys_of v. key_kept k')" if "map_of (sanitizeMetadata encode input) k = Some v" for k v
      using tidy_keys [OF tidy] map_of_SomeD [OF that] by force
    then show ?thesis by (simp add: private_metadata_def)
  next
    case cut
    then show ?thesis by (auto simp: private_metadata_def tracking_keys)
  qed
qed

lemma tracking_metadata_private:
  assumes "list_all decoded (map snd (tk_Metadata event))"
  shows "private_metadata (tracking_metadata env event timeline)"
  using sanitized_private [OF assms]
  by (auto simp: tracking_metadata_def Let_def intro!: private_metadata_upd tracking_keys)

lemma tracking_decision_range:
  "tracking_decision d \<in> {DecisionAllow, DecisionBlock, ''error'', DecisionReview, ''unknown''}"
  by (auto simp: tracking_decision_def Let_def)

text \<open>A trace of the endpoint: attributed to the client, ordered, bounded and private.\<close>

definition reported_trace :: "string \<Rightarrow> time \<Rightarrow> TraceEvent \<Rightarrow> bool" where
  "reported_trace keyID now t \<longleftrightarrow>
     te_Source t = ''newapi'' \<and> is_prefix (keyID @ '':'') (te_ExternalEventID t)
     \<and> length (te_ExternalEventID t) \<le> length keyID + 201
     \<and> te_Decision t \<in> {DecisionAllow, DecisionBlock, ''error'', DecisionReview, ''unknown''}
     \<and> te_StartedAt t \<le> te_CompletedAt t \<and> te_CompletedAt t \<le> now + 5 * minute
     \<and> now - 366 * 24 * hour \<le> te_CompletedAt t
     \<and> te_RequestPayloadCiphertext t = [] \<and> private_metadata (te_Metadata t)"

lemma reported_trace_complete:
  "reported_trace keyID now (complete_event fresh clock t) = reported_trace keyID now t"
  by (simp add: reported_trace_def complete_event_def Let_def)

lemma tracking_trace_reported:
  assumes "list_all decoded (map snd (tk_Metadata event))" and "ie_now env \<noteq> 0"
  shows "reported_trace keyID (ie_now env) (tracking_trace env keyID i event)"
proof -
  let ?t = "deriveTrackingTimeline (ie_now env) event (ie_now env)"
  have "tl_CompletedAt ?t = fst (trackingCompletedAt event (ie_now env))"
    using tracking_fields(2) [of "ie_now env" event "ie_now env"] assms(2) by simp
  with tracking_completed_window [of "ie_now env" event] tracking_ordered [of "ie_now env" event "ie_now env"]
  have "tl_StartedAt ?t \<le> tl_CompletedAt ?t" "tl_CompletedAt ?t \<le> ie_now env + 5 * minute"
    "ie_now env - 366 * 24 * hour \<le> tl_CompletedAt ?t" by simp_all
  then show ?thesis
    using tracking_decision_range [of "tk_Decision event"] tracking_metadata_private [OF assms(1), of env ?t]
    by (simp add: reported_trace_def tracking_trace_def Let_def empty_trace_def is_prefix_iff truncateString_def)
qed

lemma own_traces_reported:
  assumes "\<forall>event \<in> set events. list_all decoded (map snd (tk_Metadata event))" and "ie_now env \<noteq> 0"
  shows "\<forall>t \<in> set (own_traces env keyID i events). reported_trace keyID (ie_now env) t"
  using assms by (induction events arbitrary: i) (auto simp: reported_trace_complete tracking_trace_reported)

section \<open>Nonces\<close>

text \<open>The nonce is in the Redis register until \<open>until\<close> at least.\<close>

definition nonce_until :: "int \<Rightarrow> string \<Rightarrow> string \<Rightarrow> RedisGuard \<Rightarrow> bool" where
  "nonce_until until keyID nonce g \<longleftrightarrow>
     (\<exists>db e. rg_client g = Some db \<and> rd_nonce db (''risk:nonce:'' @ keyID @ '':'' @ nonce) = Some ((), e) \<and> until \<le> e)"

abbreviation writer_guard :: "tracking_state \<Rightarrow> RedisGuard" where
  "writer_guard st \<equiv> ts_redis (bw_world (fst st))"

lemma PushDLQ_client: "rg_client (fst (PushDLQ up stream e g)) = rg_client g"
  by (simp add: PushDLQ_def split: option.split)

lemma push_trace_client: "rg_client (ts_redis (fst (push_trace up stream e s))) = rg_client (ts_redis s)"
  using PushDLQ_client [of up stream e "ts_redis s"] by (auto simp: push_trace_def split: prod.splits option.splits)

lemma push_pending_client: "rg_client (ts_redis (push_pending ups es s)) = rg_client (ts_redis s)"
proof (induction ups es s rule: push_pending.induct)
  case (2 ups event rest s)
  obtain s' ok where p: "push_trace (ups \<noteq> [] \<and> hd ups) ''postgres-traces'' event s = (s', ok)" by fastforce
  with 2 [OF p [symmetric]] push_trace_client [of "ups \<noteq> [] \<and> hd ups" "''postgres-traces''" event s]
  show ?case by (cases ok) auto
qed simp

lemma flush_traces_client: "rg_client (ts_redis (flush_traces out es s)) = rg_client (ts_redis s)"
  by (simp add: flush_traces_def push_pending_client)

lemma worker_step_client:
  "rg_client (ts_redis (bw_world (trace_worker_step n w input))) = rg_client (ts_redis (bw_world w))"
  by (cases input)
    (auto simp: trace_worker_step_def take_event_def flush_batch_def Let_def flush_traces_client split: list.split)

lemma Submit_client:
  "rg_client (ts_redis (bw_world (fst (Submit cap fresh now up e w)))) = rg_client (ts_redis (bw_world w))"
proof -
  obtain w1 sent where t: "try_send cap (complete_event fresh now e) w = (w1, sent)" by fastforce
  then have "bw_world w1 = bw_world w" by (auto simp: try_send_def split: if_splits)
  with t show ?thesis by (cases sent) (simp_all add: Submit_def Let_def push_trace_client)
qed

lemma writer_steps_client:
  "rg_client (ts_redis (bw_world (foldl (writer_step cap n) w inputs))) = rg_client (ts_redis (bw_world w))"
proof (induction inputs arbitrary: w)
  case (Cons x xs)
  have "rg_client (ts_redis (bw_world (writer_step cap n w x))) = rg_client (ts_redis (bw_world w))"
    by (cases x) (simp_all add: Submit_client worker_step_client)
  with Cons show ?case by simp
qed simp

text \<open>Using a nonce: what it registers, and what it leaves registered.\<close>

lemma use_nonce_registers:
  assumes "use_nonce cfg env keyID nonce st = (st', Inr True)" and "ie_redisUp env"
    and "rg_client (writer_guard st) \<noteq> None"
  shows "nonce_until (ie_nonceMs env + tg_nonceTTLms cfg) keyID nonce (writer_guard st')"
  using assms by (auto simp: use_nonce_def UseNonce_def Let_def nonce_until_def split: prod.splits if_splits)

lemma use_nonce_keeps:
  assumes "nonce_until until keyID nonce (writer_guard st)" and "0 \<le> tg_nonceTTLms cfg"
  shows "nonce_until until keyID nonce (writer_guard (fst (use_nonce cfg env k n st)))"
  using assms
  by (auto simp: use_nonce_def UseNonce_def UseNonceFallback_def Let_def nonce_until_def redis_get_def
      split: prod.splits if_splits)

lemma use_nonce_refuses:
  assumes "nonce_until until keyID nonce (writer_guard st)" and "ie_redisUp env" and "ie_nonceMs env < until"
  shows "snd (use_nonce cfg env keyID nonce st) = Inr False"
  using assms by (auto simp: use_nonce_def UseNonce_def Let_def nonce_until_def redis_get_def split: prod.splits)

lemma nonce_until_cong: "rg_client g = rg_client g' \<Longrightarrow> nonce_until u k n g = nonce_until u k n g'"
  by (simp add: nonce_until_def)

lemma ingest_payload_client:
  "rg_client (writer_guard (fst (ingest_payload cfg env keyID body st))) = rg_client (writer_guard st)"
  using ingest_payload_cases [of cfg env keyID body st]
proof (elim disjE exE conjE)
  fix events w a d
  assume "submit_events cfg env keyID 0 events (fst st) = (w, a, d)"
    and p: "ingest_payload cfg env keyID body st = ((w, snd st), Accepted a d (ie_now env))"
  from submit_events_run [OF this(1)] p show ?thesis by (simp add: writer_steps_client)
qed simp

lemma ingest_keeps:
  assumes "nonce_until until keyID nonce (writer_guard st)" and "0 \<le> tg_nonceTTLms cfg"
  shows "nonce_until until keyID nonce (writer_guard (fst (ingestTrackingEvents cy cfg env header body st)))"
proof -
  obtain k t n s where h: "signed_headers header = (k, t, n, s)" by (cases "signed_headers header") auto
  obtain st' r where u: "use_nonce cfg env k n st = (st', r)" by fastforce
  have "nonce_until until keyID nonce (writer_guard st')"
    using use_nonce_keeps [OF assms, of env k n] u by simp
  moreover have "nonce_until until keyID nonce (writer_guard (fst (ingest_payload cfg env k body st')))"
    using calculation nonce_until_cong [OF ingest_payload_client [of cfg env k body st']] by simp
  ultimately show ?thesis
    using ingest_cases [OF h, of cy cfg env body st] assms(1) u by (auto split: sum.split bool.split)
qed

section \<open>The endpoint and the writer over time\<close>

datatype tracking_input = TrackingRequest tracking_env headers string | WriterInput writer_input

fun tracking_step :: "crypto \<Rightarrow> tracking_config \<Rightarrow> tracking_state \<Rightarrow> tracking_input \<Rightarrow> tracking_state" where
  "tracking_step cy cfg st (TrackingRequest env header body) = fst (ingestTrackingEvents cy cfg env header body st)"
| "tracking_step cy cfg st (WriterInput i) = (writer_step (tg_capacity cfg) (tg_batchSize cfg) (fst st) i, snd st)"

lemma tracking_run_keeps:
  assumes "nonce_until until keyID nonce (writer_guard st)" and "0 \<le> tg_nonceTTLms cfg"
  shows "nonce_until until keyID nonce (writer_guard (foldl (tracking_step cy cfg) st inputs))"
  using assms(1)
proof (induction inputs arbitrary: st)
  case (Cons i inputs)
  have "nonce_until until keyID nonce (writer_guard (tracking_step cy cfg st i))"
  proof (cases i)
    case (WriterInput x)
    with Cons(2) nonce_until_cong [OF writer_steps_client [of "tg_capacity cfg" "tg_batchSize cfg" "fst st" "[x]"]]
    show ?thesis by simp
  qed (use Cons(2) ingest_keeps assms(2) in simp)
  with Cons.IH show ?case by simp
qed simp

text \<open>A run keeps the account of the writer: every submitted trace is held, stored, put aside or counted as lost.\<close>

fun step_submitted :: "crypto \<Rightarrow> tracking_config \<Rightarrow> tracking_state \<Rightarrow> tracking_input \<Rightarrow> TraceEvent list" where
  "step_submitted cy cfg st (WriterInput i) = submitted [i]"
| "step_submitted cy cfg st (TrackingRequest env header body) =
     (case snd (ingestTrackingEvents cy cfg env header body st) of
        Accepted a d now \<Rightarrow>
          (case tracking_events env body of
             None \<Rightarrow> []
           | Some events \<Rightarrow> submitted (tracking_inputs env (fst (signed_headers header)) 0 events))
      | ApiError c k m \<Rightarrow> [])"

lemma writer_inv_run:
  assumes "0 < n" and "writer_inv n es w"
  shows "writer_inv n (es @ submitted inputs) (foldl (writer_step cap n) w inputs)"
  using assms(2)
proof (induction inputs arbitrary: es w)
  case (Cons i inputs)
  from Cons.IH [OF writer_step_inv [OF assms(1) Cons.prems, of i cap]]
  show ?case using submitted_append [of "[i]" inputs] by simp
qed simp

lemma use_nonce_writer:
  assumes "use_nonce cfg env k n st = (st', r)" and "writer_inv m es (fst st)"
  shows "writer_inv m es (fst st')"
  using assms
  by (auto simp: use_nonce_def writer_inv_def held_events_def trace_account_def sinks_ok_def workers_ok_def
      split: prod.splits)

lemma tracking_step_account:
  assumes "0 < tg_batchSize cfg" and "writer_inv (tg_batchSize cfg) es (fst st)"
  shows "writer_inv (tg_batchSize cfg) (es @ step_submitted cy cfg st i) (fst (tracking_step cy cfg st i))"
proof (cases i)
  case (WriterInput x)
  with writer_step_inv [OF assms, of x "tg_capacity cfg"] show ?thesis by simp
next
  case (TrackingRequest env header body)
  obtain k t n s where h: "signed_headers header = (k, t, n, s)" by (cases "signed_headers header") auto
  obtain st' r where u: "use_nonce cfg env k n st = (st', r)" by fastforce
  have w: "writer_inv (tg_batchSize cfg) es (fst st')" by (rule use_nonce_writer [OF u assms(2)])
  have p: "writer_inv (tg_batchSize cfg)
      (es @ (case snd (ingest_payload cfg env k body st') of
         Accepted a d now \<Rightarrow> (case tracking_events env body of None \<Rightarrow> []
           | Some events \<Rightarrow> submitted (tracking_inputs env (fst (signed_headers header)) 0 events))
       | ApiError c k m \<Rightarrow> [])) (fst (fst (ingest_payload cfg env k body st')))"
    using ingest_payload_cases [of cfg env k body st']
  proof (elim disjE exE conjE)
    fix events w a d
    assume e: "tracking_events env body = Some events" "submit_events cfg env k 0 events (fst st') = (w, a, d)"
      and q: "ingest_payload cfg env k body st' = ((w, snd st'), Accepted a d (ie_now env))"
    from writer_inv_run [OF assms(1) w, of "tracking_inputs env k 0 events" "tg_capacity cfg"]
      submit_events_run [OF e(2)] e(1) q h show ?thesis by simp
  qed (use w in simp)
  show ?thesis
    using ingest_cases [OF h, of cy cfg env body st] assms(2) w p u TrackingRequest h
    by (auto split: sum.split bool.split)
qed

end
