(* ===== verification/Json_Write.thy ===== *)
theory Json_Write
  imports Gateway_Http
begin

text \<open>
  What the program writes as JSON, \<open>encoding/json\<close> reads back: a quoted text gives the text, a number
  its literal, an object its members. \<open>renders n s v\<close> says that \<open>s\<close> is a complete text of the value
  \<open>v\<close> for every reader that still allows \<open>n\<close> levels of nesting.
\<close>

section \<open>Runes and their encodings\<close>

lemma char_of_byte [simp]: "char_of (byte c) = c"
  by simp

lemma decode_rune_ascii [simp]: "byte c < 128 \<Longrightarrow> decode_rune (c # s) = (Some (byte c), 1)"
  by (simp add: decode_rune_def Let_def)

lemma decode_rune_cases:
  assumes "decode_rune s = (Some r, n)"
  obtains (one) c t where "s = c # t" "byte c < 128" "r = byte c" "n = 1"
  | (two) c d t where "s = c # d # t" "194 \<le> byte c" "byte c < 224" "cont_byte d"
      "r = (byte c - 192) * 64 + (byte d - 128)" "n = 2"
  | (three) c d e t where "s = c # d # e # t" "224 \<le> byte c" "byte c < 240" "cont_byte d" "cont_byte e"
      "byte c = 224 \<longrightarrow> 160 \<le> byte d" "byte c = 237 \<longrightarrow> byte d < 160"
      "r = (byte c - 224) * 4096 + (byte d - 128) * 64 + (byte e - 128)" "n = 3"
  | (four) c d e f t where "s = c # d # e # f # t" "240 \<le> byte c" "byte c < 245" "cont_byte d" "cont_byte e" "cont_byte f"
      "byte c = 240 \<longrightarrow> 144 \<le> byte d" "byte c = 244 \<longrightarrow> byte d < 144"
      "r = (byte c - 240) * 262144 + (byte d - 128) * 4096 + (byte e - 128) * 64 + (byte f - 128)" "n = 4"
  using assms by (auto simp: decode_rune_def Let_def split: list.splits if_splits)

text \<open>Only the bytes of the rune count.\<close>

lemma decode_rune_append:
  assumes "decode_rune s = (Some r, n)"
  shows "decode_rune (take n s @ t) = (Some r, n)"
  using assms by (cases rule: decode_rune_cases) (auto simp: decode_rune_def Let_def)

lemma encode_decoded:
  assumes "decode_rune s = (Some r, n)" and "r < 65536"
  shows "encode_rune r = take n s"
  using assms(1)
proof (cases rule: decode_rune_cases)
  case (two c d t)
  then obtain x y where xy: "byte c = 192 + x" "byte d = 128 + y" "2 \<le> x" "x < 32" "y < 64"
    using le_Suc_ex [of 192 "byte c"] le_Suc_ex [of 128 "byte d"] by (auto simp: cont_byte_def)
  then have "r = x * 64 + y" using two by simp
  moreover have "char_of (192 + x) = c" "char_of (128 + y) = d" using xy by (metis char_of_byte)+
  ultimately show ?thesis using xy two by (simp add: encode_rune_def)
next
  case (three c d e t)
  then obtain x y z where xyz: "byte c = 224 + x" "byte d = 128 + y" "byte e = 128 + z" "x < 16" "y < 64" "z < 64"
    using le_Suc_ex [of 224 "byte c"] le_Suc_ex [of 128 "byte d"] le_Suc_ex [of 128 "byte e"] by (auto simp: cont_byte_def)
  then have r: "r = x * 4096 + y * 64 + z" using three by simp
  have lo: "2048 \<le> r"
  proof (cases "x = 0")
    case True
    with three xyz have "32 \<le> y" by simp
    with r show ?thesis by simp
  qed (use r in simp)
  have sur: "\<not> (55296 \<le> r \<and> r < 57344)"
  proof
    assume a: "55296 \<le> r \<and> r < 57344"
    have "x = 13" using a r xyz by linarith
    with three xyz have "y < 32" by simp
    with a r \<open>x = 13\<close> xyz show False by linarith
  qed
  have "char_of (224 + x) = c" "char_of (128 + y) = d" "char_of (128 + z) = e" using xyz by (metis char_of_byte)+
  moreover have "r div 4096 = x" using xyz by (simp add: r)
  moreover have m: "(z + 64 * q) div 64 = q" "(z + 64 * q) mod 64 = z" "(y + 64 * q) mod 64 = y" for q using xyz by simp_all
  have r': "r = z + 64 * (y + 64 * x)" by (simp add: r)
  have "r div 64 mod 64 = y" "r mod 64 = z" by (simp_all only: r' m)
  ultimately show ?thesis using lo sur assms(2) three(1,9) by (auto simp: encode_rune_def)
next
  case (four c d e f t)
  then obtain x y where "byte c = 240 + x" "byte d = 128 + y" "x = 0 \<longrightarrow> 16 \<le> y"
    using le_Suc_ex [of 240 "byte c"] le_Suc_ex [of 128 "byte d"] by (auto simp: cont_byte_def)
  then have "65536 \<le> r" using four by (cases "x = 0") auto
  with assms(2) show ?thesis by simp
qed (simp add: encode_rune_def)

section \<open>Texts\<close>

lemma hex_char_read [simp]: "n < 16 \<Longrightarrow> hex_digit (hex_char n) = Some n"
  by (auto simp: hex_digit_def hex_char_def Let_def)

lemma hex4_escape: "r < 65536 \<Longrightarrow> hex4 (drop 2 (u_escape r) @ t) = Some r"
proof -
  assume r: "r < 65536"
  define a where "a = r div 16"
  define b where "b = a div 16"
  define c where "c = b div 16"
  have d: "r div 256 = b" "r div 4096 = c" by (simp_all add: a_def b_def c_def flip: div_mult2_eq)
  have "c < 16" using r unfolding a_def b_def c_def by (simp flip: div_mult2_eq)
  moreover have "r = 16 * a + r mod 16" "a = 16 * b + a mod 16" "b = 16 * c + b mod 16"
    unfolding a_def b_def c_def by simp_all
  ultimately have "c mod 16 * 4096 + b mod 16 * 256 + a mod 16 * 16 + r mod 16 = r" by (simp only: mod_less)
  then show ?thesis by (simp add: hex4_def u_escape_def d flip: a_def)
qed

lemma escape_element:
  assumes "r < 65536" and "\<not> (55296 \<le> r \<and> r < 57344)"
  shows "string_element (u_escape r @ t) = Some (encode_rune r, length (u_escape r))"
proof -
  have e: "u_escape r @ t = CHR 0x5C # CHR ''u'' # (drop 2 (u_escape r) @ t)" and l: "length (u_escape r) = 6"
    by (simp_all add: u_escape_def)
  have "\<not> (55296 \<le> r \<and> r < 56320)" using assms(2) by linarith
  then show ?thesis unfolding e l using hex4_escape [OF assms(1), of t] by (auto simp: string_element_def)
qed

lemma ascii_chars:
  "char_of (34 :: nat) = CHR 0x22" "char_of (92 :: nat) = CHR 0x5C" "char_of (8 :: nat) = CHR 0x08"
  "char_of (12 :: nat) = CHR 0x0C" "char_of (10 :: nat) = CHR 0x0A" "char_of (13 :: nat) = CHR 0x0D"
  "char_of (9 :: nat) = CHR 0x09"
  by code_simp+

lemma rune_element:
  assumes "decode_rune s = (Some r, n)"
  shows "string_element (fst (quote_rune s) @ t) = Some (take n s, length (fst (quote_rune s)))
    \<and> snd (quote_rune s) = n \<and> (\<exists>c u. fst (quote_rune s) = c # u \<and> c \<noteq> CHR 0x22)"
proof -
  have small: "s = [char_of r] @ tl s" "n = 1" if "r < 128"
    using assms that by (cases rule: decode_rune_cases; auto)+
  consider (quote) "r = 34 \<or> r = 92" | (short) "r \<in> {8, 12, 10, 13, 9}"
    | (esc) "r \<notin> {34, 92, 8, 12, 10, 13, 9}" "r < 32 \<or> r = 60 \<or> r = 62 \<or> r = 38 \<or> r = 8232 \<or> r = 8233"
    | (plain) "\<not> (r = 34 \<or> r = 92)" "\<not> (r < 32 \<or> r = 60 \<or> r = 62 \<or> r = 38 \<or> r = 8232 \<or> r = 8233)" by fastforce
  then show ?thesis
  proof cases
    case quote
    with small have s: "s = [char_of r] @ tl s" "n = 1" by auto
    have "take n s = [char_of r]" by (subst s(1)) (simp add: s(2))
    with quote assms show ?thesis by (auto simp: quote_rune_def string_element_def ascii_chars)
  next
    case short
    with small have s: "s = [char_of r] @ tl s" "n = 1" by auto
    have "take n s = [char_of r]" by (subst s(1)) (simp add: s(2))
    with short assms show ?thesis by (auto simp: quote_rune_def string_element_def ascii_chars)
  next
    case esc
    then have "fst (quote_rune s) = u_escape r" "snd (quote_rune s) = n" by (auto simp: quote_rune_def assms)
    moreover have "encode_rune r = take n s" by (rule encode_decoded [OF assms]) (use esc in auto)
    moreover have "\<exists>c u. u_escape r = c # u \<and> c \<noteq> CHR 0x22" by (simp add: u_escape_def)
    ultimately show ?thesis using escape_element [of r t] esc by auto
  next
    case plain
    then have q: "quote_rune s = (take n s, n)" by (auto simp: quote_rune_def assms)
    have l: "length (take n s) = n" using decode_rune_width [of s] assms by (cases s) (auto simp: decode_rune_def)
    obtain c u where c: "take n s @ t = c # u" "\<exists>v. take n s = c # v" and "byte c \<ge> 128 \<or> byte c = r"
      using assms by (cases rule: decode_rune_cases) auto
    then have "\<not> byte c < 32" "c \<noteq> CHR 0x5C" "c \<noteq> CHR 0x22" using plain by auto
    then have "string_element (take n s @ t) = Some (take n (take n s @ t), n)"
      using decode_rune_append [OF assms, of t] by (simp add: string_element_def c(1))
    also have "take n (take n s @ t) = take n s" using l by simp
    finally have "string_element (take n s @ t) = Some (take n s, n)" .
    with q l c \<open>c \<noteq> CHR 0x22\<close> show ?thesis by auto
  qed
qed

text \<open>A byte outside a valid encoding is written as U+FFFD.\<close>

function coerced :: "string \<Rightarrow> string" where
  "coerced s = (if s = [] then [] else
     (if fst (decode_rune s) = None then replacement @ coerced (drop 1 s)
      else take (snd (decode_rune s)) s @ coerced (drop (snd (decode_rune s)) s)))"
  by pat_completeness auto
termination
  by (relation "measure length") (use decode_rune_width in \<open>fastforce simp: less_le_trans\<close>)+

declare coerced.simps [simp del]

lemma coerced_valid: "valid_utf8 s \<Longrightarrow> coerced s = s"
proof (induction s rule: coerced.induct)
  case (1 s)
  show ?case
  proof (cases "s = []")
    case False
    obtain x n where d: "decode_rune s = (x, n)" by fastforce
    have "runes s = x # runes (drop n s)" using False by (subst runes.simps) (simp add: d)
    with 1(3) have "x \<noteq> None" "valid_utf8 (drop n s)" by (cases x; simp add: valid_utf8_def)+
    with 1(2) False d show ?thesis by (subst coerced.simps) auto
  qed (simp add: coerced.simps)
qed

lemma invalid_element:
  assumes "decode_rune s = (None, n)"
  shows "string_element (fst (quote_rune s) @ t) = Some (replacement, length (fst (quote_rune s)))
    \<and> snd (quote_rune s) = 1 \<and> (\<exists>c u. fst (quote_rune s) = c # u \<and> c \<noteq> CHR 0x22)"
proof -
  have "char_of (239 :: nat) = CHR 0xEF" "char_of (191 :: nat) = CHR 0xBF" "char_of (189 :: nat) = CHR 0xBD" by code_simp+
  then have "encode_rune 65533 = replacement" by (simp add: encode_rune_def replacement_def)
  then show ?thesis using escape_element [of 65533 t] assms by (simp add: quote_rune_def u_escape_def)
qed

lemma parse_quoted: "parse_string (quote_body s @ CHR 0x22 # rest) = Some (coerced s, rest)"
proof (induction s rule: quote_body.induct)
  case (1 s)
  show ?case
  proof (cases "s = []")
    case True
    then show ?thesis by (simp add: quote_body.simps parse_string.simps coerced.simps)
  next
    case False
    let ?n = "snd (quote_rune s)" and ?e = "fst (quote_rune s)"
    let ?t = "quote_body (drop ?n s) @ CHR 0x22 # rest"
    have "\<exists>x. string_element (?e @ ?t) = Some (x, length ?e) \<and> coerced s = x @ coerced (drop ?n s)
      \<and> (\<exists>c u. ?e = c # u \<and> c \<noteq> CHR 0x22)"
    proof (cases "decode_rune s")
      case (Pair y n)
      then show ?thesis
        using False rune_element [of s _ n ?t] invalid_element [of s n ?t] by (cases y; subst coerced.simps) auto
    qed
    then obtain x c u where e: "string_element (?e @ ?t) = Some (x, length ?e)" "coerced s = x @ coerced (drop ?n s)"
        "?e = c # u" "c \<noteq> CHR 0x22" by blast
    have q: "quote_body s @ CHR 0x22 # rest = ?e @ ?t" using False by (subst quote_body.simps) simp
    have "parse_string ?t = Some (coerced (drop ?n s), rest)" using 1(1) [OF False] .
    moreover have "drop (length ?e) (?e @ ?t) = ?t" by simp
    ultimately show ?thesis unfolding q e(2) using e(1,3,4) by (subst parse_string.simps) simp
  qed
qed

lemma quote_plain: "list_all (\<lambda>c. 32 \<le> byte c \<and> byte c < 128 \<and> byte c \<notin> {34, 92, 60, 62, 38}) s \<Longrightarrow> quote_body s = s"
proof (induction s)
  case (Cons c s)
  then show ?case by (subst quote_body.simps) (simp add: quote_rune_def)
qed (simp add: quote_body.simps)

section \<open>Values\<close>

definition delimited :: "string \<Rightarrow> bool" where
  "delimited rest \<longleftrightarrow> rest = [] \<or> hd rest \<in> {CHR '','', CHR '']'', CHR ''}'', CHR 0x0A}"

definition renders :: "nat \<Rightarrow> string \<Rightarrow> json \<Rightarrow> bool" where
  "renders n s v \<longleftrightarrow> s \<noteq> [] \<and> \<not> json_ws (hd s) \<and> hd s \<noteq> CHR '']'' \<and> (\<forall>d rest. n \<le> d \<longrightarrow> delimited rest \<longrightarrow> parse_value d (s @ rest) = Some (v, rest))"

lemma delimitedI [simp]:
  "delimited []" "delimited (CHR '','' # t)" "delimited (CHR '']'' # t)" "delimited (CHR ''}'' # t)" "delimited (CHR 0x0A # t)"
  by (simp_all add: delimited_def)

lemma renders_read: "renders n s v \<Longrightarrow> n \<le> d \<Longrightarrow> parse_value d s = Some (v, [])"
  unfolding renders_def by (metis append_Nil2 delimitedI(1))

lemma renders_mono: "renders n s v \<Longrightarrow> n \<le> m \<Longrightarrow> renders m s v"
  by (simp add: renders_def)

lemma renders_text: "renders 0 (json_quote s) (JStr (coerced s))"
  by (simp add: renders_def json_quote_def skip_ws_def json_ws_def parse_value.simps parse_quoted)

lemma renders_bool: "renders 0 ''true'' (JBool True)" "renders 0 ''false'' (JBool False)"
  by (simp_all add: renders_def skip_ws_def json_ws_def parse_value.simps literal_value_def)

lemma dec_nat_step: "dec_nat n = (if n < 10 then [] else dec_nat (n div 10)) @ [char_of (48 + n mod 10)]"
  by (subst dec_nat.simps) auto

lemma is_digit_char [simp]: "(n :: nat) < 10 \<Longrightarrow> is_digit (char_of (48 + n))"
  by (simp add: is_digit_def)

lemma dec_nat_digits: "list_all is_digit (dec_nat n)"
  by (induction n rule: dec_nat.induct) (subst dec_nat.simps, simp)

lemma dec_nat_head: "0 < n \<Longrightarrow> hd (dec_nat n) \<noteq> CHR ''0''"
proof (induction n rule: dec_nat.induct)
  case (1 n)
  have "char_of (48 + n) \<noteq> CHR ''0''" if "n < 10" "0 < n"
  proof
    assume "char_of (48 + n) = CHR ''0''"
    then have "byte (char_of (48 + n)) = byte (CHR ''0'')" by simp
    with that show False by simp
  qed
  with 1 show ?case by (subst dec_nat.simps) (simp add: hd_append)
qed

lemma digits_delimited:
  assumes "delimited rest"
  shows "digits (dec_nat n @ rest) = (dec_nat n, rest)"
proof -
  have "\<not> is_digit (hd rest)" if "rest \<noteq> []" using assms that by (auto simp: delimited_def is_digit_def)
  then show ?thesis using dec_nat_digits [of n]
    by (cases rest) (auto simp: digits_def list_all_iff takeWhile_append2 dropWhile_append2)
qed

lemma parse_int_part_nat:
  assumes "delimited rest"
  shows "parse_int_part (dec_nat n @ rest) = Some (dec_nat n, rest)"
proof -
  obtain c cs where c: "dec_nat n = c # cs" by (cases "dec_nat n") auto
  have "c = CHR ''0'' \<Longrightarrow> cs = []"
  proof -
    assume "c = CHR ''0''"
    then have "n = 0" using dec_nat_head [of n] c by (cases "n = 0") auto
    then show "cs = []" using c by (simp add: dec_nat.simps)
  qed
  then show ?thesis unfolding parse_int_part_def digits_delimited [OF assms] by (auto simp: c)
qed

lemma parse_number_int:
  assumes "delimited rest"
  shows "parse_number (dec_int i @ rest) = Some (dec_int i, rest)"
proof -
  have t: "parse_frac rest = Some ([], rest)" "parse_exp rest = Some ([], rest)"
    using assms by (cases rest; auto simp: delimited_def parse_frac_def parse_exp_def)+
  have h: "c \<noteq> CHR ''-''" if "dec_nat n = c # cs" for n c cs
    using dec_nat_digits [of n] that by (auto simp: is_digit_def)
  show ?thesis
  proof (cases "i < 0")
    case True
    then show ?thesis using parse_int_part_nat [OF assms, of "nat (- i)"] t
      by (simp add: parse_number_def dec_int_def)
  next
    case False
    obtain c cs where c: "dec_nat (nat i) = c # cs" by (cases "dec_nat (nat i)") auto
    from parse_int_part_nat [OF assms, of "nat i"] have "parse_int_part (c # cs @ rest) = Some (c # cs, rest)" by (simp add: c)
    with False h [OF c] t show ?thesis by (simp add: parse_number_def dec_int_def c)
  qed
qed

lemma dec_int_head: "\<exists>c cs. dec_int i = c # cs \<and> (is_digit c \<or> c = CHR ''-'')"
proof -
  have "\<exists>c cs. dec_nat n = c # cs \<and> is_digit c" for n using dec_nat_digits [of n] by (cases "dec_nat n") auto
  from this [of "nat i"] show ?thesis by (auto simp: dec_int_def)
qed

lemma renders_int: "renders 0 (dec_int i) (JNum (dec_int i))"
proof -
  obtain c cs where c: "dec_int i = c # cs" "is_digit c \<or> c = CHR ''-''" using dec_int_head by blast
  then have n: "c \<noteq> CHR ''{''" "c \<noteq> CHR ''[''" "c \<noteq> CHR '']''" "c \<noteq> CHR 0x22" "c \<noteq> CHR ''t''" "c \<noteq> CHR ''f''"
      "c \<noteq> CHR ''n''" "\<not> json_ws c"
    by (auto simp: is_digit_def json_ws_def)
  have "parse_value d (dec_int i @ rest) = Some (JNum (dec_int i), rest)" if "delimited rest" for d rest
  proof -
    have "literal_value (c # cs @ rest) = Some (JNum (c # cs), rest)"
      using n parse_number_int [OF that, of i] by (simp add: literal_value_def c(1))
    then show ?thesis using n by (subst parse_value.simps) (simp add: c(1) skip_ws_def)
  qed
  with n c show ?thesis by (simp add: renders_def)
qed

lemma renders_skip: "renders n s v \<Longrightarrow> skip_ws (s @ t) = s @ t"
  by (cases s) (auto simp: renders_def skip_ws_def)

lemma parse_joined:
  assumes "list_all2 (renders n) ss vs" and "ss \<noteq> []" and "n \<le> d"
  shows "parse_elems d (join '','' ss @ CHR '']'' # rest) = Some (vs, rest)"
  using assms(1,2)
proof (induction ss vs rule: list_all2_induct)
  case (Cons s ss v vs)
  show ?case
  proof (cases ss)
    case Nil
    with Cons have "parse_value d (s @ CHR '']'' # rest) = Some (v, CHR '']'' # rest)" "vs = []"
      using assms(3) by (auto simp: renders_def)
    then show ?thesis by (subst parse_elems.simps) (simp add: Nil skip_ws_def json_ws_def)
  next
    case (Cons s' ss')
    let ?t = "join '','' ss @ CHR '']'' # rest"
    have "parse_value d (s @ CHR '','' # ?t) = Some (v, CHR '','' # ?t)"
      using \<open>renders n s v\<close> assms(3) by (simp add: renders_def)
    moreover have "parse_elems d ?t = Some (vs, rest)" using \<open>ss \<noteq> [] \<Longrightarrow> parse_elems d ?t = Some (vs, rest)\<close> Cons by simp
    moreover have "join '','' (s # ss) @ CHR '']'' # rest = s @ CHR '','' # ?t" by (simp add: join_Cons Cons)
    ultimately show ?thesis by (subst parse_elems.simps) (simp add: skip_ws_def json_ws_def)
  qed
qed simp

lemma skip_ws_start: "s \<noteq> [] \<Longrightarrow> \<not> json_ws (hd s) \<Longrightarrow> skip_ws (s @ t) = s @ t"
  by (cases s) (auto simp: skip_ws_def)

lemma renders_array:
  assumes "list_all2 (renders n) ss vs"
  shows "renders (Suc n) (''['' @ join '','' ss @ '']'') (JArr vs)"
proof (cases ss)
  case Nil
  with assms show ?thesis by (simp add: renders_def parse_value.simps skip_ws_def json_ws_def)
next
  case (Cons s ss')
  then obtain v vs' where v: "renders n s v" using assms by (auto simp: list_all2_Cons1)
  obtain u where u: "join '','' ss = s @ u" using Cons by (cases ss') auto
  have "parse_value d (''['' @ join '','' ss @ CHR '']'' # rest) = Some (JArr vs, rest)" if d: "Suc n \<le> d" for d rest
  proof -
    obtain c r where c: "s = c # r" "c \<noteq> CHR '']''" "\<not> json_ws c" using v by (cases s) (auto simp: renders_def)
    have "parse_elems (d - 1) (join '','' ss @ CHR '']'' # rest) = Some (vs, rest)"
      by (rule parse_joined [OF assms]) (use Cons d in auto)
    with c u d show ?thesis by (subst parse_value.simps) (simp add: skip_ws_def json_ws_def)
  qed
  then show ?thesis by (simp add: renders_def json_ws_def)
qed

text \<open>Objects; a key is written quoted.\<close>

definition member_text :: "string \<times> string \<Rightarrow> string" where
  "member_text m = json_quote (fst m) @ '':'' @ snd m"

lemma parse_member_texts:
  assumes "list_all2 (\<lambda>m (k, v). fst m = k \<and> valid_utf8 k \<and> renders n (snd m) v) ss ms" and "ss \<noteq> []" and "n \<le> d"
  shows "parse_members d (join '','' (map member_text ss) @ CHR ''}'' # rest) = Some (ms, rest)"
  using assms(1,2)
proof (induction ss ms rule: list_all2_induct)
  case (Cons m ss kv ms)
  obtain k v where kv: "kv = (k, v)" by fastforce
  with Cons have m: "fst m = k" "valid_utf8 k" "renders n (snd m) v" by auto
  have q: "parse_string (quote_body k @ CHR 0x22 # t) = Some (k, t)" for t by (simp add: parse_quoted coerced_valid m(2))
  have p: "parse_value d (snd m @ t) = Some (v, t)" if "delimited t" for t
    using m(3) assms(3) that by (simp add: renders_def)
  show ?case
  proof (cases ss)
    case Nil
    with Cons have "ms = []" by simp
    with Nil q p show ?thesis
      by (subst parse_members.simps) (simp add: kv member_text_def m(1) json_quote_def skip_ws_def json_ws_def)
  next
    case (Cons s' ss')
    let ?t = "join '','' (map member_text ss) @ CHR ''}'' # rest"
    have "parse_members d ?t = Some (ms, rest)" using \<open>ss \<noteq> [] \<Longrightarrow> parse_members d ?t = Some (ms, rest)\<close> Cons by simp
    moreover have "join '','' (map member_text (m # ss)) @ CHR ''}'' # rest
        = CHR 0x22 # quote_body k @ CHR 0x22 # CHR '':'' # snd m @ CHR '','' # ?t"
      by (simp add: join_Cons Cons member_text_def m(1) json_quote_def)
    moreover have "length ?t < length (CHR 0x22 # quote_body k @ CHR 0x22 # CHR '':'' # snd m @ CHR '','' # ?t)" by simp
    ultimately show ?thesis using q p by (subst parse_members.simps) (simp add: kv skip_ws_def json_ws_def)
  qed
qed simp

lemma keep_last_distinct: "distinct (map fst ms) \<Longrightarrow> keep_last ms = ms"
  by (induction ms rule: keep_last.induct) auto

lemma renders_object:
  assumes "list_all2 (\<lambda>m (k, v). fst m = k \<and> valid_utf8 k \<and> renders n (snd m) v) ss ms" and "distinct (map fst ms)"
  shows "renders (Suc n) (''{'' @ join '','' (map member_text ss) @ ''}'') (JObj ms)"
proof (cases ss)
  case Nil
  with assms show ?thesis by (simp add: renders_def parse_value.simps skip_ws_def json_ws_def)
next
  case (Cons s ss')
  obtain u where u: "join '','' (map member_text ss) = CHR 0x22 # u"
    using Cons by (cases ss') (auto simp: member_text_def json_quote_def)
  have "parse_value d (''{'' @ join '','' (map member_text ss) @ CHR ''}'' # rest) = Some (JObj ms, rest)"
    if d: "Suc n \<le> d" for d rest
  proof -
    have "parse_members (d - 1) (CHR 0x22 # u @ CHR ''}'' # rest) = Some (ms, rest)"
      using parse_member_texts [OF assms(1), of "d - 1" rest] Cons d u by simp
    with u d show ?thesis
      by (subst parse_value.simps) (simp add: skip_ws_def json_ws_def keep_last_distinct [OF assms(2)])
  qed
  then show ?thesis by (simp add: renders_def json_ws_def)
qed

section \<open>Writing a value\<close>

text \<open>\<open>json.Marshal\<close> of a value built of maps, slices and strings: the keys of an object in order, numbers as they are.\<close>

definition sorted_keys :: "(string \<times> 'a) list \<Rightarrow> string list" where
  "sorted_keys ms = foldr insert_key (map fst ms) []"

lemma size_lookup [termination_simp]: "lookup ms k = Some v \<Longrightarrow> size v < size_list (size_prod (\<lambda>x. 0) size) ms"
  by (induction ms) (auto split: if_splits)

lemma size_item: "v \<in> set vs \<Longrightarrow> size v < Suc (size_list size vs)"
  by (induction vs) auto

function marshal :: "json \<Rightarrow> string" where
  "marshal JNull = ''null''"
| "marshal (JBool b) = (if b then ''true'' else ''false'')"
| "marshal (JNum l) = l"
| "marshal (JStr s) = json_quote s"
| "marshal (JArr vs) = ''['' @ join '','' (map marshal vs) @ '']''"
| "marshal (JObj ms) =
     ''{'' @ join '','' (map (\<lambda>k. case lookup ms k of None \<Rightarrow> [] | Some v \<Rightarrow> json_quote k @ '':'' @ marshal v) (sorted_keys ms)) @ ''}''"
  by pat_completeness auto
termination by (relation "measure size") (auto simp: size_item dest: size_lookup)

text \<open>What a reader finds of a written value: the members by key, every text coerced.\<close>

fun nesting :: "json \<Rightarrow> nat" where
  "nesting (JArr vs) = Suc (Max (insert 0 (nesting ` set vs)))"
| "nesting (JObj ms) = Suc (Max (insert 0 ((\<lambda>m. nesting (snd m)) ` set ms)))"
| "nesting v = 0"

function canonical :: "json \<Rightarrow> json" where
  "canonical (JStr s) = JStr (coerced s)"
| "canonical (JArr vs) = JArr (map canonical vs)"
| "canonical (JObj ms) = JObj (List.map_filter (\<lambda>k. case lookup ms k of None \<Rightarrow> None | Some v \<Rightarrow> Some (k, canonical v)) (sorted_keys ms))"
| "canonical JNull = JNull"
| "canonical (JBool b) = JBool b"
| "canonical (JNum l) = JNum l"
  by pat_completeness auto
termination by (relation "measure size") (auto simp: size_item dest: size_lookup)

text \<open>Values whose numbers are integers and whose keys are distinct and valid.\<close>

fun writable :: "json \<Rightarrow> bool" where
  "writable (JNum l) \<longleftrightarrow> (\<exists>i. l = dec_int i)"
| "writable (JArr vs) \<longleftrightarrow> (\<forall>v \<in> set vs. writable v)"
| "writable (JObj ms) \<longleftrightarrow> distinct (map fst ms) \<and> (\<forall>m \<in> set ms. valid_utf8 (fst m) \<and> writable (snd m))"
| "writable v \<longleftrightarrow> True"

lemma renders_null: "renders 0 ''null'' JNull"
  by (simp add: renders_def json_ws_def skip_ws_def parse_value.simps literal_value_def)

lemma set_sorted_keys [simp]: "set (sorted_keys ms) = fst ` set ms"
proof -
  have "set (insert_key k ks) = insert k (set ks)" for k ks by (induction ks) auto
  then have "set (foldr insert_key ks []) = set ks" for ks by (induction ks) auto
  then show ?thesis by (simp add: sorted_keys_def)
qed

lemma length_sorted_keys: "length (sorted_keys ms) = length ms"
proof -
  have "length (insert_key k ks) = Suc (length ks)" for k ks by (induction ks) auto
  then have "length (foldr insert_key ks []) = length ks" for ks by (induction ks) auto
  then show ?thesis by (simp add: sorted_keys_def)
qed

lemma distinct_sorted_keys: "distinct (map fst ms) \<Longrightarrow> distinct (sorted_keys ms)"
  using distinct_card [of "map fst ms"] by (intro card_distinct) (simp add: length_sorted_keys)

lemma renders_marshal: "writable v \<Longrightarrow> renders (nesting v) (marshal v) (canonical v)"
proof (induction v)
  case (JArr vs)
  have "list_all2 (renders (Max (insert 0 (nesting ` set vs)))) (map marshal vs) (map canonical vs)"
    unfolding list_all2_map1 list_all2_map2
  proof (rule list.rel_refl_strong)
    fix v
    assume v: "v \<in> set vs"
    have "nesting v \<le> Max (insert 0 (nesting ` set vs))" by (rule Max_ge) (use v in simp_all)
    moreover have "renders (nesting v) (marshal v) (canonical v)" using JArr.IH [OF v] JArr.prems v by simp
    ultimately show "renders (Max (insert 0 (nesting ` set vs))) (marshal v) (canonical v)" by (rule renders_mono [rotated])
  qed
  from renders_array [OF this] show ?case by simp
next
  case (JObj ms)
  let ?n = "Max (insert 0 ((\<lambda>m. nesting (snd m)) ` set ms))"
  let ?get = "\<lambda>k. the (lookup ms k)"
  have get: "lookup ms k = Some (?get k)" if "k \<in> set (sorted_keys ms)" for k
    using that map_of_eq_None_iff [of ms k] by (cases "lookup ms k") simp_all
  have mem: "(k, ?get k) \<in> set ms" if "k \<in> set (sorted_keys ms)" for k
    by (rule map_of_SomeD [OF get [OF that]])
  have c: "canonical (JObj ms) = JObj (map (\<lambda>k. (k, canonical (?get k))) (sorted_keys ms))"
  proof -
    have "List.map_filter (\<lambda>k. case lookup ms k of None \<Rightarrow> None | Some v \<Rightarrow> Some (k, canonical v)) ks
        = map (\<lambda>k. (k, canonical (?get k))) ks" if "set ks \<subseteq> set (sorted_keys ms)" for ks
      using that
    proof (induction ks)
      case (Cons k ks)
      then obtain v where "lookup ms k = Some v" using get by fastforce
      with Cons show ?case by (simp add: map_filter_simps)
    qed (simp add: map_filter_simps)
    then show ?thesis by simp
  qed
  have m: "marshal (JObj ms) = ''{'' @ join '','' (map member_text (map (\<lambda>k. (k, marshal (?get k))) (sorted_keys ms))) @ ''}''"
  proof -
    have "(case lookup ms k of None \<Rightarrow> [] | Some v \<Rightarrow> json_quote k @ '':'' @ marshal v) = member_text (k, marshal (?get k))"
      if "k \<in> set (sorted_keys ms)" for k
      using get [OF that] by (cases "lookup ms k") (simp_all add: member_text_def)
    then have "map (\<lambda>k. case lookup ms k of None \<Rightarrow> [] | Some v \<Rightarrow> json_quote k @ '':'' @ marshal v) (sorted_keys ms)
        = map member_text (map (\<lambda>k. (k, marshal (?get k))) (sorted_keys ms))" unfolding map_map comp_def by (rule map_cong [OF refl])
    then show ?thesis by (simp only: marshal.simps)
  qed
  have r: "valid_utf8 k \<and> renders ?n (marshal (?get k)) (canonical (?get k))" if "k \<in> set (sorted_keys ms)" for k
  proof -
    have "nesting (?get k) \<in> (\<lambda>m. nesting (snd m)) ` set ms"
      using imageI [OF mem [OF that], of "\<lambda>m. nesting (snd m)"] by (simp only: snd_conv)
    from Max_ge [OF _ insertI2 [OF this], of 0] have le: "nesting (?get k) \<le> ?n" by simp
    have "\<forall>m \<in> set ms. valid_utf8 (fst m) \<and> writable (snd m)" using JObj.prems by simp
    from bspec [OF this mem [OF that]] have w: "valid_utf8 k" "writable (?get k)" by (simp_all only: fst_conv snd_conv)
    have "renders (nesting (?get k)) (marshal (?get k)) (canonical (?get k))"
      by (rule JObj.IH [OF mem [OF that] _ w(2)]) (simp add: snds.simps)
    from renders_mono [OF this le] w(1) show ?thesis by blast
  qed
  have "list_all2 (\<lambda>m (k, v). fst m = k \<and> valid_utf8 k \<and> renders ?n (snd m) v)
      (map (\<lambda>k. (k, marshal (?get k))) (sorted_keys ms)) (map (\<lambda>k. (k, canonical (?get k))) (sorted_keys ms))"
    unfolding list_all2_map1 list_all2_map2 by (rule list.rel_refl_strong) (use r in auto)
  moreover have "distinct (sorted_keys ms)" by (rule distinct_sorted_keys) (use JObj.prems in simp)
  then have "distinct (map fst (map (\<lambda>k. (k, canonical (?get k))) (sorted_keys ms)))" by (simp add: comp_def)
  ultimately show ?case unfolding c m nesting.simps by (rule renders_object)
qed (auto simp: renders_text renders_bool renders_int renders_null)

lemma lookup_canonical:
  assumes "canonical (JObj ms) = JObj ns" 
  shows "lookup ns k = map_option canonical (lookup ms k)"
proof -
  have "lookup (List.map_filter (\<lambda>k. case lookup ms k of None \<Rightarrow> None | Some v \<Rightarrow> Some (k, canonical v)) ks) k
      = (if k \<in> set ks then map_option canonical (lookup ms k) else None)" for ks
    by (induction ks) (auto simp: map_filter_simps split: option.splits)
  then show ?thesis using assms by (auto simp: map_of_eq_None_iff)
qed
section \<open>Written texts are valid\<close>

lemma decode_rune_longer: "decode_rune s = (Some r, n) \<Longrightarrow> decode_rune (s @ t) = (Some r, n)"
  by (erule decode_rune_cases) (auto simp: decode_rune_def Let_def)

lemma valid_utf8_step:
  assumes "decode_rune s = (Some r, n)" and "s \<noteq> []"
  shows "valid_utf8 s \<longleftrightarrow> valid_utf8 (drop n s)"
proof -
  have "runes s = Some r # runes (drop n s)" using assms by (subst runes.simps) simp
  then show ?thesis by (simp add: valid_utf8_def)
qed

lemma valid_utf8_append: "valid_utf8 a \<Longrightarrow> valid_utf8 b \<Longrightarrow> valid_utf8 (a @ b)"
proof (induction a rule: runes.induct)
  case (1 a)
  show ?case
  proof (cases "a = []")
    case False
    obtain x n where d: "decode_rune a = (x, n)" by fastforce
    have r: "runes a = x # runes (drop n a)" using False by (subst runes.simps) (simp add: d)
    with 1(2) obtain c where c: "x = Some c" by (cases x) (simp_all add: valid_utf8_def)
    have n: "n \<le> length a" using decode_rune_width [OF False] d by simp
    have "valid_utf8 (drop n a)" using 1(2) valid_utf8_step [of a c n] d c False by simp
    then have "valid_utf8 (drop n a @ b)" using 1(1) [OF False] 1(3) d by simp
    then show ?thesis using valid_utf8_step [OF decode_rune_longer [of a c n b]] d c False n by simp
  qed (use 1 in simp)
qed

lemma valid_ascii: "list_all (\<lambda>c. byte c < 128) s \<Longrightarrow> valid_utf8 s"
  by (induction s) (simp_all add: valid_utf8_ascii valid_utf8_def runes.simps)

lemma u_escape_ascii: "list_all (\<lambda>c. byte c < 128) (u_escape r)"
proof -
  have "byte (hex_char n) < 128" if "n < 16" for n using that by (simp add: hex_char_def)
  then show ?thesis by (simp add: u_escape_def)
qed

lemma valid_quote_rune: "s \<noteq> [] \<Longrightarrow> valid_utf8 (fst (quote_rune s))"
proof (cases "decode_rune s")
  case (Pair x n)
  assume "s \<noteq> []"
  show ?thesis
  proof (cases x)
    case None
    with Pair show ?thesis by (simp add: quote_rune_def valid_ascii u_escape_ascii)
  next
    case (Some r)
    with Pair have d: "decode_rune s = (Some r, n)" by simp
    have n: "take n s \<noteq> []" "n \<le> length s" using decode_rune_width [OF \<open>s \<noteq> []\<close>] d by auto
    have "valid_utf8 (take n s)"
      using valid_utf8_step [OF _ n(1)] decode_rune_append [OF d, of "[]"] n(2)
      by (simp add: valid_utf8_def runes.simps [of "[]"])
    moreover have "valid_utf8 [CHR 0x5C, char_of r]" if "r = 34 \<or> r = 92" using that by (auto intro!: valid_ascii)
    moreover have "valid_utf8 [CHR 0x5C, c]" if "c \<in> {CHR ''b'', CHR ''f'', CHR ''n'', CHR ''r'', CHR ''t''}" for c
      using that by (auto intro!: valid_ascii)
    ultimately show ?thesis by (simp add: quote_rune_def d valid_ascii u_escape_ascii)
  qed
qed

lemma valid_json_quote: "valid_utf8 (json_quote s)"
proof -
  have "valid_utf8 (quote_body s)" for s
  proof (induction s rule: quote_body.induct)
    case (1 s)
    then show ?case
      by (cases "s = []"; subst quote_body.simps) (simp_all add: valid_utf8_append valid_quote_rune valid_ascii)
  qed
  then show ?thesis by (simp add: json_quote_def valid_utf8_append valid_ascii valid_utf8_ascii)
qed

lemma valid_join: "\<forall>s \<in> set ss. valid_utf8 s \<Longrightarrow> valid_utf8 (join '','' ss)"
proof (induction ss)
  case (Cons s ss)
  then show ?case by (cases ss) (simp_all add: valid_utf8_append valid_utf8_ascii)
qed (simp add: valid_utf8_def runes.simps)

lemma valid_member_text: "valid_utf8 (snd m) \<Longrightarrow> valid_utf8 (member_text m)"
  by (simp add: member_text_def valid_utf8_append valid_json_quote valid_utf8_ascii)

lemma valid_dec_int: "valid_utf8 (dec_int i)"
proof -
  have "list_all (\<lambda>c. byte c < 128) (dec_nat n)" for n
    using dec_nat_digits [of n] by (fastforce simp: is_digit_def list_all_iff)
  then show ?thesis by (auto simp: dec_int_def intro!: valid_ascii)
qed

lemmas valid_written = valid_utf8_append valid_join valid_member_text valid_json_quote valid_dec_int valid_utf8_ascii

end
