(* ===== verification/Audit_Json.thy ===== *)
theory Audit_Json
  imports Audit_Types Json_Write
begin

text \<open>
  The bounded JSON reader of the audit (\<open>decodeAuditJSON\<close>, \<open>readAuditJSONValue\<close> of
  \<open>audit_output_decode.go\<close>): it reads the token stream of \<open>json.Decoder\<close>, refuses a key that
  appears twice in an object and a nesting beyond 32, and reports the first problem in the order of the
  text. A decoded object lists its members in the order read; the keys are distinct.
\<close>

definition maxAuditResponseBytes :: nat where "maxAuditResponseBytes = 1024 * 1024"
definition maxAuditJSONDepth :: nat where "maxAuditJSONDepth = 32"

text \<open>The classes of error the reader tells apart.\<close>

datatype read_fault = InvalidJSON string | DuplicateKey | NestingLimit

definition syntax_fault :: read_fault where
  "syntax_fault = InvalidJSON ''audit model JSON syntax is incomplete or invalid''"

definition key_fault :: read_fault where
  "key_fault = InvalidJSON ''audit model JSON has an invalid object key''"

definition object_fault :: read_fault where
  "object_fault = InvalidJSON ''audit model JSON object is incomplete''"

definition array_fault :: read_fault where
  "array_fault = InvalidJSON ''audit model JSON array is incomplete''"

text \<open>
  \<open>read_elems\<close> and \<open>read_members\<close> read up to the closing bracket; \<open>first\<close> holds before the first
  element, afterwards a comma comes first. The guard on lengths only makes the recursion visibly well
  founded: \<open>read_shorter\<close> shows that it always holds.
\<close>

function (sequential)
    readAuditJSONValue :: "nat \<Rightarrow> string \<Rightarrow> read_fault + (json \<times> string)"
and read_elems :: "nat \<Rightarrow> bool \<Rightarrow> string \<Rightarrow> read_fault + (json list \<times> string)"
and read_members :: "nat \<Rightarrow> bool \<Rightarrow> string list \<Rightarrow> string \<Rightarrow> read_fault + ((string \<times> json) list \<times> string)" where
  "readAuditJSONValue depth s =
     (if depth > maxAuditJSONDepth then Inl NestingLimit
      else (case skip_ws s of [] \<Rightarrow> Inl syntax_fault
       | c # r \<Rightarrow>
         if c = CHR ''{'' then map_sum id (\<lambda>(ms, t). (JObj ms, t)) (read_members depth True [] r)
         else if c = CHR ''['' then map_sum id (\<lambda>(vs, t). (JArr vs, t)) (read_elems depth True r)
         else if c = CHR 0x22 then
           (case parse_string r of None \<Rightarrow> Inl syntax_fault | Some (x, t) \<Rightarrow> Inr (JStr x, t))
         else (case literal_value (c # r) of None \<Rightarrow> Inl syntax_fault | Some vt \<Rightarrow> Inr vt)))"
| "read_elems depth first s =
     (case skip_ws s of [] \<Rightarrow> Inl array_fault
      | c # r \<Rightarrow>
        if c = CHR '']'' then Inr ([], r)
        else if c = CHR ''}'' then Inl array_fault
        else if depth + 1 > maxAuditJSONDepth then Inl NestingLimit
        else if \<not> first \<and> c \<noteq> CHR '','' then Inl syntax_fault
        else (case readAuditJSONValue (depth + 1) (if first then s else r) of
                Inl e \<Rightarrow> Inl e
              | Inr (v, t) \<Rightarrow>
                if length t < length s then map_sum id (\<lambda>(vs, t'). (v # vs, t')) (read_elems depth False t)
                else Inl syntax_fault))"
| "read_members depth first seen s =
     (case skip_ws s of [] \<Rightarrow> Inl object_fault
      | c # r \<Rightarrow>
        if c = CHR ''}'' then Inr ([], r)
        else if c = CHR '']'' then Inl object_fault
        else if \<not> first \<and> c \<noteq> CHR '','' then Inl key_fault
        else (case (if first then c # r else skip_ws r) of [] \<Rightarrow> Inl key_fault
          | q # r0 \<Rightarrow>
            if q \<noteq> CHR 0x22 then Inl key_fault
            else (case parse_string r0 of None \<Rightarrow> Inl key_fault
              | Some (k, t0) \<Rightarrow>
                if k \<in> set seen then Inl DuplicateKey
                else if depth + 1 > maxAuditJSONDepth then Inl NestingLimit
                else (case skip_ws t0 of [] \<Rightarrow> Inl syntax_fault
                  | cl # r1 \<Rightarrow>
                    if cl \<noteq> CHR '':'' then Inl syntax_fault
                    else if \<not> length r1 < length s then Inl syntax_fault
                    else (case readAuditJSONValue (depth + 1) r1 of
                            Inl e \<Rightarrow> Inl e
                          | Inr (v, t) \<Rightarrow>
                            if length t < length s
                            then map_sum id (\<lambda>(ms, t'). ((k, v) # ms, t')) (read_members depth False (k # seen) t)
                            else Inl syntax_fault)))))"
  by pat_completeness auto
termination
proof (relation "measure (case_sum (\<lambda>(d, s). 2 * length s)
         (case_sum (\<lambda>(d, f, s). 2 * length s + 1) (\<lambda>(d, f, seen, s). 2 * length s + 1)))", goal_cases)
  case (4 depth first s c r)
  then show ?case by (auto dest: skip_ws_ConsD)
qed (auto dest: skip_ws_ConsD)

declare readAuditJSONValue.simps [simp del] read_elems.simps [simp del] read_members.simps [simp del]

definition decode_fault :: "(string \<Rightarrow> string) \<Rightarrow> read_fault \<Rightarrow> audit_error" where
  "decode_fault sanitize f =
     (case f of
        InvalidJSON message \<Rightarrow> newAuditModelCallError sanitize ''invalid_json'' 0 message None
      | DuplicateKey \<Rightarrow>
          newAuditModelCallError sanitize ''ambiguous_output'' 0 ''audit model JSON contains a duplicate key'' None
      | NestingLimit \<Rightarrow>
          newAuditModelCallError sanitize ''output_limits'' 0 ''audit model JSON nesting limit exceeded'' None)"

definition decodeAuditJSON :: "(string \<Rightarrow> string) \<Rightarrow> string \<Rightarrow> audit_error + json" where
  "decodeAuditJSON sanitize txt =
     (if length txt > maxAuditResponseBytes
      then Inl (newAuditModelCallError sanitize ''response_too_large'' 0 ''audit model response exceeds byte limit'' None)
      else if \<not> valid_utf8 txt
      then Inl (newAuditModelCallError sanitize ''invalid_json'' 0 ''audit model JSON is not valid UTF-8'' None)
      else (case readAuditJSONValue 0 txt of
              Inl f \<Rightarrow> Inl (decode_fault sanitize f)
            | Inr (v, rest) \<Rightarrow>
                if skip_ws rest \<noteq> []
                then Inl (newAuditModelCallError sanitize ''invalid_json'' 0
                            ''audit model response contains trailing JSON data'' None)
                else Inr v))"

section \<open>What the reader returns\<close>

text \<open>One step of each reader on a successful read.\<close>

lemma read_valueE:
  assumes "readAuditJSONValue d s = Inr (v, t)"
  obtains (object) r ms where "skip_ws s = CHR ''{'' # r" "v = JObj ms" "read_members d True [] r = Inr (ms, t)" "d \<le> maxAuditJSONDepth"
  | (array) r vs where "skip_ws s = CHR ''['' # r" "v = JArr vs" "read_elems d True r = Inr (vs, t)" "d \<le> maxAuditJSONDepth"
  | (str) r x where "skip_ws s = CHR 0x22 # r" "v = JStr x" "parse_string r = Some (x, t)"
  | (literal) c r where "skip_ws s = c # r" "literal_value (c # r) = Some (v, t)"
  using assms
  unfolding readAuditJSONValue.simps [of d s] by (auto split: if_splits list.splits option.splits simp: map_sum_def split: sum.splits)

lemma read_elemsE:
  assumes "read_elems d f s = Inr (vs, t)"
  obtains (closed) r where "skip_ws s = CHR '']'' # r" "vs = []" "t = r"
  | (item) s1 v t1 ws where "d < maxAuditJSONDepth" "length s1 \<le> length s" "readAuditJSONValue (d + 1) s1 = Inr (v, t1)"
      "length t1 < length s" "read_elems d False t1 = Inr (ws, t)" "vs = v # ws"
  using assms
  unfolding read_elems.simps [of d f s]
  by (auto split: if_splits list.splits sum.splits prod.splits simp: map_sum_def dest!: skip_ws_ConsD) (metis less_imp_le)

lemma read_membersE:
  assumes "read_members d f seen s = Inr (ms, t)"
  obtains (closed) r where "skip_ws s = CHR ''}'' # r" "ms = []" "t = r"
  | (member) k s1 v t1 ns where "d < maxAuditJSONDepth" "k \<notin> set seen" "length s1 < length s"
      "readAuditJSONValue (d + 1) s1 = Inr (v, t1)" "length t1 < length s" "read_members d False (k # seen) t1 = Inr (ns, t)"
      "ms = (k, v) # ns"
  using assms
  unfolding read_members.simps [of d f seen s]
  by (auto split: if_splits list.splits sum.splits prod.splits option.splits simp: map_sum_def)

lemma skip_ws_Nil [simp]: "skip_ws [] = []"
  by (simp add: skip_ws_def)

lemma read_shorter:
  "(\<forall>d s v t. length s \<le> n \<longrightarrow> readAuditJSONValue d s = Inr (v, t) \<longrightarrow> length t < length s)
   \<and> (\<forall>d f s vs t. length s \<le> n \<longrightarrow> read_elems d f s = Inr (vs, t) \<longrightarrow> length t < length s)
   \<and> (\<forall>d f seen s ms t. length s \<le> n \<longrightarrow> read_members d f seen s = Inr (ms, t) \<longrightarrow> length t < length s)"
proof (induction n)
  case 0
  have "\<nexists>v t. readAuditJSONValue d [] = Inr (v, t)" for d by (auto elim: read_valueE)
  moreover have "\<nexists>v t. read_elems d f [] = Inr (v, t)" for d f by (auto elim: read_elemsE)
  moreover have "\<nexists>v t. read_members d f seen [] = Inr (v, t)" for d f seen by (auto elim: read_membersE)
  ultimately show ?case by auto
next
  case (Suc n)
  note ih = Suc.IH [THEN conjunct1, rule_format] Suc.IH [THEN conjunct2, THEN conjunct1, rule_format]
    Suc.IH [THEN conjunct2, THEN conjunct2, rule_format]
  have v: "length t < length s" if "length s \<le> Suc n" "readAuditJSONValue d s = Inr (v, t)" for d s v t
    using that(2)
  proof (cases rule: read_valueE)
    case (object r ms)
    with skip_ws_ConsD [OF object(1)] that(1) ih(3) [OF _ object(3)] show ?thesis by simp
  next
    case (array r vs)
    with skip_ws_ConsD [OF array(1)] that(1) ih(2) [OF _ array(3)] show ?thesis by simp
  next
    case (str r x)
    from skip_ws_ConsD [OF str(1)] parse_string_shorter [OF str(3)] show ?thesis by simp
  next
    case (literal c r)
    from length_skip_ws [of s] literal_value_shorter [OF literal(2)] literal(1) show ?thesis by simp
  qed
  have e: "length t < length s" if "length s \<le> Suc n" "read_elems d f s = Inr (vs, t)" for d f s vs t
    using that(2)
  proof (cases rule: read_elemsE)
    case (closed r)
    with skip_ws_ConsD [OF closed(1)] show ?thesis by simp
  next
    case (item s1 v t1 ws)
    with ih(2) [OF _ item(5)] that(1) show ?thesis by simp
  qed
  have m: "length t < length s" if "length s \<le> Suc n" "read_members d f seen s = Inr (ms, t)" for d f seen s ms t
    using that(2)
  proof (cases rule: read_membersE)
    case (closed r)
    with skip_ws_ConsD [OF closed(1)] show ?thesis by simp
  next
    case (member k s1 v t1 ns)
    with ih(3) [OF _ member(6)] that(1) show ?thesis by simp
  qed
  show ?case
  proof (intro conjI)
    show "\<forall>d s v t. length s \<le> Suc n \<longrightarrow> readAuditJSONValue d s = Inr (v, t) \<longrightarrow> length t < length s" using v by blast
    show "\<forall>d f s vs t. length s \<le> Suc n \<longrightarrow> read_elems d f s = Inr (vs, t) \<longrightarrow> length t < length s" using e by blast
    show "\<forall>d f seen s ms t. length s \<le> Suc n \<longrightarrow> read_members d f seen s = Inr (ms, t) \<longrightarrow> length t < length s" using m by blast
  qed
qed

lemma read_value_shorter: "readAuditJSONValue d s = Inr (v, t) \<Longrightarrow> length t < length s"
  using read_shorter [of "length s", THEN conjunct1] by blast

text \<open>\<open>strict n\<close>: at most \<open>n\<close> nested containers, and no key twice in an object.\<close>

fun strict :: "nat \<Rightarrow> json \<Rightarrow> bool" where
  "strict (Suc n) (JObj ms) \<longleftrightarrow> distinct (map fst ms) \<and> (\<forall>m \<in> set ms. strict n (snd m))"
| "strict (Suc n) (JArr vs) \<longleftrightarrow> (\<forall>v \<in> set vs. strict n v)"
| "strict 0 (JObj ms) \<longleftrightarrow> False"
| "strict 0 (JArr vs) \<longleftrightarrow> False"
| "strict n v \<longleftrightarrow> True"

lemma strict_literal: "literal_value s = Some (v, t) \<Longrightarrow> strict n v"
  by (cases n) (auto simp: literal_value_def split: if_splits)

lemma read_strict:
  "(\<forall>d s v t. length s \<le> n \<longrightarrow> readAuditJSONValue d s = Inr (v, t) \<longrightarrow> strict (Suc maxAuditJSONDepth - d) v)
   \<and> (\<forall>d f s vs t. length s \<le> n \<longrightarrow> read_elems d f s = Inr (vs, t) \<longrightarrow> (\<forall>v \<in> set vs. strict (maxAuditJSONDepth - d) v))
   \<and> (\<forall>d f seen s ms t. length s \<le> n \<longrightarrow> read_members d f seen s = Inr (ms, t) \<longrightarrow>
        distinct (map fst ms) \<and> set seen \<inter> fst ` set ms = {} \<and> (\<forall>m \<in> set ms. strict (maxAuditJSONDepth - d) (snd m)))"
proof (induction n)
  case 0
  have "\<nexists>v t. readAuditJSONValue d [] = Inr (v, t)" for d by (auto elim: read_valueE)
  moreover have "\<nexists>v t. read_elems d f [] = Inr (v, t)" for d f by (auto elim: read_elemsE)
  moreover have "\<nexists>v t. read_members d f seen [] = Inr (v, t)" for d f seen by (auto elim: read_membersE)
  ultimately show ?case by auto
next
  case (Suc n)
  note ih = Suc.IH [THEN conjunct1, rule_format] Suc.IH [THEN conjunct2, THEN conjunct1, rule_format]
    Suc.IH [THEN conjunct2, THEN conjunct2, rule_format]
  have v: "strict (Suc maxAuditJSONDepth - d) v" if "length s \<le> Suc n" "readAuditJSONValue d s = Inr (v, t)" for d s v t
    using that(2)
  proof (cases rule: read_valueE)
    case (object r ms)
    with skip_ws_ConsD [OF object(1)] that(1) ih(3) [OF _ object(3)] show ?thesis by (simp add: Suc_diff_le)
  next
    case (array r vs)
    with skip_ws_ConsD [OF array(1)] that(1) ih(2) [OF _ array(3)] show ?thesis by (simp add: Suc_diff_le)
  next
    case (str r x)
    then show ?thesis by (cases "Suc maxAuditJSONDepth - d") auto
  next
    case (literal c r)
    then show ?thesis by (simp add: strict_literal)
  qed
  have e: "\<forall>v \<in> set vs. strict (maxAuditJSONDepth - d) v" if "length s \<le> Suc n" "read_elems d f s = Inr (vs, t)" for d f s vs t
    using that(2)
  proof (cases rule: read_elemsE)
    case (item s1 v1 t1 ws)
    have "strict (Suc maxAuditJSONDepth - (d + 1)) v1" by (rule v [OF _ item(3)]) (use item that(1) in simp)
    with item ih(2) [OF _ item(5)] that(1) show ?thesis by auto
  qed simp
  have m: "distinct (map fst ms) \<and> set seen \<inter> fst ` set ms = {} \<and> (\<forall>m \<in> set ms. strict (maxAuditJSONDepth - d) (snd m))"
    if "length s \<le> Suc n" "read_members d f seen s = Inr (ms, t)" for d f seen s ms t
    using that(2)
  proof (cases rule: read_membersE)
    case (member k s1 v1 t1 ns)
    have "strict (Suc maxAuditJSONDepth - (d + 1)) v1" by (rule v [OF _ member(4)]) (use member that(1) in simp)
    with member ih(3) [OF _ member(6)] that(1) show ?thesis by auto
  qed simp
  show ?case
  proof (intro conjI)
    show "\<forall>d s v t. length s \<le> Suc n \<longrightarrow> readAuditJSONValue d s = Inr (v, t) \<longrightarrow> strict (Suc maxAuditJSONDepth - d) v" using v by blast
    show "\<forall>d f s vs t. length s \<le> Suc n \<longrightarrow> read_elems d f s = Inr (vs, t) \<longrightarrow> (\<forall>v \<in> set vs. strict (maxAuditJSONDepth - d) v)" using e by blast
    show "\<forall>d f seen s ms t. length s \<le> Suc n \<longrightarrow> read_members d f seen s = Inr (ms, t) \<longrightarrow> distinct (map fst ms) \<and> set seen \<inter> fst ` set ms = {} \<and> (\<forall>m \<in> set ms. strict (maxAuditJSONDepth - d) (snd m))" using m by blast
  qed
qed

lemma read_value_strict: "readAuditJSONValue d s = Inr (v, t) \<Longrightarrow> strict (Suc maxAuditJSONDepth - d) v"
  using read_strict [of "length s", THEN conjunct1] by blast

lemma decodeAuditJSON_strict:
  assumes "decodeAuditJSON sanitize body = Inr v"
  shows "strict (Suc maxAuditJSONDepth) v" and "length body \<le> maxAuditResponseBytes" and "valid_utf8 body"
  using assms read_value_strict [of 0 body]
  by (auto simp: decodeAuditJSON_def split: if_splits sum.splits prod.splits)

section \<open>Printing a value\<close>

text \<open>\<open>fmt.Sprint\<close> of a decoded value.\<close>

function sprint :: "json \<Rightarrow> string" where
  "sprint JNull = ''<nil>''"
| "sprint (JBool b) = (if b then ''true'' else ''false'')"
| "sprint (JNum l) = l"
| "sprint (JStr s) = s"
| "sprint (JArr vs) = ''['' @ join '' '' (map sprint vs) @ '']''"
| "sprint (JObj ms) =
     ''map['' @ join '' '' (map (\<lambda>k. case lookup ms k of None \<Rightarrow> [] | Some v \<Rightarrow> k @ '':'' @ sprint v) (sorted_keys ms)) @ '']''"
  by pat_completeness auto
termination by (relation "measure size") (auto simp: size_item dest: size_lookup)

end
