(* ===== verification/Audit_Answer.thy ===== *)
theory Audit_Answer
  imports Audit_Json
begin

text \<open>
  What a model's answer says (\<open>audit_output_decode.go\<close> and the extraction of the completion in
  \<open>audit_output_contract.go\<close>): the text of the completion, the one policy object in it, through
  wrappers, arrays, encoded strings and surrounding prose, and the fields of that object. \<open>sanitize\<close> is
  the redaction in front of every diagnostic text and \<open>parse\<close> is \<open>strconv.ParseFloat\<close>; the theorems
  hold for every choice of both.
\<close>

definition maxAuditPolicyCandidates :: nat where "maxAuditPolicyCandidates = 32"
definition auditResponsePreviewLimit :: nat where "auditResponsePreviewLimit = 320"

datatype float_value = NotANumber | Infinite bool | Finite rat

definition auditSchemaError :: "(string \<Rightarrow> string) \<Rightarrow> string \<Rightarrow> string \<Rightarrow> audit_error" where
  "auditSchemaError sanitize field detail =
     newAuditModelCallError sanitize ''invalid_schema'' 0 (''audit model field '' @ field @ '' '' @ detail) None"

section \<open>The policy object\<close>

definition contract_keys :: "string list" where
  "contract_keys = [''decision'', ''risk_code'', ''category'', ''confidence'', ''reason'', ''evidence'']"

definition exact_keys :: "string list" where
  "exact_keys = [''decision'', ''confidence'', ''risk_code'', ''category'', ''reason'', ''evidence'', ''request_evidence'',
     ''evidence_relation'', ''harm_type'']"

text \<open>
  The two loops over Go maps stop at the first wrong field they meet; the order here only decides
  which of several wrong fields the error names.
\<close>

definition wrong_case :: "(string \<times> json) list \<Rightarrow> string option" where
  "wrong_case ms = map_option to_lower (find (\<lambda>key. to_lower key \<noteq> key \<and> to_lower key \<in> set exact_keys) (map fst ms))"

definition string_keys :: "string list" where
  "string_keys = [''decision'', ''risk_code'', ''category'', ''reason'', ''evidence'', ''request_evidence'',
     ''evidence_relation'', ''harm_type'']"

definition wrong_type :: "(string \<times> json) list \<Rightarrow> string option" where
  "wrong_type ms = find (\<lambda>key. case lookup ms key of None \<Rightarrow> False | Some (JStr s) \<Rightarrow> False | Some v \<Rightarrow> True) string_keys"

definition confidence_value ::
    "(string \<Rightarrow> string) \<Rightarrow> (string \<Rightarrow> float_value option) \<Rightarrow> json option \<Rightarrow>
     audit_error + (float_value \<times> string \<times> string \<times> string list)" where
  "confidence_value sanitize parse raw =
     (case raw of
        None \<Rightarrow> Inl (auditSchemaError sanitize ''confidence'' ''is required'')
      | Some JNull \<Rightarrow> Inl (auditSchemaError sanitize ''confidence'' ''is required'')
      | Some (JNum l) \<Rightarrow>
          (case parse l of
             None \<Rightarrow> Inl (auditSchemaError sanitize ''confidence'' ''must be finite and between 0 and 1'')
           | Some number \<Rightarrow> Inr (number, ''numeric'', [], []))
      | Some (JStr s) \<Rightarrow>
          (let value = to_lower (trim_space s) in
           if value \<in> {''high'', ''medium'', ''low''}
           then Inr (Finite 0, ''qualitative'', value, [''confidence_qualitative''])
           else (case parse value of
                   None \<Rightarrow> Inl (auditSchemaError sanitize ''confidence''
                                  ''must be a number, numeric string, or high/medium/low'')
                 | Some number \<Rightarrow> Inr (number, ''numeric_string'', [], [''confidence_numeric_string''])))
      | Some v \<Rightarrow> Inl (auditSchemaError sanitize ''confidence'' ''has an unsupported type''))"

definition unit_interval :: "float_value \<Rightarrow> rat option" where
  "unit_interval f = (case f of Finite x \<Rightarrow> if x < 0 \<or> x > 1 then None else Some x | _ \<Rightarrow> None)"

definition policy_fields ::
    "(string \<Rightarrow> string) \<Rightarrow> modelAuditResponse \<Rightarrow> audit_error + modelAuditResponse" where
  "policy_fields sanitize r0 =
     (let r1 = r0\<lparr>mr_RiskCode := trim_space (mr_RiskCode r0)\<rparr>;
          none = equal_fold (mr_RiskCode r1) ''NONE'';
          r2 = (if none then r1\<lparr>mr_RiskCode := [],
                                mr_OutputNormalizations := mr_OutputNormalizations r1 @ [''allow_none_risk_code'']\<rparr> else r1)
      in if none \<and> mr_Decision r1 \<noteq> DecisionAllow
         then Inl (auditSchemaError sanitize ''risk_code'' ''NONE contradicts a non-allow decision'')
         else if mr_Decision r2 = DecisionAllow
              \<and> (mr_RiskCode r2 \<noteq> [] \<or> trim_space (mr_Evidence r2) \<noteq> []
                 \<or> (mr_HarmType r2 \<noteq> [] \<and> mr_HarmType r2 \<noteq> ''none''))
         then Inl (auditSchemaError sanitize ''decision'' ''allow contradicts nonempty risk_code or evidence'')
         else validateAuditModelResponse sanitize r2)"

definition decodeAuditPolicyObject ::
    "(string \<Rightarrow> string) \<Rightarrow> (string \<Rightarrow> float_value option) \<Rightarrow> (string \<times> json) list \<Rightarrow>
     audit_error + modelAuditResponse" where
  "decodeAuditPolicyObject sanitize parse ms =
     (case wrong_case ms of
        Some key \<Rightarrow> Inl (auditSchemaError sanitize key ''must use its exact lowercase field name'')
      | None \<Rightarrow>
        (case wrong_type ms of
           Some key \<Rightarrow> Inl (auditSchemaError sanitize key ''must be a string'')
         | None \<Rightarrow>
           (let str = (\<lambda>key. json_str (lookup ms key));
                decision = to_lower (trim_space (str ''decision''))
            in if decision \<notin> {DecisionAllow, DecisionBlock, DecisionReview}
               then Inl (newAuditModelCallError sanitize ''invalid_decision'' 0
                           ''audit model decision must be allow, block or review'' None)
               else (case confidence_value sanitize parse (lookup ms ''confidence'') of
                       Inl e \<Rightarrow> Inl e
                     | Inr (number, kind, label, norms) \<Rightarrow>
                       (case unit_interval number of
                          None \<Rightarrow> Inl (auditSchemaError sanitize ''confidence'' ''must be finite and between 0 and 1'')
                        | Some confidence \<Rightarrow>
                          policy_fields sanitize
                            \<lparr>mr_Decision = decision, mr_RiskCode = str ''risk_code'', mr_Category = str ''category'',
                             mr_Confidence = confidence, mr_Reason = str ''reason'', mr_Evidence = str ''evidence'',
                             mr_RequestEvidence = str ''request_evidence'', mr_EvidenceRelation = str ''evidence_relation'',
                             mr_HarmType = str ''harm_type'', mr_ConfidenceKind = kind, mr_ConfidenceLabel = label,
                             mr_OutputNormalizations = norms,
                             mr_contractFieldsPresent = list_all (\<lambda>key. lookup ms key \<noteq> None) contract_keys\<rparr>)))))"

section \<open>Finding the policy\<close>

definition wrapper_keys :: "string list" where
  "wrapper_keys = [''result'', ''policy'', ''decision_result'', ''output'', ''response'', ''data'']"

text \<open>The children of an object under the wrapper keys, in the order they are looked at.\<close>

definition wrapped :: "(string \<times> json) list \<Rightarrow> json list" where
  "wrapped ms = List.map_filter (lookup ms) wrapper_keys"

text \<open>The loop that keeps the last policy found and counts: the first error ends it.\<close>

fun tally :: "(audit_error + 'a option) list \<Rightarrow> audit_error + 'a list" where
  "tally [] = Inr []"
| "tally (r # rs) =
     (case r of
        Inl e \<Rightarrow> Inl e
      | Inr found \<Rightarrow> map_sum id (\<lambda>xs. (case found of None \<Rightarrow> xs | Some x \<Rightarrow> x # xs)) (tally rs))"

text \<open>The loop over the children of a direct policy: an error or a second policy ends it.\<close>

fun no_policy :: "audit_error \<Rightarrow> (audit_error + 'a option) list \<Rightarrow> audit_error option" where
  "no_policy ambiguous [] = None"
| "no_policy ambiguous (r # rs) =
     (case r of Inl e \<Rightarrow> Some e | Inr (Some x) \<Rightarrow> Some ambiguous | Inr None \<Rightarrow> no_policy ambiguous rs)"

definition single :: "audit_error \<Rightarrow> audit_error + 'a list \<Rightarrow> audit_error + 'a option" where
  "single ambiguous r =
     (case r of Inl e \<Rightarrow> Inl e | Inr [] \<Rightarrow> Inr None | Inr [x] \<Rightarrow> Inr (Some x) | Inr xs \<Rightarrow> Inl ambiguous)"

text \<open>\<open>strings.Replace(s, old, "", 1)\<close> and \<open>strings.ContainsAny(s, "{}")\<close>.\<close>

definition remove_first :: "string \<Rightarrow> string \<Rightarrow> string" where
  "remove_first old s = (case find_index old s of None \<Rightarrow> s | Some i \<Rightarrow> take i s @ drop (i + length old) s)"

definition has_brace :: "string \<Rightarrow> bool" where
  "has_brace s \<longleftrightarrow> CHR ''{'' \<in> set s \<or> CHR ''}'' \<in> set s"

abbreviation ambiguous_output :: "(string \<Rightarrow> string) \<Rightarrow> string \<Rightarrow> audit_error" where
  "ambiguous_output sanitize message \<equiv> newAuditModelCallError sanitize ''ambiguous_output'' 0 message None"

abbreviation invalid_json :: "(string \<Rightarrow> string) \<Rightarrow> string \<Rightarrow> audit_error" where
  "invalid_json sanitize message \<equiv> newAuditModelCallError sanitize ''invalid_json'' 0 message None"

abbreviation output_limits :: "(string \<Rightarrow> string) \<Rightarrow> string \<Rightarrow> audit_error" where
  "output_limits sanitize message \<equiv> newAuditModelCallError sanitize ''output_limits'' 0 message None"

text \<open>The policy recovered from prose: \<open>found\<close> are the policies of the candidates.\<close>

definition recovered ::
    "(string \<Rightarrow> string) \<Rightarrow> string \<Rightarrow> string list \<Rightarrow> 'a list \<Rightarrow> audit_error + 'a" where
  "recovered sanitize content candidates found =
     (case found of
        [] \<Rightarrow> Inl (invalid_json sanitize ''audit model output did not contain a policy JSON object'')
      | [x] \<Rightarrow>
          if is_prefix ''{'' content \<and> trim_space content \<noteq> trim_space (hd candidates)
          then Inl (invalid_json sanitize ''audit model JSON contains trailing data'')
          else if has_brace (remove_first (hd candidates) content)
          then Inl (invalid_json sanitize ''audit model output includes an incomplete JSON object'')
          else Inr x
      | xs \<Rightarrow> Inl (ambiguous_output sanitize ''audit model emitted multiple policy objects; refusing to select an allow''))"

function (sequential)
    auditModelResponseFromValue ::
      "(string \<Rightarrow> string) \<Rightarrow> (string \<Rightarrow> float_value option) \<Rightarrow> nat \<Rightarrow> json \<Rightarrow> audit_error + modelAuditResponse option"
and parseAuditModelResponseContentDepth ::
      "(string \<Rightarrow> string) \<Rightarrow> (string \<Rightarrow> float_value option) \<Rightarrow> nat \<Rightarrow> string \<Rightarrow> audit_error + modelAuditResponse" where
  "auditModelResponseFromValue sanitize parse depth value =
     (if depth > 5 then Inl (output_limits sanitize ''audit model wrapper depth exceeded'')
      else (case value of
        JObj ms \<Rightarrow>
          (let children = map (auditModelResponseFromValue sanitize parse (depth + 1)) (wrapped ms) in
           if lookup ms ''decision'' \<noteq> None
           then (case no_policy (ambiguous_output sanitize ''direct policy contains another nested policy'') children of
                   Some e \<Rightarrow> Inl e
                 | None \<Rightarrow> map_sum id Some (decodeAuditPolicyObject sanitize parse ms))
           else single (ambiguous_output sanitize ''audit model emitted multiple nested policies'') (tally children))
      | JArr vs \<Rightarrow>
          if length vs > maxAuditPolicyCandidates
          then Inl (output_limits sanitize ''audit model array candidate limit exceeded'')
          else single (ambiguous_output sanitize ''audit model emitted multiple array policies'')
                 (tally (map (auditModelResponseFromValue sanitize parse (depth + 1)) vs))
      | JStr s \<Rightarrow>
          if trim_space s = [] then Inr None
          else map_sum id Some (parseAuditModelResponseContentDepth sanitize parse (depth + 1) s)
      | _ \<Rightarrow> Inr None))"
| "parseAuditModelResponseContentDepth sanitize parse depth content0 =
     (if length content0 > maxAuditResponseBytes
      then Inl (newAuditModelCallError sanitize ''response_too_large'' 0 ''audit model response exceeds byte limit'' None)
      else if \<not> valid_utf8 content0 then Inl (invalid_json sanitize ''audit model JSON is not valid UTF-8'')
      else
        (let content = trim_space content0 in
         if content = [] then Inl (newAuditModelCallError sanitize ''empty_response'' 0 ''audit model returned empty content'' None)
         else if depth > 5 then Inl (output_limits sanitize ''audit model encoded-wrapper depth exceeded'')
         else (case decodeAuditJSON sanitize content of
           Inr decoded \<Rightarrow>
             (case auditModelResponseFromValue sanitize parse depth decoded of
                Inl e \<Rightarrow> Inl e
              | Inr (Some result) \<Rightarrow> Inr result
              | Inr None \<Rightarrow> Inl (auditSchemaError sanitize ''decision'' ''is missing from the response''))
         | Inl err \<Rightarrow>
             if fst (auditModelErrorDetails sanitize (Some err)) \<noteq> ''invalid_json'' then Inl err
             else if is_prefix ''['' content \<or> is_prefix [CHR 0x22] content then Inl err
             else
               (let candidates = balancedJSONObjects content in
                if length candidates > maxAuditPolicyCandidates
                then Inl (output_limits sanitize ''audit model policy candidate limit exceeded'')
                else (case tally (map (\<lambda>candidate.
                             (case decodeAuditJSON sanitize candidate of
                                Inl e \<Rightarrow> Inl e
                              | Inr v \<Rightarrow> auditModelResponseFromValue sanitize parse depth v)) candidates) of
                        Inl e \<Rightarrow> Inl e
                      | Inr found \<Rightarrow> recovered sanitize content candidates found)))))"
  by pat_completeness auto
termination
  by (relation "measure (case_sum (\<lambda>(s, p, d, v). 2 * (6 - d)) (\<lambda>(s, p, d, c). 2 * (6 - d) + 1))") auto

declare auditModelResponseFromValue.simps [simp del] parseAuditModelResponseContentDepth.simps [simp del]

definition parseAuditModelResponseContent ::
    "(string \<Rightarrow> string) \<Rightarrow> (string \<Rightarrow> float_value option) \<Rightarrow> string \<Rightarrow> audit_error + modelAuditResponse" where
  "parseAuditModelResponseContent sanitize parse content = parseAuditModelResponseContentDepth sanitize parse 0 content"

section \<open>The policies of a document\<close>

text \<open>
  A reference for what an answer holds: every policy object within \<open>n\<close> wrappers, direct ones and the
  ones nested in them, in arrays, in encoded strings and in prose.
\<close>

definition readable :: "string \<Rightarrow> json option" where
  "readable s = (case decodeAuditJSON (\<lambda>s. s) s of Inl e \<Rightarrow> None | Inr v \<Rightarrow> Some v)"

function policies :: "nat \<Rightarrow> json \<Rightarrow> (string \<times> json) list list" where
  "policies 0 v = []"
| "policies (Suc n) (JObj ms) =
     (if lookup ms ''decision'' \<noteq> None then [ms] else []) @ concat (map (policies n) (wrapped ms))"
| "policies (Suc n) (JArr vs) = concat (map (policies n) vs)"
| "policies (Suc n) (JStr s) =
     (case readable (trim_space s) of
        Some v \<Rightarrow> policies n v
      | None \<Rightarrow> concat (map (\<lambda>c. case readable c of Some v \<Rightarrow> policies n v | None \<Rightarrow> []) (balancedJSONObjects (trim_space s))))"
| "policies (Suc n) JNull = []"
| "policies (Suc n) (JBool b) = []"
| "policies (Suc n) (JNum l) = []"
  by pat_completeness auto
termination by (relation "measure fst") auto

definition text_policies :: "nat \<Rightarrow> string \<Rightarrow> (string \<times> json) list list" where
  "text_policies n s = policies (Suc n) (JStr s)"

text \<open>What is decoded does not depend on the redaction of the messages.\<close>

lemma decodeAuditJSON_readable: "decodeAuditJSON sanitize s = Inr v \<longleftrightarrow> readable s = Some v"
  by (auto simp: readable_def decodeAuditJSON_def split: sum.splits if_splits prod.splits)

lemma decodeAuditJSON_unreadable: "decodeAuditJSON sanitize s = Inl e \<Longrightarrow> readable s = None"
  using decodeAuditJSON_readable [of sanitize s] by (cases "readable s") auto

section \<open>Only one policy decides\<close>

abbreviation found_list :: "'a option \<Rightarrow> 'a list" where
  "found_list x \<equiv> (case x of None \<Rightarrow> [] | Some y \<Rightarrow> [y])"

definition answers ::
    "(string \<Rightarrow> string) \<Rightarrow> (string \<Rightarrow> float_value option) \<Rightarrow> modelAuditResponse list \<Rightarrow> (string \<times> json) list list \<Rightarrow> bool" where
  "answers sanitize parse rs mss = list_all2 (\<lambda>r ms. decodeAuditPolicyObject sanitize parse ms = Inr r) rs mss"

lemma answers_simps [simp]:
  "answers sanitize parse [] mss \<longleftrightarrow> mss = []"
  "answers sanitize parse [r] mss \<longleftrightarrow> (\<exists>ms. mss = [ms] \<and> decodeAuditPolicyObject sanitize parse ms = Inr r)"
  by (auto simp: answers_def list_all2_Cons1)

lemma tally_answers:
  assumes "tally (map f vs) = Inr xs"
    and "\<And>v x. v \<in> set vs \<Longrightarrow> f v = Inr x \<Longrightarrow> answers sanitize parse (found_list x) (pol v)"
  shows "answers sanitize parse xs (concat (map pol vs))"
  using assms
proof (induction vs arbitrary: xs)
  case (Cons v vs)
  then obtain x ys where x: "f v = Inr x" "tally (map f vs) = Inr ys" "xs = found_list x @ ys"
    by (auto simp: map_sum_def split: sum.splits option.splits)
  with Cons.IH [OF x(2)] Cons.prems(2) have "answers sanitize parse ys (concat (map pol vs))"
    and "answers sanitize parse (found_list x) (pol v)" by auto
  with x(3) show ?case by (simp add: answers_def list_all2_appendI)
qed simp

lemma no_policy_answers:
  assumes "no_policy a (map f vs) = None"
    and "\<And>v x. v \<in> set vs \<Longrightarrow> f v = Inr x \<Longrightarrow> answers sanitize parse (found_list x) (pol v)"
  shows "concat (map pol vs) = []"
  using assms
proof (induction vs)
  case (Cons v vs)
  then have "f v = Inr None" "no_policy a (map f vs) = None" by (auto split: sum.splits option.splits)
  with Cons show ?case by fastforce
qed simp

lemma single_found: "single a r = Inr x \<Longrightarrow> r = Inr (found_list x)"
  by (auto simp: single_def split: sum.splits list.splits)

lemma map_sum_InrE: "map_sum id Some r = Inr x \<Longrightarrow> \<exists>y. r = Inr y \<and> x = Some y"
  by (cases r) auto

lemma recovered_found: "recovered sanitize content candidates found = Inr x \<Longrightarrow> found = [x]"
  by (auto simp: recovered_def split: list.splits if_splits)

lemma only_policy:
  "(\<forall>x. auditModelResponseFromValue sanitize parse depth v = Inr x \<longrightarrow>
      answers sanitize parse (found_list x) (policies (6 - depth) v))"
  "(\<forall>r. parseAuditModelResponseContentDepth sanitize parse depth c = Inr r \<longrightarrow>
      answers sanitize parse [r] (text_policies (6 - depth) c))"
proof (induction sanitize parse depth v and sanitize parse depth c
    rule: auditModelResponseFromValue_parseAuditModelResponseContentDepth.induct)
  case (1 sanitize parse depth v)
  show ?case
  proof (intro allI impI)
    fix x
    assume a: "auditModelResponseFromValue sanitize parse depth v = Inr x"
    then have d: "\<not> depth > 5" by (auto simp: auditModelResponseFromValue.simps [of _ _ depth])
    then obtain n where n: "6 - depth = Suc n" "n = 6 - (depth + 1)" by (cases "6 - depth") auto
    show "answers sanitize parse (found_list x) (policies (6 - depth) v)"
    proof (cases v)
      case (JObj ms)
      have ih: "answers sanitize parse (found_list y) (policies n w)"
        if "w \<in> set (wrapped ms)" "auditModelResponseFromValue sanitize parse (depth + 1) w = Inr y" for w y
        using 1(3) [OF d JObj that(1)] that(2) n(2) by simp
      show ?thesis
      proof (cases "lookup ms ''decision'' = None")
        case True
        with a d JObj have "tally (map (auditModelResponseFromValue sanitize parse (depth + 1)) (wrapped ms)) = Inr (found_list x)"
          by (simp add: auditModelResponseFromValue.simps [of _ _ depth] Let_def single_found)
        from tally_answers [OF this ih] True JObj n(1) show ?thesis by simp
      next
        case False
        with a d JObj have p: "no_policy (ambiguous_output sanitize ''direct policy contains another nested policy'')
              (map (auditModelResponseFromValue sanitize parse (depth + 1)) (wrapped ms)) = None"
            "map_sum id Some (decodeAuditPolicyObject sanitize parse ms) = Inr x"
          by (auto simp: auditModelResponseFromValue.simps [of _ _ depth] Let_def split: option.splits)
        have "concat (map (policies n) (wrapped ms)) = []" by (rule no_policy_answers [OF p(1)]) (rule ih)
        with map_sum_InrE [OF p(2)] False JObj n(1) show ?thesis by auto
      qed
    next
      case (JArr vs)
      have ih: "answers sanitize parse (found_list y) (policies n w)"
        if "w \<in> set vs" "auditModelResponseFromValue sanitize parse (depth + 1) w = Inr y"
          "\<not> length vs > maxAuditPolicyCandidates" for w y
        using 1(2) [OF d JArr that(3) that(1)] that(2) n(2) by simp
      from a d JArr have "\<not> length vs > maxAuditPolicyCandidates"
          "tally (map (auditModelResponseFromValue sanitize parse (depth + 1)) vs) = Inr (found_list x)"
        by (auto simp: auditModelResponseFromValue.simps [of _ _ depth] single_found split: if_splits)
      from tally_answers [OF this(2) ih [OF _ _ this(1)]] JArr n(1) show ?thesis by simp
    next
      case (JStr s)
      show ?thesis
      proof (cases "trim_space s = []")
        case True
        have "readable [] = None" "balancedJSONObjects [] = []"
          by (simp_all add: readable_def decodeAuditJSON_def readAuditJSONValue.simps [of 0 "[]"] balancedJSONObjects_def)
        with a d JStr True n(1) show ?thesis
          by (auto simp: auditModelResponseFromValue.simps [of _ _ depth])
      next
        case False
        with a d JStr obtain r where r: "parseAuditModelResponseContentDepth sanitize parse (depth + 1) s = Inr r" "x = Some r"
          using map_sum_InrE by (fastforce simp: auditModelResponseFromValue.simps [of _ _ depth])
        from 1(1) [OF d JStr False] r(1) have "answers sanitize parse [r] (text_policies (6 - (depth + 1)) s)" by blast
        with r(2) JStr n show ?thesis by (simp add: text_policies_def)
      qed
    qed (use a d n(1) in \<open>auto simp: auditModelResponseFromValue.simps [of _ _ depth]\<close>)
  qed
next
  case (2 sanitize parse depth c)
  show ?case
  proof (intro allI impI)
    fix r
    assume a: "parseAuditModelResponseContentDepth sanitize parse depth c = Inr r"
    let ?content = "trim_space c"
    from a have g: "\<not> length c > maxAuditResponseBytes" "\<not> \<not> valid_utf8 c" "?content \<noteq> []" "\<not> depth > 5"
      by (auto simp: parseAuditModelResponseContentDepth.simps [of _ _ depth] Let_def split: if_splits)
    show "answers sanitize parse [r] (text_policies (6 - depth) c)"
    proof (cases "decodeAuditJSON sanitize ?content")
      case (Inr v)
      with a g have v: "auditModelResponseFromValue sanitize parse depth v = Inr (Some r)"
        by (auto simp: parseAuditModelResponseContentDepth.simps [of _ _ depth] Let_def split: sum.splits option.splits)
      have "answers sanitize parse [r] (policies (6 - depth) v)"
        using 2(2) [OF g(1,2) refl g(3,4) Inr] v by fastforce
      with Inr decodeAuditJSON_readable [of sanitize ?content v] show ?thesis by (simp add: text_policies_def)
    next
      case (Inl e)
      let ?f = "\<lambda>candidate. case decodeAuditJSON sanitize candidate of
          Inl e \<Rightarrow> Inl e | Inr v \<Rightarrow> auditModelResponseFromValue sanitize parse depth v"
      let ?p = "\<lambda>c. case readable c of Some v \<Rightarrow> policies (6 - depth) v | None \<Rightarrow> []"
      from a g Inl have e: "\<not> fst (auditModelErrorDetails sanitize (Some e)) \<noteq> ''invalid_json''"
          "\<not> (is_prefix ''['' ?content \<or> is_prefix [CHR 0x22] ?content)"
          "\<not> length (balancedJSONObjects ?content) > maxAuditPolicyCandidates"
        by (auto simp: parseAuditModelResponseContentDepth.simps [of _ _ depth] Let_def split: if_splits)
      with a g Inl obtain found where f: "tally (map ?f (balancedJSONObjects ?content)) = Inr found"
          "recovered sanitize ?content (balancedJSONObjects ?content) found = Inr r"
        by (auto simp: parseAuditModelResponseContentDepth.simps [of _ _ depth] Let_def split: if_splits sum.splits)
      have ih: "answers sanitize parse (found_list y) (?p w)"
        if "w \<in> set (balancedJSONObjects ?content)" "?f w = Inr y" for w y
      proof -
        from that(2) obtain v where v: "decodeAuditJSON sanitize w = Inr v"
            "auditModelResponseFromValue sanitize parse depth v = Inr y" by (auto split: sum.splits)
        with 2(1) [OF g(1,2) refl g(3,4) Inl e(1,2) refl e(3) that(1) v(1)] decodeAuditJSON_readable [of sanitize w v]
        show ?thesis by simp
      qed
      from tally_answers [OF f(1) ih] recovered_found [OF f(2)] decodeAuditJSON_unreadable [OF Inl]
      show ?thesis by (simp add: text_policies_def)
    qed
  qed
qed

section \<open>What an accepted policy says\<close>

definition policy_ok :: "modelAuditResponse \<Rightarrow> bool" where
  "policy_ok r \<longleftrightarrow>
     mr_Decision r \<in> {DecisionAllow, DecisionBlock, DecisionReview}
     \<and> 0 \<le> mr_Confidence r \<and> mr_Confidence r \<le> 1
     \<and> (mr_Decision r = DecisionAllow \<longrightarrow>
          mr_RiskCode r = [] \<and> trim_space (mr_Evidence r) = [] \<and> mr_HarmType r \<in> {[], ''none''})
     \<and> (mr_ConfidenceKind r = ''qualitative'' \<longrightarrow>
          mr_ConfidenceLabel r \<in> {''high'', ''medium'', ''low''} \<and> mr_Confidence r = 0)
     \<and> length (mr_Reason r) \<le> 500"

lemma confidence_value_kind:
  assumes "confidence_value sanitize parse raw = Inr (number, kind, label, norms)"
  shows "kind = ''qualitative'' \<longrightarrow> label \<in> {''high'', ''medium'', ''low''} \<and> number = Finite 0"
  using assms by (auto simp: confidence_value_def Let_def split: option.splits json.splits if_splits)

lemma decision_words:
  "to_lower (trim_space DecisionAllow) = DecisionAllow" "to_lower (trim_space DecisionBlock) = DecisionBlock"
  "to_lower (trim_space DecisionReview) = DecisionReview"
  by code_simp+

lemma validate_fields:
  assumes "validateAuditModelResponse sanitize r = Inr r'"
  shows "mr_Decision r' = to_lower (trim_space (mr_Decision r))" and "mr_RiskCode r' = trim_space (mr_RiskCode r)"
    and "mr_Evidence r' = mr_Evidence r" and "mr_HarmType r' = mr_HarmType r" and "mr_ConfidenceKind r' = mr_ConfidenceKind r"
    and "mr_ConfidenceLabel r' = mr_ConfidenceLabel r" and "mr_Confidence r' = clampConfidence (mr_Confidence r)"
    and "length (mr_Reason r') \<le> 500" and "mr_contractFieldsPresent r' = mr_contractFieldsPresent r"
  using assms by (auto simp: validateAuditModelResponse_def Let_def truncateString_def split: if_splits)

lemma policy_fields_ok:
  assumes "policy_fields sanitize r0 = Inr r" and "mr_Decision r0 \<in> {DecisionAllow, DecisionBlock, DecisionReview}"
    and "0 \<le> mr_Confidence r0" and "mr_Confidence r0 \<le> 1"
    and "mr_ConfidenceKind r0 = ''qualitative'' \<longrightarrow>
      mr_ConfidenceLabel r0 \<in> {''high'', ''medium'', ''low''} \<and> mr_Confidence r0 = 0"
  shows "policy_ok r \<and> mr_Decision r = mr_Decision r0 \<and> mr_contractFieldsPresent r = mr_contractFieldsPresent r0"
proof -
  define r1 where "r1 = r0\<lparr>mr_RiskCode := trim_space (mr_RiskCode r0)\<rparr>"
  define none where "none = equal_fold (mr_RiskCode r1) ''NONE''"
  define r2 where "r2 = (if none then r1\<lparr>mr_RiskCode := [],
      mr_OutputNormalizations := mr_OutputNormalizations r1 @ [''allow_none_risk_code'']\<rparr> else r1)"
  have v: "validateAuditModelResponse sanitize r2 = Inr r"
    and c: "mr_Decision r2 = DecisionAllow \<longrightarrow>
        mr_RiskCode r2 = [] \<and> trim_space (mr_Evidence r2) = [] \<and> (mr_HarmType r2 = [] \<or> mr_HarmType r2 = ''none'')"
    using assms(1) by (auto simp: policy_fields_def Let_def r1_def none_def r2_def split: if_splits)
  have f: "mr_Decision r2 = mr_Decision r0" "mr_Confidence r2 = mr_Confidence r0" "mr_ConfidenceKind r2 = mr_ConfidenceKind r0"
      "mr_ConfidenceLabel r2 = mr_ConfidenceLabel r0" "mr_contractFieldsPresent r2 = mr_contractFieldsPresent r0"
    by (simp_all add: r2_def r1_def)
  have d: "to_lower (trim_space (mr_Decision r0)) = mr_Decision r0" using assms(2) decision_words by auto
  have "clampConfidence (mr_Confidence r0) = mr_Confidence r0" using assms(3,4) by (simp add: clampConfidence_def)
  with validate_fields [OF v] c f d assms(2-5) show ?thesis by (auto simp: policy_ok_def)
qed

lemma policy_object_ok:
  assumes "decodeAuditPolicyObject sanitize parse ms = Inr r"
  shows "policy_ok r" and "mr_Decision r = to_lower (trim_space (json_str (lookup ms ''decision'')))"
    and "mr_contractFieldsPresent r \<longleftrightarrow> list_all (\<lambda>key. lookup ms key \<noteq> None) contract_keys"
proof -
  obtain number kind label norms confidence where
      d: "to_lower (trim_space (json_str (lookup ms ''decision''))) \<in> {DecisionAllow, DecisionBlock, DecisionReview}"
      and c: "confidence_value sanitize parse (lookup ms ''confidence'') = Inr (number, kind, label, norms)"
      and u: "unit_interval number = Some confidence"
      and p: "policy_fields sanitize
                            \<lparr>mr_Decision = to_lower (trim_space (json_str (lookup ms ''decision''))),
                             mr_RiskCode = json_str (lookup ms ''risk_code''), mr_Category = json_str (lookup ms ''category''),
                             mr_Confidence = confidence, mr_Reason = json_str (lookup ms ''reason''),
                             mr_Evidence = json_str (lookup ms ''evidence''),
                             mr_RequestEvidence = json_str (lookup ms ''request_evidence''),
                             mr_EvidenceRelation = json_str (lookup ms ''evidence_relation''),
                             mr_HarmType = json_str (lookup ms ''harm_type''), mr_ConfidenceKind = kind,
                             mr_ConfidenceLabel = label, mr_OutputNormalizations = norms,
                             mr_contractFieldsPresent = list_all (\<lambda>key. lookup ms key \<noteq> None) contract_keys\<rparr> = Inr r"
    using assms by (auto simp: decodeAuditPolicyObject_def Let_def split: option.splits if_splits sum.splits prod.splits)
  have "0 \<le> confidence" "confidence \<le> 1" using u by (auto simp: unit_interval_def split: float_value.splits if_splits)
  moreover have "kind = ''qualitative'' \<longrightarrow> label \<in> {''high'', ''medium'', ''low''} \<and> confidence = 0"
    using confidence_value_kind [OF c] u by (auto simp: unit_interval_def)
  ultimately have k: "policy_ok r \<and> mr_Decision r = to_lower (trim_space (json_str (lookup ms ''decision'')))
      \<and> mr_contractFieldsPresent r = list_all (\<lambda>key. lookup ms key \<noteq> None) contract_keys"
    using policy_fields_ok [OF p] d by simp
  then show "policy_ok r" and "mr_Decision r = to_lower (trim_space (json_str (lookup ms ''decision'')))"
    and "mr_contractFieldsPresent r \<longleftrightarrow> list_all (\<lambda>key. lookup ms key \<noteq> None) contract_keys" by blast+
qed

section \<open>Prose around a policy\<close>

lemma find_index_early: "is_prefix p (drop a s) \<Longrightarrow> a \<le> length s \<Longrightarrow> \<exists>i \<le> a. find_index p s = Some i"
proof (induction s arbitrary: a)
  case Nil
  then show ?case by (cases p) auto
next
  case (Cons c s)
  show ?case
  proof (cases "a = 0 \<or> is_prefix p (c # s)")
    case False
    then obtain b where "a = Suc b" by (cases a) auto
    with Cons obtain i where "i \<le> b" "find_index p s = Some i" by auto
    with False \<open>a = Suc b\<close> show ?thesis by (intro exI [of _ "Suc i"]) simp
  qed (use Cons in auto)
qed

text \<open>When the first object is cut out of a text with a second one, a brace is left.\<close>

lemma brace_left:
  assumes "balancedJSONObjects s = c # d # cs"
  shows "has_brace (remove_first c s)"
proof -
  obtain spans where sp: "spans = balanced_scan 0 s \<lparr>sc_start = None, sc_depth = 0, sc_inString = False, sc_escaped = False, sc_found = []\<rparr>"
      and m: "balancedJSONObjects s = map (\<lambda>(a, b). take (b - a) (drop a s)) spans"
    by (simp add: balancedJSONObjects_def)
  have "scan_inv s 0 \<lparr>sc_start = None, sc_depth = 0, sc_inString = False, sc_escaped = False, sc_found = []\<rparr>"
    by (simp add: scan_inv_def spans_ok_def)
  from balanced_scan_ok [OF this, of s] have ok: "spans_ok s (length s) spans" unfolding sp by simp
  obtain a b a' b' rest where s3: "spans = (a, b) # (a', b') # rest" "c = take (b - a) (drop a s)"
    using assms m by (cases spans; cases "tl spans") auto
  with ok have o: "a < b" "b \<le> length s" "b \<le> a'" "a' < b'" "b' \<le> length s" "s ! a' = CHR 0x7B"
    by (auto simp: spans_ok_def)
  have "is_prefix c (drop a s)" by (auto simp: s3(2) is_prefix_iff) (metis append_take_drop_id)
  then obtain i where i: "i \<le> a" "find_index c s = Some i" using find_index_early o by (meson less_imp_le order_trans)
  have "length c = b - a" using o by (simp add: s3(2))
  with i(1) o have le: "i + length c \<le> a'" by simp
  have "CHR 0x7B \<in> set (drop (i + length c) s)"
    using o le nth_mem [of "a' - (i + length c)" "drop (i + length c) s"] by (simp add: nth_drop)
  then show ?thesis by (simp add: remove_first_def i(2) has_brace_def)
qed

lemma recovered_alone:
  assumes "recovered sanitize s (balancedJSONObjects s) [x] = Inr r" and "balancedJSONObjects s \<noteq> []"
  shows "\<exists>c. balancedJSONObjects s = [c] \<and> \<not> has_brace (remove_first c s)"
proof -
  obtain c cs where c: "balancedJSONObjects s = c # cs" using assms(2) by (cases "balancedJSONObjects s") auto
  with assms(1) have "\<not> has_brace (remove_first c s)" by (auto simp: recovered_def split: if_splits)
  with brace_left c show ?thesis by (cases cs) auto
qed

end
