(* ===== verification/Audit_Call.thy ===== *)
theory Audit_Call
  imports Audit_Answer Audit_Failover Audit_Verdict Security
begin

text \<open>
  One call of an audit model under the cyber-deny policy, which \<open>Audit\<close> always sets: the output plan
  and the request body (\<open>audit_output_contract.go\<close>, \<open>audit_fast_mode.go\<close>, \<open>audit_cyber_baseline.go\<close> and
  the first half of \<open>callModelRawWithEvidenceSource\<close> of \<open>audit.go\<close>).
\<close>

section \<open>The output plan\<close>

definition auditOutputModeAuto :: string where "auditOutputModeAuto = ''auto''"
definition auditOutputModeJSONSchema :: string where "auditOutputModeJSONSchema = ''json_schema''"
definition auditOutputModeVLLMStructuredJSON :: string where
  "auditOutputModeVLLMStructuredJSON = ''vllm_structured_json''"
definition auditOutputModeJSONObject :: string where "auditOutputModeJSONObject = ''json_object''"
definition auditOutputModeGuidedJSON :: string where "auditOutputModeGuidedJSON = ''guided_json''"
definition auditOutputModePromptOnly :: string where "auditOutputModePromptOnly = ''prompt_only''"

lemmas mode_defs = auditOutputModeAuto_def auditOutputModeJSONSchema_def auditOutputModeVLLMStructuredJSON_def
  auditOutputModeJSONObject_def auditOutputModeGuidedJSON_def auditOutputModePromptOnly_def

record auditOutputPlan =
  op_VerifyIntent :: bool
  op_Feedback :: string
  op_Mode :: string
  op_MaxTokens :: int
  op_Attempt :: int

definition normalizeAuditModelName :: "string \<Rightarrow> string" where
  "normalizeAuditModelName model = filter (\<lambda>c. c \<notin> set ''/-_. '') (to_lower (trim_space model))"

definition isQwenModel :: "string \<Rightarrow> bool" where
  "isQwenModel model = contains (normalizeAuditModelName model) ''qwen''"

definition normalizeAuditOutputMode :: "string \<Rightarrow> string" where
  "normalizeAuditOutputMode value =
     (let v = to_lower (trim_space value) in
      if v \<in> {[], ''auto''} then auditOutputModeAuto
      else if v \<in> {''json_schema'', ''response_format_json_schema''} then auditOutputModeJSONSchema
      else if v \<in> {''vllm_structured_json'', ''structured_outputs'', ''structured_outputs_json''}
      then auditOutputModeVLLMStructuredJSON
      else if v \<in> {''json_object'', ''response_format_json_object''} then auditOutputModeJSONObject
      else if v \<in> {''guided_json'', ''legacy_guided_json''} then auditOutputModeGuidedJSON
      else if v \<in> {''prompt_only'', ''none'', ''disabled''} then auditOutputModePromptOnly
      else [])"

definition mode_sequence :: "AuditProfile \<Rightarrow> string list" where
  "mode_sequence p =
     (if isQwenModel (ap_Model p)
      then [auditOutputModeJSONSchema, auditOutputModeVLLMStructuredJSON, auditOutputModeJSONObject,
            auditOutputModeGuidedJSON, auditOutputModePromptOnly]
      else [auditOutputModeJSONSchema, auditOutputModeJSONObject, auditOutputModePromptOnly])"

definition automaticAuditOutputMode :: "AuditProfile \<Rightarrow> nat \<Rightarrow> string" where
  "automaticAuditOutputMode p attempt =
     (let sequence = mode_sequence p in
      if attempt \<ge> length sequence then sequence ! (length sequence - 1) else sequence ! attempt)"

definition plan_tokens :: "int \<Rightarrow> int \<Rightarrow> int" where
  "plan_tokens outputMaxTokens attempt =
     (let m0 = (if outputMaxTokens < 256 then 256 else outputMaxTokens);
          m1 = (if attempt = 1 \<and> m0 < 384 then 384 else if attempt \<ge> 2 \<and> m0 < 512 then 512 else m0)
      in if m1 > 1024 then 1024 else m1)"

definition configured_mode :: "AuditProfile \<Rightarrow> string" where
  "configured_mode p =
     (case extra_get (ap_Extra p) ''_risk_structured_output_mode'' of
        Some (JStr value) \<Rightarrow>
          (if normalizeAuditOutputMode value \<noteq> [] then normalizeAuditOutputMode value else auditOutputModeAuto)
      | _ \<Rightarrow> auditOutputModeAuto)"

definition output_plan :: "int \<Rightarrow> AuditProfile \<Rightarrow> int \<Rightarrow> auditOutputPlan" where
  "output_plan outputMaxTokens p attempt0 =
     (let attempt = (if attempt0 < 0 then 0 else attempt0);
          mode = (if configured_mode p = auditOutputModeAuto then automaticAuditOutputMode p (nat attempt)
                  else configured_mode p)
      in \<lparr>op_VerifyIntent = False, op_Feedback = [], op_Mode = mode,
          op_MaxTokens = plan_tokens outputMaxTokens attempt, op_Attempt = attempt\<rparr>)"

section \<open>The request body\<close>

type_synonym payload = "(string \<times> json) list"

definition json_int :: "int \<Rightarrow> json" where "json_int n = JNum (dec_int n)"

definition string_field :: "nat \<Rightarrow> json" where
  "string_field n = JObj [(''type'', JStr ''string''), (''maxLength'', json_int (int n))]"

definition enum_field :: "string list \<Rightarrow> json" where
  "enum_field xs = JObj [(''type'', JStr ''string''), (''enum'', JArr (map JStr xs))]"

definition required_fields :: "string list" where
  "required_fields = [''decision'', ''risk_code'', ''category'', ''confidence'', ''reason'', ''evidence'']"

definition decision_properties :: payload where
  "decision_properties =
     [(''decision'', enum_field [DecisionAllow, DecisionReview, DecisionBlock]),
      (''risk_code'', string_field 64), (''category'', string_field 64),
      (''confidence'', JObj [(''type'', JStr ''number''), (''minimum'', json_int 0), (''maximum'', json_int 1)]),
      (''reason'', string_field 80), (''evidence'', string_field 80)]"

definition intent_properties :: payload where
  "intent_properties =
     [(''request_evidence'', string_field 80),
      (''evidence_relation'', enum_field [''direct_request'', ''adopted_reference'', ''reference_only'', ''no_harm'', ''uncertain'']),
      (''harm_type'', enum_field [''credential_theft'', ''deceptive_access'', ''unauthorized_access'', ''malware'',
         ''exfiltration'', ''destructive_impact'', ''security_evasion'', ''abusive_ai_operation'', ''none'', ''uncertain''])]"

definition auditDecisionJSONSchema :: "bool \<Rightarrow> json" where
  "auditDecisionJSONSchema verifyIntent =
     JObj [(''type'', JStr ''object''), (''additionalProperties'', JBool False),
       (''required'', JArr (map JStr (required_fields @
          (if verifyIntent then [''request_evidence'', ''evidence_relation'', ''harm_type''] else [])))),
       (''properties'', JObj (decision_properties @ (if verifyIntent then intent_properties else [])))]"

definition delete_keys :: "string list \<Rightarrow> payload \<Rightarrow> payload" where
  "delete_keys ks m = filter (\<lambda>(k, v). k \<notin> set ks) m"

definition structured_output :: "auditOutputPlan \<Rightarrow> payload" where
  "structured_output plan =
     (let schema = auditDecisionJSONSchema (op_VerifyIntent plan) in
      if op_Mode plan = auditOutputModeJSONSchema
      then [(''response_format'', JObj [(''type'', JStr ''json_schema''),
              (''json_schema'', JObj [(''name'', JStr ''risk_audit_decision''), (''strict'', JBool True), (''schema'', schema)])])]
      else if op_Mode plan = auditOutputModeVLLMStructuredJSON then [(''structured_outputs'', JObj [(''json'', schema)])]
      else if op_Mode plan = auditOutputModeJSONObject
      then [(''response_format'', JObj [(''type'', JStr ''json_object'')])]
      else if op_Mode plan = auditOutputModeGuidedJSON then [(''guided_json'', schema)]
      else [])"

definition put_all :: "payload \<Rightarrow> payload \<Rightarrow> payload" where
  "put_all new m = foldl (\<lambda>m (k, v). AList.update k v m) m new"

definition applyAuditOutputContract :: "auditOutputPlan \<Rightarrow> payload \<Rightarrow> payload" where
  "applyAuditOutputContract plan m =
     put_all ([(''stream'', JBool False), (''n'', json_int 1), (''temperature'', json_int 0),
               (''max_tokens'', json_int (op_MaxTokens plan))] @ structured_output plan)
       (delete_keys [''response_format'', ''structured_outputs'', ''guided_json'', ''guided_regex'', ''guided_choice''] m)"

definition isInternalAuditExtraKey :: "string \<Rightarrow> bool" where
  "isInternalAuditExtraKey key = is_prefix ''_risk_'' (to_lower (trim_space key))"

text \<open>The profile's own parameters; the keys of a decoded object are distinct.\<close>

definition add_extra :: "AuditProfile \<Rightarrow> payload \<Rightarrow> payload" where
  "add_extra p m =
     (case ap_Extra p of None \<Rightarrow> m
      | Some ms \<Rightarrow>
          put_all (filter (\<lambda>(k, v). \<not> isInternalAuditExtraKey k \<and> k \<notin> {''model'', ''messages'', ''stream''}) ms) m)"

definition qwenFastModeEnabled :: "bool \<Rightarrow> AuditProfile \<Rightarrow> bool" where
  "qwenFastModeEnabled disableThinking p \<longleftrightarrow>
     disableThinking \<and> (isQwenModel (ap_Model p) \<or> extra_true p ''_risk_qwen_fast_mode'')"

definition applyFastAuditDefaults :: "int \<Rightarrow> bool \<Rightarrow> AuditProfile \<Rightarrow> payload \<Rightarrow> payload" where
  "applyFastAuditDefaults outputMaxTokens disableThinking p m0 =
     (let m = AList.update ''max_tokens'' (json_int outputMaxTokens) m0 in
      if \<not> qwenFastModeEnabled disableThinking p then m
      else
        (let existing = (case lookup m ''chat_template_kwargs'' of Some (JObj ms) \<Rightarrow> ms | _ \<Rightarrow> []) in
         AList.update ''chat_template_kwargs''
           (JObj (put_all [(''enable_thinking'', JBool False), (''preserve_thinking'', JBool False)] existing)) m))"

definition no_thinking :: json where
  "no_thinking = JObj [(''enable_thinking'', JBool False), (''preserve_thinking'', JBool False)]"

definition qwen_request :: "AuditProfile \<Rightarrow> bool" where
  "qwen_request p \<longleftrightarrow> isQwenModel (ap_Model p) \<or> extra_true p ''_risk_qwen_fast_mode''"

definition enforced_keys :: "string list" where
  "enforced_keys = [''model'', ''messages'', ''max_tokens'', ''response_format'', ''structured_outputs'', ''guided_json'']"

definition enforceCyberAuditPayload :: "AuditProfile \<Rightarrow> payload \<Rightarrow> payload" where
  "enforceCyberAuditPayload p m =
     put_all ([(''temperature'', json_int 0), (''stream'', JBool False)]
              @ (if qwen_request p then [(''chat_template_kwargs'', no_thinking)] else []))
       (filter (\<lambda>(k, v). k \<in> set enforced_keys) m)"

definition competing_keys :: "string list" where
  "competing_keys = [''truncate_prompt_tokens'', ''tools'', ''tool_choice'', ''stop'', ''n'', ''logit_bias'',
     ''max_completion_tokens'', ''reasoning_effort'', ''enable_thinking'', ''preserve_thinking'']"

definition audit_payload :: "int \<Rightarrow> bool \<Rightarrow> auditOutputPlan \<Rightarrow> AuditProfile \<Rightarrow> json \<Rightarrow> payload" where
  "audit_payload outputMaxTokens disableThinking plan p messages =
     (let m0 = [(''model'', JStr (ap_Model p)), (''temperature'', json_int 0),
                (''max_tokens'', json_int (op_MaxTokens plan)), (''messages'', messages)];
          m1 = applyFastAuditDefaults outputMaxTokens disableThinking p (add_extra p m0);
          m2 = AList.update ''temperature'' (json_int 0) (delete_keys competing_keys m1);
          m3 = (if qwen_request p then AList.update ''chat_template_kwargs'' no_thinking m2 else m2)
      in enforceCyberAuditPayload p (applyAuditOutputContract plan m3))"

section \<open>What is sent\<close>

text \<open>The body a call is meant to send, member by member.\<close>

definition fixed_payload :: "auditOutputPlan \<Rightarrow> AuditProfile \<Rightarrow> json \<Rightarrow> string \<rightharpoonup> json" where
  "fixed_payload plan p messages =
     [''model'' \<mapsto> JStr (ap_Model p), ''messages'' \<mapsto> messages, ''max_tokens'' \<mapsto> json_int (op_MaxTokens plan),
      ''temperature'' \<mapsto> json_int 0, ''stream'' \<mapsto> JBool False]
     ++ map_of (structured_output plan)
     ++ (if qwen_request p then [''chat_template_kwargs'' \<mapsto> no_thinking] else Map.empty)"

lemma lookup_put_all: "lookup (put_all new m) k = (case lookup (rev new) k of Some v \<Rightarrow> Some v | None \<Rightarrow> lookup m k)"
proof (induction new arbitrary: m)
  case (Cons x new)
  obtain j v where x: "x = (j, v)" by fastforce
  have "put_all (x # new) m = put_all new (AList.update j v m)" by (simp add: put_all_def x)
  with Cons show ?case by (auto simp: x map_add_def update_conv' split: option.split)
qed (simp add: put_all_def)

lemma lookup_filter_key: "lookup (filter (\<lambda>(k, v). P k) m) k = (if P k then lookup m k else None)"
  by (induction m) auto

lemma lookup_delete_keys: "lookup (delete_keys ks m) k = (if k \<in> set ks then None else lookup m k)"
  by (simp add: delete_keys_def lookup_filter_key)

lemma lookup_add_extra:
  assumes "k \<in> {''model'', ''messages'', ''stream''}"
  shows "lookup (add_extra p m) k = lookup m k"
proof (cases "ap_Extra p")
  case (Some ms)
  let ?P = "\<lambda>k. \<not> isInternalAuditExtraKey k \<and> k \<notin> {''model'', ''messages'', ''stream''}"
  have "k \<notin> fst ` set (filter (\<lambda>(k, v). ?P k) ms)" using assms by auto
  then have "lookup (rev (filter (\<lambda>(k, v). ?P k) ms)) k = None" by (simp add: map_of_eq_None_iff)
  with Some show ?thesis by (simp add: add_extra_def lookup_put_all)
qed (simp add: add_extra_def)

lemma lookup_fast_defaults:
  "k \<in> {''model'', ''messages''} \<Longrightarrow> lookup (applyFastAuditDefaults n d p m) k = lookup m k"
  by (auto simp: applyFastAuditDefaults_def Let_def update_conv')

lemma structured_cases:
  "structured_output plan = [] \<or> (\<exists>v. structured_output plan = [(''response_format'', v)])
   \<or> (\<exists>v. structured_output plan = [(''structured_outputs'', v)]) \<or> (\<exists>v. structured_output plan = [(''guided_json'', v)])"
  unfolding structured_output_def Let_def by simp

lemma structured_keys: "k \<notin> {''response_format'', ''structured_outputs'', ''guided_json''} \<Longrightarrow> lookup (structured_output plan) k = None"
  using structured_cases [of plan] by (elim disjE exE) simp_all

lemma structured_rev: "rev (structured_output plan) = structured_output plan"
  using structured_cases [of plan] by (elim disjE exE) simp_all

lemma lookup_contract:
  "lookup (applyAuditOutputContract plan m) k =
     (case lookup (structured_output plan) k of
        Some v \<Rightarrow> Some v
      | None \<Rightarrow>
          if k = ''max_tokens'' then Some (json_int (op_MaxTokens plan)) else if k = ''temperature'' then Some (json_int 0)
          else if k = ''n'' then Some (json_int 1) else if k = ''stream'' then Some (JBool False)
          else if k \<in> {''response_format'', ''structured_outputs'', ''guided_json'', ''guided_regex'', ''guided_choice''} then None
          else lookup m k)"
  by (cases "lookup (structured_output plan) k")
    (simp_all add: applyAuditOutputContract_def lookup_put_all lookup_delete_keys structured_rev map_add_def)

lemma lookup_enforce:
  "lookup (enforceCyberAuditPayload p m) k =
     (if qwen_request p \<and> k = ''chat_template_kwargs'' then Some no_thinking
      else if k = ''stream'' then Some (JBool False) else if k = ''temperature'' then Some (json_int 0)
      else if k \<in> set enforced_keys then lookup m k else None)"
  by (cases "qwen_request p") (simp_all add: enforceCyberAuditPayload_def lookup_put_all lookup_filter_key)

lemma lookup_fixed:
  "fixed_payload plan p messages k =
     (if qwen_request p \<and> k = ''chat_template_kwargs'' then Some no_thinking
      else (case lookup (structured_output plan) k of
              Some v \<Rightarrow> Some v
            | None \<Rightarrow>
                if k = ''stream'' then Some (JBool False) else if k = ''temperature'' then Some (json_int 0)
                else if k = ''max_tokens'' then Some (json_int (op_MaxTokens plan))
                else if k = ''messages'' then Some messages else if k = ''model'' then Some (JStr (ap_Model p)) else None))"
  by (cases "lookup (structured_output plan) k"; cases "qwen_request p") (simp_all add: fixed_payload_def map_add_def)

lemma audit_payload_fixed: "lookup (audit_payload n d plan p messages) k = fixed_payload plan p messages k"
proof -
  define m1 where "m1 = applyFastAuditDefaults n d p (add_extra p [(''model'', JStr (ap_Model p)), (''temperature'', json_int 0),
      (''max_tokens'', json_int (op_MaxTokens plan)), (''messages'', messages)])"
  define m2 where "m2 = AList.update ''temperature'' (json_int 0) (delete_keys competing_keys m1)"
  define m3 where "m3 = (if qwen_request p then AList.update ''chat_template_kwargs'' no_thinking m2 else m2)"
  have e: "audit_payload n d plan p messages = enforceCyberAuditPayload p (applyAuditOutputContract plan m3)"
    by (simp add: audit_payload_def Let_def m1_def m2_def m3_def)
  have "lookup m1 ''model'' = Some (JStr (ap_Model p))" "lookup m1 ''messages'' = Some messages"
    by (simp_all add: m1_def lookup_fast_defaults lookup_add_extra)
  then have m3: "lookup m3 ''model'' = Some (JStr (ap_Model p))" "lookup m3 ''messages'' = Some messages"
    by (simp_all add: m3_def m2_def update_conv' lookup_delete_keys competing_keys_def)
  let ?formats = "{''response_format'', ''structured_outputs'', ''guided_json''}"
  have f: "set enforced_keys = {''model'', ''messages'', ''max_tokens''} \<union> ?formats" by (auto simp: enforced_keys_def)
  have "k \<in> ?formats \<or> k = ''model'' \<or> k = ''messages'' \<or> k = ''max_tokens'' \<or> k = ''stream'' \<or> k = ''temperature''
      \<or> k = ''chat_template_kwargs''
      \<or> (k \<notin> set enforced_keys \<and> k \<noteq> ''stream'' \<and> k \<noteq> ''temperature'' \<and> k \<noteq> ''chat_template_kwargs'')"
    unfolding f Un_iff insert_iff empty_iff by argo
  then show ?thesis
  proof (elim disjE)
    assume 1: "k \<in> ?formats"
    then have k: "k \<noteq> ''chat_template_kwargs''" "k \<noteq> ''stream''" "k \<noteq> ''temperature''" "k \<noteq> ''max_tokens''" "k \<noteq> ''messages''"
        "k \<noteq> ''model''" "k \<in> set enforced_keys" by (auto simp: f)
    show ?thesis
    proof (cases "lookup (structured_output plan) k")
      case None
      with 1 have "lookup (applyAuditOutputContract plan m3) k = None" by (auto simp: lookup_contract)
      with None k show ?thesis by (simp add: e lookup_enforce lookup_fixed)
    next
      case (Some v)
      then have "lookup (applyAuditOutputContract plan m3) k = Some v" by (simp add: lookup_contract)
      with Some k show ?thesis by (simp add: e lookup_enforce lookup_fixed)
    qed
  next
    assume 8: "k \<notin> set enforced_keys \<and> k \<noteq> ''stream'' \<and> k \<noteq> ''temperature'' \<and> k \<noteq> ''chat_template_kwargs''"
    then have "lookup (structured_output plan) k = None" "k \<noteq> ''max_tokens''" "k \<noteq> ''messages''" "k \<noteq> ''model''"
      by (auto simp: f intro: structured_keys)
    with 8 show ?thesis by (simp add: e lookup_enforce lookup_fixed)
  qed (simp_all add: e lookup_enforce lookup_fixed lookup_contract structured_keys f m3)
qed

lemma plan_tokens_range: "256 \<le> plan_tokens n a \<and> plan_tokens n a \<le> 1024"
  by (simp add: plan_tokens_def Let_def)

end
