(* ===== verification/Audit_Evidence.thy ===== *)
theory Audit_Evidence
  imports Audit_Verdict Json_Write
begin

text \<open>
  The audited text as a document with references (\<open>audit_request_document.go\<close>), the quote a block or a
  review must give (\<open>audit_model_evidence.go\<close>) and the verdict of a semantic verification
  (\<open>validateAuditSemanticVerdictWithScope\<close> of \<open>audit_semantic_review.go\<close>). \<open>history\<close> stands for the
  regular expression of the headings of task histories: where its first 64 matches end. \<open>redact\<close> is
  \<open>redactCyberTraceText\<close>, a list of regular expressions.
\<close>

section \<open>The quote\<close>

definition auditModelEvidenceMaxRunes :: nat where "auditModelEvidenceMaxRunes = 120"
definition auditModelEvidenceMaxBytes :: nat where "auditModelEvidenceMaxBytes = 512"
definition auditEvidenceVerifyMaxRunes :: nat where "auditEvidenceVerifyMaxRunes = 1024"
definition auditEvidenceVerifyMaxBytes :: nat where "auditEvidenceVerifyMaxBytes = 4096"
definition cyberRuleContextRunes :: nat where "cyberRuleContextRunes = 180"

definition ellipsis :: string where "ellipsis = [CHR 0xE2, CHR 0x80, CHR 0xA6]"

definition quote_pairs :: "(string \<times> string) list" where
  "quote_pairs =
     [([CHR 0x60, CHR 0x60, CHR 0x60], [CHR 0x60, CHR 0x60, CHR 0x60]), ([CHR 0x60], [CHR 0x60]),
      ([CHR 0x22], [CHR 0x22]), ([CHR 0x27], [CHR 0x27]),
      ([CHR 0xE2, CHR 0x80, CHR 0x9C], [CHR 0xE2, CHR 0x80, CHR 0x9D]),
      ([CHR 0xE2, CHR 0x80, CHR 0x98], [CHR 0xE2, CHR 0x80, CHR 0x99]),
      ([CHR 0xE3, CHR 0x80, CHR 0x8A], [CHR 0xE3, CHR 0x80, CHR 0x8B])]"

definition quoted_by :: "string \<Rightarrow> string \<times> string \<Rightarrow> bool" where
  "quoted_by value pair \<longleftrightarrow>
     is_prefix (fst pair) value \<and> is_suffix (snd pair) value \<and> length value \<ge> length (fst pair) + length (snd pair)"

function strip_quotes :: "string \<Rightarrow> string" where
  "strip_quotes v =
     (case find (quoted_by v) quote_pairs of
        None \<Rightarrow> v
      | Some pair \<Rightarrow>
          strip_quotes (trim_space (take (length v - length (fst pair) - length (snd pair)) (drop (length (fst pair)) v))))"
  by pat_completeness auto
termination
proof (relation "measure length", simp, goal_cases)
  case (1 v pair)
  then have "pair \<in> set quote_pairs" "quoted_by v pair" by (auto simp: find_Some_iff)
  then have p: "0 < length (fst pair)" "length (fst pair) + length (snd pair) \<le> length v"
    by (auto simp: quote_pairs_def quoted_by_def)
  have "length (trim_space (take (length v - length (fst pair) - length (snd pair)) (drop (length (fst pair)) v)))
      \<le> length v - length (fst pair) - length (snd pair)" by (rule order_trans [OF length_trim_space]) simp
  also have "\<dots> < length v" using p by linarith
  finally show ?case by simp
qed

declare strip_quotes.simps [simp del]

definition trim_suffix :: "string \<Rightarrow> string \<Rightarrow> string" where
  "trim_suffix s p = (if is_suffix p s then take (length s - length p) s else s)"

definition normalizeAuditEvidenceQuote :: "string \<Rightarrow> string" where
  "normalizeAuditEvidenceQuote value =
     trim_space (trim_suffix (trim_prefix (trim_suffix (trim_prefix
       (strip_quotes (trim_space (to_valid_utf8 value))) ellipsis) ellipsis) ''...'') ''...'')"

definition isASCIIText :: "string \<Rightarrow> bool" where
  "isASCIIText value \<longleftrightarrow> list_all (\<lambda>c. byte c < 128) value"

definition indexASCIIEqualFold :: "string \<Rightarrow> string \<Rightarrow> nat option" where
  "indexASCIIEqualFold haystack needle =
     (if needle = [] \<or> length needle > length haystack \<or> \<not> isASCIIText needle then None
      else find_index (map lower_char needle) (map lower_char haystack))"

text \<open>The place of a quote, and how it was found.\<close>

definition locate :: "string \<Rightarrow> string \<Rightarrow> (nat \<times> string) option" where
  "locate source quote =
     (case find_index quote source of
        Some i \<Rightarrow> Some (i, ''exact'')
      | None \<Rightarrow>
          if isASCIIText quote
          then map_option (\<lambda>i. (i, ''ascii_case_insensitive'')) (indexASCIIEqualFold source quote) else None)"

text \<open>The runes of a text as texts: what \<open>string(runes[i:j])\<close> gives for one rune.\<close>

function rune_texts :: "string \<Rightarrow> string list" where
  "rune_texts s = (if s = [] then [] else
     (if fst (decode_rune s) = None then replacement else take (snd (decode_rune s)) s) # rune_texts (drop (snd (decode_rune s)) s))"
  by pat_completeness auto
termination
  by (relation "measure length") (use decode_rune_width in \<open>fastforce simp: less_le_trans\<close>)+

declare rune_texts.simps [simp del]

definition cyberRuleContext :: "(string \<Rightarrow> string) \<Rightarrow> string \<Rightarrow> nat \<Rightarrow> nat \<Rightarrow> string" where
  "cyberRuleContext redact source start stop =
     (if stop < start \<or> stop > length source then []
      else
        (let beforeRunes = rune_count (take start source);
             matchRunes = rune_count (take (stop - start) (drop start source));
             allRunes = rune_texts source;
             left = beforeRunes - cyberRuleContextRunes;
             right = min (beforeRunes + matchRunes + cyberRuleContextRunes) (length allRunes);
             prefix = redact (concat (take (beforeRunes - left) (drop left allRunes)));
             matched = redact (concat (take matchRunes (drop beforeRunes allRunes)));
             suffix = redact (concat (take (right - (beforeRunes + matchRunes)) (drop (beforeRunes + matchRunes) allRunes)))
         in truncateString (trim_space ((if left > 0 then ellipsis else []) @ prefix @ '' '' @ [CHR 0xE2, CHR 0x9F, CHR 0xA6]
              @ matched @ [CHR 0xE2, CHR 0x9F, CHR 0xA7] @ '' '' @ suffix
              @ (if right < length allRunes then ellipsis else []))) 1600))"

definition invalid_evidence :: "(string \<Rightarrow> string) \<Rightarrow> string \<Rightarrow> audit_error" where
  "invalid_evidence sanitize message = newAuditModelCallError sanitize ''invalid_evidence'' 0 message None"

definition validateAuditDecisionEvidence ::
    "(string \<Rightarrow> string) \<Rightarrow> (string \<Rightarrow> string) \<Rightarrow> AuditDecision \<Rightarrow> string \<Rightarrow> audit_error + AuditDecision" where
  "validateAuditDecisionEvidence sanitize redact d source =
     (if ad_Decision d = DecisionAllow
      then Inr (d\<lparr>ad_evidenceSource := None, ad_Evidence := [], ad_EvidenceContext := [], ad_EvidenceVerified := False,
                  ad_EvidenceMatchMode := [], ad_EvidenceChunkIndex := 0, ad_EvidenceChunkCount := 0\<rparr>)
      else if ad_Decision d \<noteq> DecisionBlock \<and> ad_Decision d \<noteq> DecisionReview then Inr d
      else
        (let quote = normalizeAuditEvidenceQuote (ad_Evidence d) in
         if quote = []
         then Inl (invalid_evidence sanitize ''audit model returned block/review without an exact request evidence quote'')
         else if length quote > auditEvidenceVerifyMaxBytes \<or> rune_count quote > auditEvidenceVerifyMaxRunes
         then Inl (invalid_evidence sanitize
                (''audit model evidence exceeds the bounded verification limit ('' @ dec_int (int auditEvidenceVerifyMaxRunes)
                 @ '' characters / '' @ dec_int (int auditEvidenceVerifyMaxBytes) @ '' bytes)''))
         else (case locate source quote of
             None \<Rightarrow> Inl (invalid_evidence sanitize ''audit model block/review evidence was not found in the audited request'')
           | Some (start, mode) \<Rightarrow>
               (let stop = start + length quote in
                if stop > length source
                then Inl (invalid_evidence sanitize ''audit model evidence location is outside the audited request'')
                else Inr (d\<lparr>ad_OutputNormalizations := ad_OutputNormalizations d
                              @ (if length quote > auditModelEvidenceMaxBytes \<or> rune_count quote > auditModelEvidenceMaxRunes
                                 then [''long_evidence_fully_verified''] else []),
                            ad_evidenceSource := Some (start, stop),
                            ad_Evidence := redact (take (stop - start) (drop start source)),
                            ad_EvidenceContext := cyberRuleContext redact source start stop,
                            ad_EvidenceVerified := True, ad_EvidenceMatchMode := mode\<rparr>)))))"

section \<open>References in a request\<close>

definition auditInputContractVersion :: string where "auditInputContractVersion = ''risk_audit_request.v2''"

record auditReferenceSpan =
  rs_Start :: int
  rs_End :: int
  rs_Kind :: string

text \<open>The value at a place of the text, as a slice with Go's bounds; the code checks them first.\<close>

definition cut :: "int \<Rightarrow> int \<Rightarrow> 'a list \<Rightarrow> 'a list" where
  "cut a b s = take (nat (b - a)) (drop (nat a) s)"

definition history_task :: "json \<Rightarrow> bool" where
  "history_task v \<longleftrightarrow>
     (case v of
        JObj ms \<Rightarrow>
          json_str (lookup ms ''title'') \<noteq> [] \<and> lookup ms ''id'' \<noteq> None
          \<and> \<not> (lookup ms ''preview'' = None \<and> lookup ms ''updatedAt'' = None)
      | _ \<Rightarrow> False)"

text \<open>A complete array of tasks at the start of a text: how many bytes it takes.\<close>

definition task_history :: "string \<Rightarrow> nat option" where
  "task_history s =
     (if \<not> is_prefix ''['' s then None
      else (case parse_value json_depth s of
              Some (JArr tasks, rest) \<Rightarrow>
                if tasks \<noteq> [] \<and> list_all history_task tasks then Some (length s - length rest) else None
            | _ \<Rightarrow> None))"

definition auditReferenceSpans :: "(string \<Rightarrow> nat list) \<Rightarrow> string \<Rightarrow> auditReferenceSpan list" where
  "auditReferenceSpans history s =
     List.map_filter (\<lambda>start. map_option (\<lambda>n. \<lparr>rs_Start = int start, rs_End = int (start + n), rs_Kind = ''embedded_task_history''\<rparr>)
        (if start \<ge> length s then None else task_history (drop start s))) (history s)"

definition overlaps :: "int \<Rightarrow> int \<Rightarrow> auditReferenceSpan \<Rightarrow> bool" where
  "overlaps start stop r \<longleftrightarrow> start < rs_End r \<and> stop > rs_Start r"

text \<open>The next occurrence is looked for after the whole of the last one.\<close>

function outside_from :: "string \<Rightarrow> string \<Rightarrow> auditReferenceSpan list \<Rightarrow> nat \<Rightarrow> bool" where
  "outside_from s quote spans from_byte =
     (if quote = [] \<or> from_byte + length quote > length s then False
      else (case find_index quote (drop from_byte s) of
              None \<Rightarrow> False
            | Some relative \<Rightarrow>
                (let start = from_byte + relative; stop = start + length quote in
                 \<not> list_ex (overlaps (int start) (int stop)) spans \<or> outside_from s quote spans stop)))"
  by pat_completeness auto
termination
proof (relation "measure (\<lambda>(s, quote, spans, from_byte). length s - from_byte)", simp, goal_cases)
  case (1 s quote spans from_byte i start stop)
  then have "0 < length quote" "from_byte + length quote \<le> length s" "stop = from_byte + i + length quote" by auto
  then have "length s - stop < length s - from_byte" by arith
  then show ?case by simp
qed

declare outside_from.simps [simp del]

definition auditEvidenceOutsideSpans :: "string \<Rightarrow> string \<Rightarrow> auditReferenceSpan list \<Rightarrow> bool" where
  "auditEvidenceOutsideSpans s quote spans = outside_from s (normalizeAuditEvidenceQuote quote) spans 0"

record auditSourceScope =
  sc_Text :: string
  sc_References :: "auditReferenceSpan list"
  sc_Anchors :: "string list"

definition appendAuditAnchors :: "string list \<Rightarrow> string \<Rightarrow> string list" where
  "appendAuditAnchors anchors0 s =
     (let t = trim_space s in
      if t = [] then anchors0
      else
        (let anchors = anchors0 @ (if length t \<le> 2048 then [t]
               else [to_valid_utf8 (take 1024 t), to_valid_utf8 (drop (length t - 1024) t)])
         in if length anchors > 8 then take 2 anchors @ drop (length anchors - 6) anchors else anchors))"

fun insert_span :: "auditReferenceSpan \<Rightarrow> auditReferenceSpan list \<Rightarrow> auditReferenceSpan list" where
  "insert_span r [] = [r]"
| "insert_span r (x # xs) = (if rs_Start r \<le> rs_Start x then r # x # xs else x # insert_span r xs)"

text \<open>One span against the merged ones, the last of them first.\<close>

definition merge_span :: "int \<Rightarrow> auditReferenceSpan list \<Rightarrow> auditReferenceSpan \<Rightarrow> auditReferenceSpan list" where
  "merge_span n merged r =
     (if rs_Start r < 0 \<or> rs_End r > n \<or> rs_Start r \<ge> rs_End r then merged
      else (case merged of
              l # before \<Rightarrow>
                if rs_Start r \<le> rs_End l
                then (if rs_End r > rs_End l then l\<lparr>rs_End := rs_End r\<rparr> # before else merged)
                else r # merged
            | [] \<Rightarrow> [r]))"

definition merge_spans :: "int \<Rightarrow> auditReferenceSpan list \<Rightarrow> auditReferenceSpan list" where
  "merge_spans n spans = rev (foldl (merge_span n) [] (foldr insert_span spans []))"

fun add_anchors :: "string \<Rightarrow> int \<Rightarrow> auditReferenceSpan list \<Rightarrow> string list \<Rightarrow> string list" where
  "add_anchors s start [] anchors =
     (if start < int (length s) then appendAuditAnchors anchors (drop (nat start) s) else anchors)"
| "add_anchors s start (r # rs) anchors =
     add_anchors s (rs_End r) rs
       (if rs_Start r > start then appendAuditAnchors anchors (cut start (rs_Start r) s) else anchors)"

definition makeAuditSourceScopeWithReferences ::
    "(string \<Rightarrow> nat list) \<Rightarrow> string \<Rightarrow> auditReferenceSpan list \<Rightarrow> auditSourceScope" where
  "makeAuditSourceScopeWithReferences history s extra =
     (let merged = merge_spans (int (length s)) (auditReferenceSpans history s @ extra) in
      \<lparr>sc_Text = s, sc_References = merged, sc_Anchors = (if merged = [] then [] else add_anchors s 0 merged [])\<rparr>)"

definition makeAuditSourceScope :: "(string \<Rightarrow> nat list) \<Rightarrow> string \<Rightarrow> auditSourceScope" where
  "makeAuditSourceScope history s = makeAuditSourceScopeWithReferences history s []"

text \<open>The scope of a chunk that was cut from the request at an offset.\<close>

definition chunk_references :: "auditSourceScope \<Rightarrow> int \<Rightarrow> int \<Rightarrow> auditReferenceSpan list" where
  "chunk_references parent offset n =
     filter (\<lambda>r. rs_Start r < rs_End r)
       (map (\<lambda>r. r\<lparr>rs_Start := max 0 (rs_Start r - offset), rs_End := min n (rs_End r - offset)\<rparr>) (sc_References parent))"

definition chunk_offset :: "string \<Rightarrow> string \<Rightarrow> int \<Rightarrow> bool" where
  "chunk_offset s chunk start \<longleftrightarrow>
     start \<ge> 0 \<and> start \<le> int (length s) - int (length chunk) \<and> cut start (start + int (length chunk)) s = chunk"

definition chunk_scope :: "(string \<Rightarrow> nat list) \<Rightarrow> auditSourceScope \<Rightarrow> string \<Rightarrow> int option \<Rightarrow> auditSourceScope" where
  "chunk_scope history parent chunk offset =
     (case offset of
        None \<Rightarrow> (makeAuditSourceScope history chunk)\<lparr>sc_Anchors := sc_Anchors parent\<rparr>
      | Some off \<Rightarrow> \<lparr>sc_Text = chunk, sc_References = chunk_references parent off (int (length chunk)),
                      sc_Anchors = sc_Anchors parent\<rparr>)"

text \<open>Without offsets, an unambiguous occurrence after the last one is taken.\<close>

definition sought_offset :: "string \<Rightarrow> string \<Rightarrow> nat \<Rightarrow> nat option" where
  "sought_offset s chunk from_byte =
     (if from_byte \<le> length s
      then (case find_index chunk (drop from_byte s) of
              None \<Rightarrow> None
            | Some relative \<Rightarrow>
                if contains (drop (from_byte + relative + 1) s) chunk then None else Some (from_byte + relative))
      else None)"

fun seek_scopes :: "(string \<Rightarrow> nat list) \<Rightarrow> auditSourceScope \<Rightarrow> nat \<Rightarrow> string list \<Rightarrow> auditSourceScope list" where
  "seek_scopes history parent from_byte [] = []"
| "seek_scopes history parent from_byte (chunk # chunks) =
     (let offset = sought_offset (sc_Text parent) chunk from_byte in
      chunk_scope history parent chunk (map_option int offset)
        # seek_scopes history parent (case offset of None \<Rightarrow> from_byte | Some o' \<Rightarrow> o' + 1) chunks)"

definition auditChunkSourceScopes ::
    "(string \<Rightarrow> nat list) \<Rightarrow> auditSourceScope \<Rightarrow> string list \<Rightarrow> int list \<Rightarrow> auditSourceScope list" where
  "auditChunkSourceScopes history parent chunks offsets =
     (if length offsets = length chunks
      then map2 (\<lambda>chunk start. chunk_scope history parent chunk
                   (if chunk_offset (sc_Text parent) chunk start then Some start else None)) chunks offsets
      else seek_scopes history parent 0 chunks)"

definition auditCurrentActionLocated :: "auditSourceScope \<Rightarrow> string \<Rightarrow> bool" where
  "auditCurrentActionLocated scope quote \<longleftrightarrow>
     auditEvidenceOutsideSpans (sc_Text scope) quote (sc_References scope)
     \<or> list_ex (\<lambda>anchor. contains anchor quote \<and> trim_space quote \<noteq> []) (sc_Anchors scope)"

section \<open>The document the model is given\<close>

definition span_text :: "auditReferenceSpan \<Rightarrow> string" where
  "span_text r = ''{'' @ join '','' (map member_text
     [(''start_byte'', dec_int (rs_Start r)), (''end_byte'', dec_int (rs_End r)), (''kind'', json_quote (rs_Kind r))]) @ ''}''"

definition document_text :: "string list \<Rightarrow> string \<Rightarrow> auditReferenceSpan list \<Rightarrow> string" where
  "document_text anchors s spans =
     ''{'' @ join '','' (map member_text
       ((if anchors = [] then [] else [(''request_context'', ''['' @ join '','' (map json_quote anchors) @ '']'')])
        @ [(''schema'', json_quote auditInputContractVersion), (''request_text'', json_quote s)]
        @ (if spans = [] then [] else [(''reference_spans'', ''['' @ join '','' (map span_text spans) @ '']'')]))) @ ''}''"

definition encodeAuditRequestDocument :: "(string \<Rightarrow> nat list) \<Rightarrow> string \<Rightarrow> string" where
  "encodeAuditRequestDocument history s = document_text [] s (auditReferenceSpans history s)"

definition auditScopeFromContext :: "(string \<Rightarrow> nat list) \<Rightarrow> auditSourceScope option \<Rightarrow> string \<Rightarrow> auditSourceScope" where
  "auditScopeFromContext history held_scope source =
     (case held_scope of
        Some scope \<Rightarrow> if sc_Text scope = source then scope else makeAuditSourceScope history source
      | None \<Rightarrow> makeAuditSourceScope history source)"

definition shift_span :: "int \<Rightarrow> auditReferenceSpan \<Rightarrow> auditReferenceSpan" where
  "shift_span k r = r\<lparr>rs_Start := rs_Start r + k, rs_End := rs_End r + k\<rparr>"

definition encodeAuditScopedDocument :: "auditSourceScope \<Rightarrow> string \<Rightarrow> string \<Rightarrow> string" where
  "encodeAuditScopedDocument scope s source =
     document_text (sc_Anchors scope) s
       (map (shift_span (case find_index source s of Some i \<Rightarrow> int i | None \<Rightarrow> 0)) (sc_References scope))"

section \<open>The verdict of a semantic verification\<close>

definition invalid_semantics :: "(string \<Rightarrow> string) \<Rightarrow> string \<Rightarrow> audit_error + AuditDecision" where
  "invalid_semantics sanitize message = Inl (newAuditModelCallError sanitize ''invalid_semantic_evidence'' 0 message None)"

definition validateAuditSemanticVerdictWithScope ::
    "(string \<Rightarrow> string) \<Rightarrow> (string \<Rightarrow> string) \<Rightarrow> AuditDecision \<Rightarrow> auditSourceScope \<Rightarrow> rat \<Rightarrow> audit_error + AuditDecision" where
  "validateAuditSemanticVerdictWithScope sanitize redact d0 scope threshold =
     (let quote = normalizeAuditEvidenceQuote (ad_RequestEvidence d0);
          d = d0\<lparr>ad_RequestEvidence := quote, ad_EvidenceRelation := to_lower (trim_space (ad_EvidenceRelation d0)),
                 ad_HarmType := to_lower (trim_space (ad_HarmType d0))\<rparr>;
          relation = ad_EvidenceRelation d; harm = ad_HarmType d;
          invalid = invalid_semantics sanitize;
          valid = (\<lambda>d. Inr (d\<lparr>ad_RequestEvidence := redact quote\<rparr>))
      in if length quote > auditModelEvidenceMaxBytes \<or> \<not> auditCurrentActionLocated scope quote
         then invalid ''semantic verdict lacks an exact current-request quote outside embedded reference history''
         else if ad_Decision d = DecisionAllow
         then (if harm \<noteq> ''none'' \<or> (relation \<noteq> ''no_harm'' \<and> relation \<noteq> ''reference_only'')
               then invalid ''semantic allow contradicts its harm type or evidence relation''
               else if \<not> auditConfidenceMeets d (max threshold (9 / 10))
               then invalid ''semantic allow confidence is below the verification threshold''
               else valid (d\<lparr>ad_RiskCode := [], ad_Category := ''benign_verified_intent''\<rparr>))
         else if ad_Decision d = DecisionBlock
         then (if harm \<notin> set semanticHarmTypes \<or> (relation \<noteq> ''direct_request'' \<and> relation \<noteq> ''adopted_reference'')
                  \<or> \<not> ad_EvidenceVerified d
               then invalid ''semantic block lacks a supported harmful outcome and active/adopted request relation''
               else if relation = ''direct_request''
                  \<and> \<not> auditEvidenceOutsideSpans (sc_Text scope) (ad_Evidence d) (sc_References scope)
               then invalid ''historical evidence cannot be labelled a direct current request''
               else if trim_space (ad_RiskCode d) = [] then invalid ''semantic block is missing a risk code''
               else valid d)
         else if ad_Decision d = DecisionReview
         then (if relation \<noteq> ''uncertain'' \<or> harm \<noteq> ''uncertain'' \<or> \<not> ad_EvidenceVerified d
               then invalid ''semantic review must identify a genuinely unresolved request, not assert proven harm''
               else valid (d\<lparr>ad_RiskCode := ''AUDIT_REVIEW_REQUIRED'', ad_Category := ''audit_uncertainty''\<rparr>))
         else invalid ''semantic verification returned an unknown decision'')"


section \<open>What a located quote is\<close>

lemma find_index_place: "find_index p s = Some i \<Longrightarrow> take (length p) (drop i s) = p \<and> i + length p \<le> length s"
proof (induction s arbitrary: i)
  case Nil
  then show ?case by (cases p) auto
next
  case (Cons c s)
  show ?case
  proof (cases "is_prefix p (c # s)")
    case True
    with Cons.prems have "i = 0" by simp
    moreover obtain t where t: "c # s = p @ t" using True by (auto simp: is_prefix_iff)
    from arg_cong [OF t, of length] have "length p \<le> length (c # s)" by simp
    ultimately show ?thesis using t by simp
  next
    case False
    with Cons.prems obtain j where "find_index p s = Some j" "i = Suc j" by (cases "find_index p s") auto
    with Cons.IH show ?thesis by auto
  qed
qed

lemma locate_place:
  assumes "locate source quote = Some (start, mode)"
  shows "start + length quote \<le> length source
    \<and> map lower_char (take (length quote) (drop start source)) = map lower_char quote
    \<and> (mode = ''exact'' \<longrightarrow> take (length quote) (drop start source) = quote)"
proof (cases "find_index quote source")
  case (Some i)
  with assms find_index_place [OF Some] show ?thesis by (auto simp: locate_def)
next
  case None
  with assms obtain i where "find_index (map lower_char quote) (map lower_char source) = Some i" "start = i"
      "mode = ''ascii_case_insensitive''"
    by (auto simp: locate_def indexASCIIEqualFold_def split: if_splits)
  with find_index_place show ?thesis by (fastforce simp: drop_map take_map)
qed

definition quoted_from :: "(string \<Rightarrow> string) \<Rightarrow> string \<Rightarrow> AuditDecision \<Rightarrow> bool" where
  "quoted_from redact source d \<longleftrightarrow>
     (\<exists>start stop. ad_evidenceSource d = Some (start, stop) \<and> start < stop \<and> stop \<le> length source
        \<and> stop - start \<le> auditEvidenceVerifyMaxBytes
        \<and> ad_Evidence d = redact (take (stop - start) (drop start source)) \<and> ad_EvidenceVerified d)"

lemma validated_quote:
  assumes "validateAuditDecisionEvidence sanitize redact d source = Inr d'"
  shows "ad_Decision d' = ad_Decision d" and "ad_Decision d \<in> {DecisionBlock, DecisionReview} \<Longrightarrow> quoted_from redact source d'"
    and "ad_Decision d = DecisionAllow \<Longrightarrow> ad_Evidence d' = [] \<and> ad_evidenceSource d' = None \<and> \<not> ad_EvidenceVerified d'"
proof -
  show "ad_Decision d' = ad_Decision d"
    using assms by (auto simp: validateAuditDecisionEvidence_def Let_def split: if_splits option.splits prod.splits)
  show "ad_Evidence d' = [] \<and> ad_evidenceSource d' = None \<and> \<not> ad_EvidenceVerified d'" if "ad_Decision d = DecisionAllow"
    using assms that by (auto simp: validateAuditDecisionEvidence_def)
  assume "ad_Decision d \<in> {DecisionBlock, DecisionReview}"
  then have n: "ad_Decision d \<noteq> DecisionAllow" by auto
  let ?q = "normalizeAuditEvidenceQuote (ad_Evidence d)"
  have "ad_Decision d = DecisionBlock \<or> ad_Decision d = DecisionReview" using \<open>ad_Decision d \<in> _\<close> by simp
  then have w: "\<not> (ad_Decision d \<noteq> DecisionBlock \<and> ad_Decision d \<noteq> DecisionReview)" by blast
  have q: "?q \<noteq> []" "\<not> (length ?q > auditEvidenceVerifyMaxBytes \<or> rune_count ?q > auditEvidenceVerifyMaxRunes)"
    using assms by (auto simp: validateAuditDecisionEvidence_def Let_def if_not_P [OF n] if_not_P [OF w] split: if_splits)
  have "locate source ?q \<noteq> None"
    using assms unfolding validateAuditDecisionEvidence_def if_not_P [OF n] if_not_P [OF w] Let_def if_not_P [OF q(1)]
      if_not_P [OF q(2)] by (auto split: option.splits)
  then obtain start mode where l: "locate source ?q = Some (start, mode)" by auto
  note p = locate_place [OF l]
  have d: "ad_evidenceSource d' = Some (start, start + length ?q)" "ad_EvidenceVerified d'"
      "ad_Evidence d' = redact (take (start + length ?q - start) (drop start source))"
    using assms p unfolding validateAuditDecisionEvidence_def if_not_P [OF n] if_not_P [OF w] Let_def if_not_P [OF q(1)]
      if_not_P [OF q(2)] l by (auto split: if_splits)
  show "quoted_from redact source d'"
    unfolding quoted_from_def using d p q
    by (intro exI [of _ start] exI [of _ "start + length ?q"]) simp
qed

section \<open>Marked bytes\<close>

definition covers :: "auditReferenceSpan \<Rightarrow> int \<Rightarrow> bool" where
  "covers r x \<longleftrightarrow> rs_Start r \<le> x \<and> x < rs_End r"

definition marked :: "auditReferenceSpan list \<Rightarrow> int \<Rightarrow> bool" where
  "marked rs x \<longleftrightarrow> (\<exists>r \<in> set rs. covers r x)"

definition span_valid :: "int \<Rightarrow> auditReferenceSpan \<Rightarrow> bool" where
  "span_valid n r \<longleftrightarrow> 0 \<le> rs_Start r \<and> rs_Start r < rs_End r \<and> rs_End r \<le> n"

text \<open>Merged spans are valid, in order and apart.\<close>

fun apart :: "int \<Rightarrow> auditReferenceSpan list \<Rightarrow> bool" where
  "apart n [] = True"
| "apart n (r # rs) = (span_valid n r \<and> (\<forall>x \<in> set rs. rs_End x < rs_Start r) \<and> apart n rs)"

lemma set_insert_span [simp]: "set (insert_span r rs) = insert r (set rs)"
  by (induction rs) auto

lemma sorted_insert_span: "sorted (map rs_Start rs) \<Longrightarrow> sorted (map rs_Start (insert_span r rs))"
  by (induction rs) auto

lemma sorted_spans: "sorted (map rs_Start (foldr insert_span spans [])) \<and> set (foldr insert_span spans []) = set spans"
  by (induction spans) (auto intro: sorted_insert_span)

lemma merge_step:
  assumes "apart n merged" and "\<forall>x \<in> set merged. rs_Start x \<le> rs_Start r"
  shows "apart n (merge_span n merged r) \<and> (marked (merge_span n merged r) x \<longleftrightarrow> marked merged x \<or> (span_valid n r \<and> covers r x))
    \<and> (\<forall>x \<in> set (merge_span n merged r). rs_Start x \<le> rs_Start r)"
proof (cases "span_valid n r")
  case False
  then have "merge_span n merged r = merged" by (auto simp: merge_span_def span_valid_def)
  with assms False show ?thesis by simp
next
  case True
  then have v: "\<not> (rs_Start r < 0 \<or> rs_End r > n \<or> rs_Start r \<ge> rs_End r)" by (auto simp: span_valid_def)
  show ?thesis
  proof (cases merged)
    case Nil
    with True v show ?thesis by (simp add: merge_span_def marked_def)
  next
    case (Cons l before)
    then have l: "span_valid n l" "apart n before" "\<forall>x \<in> set before. rs_End x < rs_Start l" "rs_Start l \<le> rs_Start r"
      using assms by auto
    consider (inside) "rs_Start r \<le> rs_End l" "rs_End r \<le> rs_End l" | (extends) "rs_Start r \<le> rs_End l" "rs_End l < rs_End r"
      | (later) "rs_End l < rs_Start r" by linarith
    then show ?thesis
    proof cases
      case inside
      with v Cons have "merge_span n merged r = merged" by (simp add: merge_span_def)
      moreover have "covers r x \<Longrightarrow> covers l x" using inside l(4) by (simp add: covers_def)
      ultimately show ?thesis using assms Cons by (auto simp: marked_def)
    next
      case extends
      with v Cons have m: "merge_span n merged r = l\<lparr>rs_End := rs_End r\<rparr> # before" by (simp add: merge_span_def)
      have "covers (l\<lparr>rs_End := rs_End r\<rparr>) x \<longleftrightarrow> covers l x \<or> covers r x" using extends l(4) by (auto simp: covers_def)
      moreover have "span_valid n (l\<lparr>rs_End := rs_End r\<rparr>)" using True l(1,4) by (auto simp: span_valid_def)
      ultimately show ?thesis unfolding m using True l assms Cons by (auto simp: marked_def)
    next
      case later
      with v Cons have m: "merge_span n merged r = r # merged" by (simp add: merge_span_def)
      have "rs_End y < rs_Start r" if "y \<in> set merged" for y using that l Cons later by auto
      then show ?thesis unfolding m using True assms by (auto simp: marked_def)
    qed
  qed
qed

lemma merge_all:
  assumes "sorted (map rs_Start spans)" and "apart n merged" and "\<forall>x \<in> set merged. \<forall>r \<in> set spans. rs_Start x \<le> rs_Start r"
  shows "apart n (foldl (merge_span n) merged spans)
    \<and> (\<forall>x. marked (foldl (merge_span n) merged spans) x \<longleftrightarrow> marked merged x \<or> (\<exists>r \<in> set spans. span_valid n r \<and> covers r x))"
  using assms
proof (induction spans arbitrary: merged)
  case (Cons r spans)
  have le: "\<forall>x \<in> set merged. rs_Start x \<le> rs_Start r" using Cons.prems(3) by simp
  note step = merge_step [OF Cons.prems(2) le]
  have "\<forall>x \<in> set (merge_span n merged r). \<forall>r' \<in> set spans. rs_Start x \<le> rs_Start r'"
    using step Cons.prems(1) by fastforce
  with Cons.IH [OF _ step [THEN conjunct1]] Cons.prems(1) have
    "apart n (foldl (merge_span n) (merge_span n merged r) spans)
     \<and> (\<forall>x. marked (foldl (merge_span n) (merge_span n merged r) spans) x
          \<longleftrightarrow> marked (merge_span n merged r) x \<or> (\<exists>r \<in> set spans. span_valid n r \<and> covers r x))" by simp
  then show ?case using step by auto
qed simp

lemma merge_spans_apart: "apart n (rev (merge_spans n spans))"
  and marked_merge: "marked (merge_spans n spans) x \<longleftrightarrow> (\<exists>r \<in> set spans. span_valid n r \<and> covers r x)"
  using merge_all [of "foldr insert_span spans []" n "[]"] sorted_spans [of spans]
  by (auto simp: merge_spans_def marked_def)

lemma marked_chunk:
  assumes "0 \<le> x" and "x < n"
  shows "marked (chunk_references parent offset n) x \<longleftrightarrow> marked (sc_References parent) (offset + x)"
proof -
  have c: "max 0 (rs_Start r - offset) \<le> x \<and> x < min n (rs_End r - offset) \<longleftrightarrow> covers r (offset + x)" for r :: auditReferenceSpan
    using assms by (auto simp: covers_def)
  have "(\<exists>r' \<in> set (chunk_references parent offset n). covers r' x)
      \<longleftrightarrow> (\<exists>r \<in> set (sc_References parent). max 0 (rs_Start r - offset) \<le> x \<and> x < min n (rs_End r - offset))"
    by (force simp: chunk_references_def covers_def)
  then show ?thesis unfolding marked_def c .
qed

lemma outside_place:
  assumes "outside_from s quote spans from_byte"
  shows "\<exists>start. start + length quote \<le> length s \<and> take (length quote) (drop start s) = quote
    \<and> (\<forall>x. start \<le> x \<and> x < start + length quote \<longrightarrow> \<not> marked spans (int x))"
  using assms
proof (induction s quote spans from_byte rule: outside_from.induct)
  case (1 s quote spans from_byte)
  from 1(2) obtain relative where r: "quote \<noteq> []" "find_index quote (drop from_byte s) = Some relative"
      "\<not> list_ex (overlaps (int (from_byte + relative)) (int (from_byte + relative + length quote))) spans
       \<or> outside_from s quote spans (from_byte + relative + length quote)" "\<not> length s < from_byte + length quote"
    by (subst (asm) outside_from.simps) (auto simp: Let_def split: if_splits option.splits)
  from r(3) show ?case
  proof
    assume n: "\<not> list_ex (overlaps (int (from_byte + relative)) (int (from_byte + relative + length quote))) spans"
    from find_index_place [OF r(2)] have "take (length quote) (drop (from_byte + relative) s) = quote"
        "from_byte + relative + length quote \<le> length s" using r(1,4) by (auto simp: add.commute)
    with n show ?thesis
      by (intro exI [of _ "from_byte + relative"]) (fastforce simp: list_ex_iff overlaps_def marked_def covers_def)
  next
    assume "outside_from s quote spans (from_byte + relative + length quote)"
    with 1(1) [OF _ r(2) refl refl] r show ?thesis by simp
  qed
qed


section \<open>What the model reads\<close>

text \<open>The document as a value: what a reader of the JSON finds.\<close>

definition span_value :: "auditReferenceSpan \<Rightarrow> json" where
  "span_value r = JObj [(''start_byte'', JNum (dec_int (rs_Start r))), (''end_byte'', JNum (dec_int (rs_End r))),
     (''kind'', JStr (coerced (rs_Kind r)))]"

definition document_value :: "string list \<Rightarrow> string \<Rightarrow> auditReferenceSpan list \<Rightarrow> (string \<times> json) list" where
  "document_value anchors s spans =
     (if anchors = [] then [] else [(''request_context'', JArr (map (\<lambda>a. JStr (coerced a)) anchors))])
     @ [(''schema'', JStr auditInputContractVersion), (''request_text'', JStr (coerced s))]
     @ (if spans = [] then [] else [(''reference_spans'', JArr (map span_value spans))])"

lemma plain_keys:
  "valid_utf8 ''start_byte''" "valid_utf8 ''end_byte''" "valid_utf8 ''kind''" "valid_utf8 ''request_context''"
  "valid_utf8 ''schema''" "valid_utf8 ''request_text''" "valid_utf8 ''reference_spans''" "valid_utf8 auditInputContractVersion"
  by code_simp+

lemma renders_span: "renders 1 (span_text r) (span_value r)"
  using renders_object [of 0
      "[(''start_byte'', dec_int (rs_Start r)), (''end_byte'', dec_int (rs_End r)), (''kind'', json_quote (rs_Kind r))]"
      "[(''start_byte'', JNum (dec_int (rs_Start r))), (''end_byte'', JNum (dec_int (rs_End r))), (''kind'', JStr (coerced (rs_Kind r)))]"]
  by (simp add: span_text_def span_value_def plain_keys renders_int renders_text)

lemma renders_texts: "list_all2 (renders 0) (map json_quote ss) (map (\<lambda>a. JStr (coerced a)) ss)"
  by (induction ss) (simp_all add: renders_text)

lemma renders_spans: "list_all2 (renders 1) (map span_text rs) (map span_value rs)"
  using renders_span by (induction rs) simp_all

lemma renders_document: "renders 3 (document_text anchors s spans) (JObj (document_value anchors s spans))"
proof -
  have "list_all2 (\<lambda>m (k, v). fst m = k \<and> valid_utf8 k \<and> renders 2 (snd m) v)
     ((if anchors = [] then [] else [(''request_context'', ''['' @ join '','' (map json_quote anchors) @ '']'')])
        @ [(''schema'', json_quote auditInputContractVersion), (''request_text'', json_quote s)]
        @ (if spans = [] then [] else [(''reference_spans'', ''['' @ join '','' (map span_text spans) @ '']'')]))
     (document_value anchors s spans)"
    using renders_array [OF renders_texts, of anchors] renders_array [OF renders_spans, of spans]
      renders_text [of s] renders_text [of auditInputContractVersion] plain_keys
    by (simp add: document_value_def coerced_valid renders_mono)
  from renders_object [OF this] show ?thesis by (simp add: document_text_def document_value_def)
qed

lemma document_read: "json_decode_first (document_text anchors s spans) = Some (JObj (document_value anchors s spans))"
  using renders_read [OF renders_document] by (simp add: json_decode_first_def json_depth_def)

end
