(* ===== verification/Audit_Reply.thy ===== *)
theory Audit_Reply
  imports Audit_Call Audit_Evidence
begin

text \<open>
  From the HTTP answer of an audit model to a raw decision: the completion in the body
  (\<open>extractAuditCompletionResponse\<close> of \<open>audit_output_contract.go\<close>) and the second half of
  \<open>callModelRawWithEvidenceSource\<close> of \<open>audit.go\<close>, with the diagnostics it records.
\<close>

section \<open>The completion\<close>

record auditCompletionResponse =
  co_Content :: string
  co_FinishReason :: string
  co_ResponseID :: string
  co_Source :: string
  co_ContentBytes :: int
  co_Preview :: string

definition sanitizeAuditResponsePreview :: "(string \<Rightarrow> string) \<Rightarrow> string \<Rightarrow> string" where
  "sanitizeAuditResponsePreview sanitize value = truncateString (sanitizeAuditDiagnostic sanitize value) auditResponsePreviewLimit"

function flattenAuditResponseText :: "json \<Rightarrow> string" where
  "flattenAuditResponseText JNull = []"
| "flattenAuditResponseText (JStr s) = s"
| "flattenAuditResponseText (JArr vs) =
     join [CHR 0x0A] (filter (\<lambda>t. t \<noteq> []) (map (\<lambda>v. trim_space (flattenAuditResponseText v)) vs))"
| "flattenAuditResponseText (JObj ms) =
     (if lookup ms ''decision'' \<noteq> None then marshal (JObj ms)
      else join [CHR 0x0A] (filter (\<lambda>t. t \<noteq> [])
             (map (\<lambda>k. case lookup ms k of None \<Rightarrow> [] | Some v \<Rightarrow> trim_space (flattenAuditResponseText v))
                [''text'', ''output_text'', ''content'', ''arguments''])))"
| "flattenAuditResponseText (JBool b) = []"
| "flattenAuditResponseText (JNum l) = []"
  by pat_completeness auto
termination by (relation "measure size") (auto simp: size_item dest: size_lookup)

definition flatten_member :: "(string \<times> json) list \<Rightarrow> string \<Rightarrow> string" where
  "flatten_member ms k = (case lookup ms k of None \<Rightarrow> [] | Some v \<Rightarrow> trim_space (flattenAuditResponseText v))"

definition auditStringValue :: "json option \<Rightarrow> string" where
  "auditStringValue value =
     (case value of None \<Rightarrow> [] | Some JNull \<Rightarrow> [] | Some (JStr s) \<Rightarrow> trim_space s | Some v \<Rightarrow> trim_space (sprint v))"

fun unique_from :: "string list \<Rightarrow> string list \<Rightarrow> string list" where
  "unique_from seen [] = []"
| "unique_from seen (v # vs) =
     (let value = trim_space v in
      if value = [] \<or> value \<in> set seen then unique_from seen vs else value # unique_from (value # seen) vs)"

definition uniqueStrings :: "string list \<Rightarrow> string list" where
  "uniqueStrings values = unique_from [] values"

definition completion :: "(string \<Rightarrow> string) \<Rightarrow> string \<Rightarrow> string \<Rightarrow> string \<Rightarrow> string \<Rightarrow> auditCompletionResponse" where
  "completion sanitize content finish responseID source =
     \<lparr>co_Content = content, co_FinishReason = finish, co_ResponseID = responseID, co_Source = source,
      co_ContentBytes = int (length content), co_Preview = sanitizeAuditResponsePreview sanitize content\<rparr>"

text \<open>\<open>appendCandidate\<close>: a source and its text, when there is any.\<close>

definition reply_evidence :: "string \<Rightarrow> (string \<times> json) list \<Rightarrow> string \<Rightarrow> (string \<times> string) list" where
  "reply_evidence source ms k = (if flatten_member ms k = [] then [] else [(source, flatten_member ms k)])"

definition tool_candidates :: "(string \<times> json) list \<Rightarrow> (string \<times> string) list" where
  "tool_candidates message =
     (case lookup message ''tool_calls'' of
        Some (JArr calls) \<Rightarrow>
          concat (map (\<lambda>(i, call). case call of
              JObj ms \<Rightarrow>
                (case lookup ms ''function'' of
                   Some (JObj f) \<Rightarrow>
                     reply_evidence (''choices[0].message.tool_calls['' @ dec_int (int i) @ ''].function.arguments'') f ''arguments''
                 | _ \<Rightarrow> [])
            | _ \<Rightarrow> []) (enumerate 0 calls))
      | _ \<Rightarrow> [])"

text \<open>The one choice: a final answer ends the search, otherwise there are candidates.\<close>

definition choice_message :: "(string \<times> json) list \<Rightarrow> string + (string \<times> string) list" where
  "choice_message choice =
     (let after = reply_evidence ''choices[0].text'' choice ''text'' in
      case lookup choice ''message'' of
        Some (JObj message) \<Rightarrow>
          if flatten_member message ''content'' \<noteq> [] then Inl (flatten_member message ''content'')
          else Inr (reply_evidence ''choices[0].message.reasoning_content'' message ''reasoning_content''
                    @ reply_evidence ''choices[0].message.reasoning'' message ''reasoning''
                    @ tool_candidates message @ after)
      | _ \<Rightarrow> Inr after)"

definition from_candidates ::
    "(string \<Rightarrow> string) \<Rightarrow> string \<Rightarrow> (string \<times> json) list \<Rightarrow> string \<Rightarrow> (string \<times> string) list \<Rightarrow>
     string + auditCompletionResponse" where
  "from_candidates sanitize body root_object finish found =
     (let responseID = json_str (lookup root_object ''id'');
          candidates = found @ reply_evidence ''output_text'' root_object ''output_text''
            @ reply_evidence ''output'' root_object ''output'' @ reply_evidence ''content'' root_object ''content''
      in if candidates = []
         then (let content = trim_space (to_valid_utf8 body) in
               if content = [] then Inl ''audit model response content is empty''
               else Inr (completion sanitize content finish responseID ''response_body_fallback''))
         else Inr (completion sanitize (join [CHR 0x0A] (map snd candidates)) finish responseID
                     (join '','' (uniqueStrings (map fst candidates)))))"

definition extractAuditCompletionResponse :: "(string \<Rightarrow> string) \<Rightarrow> string \<Rightarrow> string + auditCompletionResponse" where
  "extractAuditCompletionResponse sanitize body =
     (case decodeAuditJSON sanitize body of
        Inl e \<Rightarrow> Inl (''decode audit model response: '' @ error_text e)
      | Inr (JObj members) \<Rightarrow>
          if lookup members ''decision'' \<noteq> None
          then Inr (completion sanitize (trim_space (to_valid_utf8 body)) [] [] ''direct_body'')
          else
            (case lookup members ''choices'' of
               Some (JArr (choice # others)) \<Rightarrow>
                 if others \<noteq> [] then Inl ''audit model returned multiple completion choices''
                 else (case choice of
                         JObj ms \<Rightarrow>
                           (let finish = auditStringValue (lookup ms ''finish_reason'') in
                            case choice_message ms of
                              Inl final \<Rightarrow>
                                Inr (completion sanitize final finish (json_str (lookup members ''id''))
                                       ''choices[0].message.content'')
                            | Inr found \<Rightarrow> from_candidates sanitize body members finish found)
                       | _ \<Rightarrow> from_candidates sanitize body members [] [])
             | _ \<Rightarrow> from_candidates sanitize body members [] [])
      | Inr (JStr s) \<Rightarrow>
          if trim_space s \<noteq> [] then Inr (completion sanitize (trim_space s) [] [] ''response_body_string'')
          else Inl ''audit model response is not an object''
      | Inr _ \<Rightarrow> Inl ''audit model response is not an object'')"

definition isAuditFinishReasonTruncated :: "string \<Rightarrow> bool" where
  "isAuditFinishReasonTruncated value \<longleftrightarrow>
     to_lower (trim_space value) \<in> {''length'', ''max_tokens'', ''max_output_tokens'', ''token_limit''}"

definition looksLikeStructuredOutputUnsupported :: "string \<Rightarrow> bool" where
  "looksLikeStructuredOutputUnsupported value =
     (let lower = to_lower value in
      list_ex (contains lower) [''response_format'', ''json_schema'', ''structured_outputs'', ''guided_json'', ''guided decoding'']
      \<and> list_ex (contains lower) [''unsupported'', ''not supported'', ''unknown'', ''unrecognized'', ''extra_forbidden'',
            ''not permitted'', ''invalid'', ''unexpected'', ''not allowed''])"

definition auditInvalidModelOutputError :: "(string \<Rightarrow> string) \<Rightarrow> auditCompletionResponse \<Rightarrow> audit_error" where
  "auditInvalidModelOutputError sanitize response =
     (if isAuditFinishReasonTruncated (co_FinishReason response)
      then newAuditModelCallError sanitize ''output_truncated'' 0
             ''audit model output was truncated before a complete policy JSON object'' None
      else newAuditModelCallError sanitize ''invalid_json'' 0
             ''audit model output did not contain a valid policy JSON object'' None)"

section \<open>Diagnostics of an attempt\<close>

record auditOutputDiagnostics =
  od_Mode :: string
  od_MaxTokens :: int
  od_FinishReason :: string
  od_ResponseContentBytes :: int
  od_ResponseSource :: string
  od_ResponsePreview :: string
  od_ResponseID :: string
  od_Failed :: bool

record auditOutputAttemptState =
  oa_latest :: auditOutputDiagnostics
  oa_lastFailure :: "auditOutputDiagnostics option"

definition bounded_diagnostics :: "(string \<Rightarrow> string) \<Rightarrow> auditOutputDiagnostics \<Rightarrow> auditOutputDiagnostics" where
  "bounded_diagnostics sanitize d =
     d\<lparr>od_ResponsePreview := sanitizeAuditResponsePreview sanitize (od_ResponsePreview d),
       od_ResponseID := truncateString (trim_space (od_ResponseID d)) 200,
       od_ResponseSource := truncateString (trim_space (od_ResponseSource d)) 120\<rparr>"

definition recordAuditOutputDiagnostics ::
    "(string \<Rightarrow> string) \<Rightarrow> auditOutputDiagnostics \<Rightarrow> auditOutputAttemptState \<Rightarrow> auditOutputAttemptState" where
  "recordAuditOutputDiagnostics sanitize diagnostics st =
     (let d = bounded_diagnostics sanitize diagnostics in
      if od_Failed d then st\<lparr>oa_latest := d, oa_lastFailure := Some d\<rparr> else st\<lparr>oa_latest := d\<rparr>)"

definition output_snapshot :: "bool \<Rightarrow> auditOutputAttemptState \<Rightarrow> auditOutputDiagnostics" where
  "output_snapshot preferFailure st =
     (case oa_lastFailure st of Some d \<Rightarrow> if preferFailure then d else oa_latest st | None \<Rightarrow> oa_latest st)"

definition auditOutputDiagnosticsForResponse ::
    "auditOutputPlan \<Rightarrow> auditCompletionResponse \<Rightarrow> bool \<Rightarrow> auditOutputDiagnostics" where
  "auditOutputDiagnosticsForResponse plan response failed =
     \<lparr>od_Mode = op_Mode plan, od_MaxTokens = op_MaxTokens plan,
      od_FinishReason = truncateString (trim_space (co_FinishReason response)) 100,
      od_ResponseContentBytes = co_ContentBytes response, od_ResponseSource = co_Source response,
      od_ResponsePreview = co_Preview response, od_ResponseID = co_ResponseID response, od_Failed = failed\<rparr>"

text \<open>\<open>errors.As\<close> finds a call error at the head: the engine never wraps one in another error.\<close>

definition annotateAuditOutputError ::
    "(string \<Rightarrow> string) \<Rightarrow> audit_error \<Rightarrow> auditOutputDiagnostics \<Rightarrow> audit_error" where
  "annotateAuditOutputError sanitize err diagnostics0 =
     (case err of
        CallError e cause \<Rightarrow>
          (let d = bounded_diagnostics sanitize diagnostics0;
               detail = ''output mode='' @ od_Mode d @ '', max_tokens='' @ dec_int (od_MaxTokens d)
                 @ (if od_FinishReason d \<noteq> [] then '', finish_reason='' @ od_FinishReason d else [])
                 @ (if od_ResponseContentBytes d > 0 then '', content_bytes='' @ dec_int (od_ResponseContentBytes d) else []);
               message = (if od_Mode d \<noteq> [] \<and> \<not> contains (ce_Message e) ''output mode=''
                          then trim_space (ce_Message e) @ '' ('' @ detail @ '')'' else ce_Message e)
           in CallError (e\<lparr>ce_OutputMode := od_Mode d, ce_OutputMaxTokens := od_MaxTokens d,
                ce_FinishReason := od_FinishReason d, ce_ResponseContentBytes := od_ResponseContentBytes d,
                ce_ResponseSource := od_ResponseSource d, ce_ResponsePreview := od_ResponsePreview d,
                ce_ResponseID := od_ResponseID d, ce_Message := message\<rparr>) cause)
      | _ \<Rightarrow> err)"

section \<open>The answer of a call\<close>

text \<open>
  What the server answered: the status, the body as far as it was read (at most one byte more than the
  limit), or the error of reading it, and the identifier in the headers.
\<close>

record http_reply =
  hr_Status :: int
  hr_Body :: "audit_error + string"
  hr_RequestID :: string

record reply_env =
  ry_sanitize :: "string \<Rightarrow> string"
  ry_redact :: "string \<Rightarrow> string"
  ry_parse :: "string \<Rightarrow> float_value option"
  ry_counts :: "string \<Rightarrow> int \<times> int"
  ry_lowerBound :: "string \<Rightarrow> bool"
  ry_observed :: "string \<Rightarrow> int"
  ry_history :: "string \<Rightarrow> nat list"

text \<open>\<open>auditHTTPStatusError\<close>; the token counts come from regular expressions.\<close>

definition status_error :: "reply_env \<Rightarrow> int \<Rightarrow> string \<Rightarrow> audit_error" where
  "status_error y status body =
     auditHTTPStatusError (ry_sanitize y) looksLikeStructuredOutputUnsupported (ry_counts y) (ry_lowerBound y) (ry_observed y)
       status (auditHTTPErrorDetail (ry_sanitize y) body)"

definition failed_diagnostics :: "auditOutputPlan \<Rightarrow> string \<Rightarrow> string \<Rightarrow> string \<Rightarrow> auditOutputDiagnostics" where
  "failed_diagnostics plan body source requestID =
     \<lparr>od_Mode = op_Mode plan, od_MaxTokens = op_MaxTokens plan, od_FinishReason = [],
      od_ResponseContentBytes = int (length body), od_ResponseSource = source, od_ResponsePreview = body,
      od_ResponseID = requestID, od_Failed = True\<rparr>"

definition model_decision :: "modelAuditResponse \<Rightarrow> AuditDecision" where
  "model_decision m =
     no_decision\<lparr>ad_Decision := mr_Decision m, ad_RiskCode := trim_space (mr_RiskCode m),
       ad_Category := trim_space (mr_Category m), ad_Confidence := mr_Confidence m,
       ad_ConfidenceKind := mr_ConfidenceKind m, ad_ConfidenceLabel := mr_ConfidenceLabel m,
       ad_OutputNormalizations := mr_OutputNormalizations m, ad_Reason := mr_Reason m, ad_Source := ''model'',
       ad_Evidence := mr_Evidence m, ad_RequestEvidence := mr_RequestEvidence m,
       ad_EvidenceRelation := mr_EvidenceRelation m, ad_HarmType := mr_HarmType m\<rparr>"

text \<open>
  The parsed answer judged: the contract of the cyber policy, the evidence, and the evidence relation
  when the plan asks for a semantic verification.
\<close>

definition judge_answer ::
    "reply_env \<Rightarrow> auditOutputPlan \<Rightarrow> rat \<Rightarrow> auditSourceScope \<Rightarrow> auditOutputDiagnostics \<Rightarrow> string \<Rightarrow> modelAuditResponse \<Rightarrow>
     raw_answer \<times> auditOutputDiagnostics" where
  "judge_answer y plan threshold scope d source m =
     (let failed = d\<lparr>od_Failed := True\<rparr>; err = (\<lambda>e. annotateAuditOutputError (ry_sanitize y) e failed) in
      if \<not> mr_contractFieldsPresent m \<or> trim_space (mr_Category m) = [] \<or> trim_space (mr_Reason m) = []
      then ((no_decision, Some (err (auditSchemaError (ry_sanitize y) ''policy''
               ''requires all six fields and nonempty category/reason''))), failed)
      else (case validateAuditDecisionEvidence (ry_sanitize y) (ry_redact y) (model_decision m) source of
              Inl e \<Rightarrow> ((model_decision m, Some (err e)), failed)
            | Inr validated \<Rightarrow>
                (case (if op_VerifyIntent plan
                       then validateAuditSemanticVerdictWithScope (ry_sanitize y) (ry_redact y) validated scope threshold
                       else Inr validated) of
                   Inl e \<Rightarrow> ((model_decision m, Some (err e)), failed)
                 | Inr verified \<Rightarrow> ((verified, None), d\<lparr>od_ResponsePreview := []\<rparr>))))"

definition parse_answer ::
    "reply_env \<Rightarrow> auditOutputPlan \<Rightarrow> rat \<Rightarrow> auditSourceScope \<Rightarrow> string \<Rightarrow> auditCompletionResponse \<Rightarrow>
     raw_answer \<times> auditOutputDiagnostics" where
  "parse_answer y plan threshold scope source c =
     (let d = auditOutputDiagnosticsForResponse plan c False; failed = d\<lparr>od_Failed := True\<rparr>;
          err = (\<lambda>e. annotateAuditOutputError (ry_sanitize y) e failed)
      in if isAuditFinishReasonTruncated (co_FinishReason c)
         then ((no_decision, Some (err (auditInvalidModelOutputError (ry_sanitize y) c))), failed)
         else (case parseAuditModelResponseContent (ry_sanitize y) (ry_parse y) (co_Content c) of
                 Inl e \<Rightarrow>
                   ((no_decision,
                     Some (err (if fst (auditModelErrorDetails (ry_sanitize y) (Some e)) = ''invalid_json''
                                then auditInvalidModelOutputError (ry_sanitize y) c else e))), failed)
               | Inr m \<Rightarrow> judge_answer y plan threshold scope d source m))"

definition model_reply ::
    "reply_env \<Rightarrow> auditOutputPlan \<Rightarrow> rat \<Rightarrow> auditSourceScope \<Rightarrow> string \<Rightarrow> http_reply \<Rightarrow> auditOutputAttemptState \<Rightarrow>
     raw_answer \<times> auditOutputAttemptState" where
  "model_reply y plan threshold scope source reply st =
     (let record = (\<lambda>d. recordAuditOutputDiagnostics (ry_sanitize y) d st);
          reject = (\<lambda>e d. ((no_decision, Some (annotateAuditOutputError (ry_sanitize y) e d)), record d))
      in case hr_Body reply of
           Inl e \<Rightarrow> ((no_decision, Some (newAuditModelCallError (ry_sanitize y) ''response_read'' 0
                       ''read audit model response'' (Some e))), st)
         | Inr body \<Rightarrow>
             if hr_Status reply < 200 \<or> hr_Status reply \<ge> 300
             then reject (status_error y (hr_Status reply) body)
                    (failed_diagnostics plan body ''http_error_body'' (hr_RequestID reply))
             else if length body > maxAuditResponseBytes
             then ((no_decision, Some (newAuditModelCallError (ry_sanitize y) ''response_too_large'' (hr_Status reply)
                       ''audit model response exceeds byte limit'' None)), st)
             else (case extractAuditCompletionResponse (ry_sanitize y) body of
                     Inl message \<Rightarrow>
                       reject (newAuditModelCallError (ry_sanitize y) ''response_format'' 0 message None)
                         (failed_diagnostics plan body ''response_envelope'' (hr_RequestID reply))
                   | Inr c0 \<Rightarrow>
                       (let c = (if co_ResponseID c0 = [] then c0\<lparr>co_ResponseID := hr_RequestID reply\<rparr> else c0)
                        in case parse_answer y plan threshold scope source c of (answer, d) \<Rightarrow> (answer, record d))))"


section \<open>What an accepted answer is\<close>

text \<open>The text of a semantic verification that passes; the quote of the evidence stays as it was.\<close>

lemma semantic_keeps:
  assumes "validateAuditSemanticVerdictWithScope sanitize redact d scope threshold = Inr d'"
  shows "ad_Decision d' = ad_Decision d" and "quoted_from redact' source d' \<longleftrightarrow> quoted_from redact' source d"
    and "auditCurrentActionLocated scope (normalizeAuditEvidenceQuote (ad_RequestEvidence d))"
  using assms
  by (auto simp: validateAuditSemanticVerdictWithScope_def invalid_semantics_def quoted_from_def Let_def split: if_splits)

definition accepted_by :: "reply_env \<Rightarrow> string \<Rightarrow> http_reply \<Rightarrow> AuditDecision \<Rightarrow> bool" where
  "accepted_by y source reply d \<longleftrightarrow>
     (\<exists>body c ms m. hr_Body reply = Inr body \<and> 200 \<le> hr_Status reply \<and> hr_Status reply < 300
        \<and> extractAuditCompletionResponse (ry_sanitize y) body = Inr c \<and> \<not> isAuditFinishReasonTruncated (co_FinishReason c)
        \<and> text_policies 6 (co_Content c) = [ms] \<and> decodeAuditPolicyObject (ry_sanitize y) (ry_parse y) ms = Inr m
        \<and> policy_ok m \<and> mr_contractFieldsPresent m \<and> trim_space (mr_Category m) \<noteq> [] \<and> trim_space (mr_Reason m) \<noteq> []
        \<and> ad_Decision d = mr_Decision m
        \<and> (ad_Decision d \<noteq> DecisionAllow \<longrightarrow> quoted_from (ry_redact y) source d))"

lemma judged:
  assumes "judge_answer y plan threshold scope d source m = ((decision, None), d')"
  shows "mr_contractFieldsPresent m \<and> trim_space (mr_Category m) \<noteq> [] \<and> trim_space (mr_Reason m) \<noteq> []
    \<and> ad_Decision decision = mr_Decision m
    \<and> (mr_Decision m \<in> {DecisionBlock, DecisionReview} \<longrightarrow> quoted_from (ry_redact y) source decision)
    \<and> d' = d\<lparr>od_ResponsePreview := []\<rparr>"
proof -
  obtain v where v: "validateAuditDecisionEvidence (ry_sanitize y) (ry_redact y) (model_decision m) source = Inr v"
      "(if op_VerifyIntent plan
        then validateAuditSemanticVerdictWithScope (ry_sanitize y) (ry_redact y) v scope threshold else Inr v) = Inr decision"
      "mr_contractFieldsPresent m" "trim_space (mr_Category m) \<noteq> []" "trim_space (mr_Reason m) \<noteq> []"
      "d' = d\<lparr>od_ResponsePreview := []\<rparr>"
    using assms by (auto simp: judge_answer_def Let_def split: if_splits sum.splits)
  have m: "ad_Decision (model_decision m) = mr_Decision m" by (simp add: model_decision_def)
  note q = validated_quote [OF v(1), unfolded m]
  have "ad_Decision decision = ad_Decision v \<and> (quoted_from (ry_redact y) source decision \<longleftrightarrow> quoted_from (ry_redact y) source v)"
    using v(2) semantic_keeps by (cases "op_VerifyIntent plan") auto
  with q v show ?thesis by simp
qed

lemma policy_decision: "policy_ok m \<Longrightarrow> mr_Decision m \<noteq> DecisionAllow \<Longrightarrow> mr_Decision m \<in> {DecisionBlock, DecisionReview}"
  by (auto simp: policy_ok_def)

lemma model_reply_accepted:
  assumes "model_reply y plan threshold scope source reply st = ((d, None), st')"
  shows "accepted_by y source reply d \<and> \<not> od_Failed (oa_latest st') \<and> oa_lastFailure st' = oa_lastFailure st"
proof -
  obtain body where body: "hr_Body reply = Inr body" using assms by (cases "hr_Body reply") (auto simp: model_reply_def Let_def)
  from assms have status: "\<not> (hr_Status reply < 200 \<or> hr_Status reply \<ge> 300)" and len: "\<not> length body > maxAuditResponseBytes"
    by (auto simp: model_reply_def Let_def body split: if_splits)
  obtain c0 where c0: "extractAuditCompletionResponse (ry_sanitize y) body = Inr c0"
    using assms status len by (auto simp: model_reply_def Let_def body split: sum.splits)
  define c where "c = (if co_ResponseID c0 = [] then c0\<lparr>co_ResponseID := hr_RequestID reply\<rparr> else c0)"
  obtain di where p: "parse_answer y plan threshold scope source c = ((d, None), di)"
      and st': "st' = recordAuditOutputDiagnostics (ry_sanitize y) di st"
    using assms status len by (auto simp: model_reply_def Let_def body c0 c_def split: prod.splits)
  have tr: "\<not> isAuditFinishReasonTruncated (co_FinishReason c)"
    using p by (auto simp: parse_answer_def Let_def)
  then obtain m where m: "parseAuditModelResponseContent (ry_sanitize y) (ry_parse y) (co_Content c) = Inr m"
      "judge_answer y plan threshold scope (auditOutputDiagnosticsForResponse plan c False) source m = ((d, None), di)"
    using p by (auto simp: parse_answer_def Let_def split: sum.splits)
  have "answers (ry_sanitize y) (ry_parse y) [m] (text_policies 6 (co_Content c))"
    using only_policy(2) [of "ry_sanitize y" "ry_parse y" 0 "co_Content c"] m(1) by (simp add: parseAuditModelResponseContent_def)
  then obtain ms where ms: "text_policies 6 (co_Content c) = [ms]"
      "decodeAuditPolicyObject (ry_sanitize y) (ry_parse y) ms = Inr m" by auto
  have cs: "co_Content c = co_Content c0" "co_FinishReason c = co_FinishReason c0" by (simp_all add: c_def)
  have "accepted_by y source reply d"
    unfolding accepted_by_def using body status c0 tr ms judged [OF m(2)] policy_object_ok(1) [OF ms(2)] policy_decision cs
    by (intro exI [of _ body] exI [of _ c0] exI [of _ ms] exI [of _ m]) auto
  moreover have "\<not> od_Failed di" using judged [OF m(2)] by (simp add: auditOutputDiagnosticsForResponse_def)
  ultimately show ?thesis
    by (simp add: st' recordAuditOutputDiagnostics_def bounded_diagnostics_def Let_def)
qed

lemma parse_answer_refused:
  assumes "parse_answer y plan threshold scope source c = ((d, Some e), di)"
  shows "od_Failed di"
  using assms by (auto simp: parse_answer_def judge_answer_def Let_def split: if_splits sum.splits)

lemma model_reply_refused:
  assumes "model_reply y plan threshold scope source reply st = ((d, Some e), st')"
  shows "st' = st \<or> od_Failed (oa_latest st') \<and> oa_lastFailure st' = Some (oa_latest st')"
proof -
  have r: "od_Failed (oa_latest (recordAuditOutputDiagnostics f di st))
      \<and> oa_lastFailure (recordAuditOutputDiagnostics f di st) = Some (oa_latest (recordAuditOutputDiagnostics f di st))"
    if "od_Failed di" for f di
    using that by (simp add: recordAuditOutputDiagnostics_def bounded_diagnostics_def Let_def)
  have f: "od_Failed (failed_diagnostics plan b so i)" for b so i by (simp add: failed_diagnostics_def)
  show ?thesis
    using assms r f parse_answer_refused
    by (auto simp: model_reply_def Let_def split: sum.splits if_splits prod.splits)
qed

end
