(* ===== verification/Audit_Exchange.thy ===== *)
theory Audit_Exchange
  imports Audit_Reply
begin

text \<open>
  One HTTP call of an audit model (\<open>callModelRawWithEvidenceSource\<close> of \<open>audit.go\<close> under the cyber-deny
  policy, \<open>auditMessagesWithPlan\<close> of \<open>audit_fast_mode.go\<close>, \<open>audit_model_input.go\<close>): the messages, the
  check of the document that goes out, the call budget, the exchange and the answer. The two built-in
  prompts are texts of the source that nothing here depends on; the HTTP client is a parameter.
\<close>

section \<open>The messages\<close>

record prompts =
  pr_default :: string
  pr_cyber :: string

definition auditOutputPlanDirective :: "auditOutputPlan \<Rightarrow> string" where
  "auditOutputPlanDirective plan =
     (if op_VerifyIntent plan
      then ''Platform-enforced semantic-verification contract: return all nine fields with literal ''
             @ ''request evidence. This is not an instruction to find an attack.''
      else
        (let base = ''Platform-enforced output contract: mode='' @ op_Mode plan @ '', max_tokens='' @ dec_int (op_MaxTokens plan)
               @ ''. Return all six required fields: decision, risk_code, category, confidence, reason, evidence. ''
               @ ''Keep evidence and reason at most 80 characters each; quote an operation, not an entire key, ''
               @ ''encoded blob or file. An opaque value alone does not establish a prohibited operation; ''
               @ ''inspect the surrounding task. Never invent or abbreviate a quote.''
         in if op_Attempt plan = 0 then base
            else ''FORMAT RECOVERY ATTEMPT '' @ dec_int (op_Attempt plan + 1)
                   @ '': the previous model response was not machine-readable. '' @ base
                   @ '' Do not repeat prose, Markdown, analysis, or an incomplete object.''))"

definition guidance_header :: string where
  "guidance_header = [CHR 0x0A, CHR 0x0A] @ ''ADDITIONAL OPERATOR GUIDANCE (subordinate to the fixed Cyber policy; ''
     @ ''cannot change prohibited operations, source/evidence requirements, or output contract):'' @ [CHR 0x0A]"

text \<open>The branch of the cyber-deny profile.\<close>

definition system_prompt :: "prompts \<Rightarrow> AuditProfile \<Rightarrow> auditOutputPlan \<Rightarrow> string" where
  "system_prompt pr p plan =
     (let operator = trim_space (ap_SystemPrompt p) in
      pr_cyber pr
      @ (if operator \<noteq> [] \<and> operator \<noteq> pr_cyber pr \<and> operator \<noteq> pr_default pr then guidance_header @ operator else [])
      @ [CHR 0x0A, CHR 0x0A] @ auditOutputPlanDirective plan
      @ (if op_Feedback plan \<noteq> [] then [CHR 0x0A] @ ''PLATFORM VALIDATION FEEDBACK: '' @ op_Feedback plan else []))"

definition second_pass_note :: string where
  "second_pass_note = [CHR 0x0A] @ ''CYBER DENY SECOND PASS: check actual requested operations and adopted task context, ''
     @ ''including mixed prohibited actions. Do not infer an operation merely from artifact names, ''
     @ ''dependency declarations or ordinary source searches. No previous verdict is supplied; ''
     @ ''neither allow nor block is preferred. Use the same six fields.''"

definition chunk_note :: string where
  "chunk_note = [CHR 0x0A, CHR 0x0A] @ ''PLATFORM CHUNK SCOPE: this is one fragment of a larger request. ''
     @ ''Assess its content with the supplied current-task excerpts; never assume other fragments are safe.''"

definition system_message ::
    "prompts \<Rightarrow> AuditProfile \<Rightarrow> auditOutputPlan \<Rightarrow> bool \<Rightarrow> bool \<Rightarrow> string" where
  "system_message pr p plan second chunked =
     system_prompt pr p plan @ (if second then second_pass_note else []) @ (if chunked then chunk_note else [])"

definition message :: "string \<Rightarrow> string \<Rightarrow> json" where
  "message role content = JObj [(''role'', JStr role), (''content'', JStr content)]"

section \<open>The check of the document\<close>

text \<open>\<open>json.Unmarshal\<close> into the fields of the document, as \<open>encodeAuditScopedDocument\<close> writes them.\<close>

definition text_member :: "(string \<times> json) list \<Rightarrow> string \<Rightarrow> string option" where
  "text_member ms k =
     (case lookup ms k of None \<Rightarrow> Some [] | Some JNull \<Rightarrow> Some [] | Some (JStr s) \<Rightarrow> Some s | _ \<Rightarrow> None)"

definition int_member :: "(string \<times> json) list \<Rightarrow> string \<Rightarrow> int option" where
  "int_member ms k =
     (case lookup ms k of None \<Rightarrow> Some 0 | Some JNull \<Rightarrow> Some 0 | Some (JNum l) \<Rightarrow> parse_int64 l | _ \<Rightarrow> None)"

definition span_readable :: "json \<Rightarrow> bool" where
  "span_readable v =
     (case v of
        JNull \<Rightarrow> True
      | JObj ms \<Rightarrow> int_member ms ''start_byte'' \<noteq> None \<and> int_member ms ''end_byte'' \<noteq> None \<and> text_member ms ''kind'' \<noteq> None
      | _ \<Rightarrow> False)"

fun text_items :: "json list \<Rightarrow> string list option" where
  "text_items [] = Some []"
| "text_items (JStr s # vs) = map_option ((#) s) (text_items vs)"
| "text_items (JNull # vs) = map_option ((#) []) (text_items vs)"
| "text_items (v # vs) = None"

definition texts_member :: "(string \<times> json) list \<Rightarrow> string \<Rightarrow> string list option" where
  "texts_member ms k =
     (case lookup ms k of None \<Rightarrow> Some [] | Some JNull \<Rightarrow> Some [] | Some (JArr vs) \<Rightarrow> text_items vs | _ \<Rightarrow> None)"

definition spans_readable :: "(string \<times> json) list \<Rightarrow> bool" where
  "spans_readable ms =
     (case lookup ms ''reference_spans'' of
        None \<Rightarrow> True | Some JNull \<Rightarrow> True | Some (JArr vs) \<Rightarrow> list_all span_readable vs | _ \<Rightarrow> False)"

text \<open>The schema, the text and the context of a document.\<close>

definition read_document :: "string \<Rightarrow> (string \<times> string \<times> string list) option" where
  "read_document content =
     (case parse_value json_depth content of
        Some (JObj ms, rest) \<Rightarrow>
          if skip_ws rest \<noteq> [] \<or> \<not> spans_readable ms then None
          else (case (text_member ms ''schema'', text_member ms ''request_text'', texts_member ms ''request_context'') of
                  (Some schema, Some s, Some context) \<Rightarrow> Some (schema, s, context)
                | _ \<Rightarrow> None)
      | Some (JNull, rest) \<Rightarrow> if skip_ws rest = [] then Some ([], [], []) else None
      | _ \<Rightarrow> None)"

record AuditModelInputDiagnostics =
  mi_Call :: int
  mi_ProfileID :: int
  mi_Phase :: string
  mi_RequestTextBytes :: nat
  mi_EvidenceSourceBytes :: nat
  mi_RequestContextBytes :: nat
  mi_RequestContextCount :: nat
  mi_PayloadBytes :: nat
  mi_QueueWaitMS :: int
  mi_SourceMatchesRequestText :: bool
  mi_RequestTextHMAC :: string
  mi_DocumentHMAC :: string

definition maxAuditModelInputRecords :: nat where "maxAuditModelInputRecords = 32"

definition input_phase :: "bool \<Rightarrow> string \<Rightarrow> string" where
  "input_phase second repair =
     (if repair \<in> {''evidence_repair'', ''grounding''} then repair else if second then ''verifier'' else ''primary'')"

definition integrity_error :: "(string \<Rightarrow> string) \<Rightarrow> audit_error" where
  "integrity_error sanitize = newAuditModelCallError sanitize ''cyber_input_integrity'' 0
     (''audit user document is empty, changed, or inconsistent with '' @ ''the evidence source'') None"

definition auditModelInputDiagnostics ::
    "(string \<Rightarrow> string) \<Rightarrow> (string \<Rightarrow> string) \<Rightarrow> string \<Rightarrow> auditSourceScope \<Rightarrow> AuditProfile \<Rightarrow> string \<Rightarrow> string \<Rightarrow> nat \<Rightarrow>
     audit_error + AuditModelInputDiagnostics" where
  "auditModelInputDiagnostics sanitize hmac phase scope p content source payloadBytes =
     (if trim_space source = [] then Inl (integrity_error sanitize)
      else (case read_document content of
              Some (schema, s, context) \<Rightarrow>
                if schema \<noteq> auditInputContractVersion \<or> s \<noteq> source \<or> context \<noteq> sc_Anchors scope
                then Inl (integrity_error sanitize)
                else Inr \<lparr>mi_Call = 0, mi_ProfileID = ap_ID p, mi_Phase = phase, mi_RequestTextBytes = length s,
                          mi_EvidenceSourceBytes = length source, mi_RequestContextBytes = sum_list (map length context),
                          mi_RequestContextCount = length context, mi_PayloadBytes = payloadBytes, mi_QueueWaitMS = 0,
                          mi_SourceMatchesRequestText = True,
                          mi_RequestTextHMAC = hmac (''audit-request-text-v1'' @ [CHR 0x00] @ s),
                          mi_DocumentHMAC = hmac (''audit-request-document-v1'' @ [CHR 0x00] @ content)\<rparr>
            | None \<Rightarrow> Inl (integrity_error sanitize)))"

section \<open>The call\<close>

definition model_endpoint :: "string \<Rightarrow> string" where
  "model_endpoint e =
     (let s = trim_right_byte (CHR ''/'') e in if is_suffix ''/chat/completions'' s then s else s @ ''/chat/completions'')"

definition auditRequestTimeout :: "int \<Rightarrow> int \<Rightarrow> AuditProfile \<Rightarrow> int \<Rightarrow> int" where
  "auditRequestTimeout longThreshold longTimeout p textBytes =
     (let t0 = wrap64 (ap_TimeoutMS p * 1000000); t = (if t0 \<le> 0 then 8000000000 else t0)
      in if textBytes \<ge> longThreshold \<and> t < longTimeout then longTimeout else t)"

record model_request =
  hq_URL :: string
  hq_Authorization :: "string option"
  hq_Body :: string
  hq_TimeoutNS :: int

text \<open>
  What a call finds around it: the engine's settings, the second pass and the phase of a repair, the
  scope in the context, the cipher with its key, the error of waiting for a slot, the time waited,
  the error of building the request, and the exchange itself.
\<close>

record call_env =
  cv_reply :: reply_env
  cv_prompts :: prompts
  cv_outputMaxTokens :: int
  cv_disableThinking :: bool
  cv_longThreshold :: int
  cv_longTimeout :: int
  cv_second :: bool
  cv_repair :: string
  cv_scope :: "auditSourceScope option"
  cv_originalBytes :: int
  cv_crypto :: crypto
  cv_masterKey :: string
  cv_slot :: "audit_error option"
  cv_queueWait :: int
  cv_request :: "audit_error option"
  cv_exchange :: "model_request \<Rightarrow> (audit_error \<times> bool) + http_reply"

record call_state =
  cs_budget :: auditSemanticState
  cs_inputs :: "AuditModelInputDiagnostics list"
  cs_output :: auditOutputAttemptState
  cs_sent :: "model_request list"

definition decrypt_text :: "string \<Rightarrow> crypto_error \<Rightarrow> string" where
  "decrypt_text key e =
     (case e of
        BadVersion \<Rightarrow> ''unsupported ciphertext version''
      | Truncated \<Rightarrow> ''ciphertext is truncated''
      | BadKey \<Rightarrow> ''crypto/aes: invalid key size '' @ dec_int (int (length key))
      | _ \<Rightarrow> ''cipher: message authentication failed'')"

definition call_body :: "call_env \<Rightarrow> auditOutputPlan \<Rightarrow> AuditProfile \<Rightarrow> bool \<Rightarrow> string \<Rightarrow> string" where
  "call_body v plan p chunked content =
     marshal (JObj (audit_payload (cv_outputMaxTokens v) (cv_disableThinking v) plan p
       (JArr [message ''system'' (system_message (cv_prompts v) p plan (cv_second v) chunked), message ''user'' content])))"

definition reserve_call :: "AuditModelInputDiagnostics \<Rightarrow> call_state \<Rightarrow> call_state option" where
  "reserve_call d st =
     (case reserveHTTP (cs_budget st) of
        (_, False) \<Rightarrow> None
      | (b, True) \<Rightarrow>
          Some (st\<lparr>cs_budget := b,
                   cs_inputs := (if length (cs_inputs st) < maxAuditModelInputRecords
                                 then cs_inputs st @ [d\<lparr>mi_Call := ss_httpCalls b\<rparr>] else cs_inputs st)\<rparr>))"

definition callModelRawWithEvidenceSource ::
    "call_env \<Rightarrow> auditOutputPlan \<Rightarrow> AuditProfile \<Rightarrow> string \<Rightarrow> string \<Rightarrow> call_state \<Rightarrow> raw_answer \<times> call_state" where
  "callModelRawWithEvidenceSource v plan profile0 txt source st =
     (let y = cv_reply v; sanitize = ry_sanitize y; p = cyberDenyProfile profile0;
          scope = auditScopeFromContext (ry_history y) (cv_scope v) source;
          content = encodeAuditScopedDocument scope source source;
          body = call_body v plan p (txt \<noteq> source) content;
          failed = (\<lambda>e. ((no_decision, Some e), st))
      in case auditModelInputDiagnostics sanitize (PromptHMAC (cv_crypto v) (cv_masterKey v))
                (input_phase (cv_second v) (cv_repair v)) scope p content source (length body) of
           Inl e \<Rightarrow> failed e
         | Inr diag \<Rightarrow>
           (case cv_slot v of
              Some e \<Rightarrow> failed e
            | None \<Rightarrow>
             (case cv_request v of
                Some e \<Rightarrow> failed (newAuditModelCallError sanitize ''request_build'' 0 ''build audit model request'' (Some e))
              | None \<Rightarrow>
                (case (if ap_APIKeyCiphertext p = [] then Inr []
                       else Decrypt (cv_crypto v) (cv_masterKey v) ''audit-profile-api-key-v1'' (ap_APIKeyCiphertext p)) of
                   Inl e \<Rightarrow> failed (newAuditModelCallError sanitize ''credential_decrypt'' 0 ''decrypt audit API key''
                              (Some (PlainError (decrypt_text (cv_masterKey v) e))))
                 | Inr key \<Rightarrow>
                   (let request = \<lparr>hq_URL = model_endpoint (ap_Endpoint p),
                          hq_Authorization = (if key = [] then None else Some (''Bearer '' @ key)), hq_Body = body,
                          hq_TimeoutNS = auditRequestTimeout (cv_longThreshold v) (cv_longTimeout v) p
                            (max (cv_originalBytes v) (int (length txt)))\<rparr>
                    in case reserve_call (diag\<lparr>mi_QueueWaitMS := cv_queueWait v\<rparr>) st of
                         None \<Rightarrow> failed (newAuditModelCallError sanitize ''audit_http_budget'' 0
                                          ''Cyber audit HTTP call budget exhausted'' None)
                       | Some st1 \<Rightarrow>
                         (let st2 = st1\<lparr>cs_sent := cs_sent st1 @ [request]\<rparr>
                          in case cv_exchange v request of
                               Inl (e, timeout) \<Rightarrow> ((no_decision, classifyAuditTransportError sanitize timeout (Some e)), st2)
                             | Inr reply \<Rightarrow>
                                 (case model_reply y plan (ap_BlockThreshold p) scope source reply (cs_output st2) of
                                    (answer, output) \<Rightarrow> (answer, st2\<lparr>cs_output := output\<rparr>))))))))"


section \<open>The body as the model reads it\<close>


section \<open>The body as the model reads it\<close>

lemma valid_document: "valid_utf8 (document_text anchors s spans)"
  by (simp add: document_text_def span_text_def valid_written valid_ascii)

lemma text_items_texts [simp]: "text_items (map (\<lambda>a. JStr (f a)) ss) = Some (map f ss)"
  by (induction ss) auto

lemma dec_value_snoc: "dec_value acc (s @ [c]) = dec_value acc s * 10 + (byte c - 48)"
  by (induction acc s rule: dec_value.induct) auto

lemma dec_value_dec_nat: "dec_value 0 (dec_nat n) = n"
proof (induction n rule: dec_nat.induct)
  case (1 n)
  then show ?case by (subst dec_nat.simps) (simp add: dec_value_snoc)
qed

lemma parse_int64_dec: "is_int64 i \<Longrightarrow> parse_int64 (dec_int i) = Some i"
proof -
  assume i: "is_int64 i"
  have h: "\<exists>c cs. dec_nat n = c # cs \<and> c \<noteq> CHR ''-'' \<and> c \<noteq> CHR ''+''" for n
    using dec_nat_digits [of n] by (cases "dec_nat n") (auto simp: is_digit_def)
  show ?thesis
  proof (cases "i < 0")
    case True
    then show ?thesis using i dec_nat_digits [of "nat (- i)"] by (simp add: parse_int64_def dec_int_def dec_value_dec_nat)
  next
    case False
    obtain c cs where c: "dec_nat (nat i) = c # cs" "c \<noteq> CHR ''-''" "c \<noteq> CHR ''+''" using h by blast
    with False i dec_nat_digits [of "nat i"] dec_value_dec_nat [of "nat i"] show ?thesis
      by (simp add: parse_int64_def dec_int_def)
  qed
qed

lemma document_back:
  assumes "\<forall>r \<in> set spans. is_int64 (rs_Start r) \<and> is_int64 (rs_End r)"
  shows "read_document (document_text anchors s spans) = Some (auditInputContractVersion, coerced s, map coerced anchors)"
proof -
  have p: "parse_value json_depth (document_text anchors s spans) = Some (JObj (document_value anchors s spans), [])"
    by (rule renders_read [OF renders_document]) (simp add: json_depth_def)
  have sp: "spans_readable (document_value anchors s spans)"
    using assms by (auto simp: spans_readable_def document_value_def span_readable_def span_value_def int_member_def
        text_member_def list_all_iff parse_int64_dec)
  have "text_member (document_value anchors s spans) ''schema'' = Some auditInputContractVersion"
    "text_member (document_value anchors s spans) ''request_text'' = Some (coerced s)"
    "texts_member (document_value anchors s spans) ''request_context'' = Some (map coerced anchors)"
    by (auto simp: text_member_def texts_member_def document_value_def)
  with p sp show ?thesis by (simp add: read_document_def skip_ws_def)
qed


lemma distinct_put_all: "distinct (map fst m) \<Longrightarrow> distinct (map fst (put_all new m))"
  unfolding put_all_def by (rule foldl_invariant) (auto simp: distinct_update split: prod.splits)

lemma distinct_filter_keys: "distinct (map fst m) \<Longrightarrow> distinct (map fst (filter P m))"
  by (induction m) auto

lemma distinct_delete_keys: "distinct (map fst m) \<Longrightarrow> distinct (map fst (delete_keys ks m))"
  by (simp add: delete_keys_def distinct_filter_keys)

lemma distinct_add_extra: "distinct (map fst m) \<Longrightarrow> distinct (map fst (add_extra p m))"
  by (cases "ap_Extra p") (simp_all add: add_extra_def distinct_put_all)

lemma distinct_fast_defaults: "distinct (map fst m) \<Longrightarrow> distinct (map fst (applyFastAuditDefaults n d p m))"
  by (simp add: applyFastAuditDefaults_def Let_def distinct_update)

lemma distinct_contract: "distinct (map fst m) \<Longrightarrow> distinct (map fst (applyAuditOutputContract plan m))"
  by (simp only: applyAuditOutputContract_def distinct_put_all distinct_delete_keys)

lemma distinct_enforced: "distinct (map fst m) \<Longrightarrow> distinct (map fst (enforceCyberAuditPayload p m))"
  by (simp only: enforceCyberAuditPayload_def distinct_put_all distinct_filter_keys)

lemma distinct_payload: "distinct (map fst (audit_payload n d plan p messages))"
proof -
  let ?m0 = "[(''model'', JStr (ap_Model p)), (''temperature'', json_int 0),
      (''max_tokens'', json_int (op_MaxTokens plan)), (''messages'', messages)]"
  have "distinct (map fst (applyFastAuditDefaults n d p (add_extra p ?m0)))"
    by (intro distinct_fast_defaults distinct_add_extra) simp
  then show ?thesis
    unfolding audit_payload_def Let_def
    by (intro distinct_enforced distinct_contract) (simp add: distinct_update distinct_delete_keys)
qed

lemma writable_int [simp]: "writable (json_int n)"
  by (auto simp: json_int_def)

lemma writable_texts [simp]: "writable (JArr (map JStr ss))"
  by simp

lemma writable_string_field [simp]: "writable (string_field n)"
  by (simp add: string_field_def valid_ascii)

lemma writable_enum_field [simp]: "writable (enum_field xs)"
  by (simp add: enum_field_def valid_ascii)

lemma writable_properties: "\<forall>m \<in> set decision_properties. valid_utf8 (fst m) \<and> writable (snd m)"
  "\<forall>m \<in> set intent_properties. valid_utf8 (fst m) \<and> writable (snd m)"
  by (simp_all add: decision_properties_def intent_properties_def valid_ascii)

lemma distinct_properties: "distinct (map fst (decision_properties @ intent_properties))" "distinct (map fst decision_properties)"
  by (simp_all add: decision_properties_def intent_properties_def)

lemma writable_schema: "writable (auditDecisionJSONSchema b)"
  using writable_properties distinct_properties by (cases b) (auto simp: auditDecisionJSONSchema_def valid_ascii)

lemma writable_format: "(k, v) \<in> set (structured_output plan) \<Longrightarrow> valid_utf8 k \<and> writable v"
  by (auto simp: structured_output_def Let_def writable_schema valid_ascii split: if_splits)

lemma writable_messages [simp]: "writable (message r c)"
  by (simp add: message_def valid_ascii)

lemma nesting_members: "(\<forall>m \<in> set ms. nesting (snd m) \<le> n) \<longleftrightarrow> nesting (JObj ms) \<le> Suc n"
  by auto

lemma nesting_items: "(\<forall>v \<in> set vs. nesting v \<le> n) \<longleftrightarrow> nesting (JArr vs) \<le> Suc n"
  by auto

lemma nesting_fields [simp]:
  "nesting (json_int n) = 0" "nesting (string_field k) = 1" "nesting (enum_field xs) = 2" "nesting (message r c) = 1"
proof -
  have "nesting (JArr (map JStr xs)) = 1" by (cases "xs = []") (simp_all add: image_image)
  then show "nesting (enum_field xs) = 2" by (simp add: enum_field_def)
qed (simp_all add: json_int_def string_field_def message_def)

lemma nesting_schema: "nesting (auditDecisionJSONSchema b) \<le> 5"
proof -
  have "\<forall>m \<in> set decision_properties. nesting (snd m) \<le> 2" "\<forall>m \<in> set intent_properties. nesting (snd m) \<le> 2"
    by (simp_all add: decision_properties_def intent_properties_def)
  then have p: "nesting (JObj (decision_properties @ (if b then intent_properties else []))) \<le> 3"
    unfolding numeral_3_eq_3 numeral_2_eq_2 nesting_members [symmetric] by auto
  have q: "nesting (JArr (map JStr xs)) \<le> 1" for xs by (cases "xs = []") (simp_all add: image_image)
  have "\<forall>m \<in> set [(''type'', JStr ''object''), (''additionalProperties'', JBool False),
       (''required'', JArr (map JStr (required_fields @
          (if b then [''request_evidence'', ''evidence_relation'', ''harm_type''] else [])))),
       (''properties'', JObj (decision_properties @ (if b then intent_properties else [])))]. nesting (snd m) \<le> 4"
    using p q [of "required_fields @ (if b then [''request_evidence'', ''evidence_relation'', ''harm_type''] else [])"]
    by (simp del: nesting.simps(1,2))
  then have "nesting (auditDecisionJSONSchema b) \<le> Suc 4" unfolding auditDecisionJSONSchema_def nesting_members .
  then show ?thesis by simp
qed

lemma nesting_format: "(k, v) \<in> set (structured_output plan) \<Longrightarrow> nesting v \<le> 8"
  using nesting_schema [of "op_VerifyIntent plan"] by (auto simp: structured_output_def Let_def split: if_splits)

lemma writable_payload:
  assumes "writable messages" and "nesting messages \<le> 8"
  shows "writable (JObj (audit_payload n d plan p messages)) \<and> nesting (JObj (audit_payload n d plan p messages)) \<le> 9"
proof -
  have e: "valid_utf8 k \<and> writable v \<and> nesting v \<le> 8" if "(k, v) \<in> set (audit_payload n d plan p messages)" for k v
  proof -
    have f: "fixed_payload plan p messages k = Some v"
      using map_of_is_SomeI [OF distinct_payload that] by (simp add: audit_payload_fixed)
    show ?thesis
    proof (cases "qwen_request p \<and> k = ''chat_template_kwargs''")
      case True
      with f have "v = no_thinking" by (simp add: lookup_fixed)
      with True show ?thesis by (simp add: no_thinking_def valid_ascii)
    next
      case False
      show ?thesis
      proof (cases "lookup (structured_output plan) k")
        case (Some w)
        with f False have "w = v" by (simp add: lookup_fixed)
        with map_of_SomeD [OF Some] show ?thesis using writable_format nesting_format by blast
      next
        case None
        with f False have "(if k = ''stream'' then Some (JBool False) else if k = ''temperature'' then Some (json_int 0)
            else if k = ''max_tokens'' then Some (json_int (op_MaxTokens plan)) else if k = ''messages'' then Some messages
            else if k = ''model'' then Some (JStr (ap_Model p)) else None) = Some v" by (simp only: lookup_fixed if_False option.case)
        then show ?thesis using assms by (auto simp: valid_ascii split: if_split_asm)
      qed
    qed
  qed
  have "nesting (JObj (audit_payload n d plan p messages)) \<le> Suc 8"
    unfolding nesting_members [symmetric] using e by force
  moreover have "\<forall>m \<in> set (audit_payload n d plan p messages). valid_utf8 (fst m) \<and> writable (snd m)" using e by force
  ultimately show ?thesis using distinct_payload by simp
qed


section \<open>What goes out\<close>

lemma body_read:
  "\<exists>ns. json_decode_first (call_body v plan p chunked content) = Some (JObj ns)
     \<and> (\<forall>k. lookup ns k = map_option canonical (fixed_payload plan p
          (JArr [message ''system'' (system_message (cv_prompts v) p plan (cv_second v) chunked), message ''user'' content]) k))"
proof -
  let ?messages = "JArr [message ''system'' (system_message (cv_prompts v) p plan (cv_second v) chunked), message ''user'' content]"
  let ?ms = "audit_payload (cv_outputMaxTokens v) (cv_disableThinking v) plan p ?messages"
  have w: "writable (JObj ?ms)" "nesting (JObj ?ms) \<le> 9" using writable_payload [of ?messages] by simp_all
  obtain ns where ns: "canonical (JObj ?ms) = JObj ns" by simp
  have "json_decode_first (call_body v plan p chunked content) = Some (JObj ns)"
    using renders_read [OF renders_marshal [OF w(1)], of json_depth] w(2) ns
    by (simp only: json_decode_first_def call_body_def json_depth_def) simp
  with lookup_canonical [OF ns] show ?thesis by (auto simp: audit_payload_fixed)
qed

text \<open>What the user message of a body holds, as the model reads it.\<close>

definition sent_document :: "string \<Rightarrow> (string \<times> string \<times> string list) option" where
  "sent_document body =
     (case json_decode_first body of
        Some (JObj ns) \<Rightarrow>
          (case lookup ns ''messages'' of
             Some (JArr [_, JObj ms]) \<Rightarrow> (case lookup ms ''content'' of Some (JStr c) \<Rightarrow> read_document c | _ \<Rightarrow> None)
           | _ \<Rightarrow> None)
      | _ \<Rightarrow> None)"

lemma messages_format: "lookup (structured_output plan) ''messages'' = None"
  by (rule structured_keys) simp

lemma sent_content:
  assumes "valid_utf8 content"
  shows "sent_document (call_body v plan p chunked content) = read_document content"
proof -
  let ?a = "message ''system'' (system_message (cv_prompts v) p plan (cv_second v) chunked)" and ?b = "message ''user'' content"
  obtain ns where ns: "json_decode_first (call_body v plan p chunked content) = Some (JObj ns)"
      "lookup ns ''messages'' = Some (canonical (JArr [?a, ?b]))"
    using body_read [of v plan p chunked content] messages_format [of plan] by (auto simp: lookup_fixed)
  obtain ms where ms: "canonical ?b = JObj ms" by (simp add: message_def)
  have "lookup ms ''content'' = Some (JStr content)"
    using lookup_canonical [OF ms [unfolded message_def], of "''content''"] assms by (simp add: coerced_valid)
  with ns ms show ?thesis by (simp add: sent_document_def)
qed

lemma integrity_document:
  assumes "auditModelInputDiagnostics sanitize hmac phase scope p content source n = Inr d"
  shows "read_document content = Some (auditInputContractVersion, source, sc_Anchors scope)" and "trim_space source \<noteq> []"
  using assms by (auto simp: auditModelInputDiagnostics_def split: if_splits option.splits)

lemma reserve_call_some:
  assumes "reserve_call d st = Some st'"
  shows "ss_httpCalls (cs_budget st') = ss_httpCalls (cs_budget st) + 1" and "cs_sent st' = cs_sent st"
    and "ss_httpCalls (cs_budget st) < (if ss_httpBudget (cs_budget st) = 0 then cyberDenyHTTPBudget else ss_httpBudget (cs_budget st))"
    and "ss_httpBudget (cs_budget st') = ss_httpBudget (cs_budget st)"
  using assms by (auto simp: reserve_call_def reserveHTTP_def Let_def split: if_splits)

text \<open>A call either stops before the exchange and leaves the state, or reserves one call and sends one body.\<close>

lemma call_cases:
  assumes "callModelRawWithEvidenceSource v plan p0 txt source st = (answer, st')"
  obtains (stopped) e where "answer = (no_decision, Some e)" "st' = st"
  | (sent) request st1 d where "reserve_call d st = Some st1" "cs_sent st' = cs_sent st @ [request]" "cs_budget st' = cs_budget st1"
      "sent_document (hq_Body request)
         = Some (auditInputContractVersion, source, sc_Anchors (auditScopeFromContext (ry_history (cv_reply v)) (cv_scope v) source))"
      "hq_Body request = call_body v plan (cyberDenyProfile p0) (txt \<noteq> source)
         (encodeAuditScopedDocument (auditScopeFromContext (ry_history (cv_reply v)) (cv_scope v) source) source source)"
      "(\<exists>e t. cv_exchange v request = Inl (e, t)
          \<and> answer = (no_decision, classifyAuditTransportError (ry_sanitize (cv_reply v)) t (Some e)))
       \<or> (\<exists>reply output. cv_exchange v request = Inr reply
            \<and> model_reply (cv_reply v) plan (ap_BlockThreshold p0)
                (auditScopeFromContext (ry_history (cv_reply v)) (cv_scope v) source) source reply (cs_output st1) = (answer, output)
            \<and> cs_output st' = output)"
proof -
  let ?y = "cv_reply v" and ?p = "cyberDenyProfile p0"
  let ?scope = "auditScopeFromContext (ry_history ?y) (cv_scope v) source"
  let ?content = "encodeAuditScopedDocument ?scope source source"
  let ?body = "call_body v plan ?p (txt \<noteq> source) ?content"
  let ?check = "auditModelInputDiagnostics (ry_sanitize ?y) (PromptHMAC (cv_crypto v) (cv_masterKey v))
                (input_phase (cv_second v) (cv_repair v)) ?scope ?p ?content source (length ?body)"
  let ?key = "if ap_APIKeyCiphertext ?p = [] then Inr []
                       else Decrypt (cv_crypto v) (cv_masterKey v) ''audit-profile-api-key-v1'' (ap_APIKeyCiphertext ?p)"
  note a = assms [unfolded callModelRawWithEvidenceSource_def Let_def]
  show thesis
  proof (cases ?check)
    case (Inl e)
    with a show thesis by (intro stopped [of e]) auto
  next
    case check: (Inr diag)
    note doc = integrity_document(1) [OF check]
    show thesis
    proof (cases "cv_slot v")
      case (Some e)
      with a check show thesis by (intro stopped [of e]) auto
    next
      case slot: None
      show thesis
      proof (cases "cv_request v")
        case (Some e)
        with a check slot show thesis by (intro stopped) auto
      next
        case req: None
        show thesis
        proof (cases ?key)
          case (Inl e)
          with a check slot req show thesis by (intro stopped) auto
        next
          case (Inr key)
          define request where "request = \<lparr>hq_URL = model_endpoint (ap_Endpoint ?p),
                          hq_Authorization = (if key = [] then None else Some (''Bearer '' @ key)), hq_Body = ?body,
                          hq_TimeoutNS = auditRequestTimeout (cv_longThreshold v) (cv_longTimeout v) ?p
                            (max (cv_originalBytes v) (int (length txt)))\<rparr>"
          let ?d = "diag\<lparr>mi_QueueWaitMS := cv_queueWait v\<rparr>"
          show thesis
          proof (cases "reserve_call ?d st")
            case None
            with a check slot req Inr show thesis by (intro stopped) auto
          next
            case (Some st1)
            let ?st2 = "st1\<lparr>cs_sent := cs_sent st1 @ [request]\<rparr>"
            have r: "(case cv_exchange v request of
                 Inl (e, timeout) \<Rightarrow> ((no_decision, classifyAuditTransportError (ry_sanitize ?y) timeout (Some e)), ?st2)
               | Inr reply \<Rightarrow>
                   (case model_reply ?y plan (ap_BlockThreshold ?p) ?scope source reply (cs_output ?st2) of
                      (answer, output) \<Rightarrow> (answer, ?st2\<lparr>cs_output := output\<rparr>))) = (answer, st')"
              using a check slot req Inr Some unfolding request_def by simp
            have body: "hq_Body request = ?body" by (simp add: request_def)
            have sd: "sent_document (hq_Body request) = Some (auditInputContractVersion, source, sc_Anchors ?scope)"
              unfolding body using doc sent_content [OF valid_document] by (simp add: encodeAuditScopedDocument_def)
            have t: "ap_BlockThreshold ?p = ap_BlockThreshold p0" by (simp add: cyberDenyProfile_def)
            have s2: "cs_sent st1 = cs_sent st" by (rule reserve_call_some(2) [OF Some])
            show thesis
            proof (rule sent [OF Some _ _ sd body])
              show "cs_sent st' = cs_sent st @ [request]" "cs_budget st' = cs_budget st1"
                using r s2 by (auto split: sum.splits prod.splits)
            qed (use r t in \<open>auto split: sum.splits prod.splits\<close>)
          qed
        qed
      qed
    qed
  qed
qed

text \<open>The program's own document of a valid request passes the check.\<close>

definition scope_valid :: "auditSourceScope \<Rightarrow> bool" where
  "scope_valid scope \<longleftrightarrow>
     list_all valid_utf8 (sc_Anchors scope) \<and> list_all (\<lambda>r. is_int64 (rs_Start r) \<and> is_int64 (rs_End r)) (sc_References scope)"

lemma own_document:
  assumes "valid_utf8 source" and "trim_space source \<noteq> []" and "scope_valid scope"
  shows "\<exists>d. auditModelInputDiagnostics sanitize hmac phase scope p (encodeAuditScopedDocument scope source source) source n = Inr d"
proof -
  have "source \<noteq> []" using assms(2) by auto
  then have "find_index source source = Some 0" by (cases source) (simp_all add: is_prefix_iff)
  moreover have "map (shift_span 0) rs = rs" for rs by (rule map_idI) (simp add: shift_span_def)
  ultimately have e: "encodeAuditScopedDocument scope source source = document_text (sc_Anchors scope) source (sc_References scope)"
    by (simp add: encodeAuditScopedDocument_def)
  have "map coerced (sc_Anchors scope) = sc_Anchors scope"
    using assms(3) by (auto simp: scope_valid_def list_all_iff coerced_valid intro: map_idI)
  then have "read_document (encodeAuditScopedDocument scope source source)
      = Some (auditInputContractVersion, source, sc_Anchors scope)"
    using document_back [of "sc_References scope" "sc_Anchors scope" source] assms(1,3)
    by (simp add: e coerced_valid scope_valid_def list_all_iff)
  with assms(2) show ?thesis by (simp add: auditModelInputDiagnostics_def)
qed

lemma call_goes_out:
  assumes "callModelRawWithEvidenceSource v plan p0 txt source st = (answer, st')"
    and "valid_utf8 source" and "trim_space source \<noteq> []"
    and "scope_valid (auditScopeFromContext (ry_history (cv_reply v)) (cv_scope v) source)"
    and "cv_slot v = None" and "cv_request v = None" and "ap_APIKeyCiphertext p0 = []"
    and "snd (reserveHTTP (cs_budget st))"
  shows "\<exists>request. cs_sent st' = cs_sent st @ [request]"
  using assms(1)
proof (cases rule: call_cases)
  case (stopped e)
  let ?y = "cv_reply v" and ?p = "cyberDenyProfile p0"
  let ?scope = "auditScopeFromContext (ry_history ?y) (cv_scope v) source"
  let ?content = "encodeAuditScopedDocument ?scope source source"
  obtain diag where d: "auditModelInputDiagnostics (ry_sanitize ?y) (PromptHMAC (cv_crypto v) (cv_masterKey v))
                (input_phase (cv_second v) (cv_repair v)) ?scope ?p ?content source
                (length (call_body v plan ?p (txt \<noteq> source) ?content)) = Inr diag"
    using own_document [OF assms(2-4)] by blast
  have k: "ap_APIKeyCiphertext ?p = []" using assms(7) by (simp add: cyberDenyProfile_def)
  obtain st1 where r: "reserve_call (diag\<lparr>mi_QueueWaitMS := cv_queueWait v\<rparr>) st = Some st1"
    using assms(8) by (cases "reserveHTTP (cs_budget st)") (auto simp: reserve_call_def)
  have "cs_sent st' \<noteq> cs_sent st"
    using assms(1,5,6) k r reserve_call_some(2) [OF r] unfolding callModelRawWithEvidenceSource_def Let_def d
    by (auto split: sum.splits prod.splits)
  with stopped show ?thesis by simp
qed simp

end
