(* ===== verification/Adaptive_Rules.thy ===== *)
theory Adaptive_Rules
  imports Audit_Exchange Audit_Engine Stream_Proxy "HOL-Library.List_Lexorder" "HOL-Library.Char_ord"
begin

text \<open>
  What the gateway learns from failures of the upstream (\<open>adaptive_rules.go\<close>,
  \<open>adaptive_indicator_guard.go\<close>): the policy of the learner and its settings, the samples that are
  kept, the question to the classifying model and its answer, the indicators taken from it and the
  pattern built of them. The tables and the workers are in \<open>Adaptive_Store\<close>.
\<close>

section \<open>The policy\<close>

record AdaptiveRulePolicy =
  po_Enabled :: bool
  po_AutoPromote :: bool
  po_MinConfidence :: rat
  po_MinEvidence :: int
  po_MinDistinctUsers :: int
  po_AutoBlock :: bool

definition defaultAdaptiveRulePolicy :: AdaptiveRulePolicy where
  "defaultAdaptiveRulePolicy = \<lparr>po_Enabled = True, po_AutoPromote = False, po_MinConfidence = 985 / 1000, po_MinEvidence = 3,
     po_MinDistinctUsers = 2, po_AutoBlock = False\<rparr>"

text \<open>
  \<open>json.Unmarshal\<close> into one field of the policy, its error ignored: a value of another type leaves
  the field as it is. \<open>parse\<close> is \<open>strconv.ParseFloat\<close> on a literal.
\<close>

definition read_bool :: "string \<Rightarrow> bool \<Rightarrow> bool" where
  "read_bool raw old = (case json_unmarshal raw of Some (JBool b) \<Rightarrow> b | _ \<Rightarrow> old)"

definition read_int :: "string \<Rightarrow> int \<Rightarrow> int" where
  "read_int raw old =
     (case json_unmarshal raw of Some (JNum l) \<Rightarrow> (case parse_int64 l of Some i \<Rightarrow> i | None \<Rightarrow> old) | _ \<Rightarrow> old)"

definition read_float :: "(string \<Rightarrow> rat option) \<Rightarrow> string \<Rightarrow> rat \<Rightarrow> rat" where
  "read_float parse raw old =
     (case json_unmarshal raw of Some (JNum l) \<Rightarrow> (case parse l of Some v \<Rightarrow> v | None \<Rightarrow> old) | _ \<Rightarrow> old)"

definition policy_row :: "(string \<Rightarrow> rat option) \<Rightarrow> AdaptiveRulePolicy \<Rightarrow> string \<times> string \<Rightarrow> AdaptiveRulePolicy" where
  "policy_row parse p row =
     (case row of (key, raw) \<Rightarrow>
        if key = ''cyber_adaptive_learning_enabled'' then p\<lparr>po_Enabled := read_bool raw (po_Enabled p)\<rparr>
        else if key = ''cyber_adaptive_auto_promote'' then p\<lparr>po_AutoPromote := read_bool raw (po_AutoPromote p)\<rparr>
        else if key = ''cyber_adaptive_min_confidence'' then p\<lparr>po_MinConfidence := read_float parse raw (po_MinConfidence p)\<rparr>
        else if key = ''cyber_adaptive_min_evidence'' then p\<lparr>po_MinEvidence := read_int raw (po_MinEvidence p)\<rparr>
        else if key = ''cyber_adaptive_min_distinct_users'' then p\<lparr>po_MinDistinctUsers := read_int raw (po_MinDistinctUsers p)\<rparr>
        else if key = ''cyber_adaptive_auto_block'' then p\<lparr>po_AutoBlock := read_bool raw (po_AutoBlock p)\<rparr>
        else p)"

definition in_range :: "AdaptiveRulePolicy \<Rightarrow> AdaptiveRulePolicy" where
  "in_range p =
     (let c = po_MinConfidence p; e = po_MinEvidence p; u = po_MinDistinctUsers p in
      p\<lparr>po_MinConfidence := (if c < 8 / 10 \<or> c > 1 then 985 / 1000 else c),
        po_MinEvidence := (if e < 1 \<or> e > 1000 then 3 else e),
        po_MinDistinctUsers := (if u < 0 \<or> u > 1000 then 2 else u)\<rparr>)"

text \<open>\<open>rows\<close> is what the query yields; a failed query or scan keeps the policy in force.\<close>

definition LoadAdaptiveRulePolicy :: "(string \<Rightarrow> rat option) \<Rightarrow> (string \<times> string) list \<Rightarrow> AdaptiveRulePolicy" where
  "LoadAdaptiveRulePolicy parse rows = in_range (foldl (policy_row parse) defaultAdaptiveRulePolicy rows)"

definition ReloadAdaptivePolicy ::
    "(string \<Rightarrow> rat option) \<Rightarrow> (string \<times> string) list option \<Rightarrow> AdaptiveRulePolicy \<Rightarrow> AdaptiveRulePolicy" where
  "ReloadAdaptivePolicy parse rows policy = (case rows of None \<Rightarrow> policy | Some r \<Rightarrow> LoadAdaptiveRulePolicy parse r)"

definition acceptable :: "AdaptiveRulePolicy \<Rightarrow> bool" where
  "acceptable p \<longleftrightarrow> 8 / 10 \<le> po_MinConfidence p \<and> po_MinConfidence p \<le> 1 \<and> 1 \<le> po_MinEvidence p \<and> po_MinEvidence p \<le> 1000
     \<and> 0 \<le> po_MinDistinctUsers p \<and> po_MinDistinctUsers p \<le> 1000"

definition bool_text :: "bool \<Rightarrow> string" where "bool_text b = (if b then ''true'' else ''false'')"

text \<open>The rows that \<open>SaveAdaptiveRulePolicy\<close> writes in one transaction; \<open>show_float\<close> formats a number.\<close>

definition policy_rows :: "(rat \<Rightarrow> string) \<Rightarrow> AdaptiveRulePolicy \<Rightarrow> (string \<times> string) list" where
  "policy_rows show_float p =
     [(''cyber_adaptive_learning_enabled'', bool_text (po_Enabled p)),
      (''cyber_adaptive_auto_promote'', bool_text (po_AutoPromote p)),
      (''cyber_adaptive_min_confidence'', show_float (po_MinConfidence p)),
      (''cyber_adaptive_min_evidence'', dec_int (po_MinEvidence p)),
      (''cyber_adaptive_min_distinct_users'', dec_int (po_MinDistinctUsers p)),
      (''cyber_adaptive_auto_block'', bool_text (po_AutoBlock p))]"

datatype policy_error = ConfidenceRange | EvidenceRange | UsersRange

definition SaveAdaptiveRulePolicy ::
    "(rat \<Rightarrow> string) \<Rightarrow> AdaptiveRulePolicy \<Rightarrow> policy_error + (string \<times> string) list" where
  "SaveAdaptiveRulePolicy show_float p =
     (if po_MinConfidence p < 8 / 10 \<or> po_MinConfidence p > 1 then Inl ConfidenceRange
      else if po_MinEvidence p < 1 \<or> po_MinEvidence p > 1000 then Inl EvidenceRange
      else if po_MinDistinctUsers p < 0 \<or> po_MinDistinctUsers p > 1000 then Inl UsersRange
      else Inr (policy_rows show_float p))"

lemma loaded_acceptable: "acceptable (LoadAdaptiveRulePolicy parse rows)"
  by (simp add: LoadAdaptiveRulePolicy_def in_range_def acceptable_def Let_def)

lemma reloaded_acceptable: "acceptable p \<Longrightarrow> acceptable (ReloadAdaptivePolicy parse rows p)"
  by (simp add: ReloadAdaptivePolicy_def loaded_acceptable split: option.split)

lemma saved_rows: "SaveAdaptiveRulePolicy show_float p = Inr rows \<longleftrightarrow> acceptable p \<and> rows = policy_rows show_float p"
  by (auto simp: SaveAdaptiveRulePolicy_def acceptable_def)

section \<open>Which failures are learned from\<close>

definition adaptiveFailureEligible :: "int \<Rightarrow> string \<Rightarrow> bool" where
  "adaptiveFailureEligible status errorClass \<longleftrightarrow>
     status \<in> {400, 403, 422, 451}
     \<or> status = 200 \<and> (errorClass = ''UPSTREAM_MODEL_ERROR'' \<or> errorClass = ''UPSTREAM_STREAM_ERROR'')"

definition adaptiveLearningQueueSize :: nat where "adaptiveLearningQueueSize = 512"
definition adaptiveRequestTextLimit :: nat where "adaptiveRequestTextLimit = 32768"

record adaptiveFailureSample =
  fs_RequestID :: string
  fs_RouteSlug :: string
  fs_AuditProfileID :: "int option"
  fs_RequestText :: string
  fs_ProviderError :: string
  fs_ProviderErrorClass :: string
  fs_UpstreamStatus :: int
  fs_UserDigest :: string

text \<open>
  The error text of a provider: cut, made valid, redacted (the credential redaction of the
  diagnostics and the secret patterns are regular expressions), without control characters.
  A control character is a single byte, so the map over runes is one over bytes.
\<close>

definition no_control :: "char \<Rightarrow> char" where
  "no_control c = (if byte c < 32 \<and> c \<notin> {CHR 0x0A, CHR 0x0D, CHR 0x09} then CHR '' '' else c)"

definition sanitizeAdaptiveProviderError :: "(string \<Rightarrow> string) \<Rightarrow> (string \<Rightarrow> string) list \<Rightarrow> string \<Rightarrow> string" where
  "sanitizeAdaptiveProviderError redact secrets body =
     truncateString (trim_space (List.map no_control
       (foldl (\<lambda>s f. f s) (redact (to_valid_utf8 (take adaptiveProviderErrorLimit body))) secrets)))
     adaptiveProviderErrorLimit"

text \<open>
  \<open>ObserveUpstreamFailure\<close>: \<open>extract\<close> is \<open>ExtractAuditText\<close>, \<open>digest\<close> the keyed digest of the
  client. The queue is a buffered channel; a full queue drops the sample.
\<close>

definition failure_sample ::
    "(string \<Rightarrow> string) \<Rightarrow> (string \<Rightarrow> string) list \<Rightarrow> (string \<Rightarrow> nat \<Rightarrow> string) \<Rightarrow> (string \<Rightarrow> string) \<Rightarrow> AdaptiveRulePolicy \<Rightarrow>
     Route \<Rightarrow> string \<Rightarrow> string \<Rightarrow> string \<Rightarrow> int \<Rightarrow> string \<Rightarrow> string \<Rightarrow> adaptiveFailureSample option" where
  "failure_sample redact secrets extract digest policy route requestID client body status errorClass providerError =
     (if \<not> po_Enabled policy \<or> \<not> adaptiveFailureEligible status errorClass then None
      else (let s = trim_space (extract body adaptiveRequestTextLimit) in
            if length s < 8 then None
            else Some \<lparr>fs_RequestID = requestID, fs_RouteSlug = rt_Slug route, fs_AuditProfileID = rt_AuditProfileID route,
                       fs_RequestText = s, fs_ProviderError = sanitizeAdaptiveProviderError redact secrets providerError,
                       fs_ProviderErrorClass = truncateString errorClass 100, fs_UpstreamStatus = status,
                       fs_UserDigest = (if client = [] then [] else take 40 (digest client))\<rparr>))"

definition ObserveUpstreamFailure ::
    "adaptiveFailureSample option \<Rightarrow> adaptiveFailureSample list \<Rightarrow> adaptiveFailureSample list" where
  "ObserveUpstreamFailure sample queue =
     (case sample of None \<Rightarrow> queue | Some x \<Rightarrow> if length queue < adaptiveLearningQueueSize then queue @ [x] else queue)"

lemma observed_bounded: "length queue \<le> adaptiveLearningQueueSize \<Longrightarrow> length (ObserveUpstreamFailure x queue) \<le> adaptiveLearningQueueSize"
  by (auto simp: ObserveUpstreamFailure_def split: option.split)

lemma sampleD:
  assumes "failure_sample redact secrets extract digest policy route requestID client body status errorClass providerError = Some x"
  shows "po_Enabled policy" "adaptiveFailureEligible status errorClass" "8 \<le> length (fs_RequestText x)"
    "fs_UpstreamStatus x = status"
  using assms by (auto simp: failure_sample_def Let_def split: if_splits)

section \<open>Saved and loaded\<close>

lemma foldl_field:
  assumes "\<And>p row. get (step p row) = (if fst row = k then rd (snd row) (get p) else get p)" "distinct (map fst rows)"
  shows "get (foldl step p rows) = (case lookup rows k of None \<Rightarrow> get p | Some raw \<Rightarrow> rd raw (get p))"
  using assms(2)
proof (induction rows arbitrary: p)
  case (Cons row rows)
  have "lookup rows k = None" if "fst row = k" using Cons.prems that by (simp add: map_of_eq_None_iff)
  with Cons show ?case by (cases row) (auto simp: assms(1) split: option.split)
qed simp

text \<open>
  What the column keeps of a written value (\<open>stored\<close>): truth values and integers as they are, and a
  number whose reading gives the number back.
\<close>

definition keeps_text :: "(string \<Rightarrow> string) \<Rightarrow> (rat \<Rightarrow> string) \<Rightarrow> (string \<Rightarrow> rat option) \<Rightarrow> AdaptiveRulePolicy \<Rightarrow> bool" where
  "keeps_text stored show_float parse p \<longleftrightarrow>
     (\<forall>b. stored (bool_text b) = bool_text b)
     \<and> stored (dec_int (po_MinEvidence p)) = dec_int (po_MinEvidence p)
     \<and> stored (dec_int (po_MinDistinctUsers p)) = dec_int (po_MinDistinctUsers p)
     \<and> (case json_unmarshal (stored (show_float (po_MinConfidence p))) of
          Some (JNum l) \<Rightarrow> parse l = Some (po_MinConfidence p) | _ \<Rightarrow> False)"

lemma read_bool_text [simp]: "read_bool (bool_text b) old = b"
proof -
  have "json_unmarshal ''true'' = Some (JBool True)" "json_unmarshal ''false'' = Some (JBool False)" by code_simp+
  then show ?thesis by (simp add: read_bool_def bool_text_def)
qed

lemma num_value_digits:
  assumes "\<forall>x \<in> set s. is_digit x"
  shows "num_value s = of_nat (dec_value 0 s)"
proof -
  have p: "\<not> is_prefix ''-'' s" using assms by (cases s) (auto simp: is_digit_def)
  have t: "takeWhile is_digit s = s" "dropWhile is_digit s = []" using assms by auto
  show ?thesis unfolding num_value_def by (simp add: p t exponent_value_def)
qed

lemma small_number: "0 \<le> i \<Longrightarrow> i \<le> 1000 \<Longrightarrow> float_finite (dec_int i)"
proof -
  assume i: "0 \<le> i" "i \<le> 1000"
  have "num_value (dec_nat (nat i)) = of_nat (dec_value 0 (dec_nat (nat i)))"
    by (rule num_value_digits) (use dec_nat_digits [of "nat i"] in \<open>simp add: list_all_iff\<close>)
  with i have "num_value (dec_int i) = of_int i" by (simp add: dec_int_def dec_value_dec_nat)
  moreover have "\<bar>of_int i :: rat\<bar> \<le> 1000" using i by simp
  moreover have "(1000 :: rat) < 2 ^ 1024 - 2 ^ 970" by simp
  ultimately show ?thesis unfolding float_finite_def by linarith
qed

lemma unmarshal_small:
  assumes "0 \<le> i" "i \<le> 1000"
  shows "json_unmarshal (dec_int i) = Some (JNum (dec_int i))"
proof -
  have "parse_value json_depth (dec_int i) = Some (JNum (dec_int i), [])"
    by (rule renders_read [OF renders_int]) simp
  then show ?thesis using small_number [OF assms] by (simp add: json_unmarshal_def skip_ws_def)
qed

lemma read_int_dec [simp]: "0 \<le> i \<Longrightarrow> i \<le> 1000 \<Longrightarrow> read_int (dec_int i) old = i"
proof -
  assume i: "0 \<le> i" "i \<le> 1000"
  then have "is_int64 i" by (simp add: is_int64_def min_int64_def max_int64_def)
  with unmarshal_small [OF i] show ?thesis by (simp add: read_int_def parse_int64_dec)
qed

lemma policy_row_fields:
  "po_Enabled (policy_row parse p row) = (if fst row = ''cyber_adaptive_learning_enabled''
     then read_bool (snd row) (po_Enabled p) else po_Enabled p)"
  "po_AutoPromote (policy_row parse p row) = (if fst row = ''cyber_adaptive_auto_promote''
     then read_bool (snd row) (po_AutoPromote p) else po_AutoPromote p)"
  "po_MinConfidence (policy_row parse p row) = (if fst row = ''cyber_adaptive_min_confidence''
     then read_float parse (snd row) (po_MinConfidence p) else po_MinConfidence p)"
  "po_MinEvidence (policy_row parse p row) = (if fst row = ''cyber_adaptive_min_evidence''
     then read_int (snd row) (po_MinEvidence p) else po_MinEvidence p)"
  "po_MinDistinctUsers (policy_row parse p row) = (if fst row = ''cyber_adaptive_min_distinct_users''
     then read_int (snd row) (po_MinDistinctUsers p) else po_MinDistinctUsers p)"
  "po_AutoBlock (policy_row parse p row) = (if fst row = ''cyber_adaptive_auto_block''
     then read_bool (snd row) (po_AutoBlock p) else po_AutoBlock p)"
  by (cases row, simp add: policy_row_def)+

lemma policy_read_back:
  assumes "SaveAdaptiveRulePolicy show_float p = Inr written" and "keeps_text stored show_float parse p"
    and "mset rows = mset (map (\<lambda>(k, v). (k, stored v)) written)"
  shows "LoadAdaptiveRulePolicy parse rows = p"
proof -
  note ok = assms(1) [unfolded saved_rows, THEN conjunct1, unfolded acceptable_def]
  let ?w = "map (\<lambda>(k, v). (k, stored v)) written"
  have w: "written = policy_rows show_float p" using assms(1) by (simp add: saved_rows)
  have dw: "distinct (map fst ?w)" by (simp add: w policy_rows_def)
  have "mset (map fst rows) = mset (map fst ?w)" using assms(3) by (metis mset_map)
  with dw have d: "distinct (map fst rows)" using mset_eq_imp_distinct_iff by blast
  have l: "lookup rows k = lookup ?w k" for k
    using map_of_inject_set [OF d dw] mset_eq_setD [OF assms(3)] by simp
  note k = assms(2) [unfolded keeps_text_def]
  have float: "read_float parse (stored (show_float (po_MinConfidence p))) old = po_MinConfidence p" for old
    using k by (auto simp: read_float_def split: option.splits json.splits)
  note field = foldl_field [where get = po_Enabled, OF policy_row_fields(1) d, unfolded l]
    foldl_field [where get = po_AutoPromote, OF policy_row_fields(2) d, unfolded l]
    foldl_field [where get = po_MinConfidence and rd = "read_float parse", OF policy_row_fields(3) d, unfolded l]
    foldl_field [where get = po_MinEvidence, OF policy_row_fields(4) d, unfolded l]
    foldl_field [where get = po_MinDistinctUsers, OF policy_row_fields(5) d, unfolded l]
    foldl_field [where get = po_AutoBlock, OF policy_row_fields(6) d, unfolded l]
  let ?q = "foldl (policy_row parse) defaultAdaptiveRulePolicy rows"
  have "po_Enabled ?q = po_Enabled p" unfolding field(1) using k by (simp add: w policy_rows_def)
  moreover have "po_AutoPromote ?q = po_AutoPromote p" unfolding field(2) using k by (simp add: w policy_rows_def)
  moreover have "po_MinConfidence ?q = po_MinConfidence p" unfolding field(3) using float by (simp add: w policy_rows_def)
  moreover have "po_MinEvidence ?q = po_MinEvidence p" unfolding field(4) using k ok by (simp add: w policy_rows_def)
  moreover have "po_MinDistinctUsers ?q = po_MinDistinctUsers p" unfolding field(5) using k ok by (simp add: w policy_rows_def)
  moreover have "po_AutoBlock ?q = po_AutoBlock p" unfolding field(6) using k by (simp add: w policy_rows_def)
  ultimately have "?q = p" by simp
  with ok show ?thesis by (simp add: LoadAdaptiveRulePolicy_def in_range_def Let_def)
qed

section \<open>Indicators\<close>

text \<open>
  The parts of the standard library and the regular expressions that the indicator guard uses:
  \<open>strings.ToLower\<close>, \<open>net.ParseIP\<close>, the host pattern, scheme and host of \<open>url.Parse\<close>, the secret
  patterns, and the classes of \<open>unicode\<close>; \<open>None\<close> stands for the replacement rune.
\<close>

record indicator_lib =
  il_lower :: "string \<Rightarrow> string"
  il_ip :: "string \<Rightarrow> bool"
  il_host :: "string \<Rightarrow> bool"
  il_url :: "string \<Rightarrow> (string \<times> string) option"
  il_secret :: "string \<Rightarrow> bool"
  il_digit :: "nat option \<Rightarrow> bool"
  il_letter :: "nat option \<Rightarrow> bool"
  il_space :: "nat option \<Rightarrow> bool"

definition is_hex :: "char \<Rightarrow> bool" where
  "is_hex c \<longleftrightarrow> is_digit c \<or> (97 \<le> byte c \<and> byte c \<le> 102) \<or> (65 \<le> byte c \<and> byte c \<le> 70)"

definition b64_char :: "char \<Rightarrow> bool" where
  "b64_char c \<longleftrightarrow> is_upper c \<or> is_lower c \<or> is_digit c \<or> c \<in> set ''+/=_-''"

definition uuid_shape :: "(char \<Rightarrow> bool) list" where
  "uuid_shape = replicate 8 is_hex @ [\<lambda>c. c = CHR ''-''] @ replicate 4 is_hex @ [\<lambda>c. c = CHR ''-'']
     @ [\<lambda>c. c \<in> set ''12345''] @ replicate 3 is_hex @ [\<lambda>c. c = CHR ''-''] @ [\<lambda>c. c \<in> set ''89abAB'']
     @ replicate 3 is_hex @ [\<lambda>c. c = CHR ''-''] @ replicate 12 is_hex"

definition adaptiveUUID :: "string \<Rightarrow> bool" where "adaptiveUUID s \<longleftrightarrow> list_all2 (\<lambda>p c. p c) uuid_shape s"
definition adaptiveHex :: "string \<Rightarrow> bool" where "adaptiveHex s \<longleftrightarrow> 20 \<le> length s \<and> list_all is_hex s"
definition adaptiveB64 :: "string \<Rightarrow> bool" where "adaptiveB64 s \<longleftrightarrow> 24 \<le> length s \<and> list_all b64_char s"

text \<open>
  The share of digits is compared exactly; with at most 64 runes the quotient of two
  \<open>float64\<close> exceeds the constant 0.30 exactly when the fraction exceeds three tenths.
\<close>

definition machine_like :: "indicator_lib \<Rightarrow> string \<Rightarrow> bool" where
  "machine_like lib v =
     (let rs = runes v; digits = length (filter (il_digit lib) rs);
          letters = length (filter (\<lambda>r. \<not> il_digit lib r \<and> il_letter lib r) rs);
          symbols = length (filter (\<lambda>r. \<not> il_digit lib r \<and> \<not> il_letter lib r \<and> \<not> il_space lib r) rs);
          total = digits + letters + symbols
      in total = 0 \<or> (digits \<ge> 6 \<and> 10 * digits > 3 * total)
         \<or> (total \<ge> 24 \<and> letters > 0 \<and> symbols > 0 \<and> CHR '' '' \<notin> set v))"

definition adaptiveIndicatorLooksSensitive :: "indicator_lib \<Rightarrow> string \<Rightarrow> bool" where
  "adaptiveIndicatorLooksSensitive lib v0 =
     (let v = trim_space v0 in
      v = [] \<or> length v > 64 \<or> il_ip lib v \<or> adaptiveUUID v \<or> adaptiveHex v \<or> adaptiveB64 v \<or> il_host lib v
      \<or> (case il_url lib v of Some (scheme, host) \<Rightarrow> scheme \<noteq> [] \<and> host \<noteq> [] | None \<Rightarrow> False)
      \<or> CHR ''@'' \<in> set v \<or> il_secret lib v \<or> machine_like lib v)"

definition indicator_ok :: "indicator_lib \<Rightarrow> string \<Rightarrow> string \<Rightarrow> bool" where
  "indicator_ok lib lowerRequest i \<longleftrightarrow>
     \<not> (i = [] \<or> length i > 80 \<or> CHR 0x0D \<in> set i \<or> CHR 0x0A \<in> set i \<or> adaptiveIndicatorLooksSensitive lib i)
     \<and> \<not> contains (to_upper i) ''ROLE=''
     \<and> \<not> (rune_count i < 2 \<or> isASCIIText i \<and> rune_count i < 4)
     \<and> contains lowerRequest (il_lower lib i)"

fun pick_indicators :: "indicator_lib \<Rightarrow> string \<Rightarrow> string list \<Rightarrow> string list \<Rightarrow> string list" where
  "pick_indicators lib lowerRequest [] picked = picked"
| "pick_indicators lib lowerRequest (r # raw) picked =
     (let i = trim_space (to_valid_utf8 r) in
      if \<not> indicator_ok lib lowerRequest i \<or> il_lower lib i \<in> il_lower lib ` set picked
      then pick_indicators lib lowerRequest raw picked
      else if length picked + 1 = 4 then picked @ [i]
      else pick_indicators lib lowerRequest raw (picked @ [i]))"

definition validateAdaptiveIndicators :: "indicator_lib \<Rightarrow> string \<Rightarrow> string list \<Rightarrow> string list" where
  "validateAdaptiveIndicators lib requestText raw =
     sort_key (il_lower lib) (pick_indicators lib (il_lower lib requestText) raw [])"

section \<open>The pattern\<close>

definition QuoteMeta :: "string \<Rightarrow> string" where
  "QuoteMeta s = concat (map (\<lambda>c. if c \<in> set [CHR 0x5C, CHR ''.'', CHR ''+'', CHR ''*'', CHR ''?'', CHR ''('', CHR '')'', CHR ''|'',
     CHR ''['', CHR '']'', CHR ''{'', CHR ''}'', CHR ''^'', CHR ''$''] then [CHR 0x5C, c] else [c]) s)"

definition near :: "string \<Rightarrow> string \<Rightarrow> string" where
  "near l r = ''(?:'' @ QuoteMeta l @ '').{0,240}(?:'' @ QuoteMeta r @ '')''"

fun pattern_pairs :: "string list \<Rightarrow> string list" where
  "pattern_pairs [] = []"
| "pattern_pairs (x # xs) = concat (map (\<lambda>y. [near x y, near y x]) xs) @ pattern_pairs xs"

definition indicator_pattern :: "string list \<Rightarrow> string" where
  "indicator_pattern indicators = ''(?is)(?:'' @ join ''|'' (pattern_pairs indicators) @ '')''"

definition buildAdaptiveIndicatorPattern :: "(string \<Rightarrow> bool) \<Rightarrow> string list \<Rightarrow> string" where
  "buildAdaptiveIndicatorPattern compiles indicators =
     (if length indicators < 2 then []
      else if length (indicator_pattern indicators) > 8192 \<or> \<not> compiles (indicator_pattern indicators) then []
      else indicator_pattern indicators)"

section \<open>What an accepted indicator is\<close>

lemma pick_indicators_sound:
  assumes "\<forall>i \<in> set picked. indicator_ok lib low i" "distinct (map (il_lower lib) picked)" "length picked < 4"
  shows "(\<forall>i \<in> set (pick_indicators lib low raw picked). indicator_ok lib low i)
    \<and> distinct (map (il_lower lib) (pick_indicators lib low raw picked)) \<and> length (pick_indicators lib low raw picked) \<le> 4"
  using assms
proof (induction raw arbitrary: picked)
  case (Cons r raw)
  let ?i = "trim_space (to_valid_utf8 r)"
  show ?case
  proof (cases "\<not> indicator_ok lib low ?i \<or> il_lower lib ?i \<in> il_lower lib ` set picked")
    case True
    then have "pick_indicators lib low (r # raw) picked = pick_indicators lib low raw picked"
      by (simp only: pick_indicators.simps Let_def if_True)
    with Cons show ?thesis by simp
  next
    case False
    then have "pick_indicators lib low (r # raw) picked
        = (if length picked + 1 = 4 then picked @ [?i] else pick_indicators lib low raw (picked @ [?i]))"
      by (simp only: pick_indicators.simps Let_def if_False)
    moreover have "\<forall>i \<in> set (picked @ [?i]). indicator_ok lib low i" "distinct (map (il_lower lib) (picked @ [?i]))"
      using False Cons.prems by auto
    moreover have "length (picked @ [?i]) \<le> 4" using Cons.prems(3) by simp
    moreover have "length (picked @ [?i]) < 4" if "length picked + 1 \<noteq> 4" using Cons.prems(3) that by simp
    ultimately show ?thesis using Cons.IH [of "picked @ [?i]"] by (cases "length picked + 1 = 4") presburger+
  qed
qed simp

lemma sort_key_length [simp]: "length (sort_key f xs) = length xs"
  by (metis mset_sort size_mset)

lemma distinct_map_sort_key: "distinct (map f (sort_key f xs)) \<longleftrightarrow> distinct (map f xs)"
  by (metis mset_map mset_sort mset_eq_imp_distinct_iff)

lemma indicators_sound:
  assumes "is = validateAdaptiveIndicators lib requestText raw"
  shows "i \<in> set is \<Longrightarrow> indicator_ok lib (il_lower lib requestText) i" "distinct (map (il_lower lib) is)" "length is \<le> 4"
    "sorted (map (il_lower lib) is)"
  using pick_indicators_sound [of "[]" lib "il_lower lib requestText" raw] assms
  by (auto simp: validateAdaptiveIndicators_def distinct_map_sort_key)

lemma ok_length: "indicator_ok lib low i \<Longrightarrow> length i \<le> 80"
  by (simp add: indicator_ok_def)

lemma length_QuoteMeta: "length (QuoteMeta s) \<le> 2 * length s"
  by (induction s) (simp_all add: QuoteMeta_def)

lemma length_near: "length (near l r) \<le> 17 + 2 * length l + 2 * length r"
  using length_QuoteMeta [of l] length_QuoteMeta [of r] by (simp add: near_def)

lemma pattern_pairs_bounds:
  assumes "\<forall>i \<in> set is. length i \<le> 80"
  shows "p \<in> set (pattern_pairs is) \<Longrightarrow> length p \<le> 337" "length (pattern_pairs is) \<le> length is * length is"
proof -
  show "p \<in> set (pattern_pairs is) \<Longrightarrow> length p \<le> 337"
    using assms
  proof (induction "is")
    case (Cons x xs)
    have "length (near a b) \<le> 337" if "length a \<le> 80" "length b \<le> 80" for a b
      using length_near [of a b] that by simp
    with Cons show ?case by auto
  qed simp
  show "length (pattern_pairs is) \<le> length is * length is"
  proof (induction "is")
    case (Cons x xs)
    have "length (concat (map (\<lambda>y. [near x y, near y x]) xs)) = 2 * length xs" by (induction xs) auto
    with Cons show ?case by simp
  qed simp
qed

lemma length_join: "length (join sep xs) \<le> sum_list (map length xs) + length xs * length sep"
  by (induction sep xs rule: join.induct) auto

lemma pattern_fits:
  assumes "\<forall>i \<in> set is. length i \<le> 80" "length is \<le> 4"
  shows "length (indicator_pattern is) \<le> 8192"
proof -
  have n: "length (pattern_pairs is) \<le> 16"
    using pattern_pairs_bounds(2) [OF assms(1)] mult_le_mono [OF assms(2) assms(2)] by simp
  have "sum_list (map length (pattern_pairs is)) \<le> length (pattern_pairs is) * 337"
    using sum_list_mono [of "pattern_pairs is" length "\<lambda>_. 337"] pattern_pairs_bounds(1) [OF assms(1)]
    by (simp add: sum_list_triv)
  with n length_join [of "''|''" "pattern_pairs is"] show ?thesis by (simp add: indicator_pattern_def)
qed

section \<open>The answer of the classifying model\<close>

record adaptiveModelResult =
  lr_IsCyber :: bool
  lr_Category :: string
  lr_Confidence :: rat
  lr_Indicators :: "string list"
  lr_Reason :: string

definition no_result :: adaptiveModelResult where
  "no_result = \<lparr>lr_IsCyber = False, lr_Category = [], lr_Confidence = 0, lr_Indicators = [], lr_Reason = []\<rparr>"

text \<open>
  \<open>json.Unmarshal\<close> into the struct: keys match without regard to case, in the order of the text, a
  later one overriding; \<open>null\<close> leaves a field (and empties the slice); a value of another type makes
  the decoding fail. \<open>parse\<close> is \<open>strconv.ParseFloat\<close>.
\<close>

fun indicator_texts :: "json list \<Rightarrow> string list option" where
  "indicator_texts [] = Some []"
| "indicator_texts (JStr s # vs) = map_option ((#) s) (indicator_texts vs)"
| "indicator_texts (JNull # vs) = map_option ((#) []) (indicator_texts vs)"
| "indicator_texts (_ # vs) = None"

definition result_field ::
    "(string \<Rightarrow> rat option) \<Rightarrow> adaptiveModelResult option \<Rightarrow> string \<times> json \<Rightarrow> adaptiveModelResult option" where
  "result_field parse acc kv =
     (case acc of None \<Rightarrow> None
      | Some r \<Rightarrow>
        (case kv of (k, v) \<Rightarrow>
          if equal_fold k ''is_cyber'' then
            (case v of JBool b \<Rightarrow> Some (r\<lparr>lr_IsCyber := b\<rparr>) | JNull \<Rightarrow> Some r | _ \<Rightarrow> None)
          else if equal_fold k ''category'' then
            (case v of JStr s \<Rightarrow> Some (r\<lparr>lr_Category := s\<rparr>) | JNull \<Rightarrow> Some r | _ \<Rightarrow> None)
          else if equal_fold k ''confidence'' then
            (case v of JNum l \<Rightarrow> map_option (\<lambda>c. r\<lparr>lr_Confidence := c\<rparr>) (parse l) | JNull \<Rightarrow> Some r | _ \<Rightarrow> None)
          else if equal_fold k ''indicators'' then
            (case v of JArr vs \<Rightarrow> map_option (\<lambda>is. r\<lparr>lr_Indicators := is\<rparr>) (indicator_texts vs)
             | JNull \<Rightarrow> Some (r\<lparr>lr_Indicators := []\<rparr>) | _ \<Rightarrow> None)
          else if equal_fold k ''reason'' then
            (case v of JStr s \<Rightarrow> Some (r\<lparr>lr_Reason := s\<rparr>) | JNull \<Rightarrow> Some r | _ \<Rightarrow> None)
          else Some r))"

text \<open>The members of an object in the order of its text, repeated keys included.\<close>

definition raw_members :: "string \<Rightarrow> (string \<times> json) list" where
  "raw_members s =
     (case skip_ws s of [] \<Rightarrow> []
      | c # r \<Rightarrow> (case parse_members (json_depth - 1) r of Some (ms, t) \<Rightarrow> ms | None \<Rightarrow> []))"

definition decode_result :: "(string \<Rightarrow> rat option) \<Rightarrow> string \<Rightarrow> adaptiveModelResult option" where
  "decode_result parse content =
     (case parse_value json_depth content of
        Some (v, t) \<Rightarrow>
          if skip_ws t \<noteq> [] then None
          else (case v of JNull \<Rightarrow> Some no_result
                | JObj ms \<Rightarrow> foldl (result_field parse) (Some no_result) (raw_members content)
                | _ \<Rightarrow> None)
      | None \<Rightarrow> None)"

definition normalizeAdaptiveModelResult :: "adaptiveModelResult \<Rightarrow> adaptiveModelResult" where
  "normalizeAdaptiveModelResult r =
     r\<lparr>lr_Confidence := clampConfidence (lr_Confidence r), lr_Category := to_lower (trim_space (lr_Category r)),
       lr_Reason := truncateString (trim_space (lr_Reason r)) 500\<rparr>"

fun first_decoded :: "('a \<Rightarrow> 'b option) \<Rightarrow> 'a list \<Rightarrow> 'b option" where
  "first_decoded f [] = None"
| "first_decoded f (x # xs) = (case f x of Some y \<Rightarrow> Some y | None \<Rightarrow> first_decoded f xs)"

datatype classify_error =
  KeyUnreadable crypto_error | ExchangeFailed | BodyUnreadable | BadStatus int | BadCompletion string | EmptyContent | NoResult

definition parseAdaptiveModelResponseContent ::
    "(string \<Rightarrow> rat option) \<Rightarrow> string \<Rightarrow> classify_error + adaptiveModelResult" where
  "parseAdaptiveModelResponseContent parse content0 =
     (let content = trim_space (to_valid_utf8 content0) in
      if content = [] then Inl EmptyContent
      else (case decode_result parse content of
              Some r \<Rightarrow> Inr (normalizeAdaptiveModelResult r)
            | None \<Rightarrow>
                (case first_decoded (decode_result parse) (rev (balancedJSONObjects content)) of
                   Some r \<Rightarrow> Inr (normalizeAdaptiveModelResult r)
                 | None \<Rightarrow> Inl NoResult)))"

section \<open>The question\<close>

text \<open>
  What the learner finds around it: its prompt and the output directive, the redactor of
  diagnostics, the headings of a task history, number reading and writing, the engine's settings,
  the cipher, and the exchange, \<open>None\<close> when it fails.
\<close>

record learn_env =
  le_prompt :: string
  le_directive :: string
  le_sanitize :: "string \<Rightarrow> string"
  le_history :: "string \<Rightarrow> nat list"
  le_parse :: "string \<Rightarrow> rat option"
  le_number :: "string \<Rightarrow> string"
  le_outputMaxTokens :: int
  le_disableThinking :: bool
  le_longThreshold :: int
  le_longTimeout :: int
  le_crypto :: crypto
  le_masterKey :: string
  le_exchange :: "model_request \<Rightarrow> http_reply option"

definition appendFastAuditDirective :: "string \<Rightarrow> string \<Rightarrow> string" where
  "appendFastAuditDirective directive p0 =
     (let p = trim_space p0 in
      if contains p ''Mandatory audit output mode:'' then p
      else if p = [] then directive else p @ [CHR 0x0A, CHR 0x0A] @ directive)"

text \<open>\<open>json.Marshal\<close> of a decoded value writes every number anew.\<close>

fun renumber :: "(string \<Rightarrow> string) \<Rightarrow> json \<Rightarrow> json" where
  "renumber num (JNum l) = JNum (num l)"
| "renumber num (JArr vs) = JArr (map (renumber num) vs)"
| "renumber num (JObj ms) = JObj (map (\<lambda>(k, v). (k, renumber num v)) ms)"
| "renumber num v = v"

definition question_text :: "adaptiveFailureSample \<Rightarrow> string" where
  "question_text x = marshal (JObj
     [(''upstream_status'', json_int (fs_UpstreamStatus x)), (''error_class'', JStr (fs_ProviderErrorClass x)),
      (''request'', JStr (truncateString (fs_RequestText x) adaptiveRequestTextLimit)),
      (''provider_error'', JStr (truncateString (fs_ProviderError x) adaptiveProviderErrorLimit))])"

definition question_payload :: "learn_env \<Rightarrow> AuditProfile \<Rightarrow> adaptiveFailureSample \<Rightarrow> payload" where
  "question_payload e p x =
     (let extra = (case ap_Extra p of None \<Rightarrow> [] | Some ms \<Rightarrow>
            filter (\<lambda>(k, v). \<not> isInternalAuditExtraKey k \<and> k \<notin> {''model'', ''messages'', ''stream''})
              (map (\<lambda>(k, v). (k, renumber (le_number e) v)) ms));
          m0 = [(''model'', JStr (ap_Model p)), (''temperature'', json_int 0), (''max_tokens'', json_int (le_outputMaxTokens e)),
                (''messages'', JArr [message ''system'' (appendFastAuditDirective (le_directive e) (le_prompt e)),
                                     message ''user'' (encodeAuditRequestDocument (le_history e) (question_text x))])]
      in applyFastAuditDefaults (le_outputMaxTokens e) (le_disableThinking e) p (put_all extra m0))"

definition classifyAdaptiveFailure ::
    "learn_env \<Rightarrow> AuditProfile \<Rightarrow> adaptiveFailureSample \<Rightarrow> classify_error + adaptiveModelResult" where
  "classifyAdaptiveFailure e p x =
     (case (if ap_APIKeyCiphertext p = [] then Inr []
            else Decrypt (le_crypto e) (le_masterKey e) ''audit-profile-api-key-v1'' (ap_APIKeyCiphertext p)) of
        Inl err \<Rightarrow> Inl (KeyUnreadable err)
      | Inr key \<Rightarrow>
        (case le_exchange e \<lparr>hq_URL = model_endpoint (ap_Endpoint p),
                hq_Authorization = (if key = [] then None else Some (''Bearer '' @ key)),
                hq_Body = marshal (JObj (question_payload e p x)),
                hq_TimeoutNS = min 20000000000 (auditRequestTimeout (le_longThreshold e) (le_longTimeout e) p
                                                  (int (length (question_text x))))\<rparr> of
           None \<Rightarrow> Inl ExchangeFailed
         | Some reply \<Rightarrow>
           (case hr_Body reply of Inl err \<Rightarrow> Inl BodyUnreadable
            | Inr body \<Rightarrow>
              if hr_Status reply < 200 \<or> hr_Status reply \<ge> 300 then Inl (BadStatus (hr_Status reply))
              else (case extractAuditCompletionResponse (le_sanitize e) (take 1048576 body) of
                      Inl err \<Rightarrow> Inl (BadCompletion err)
                    | Inr c \<Rightarrow> parseAdaptiveModelResponseContent (le_parse e) (co_Content c)))))"

end
