(* ===== verification/Adaptive_Store.thy ===== *)
theory Adaptive_Store
  imports Adaptive_Rules
begin

text \<open>
  The tables of learned candidates and of rules, and the operations on them
  (\<open>adaptive_rules.go\<close>, \<open>adaptive_admin.go\<close>, the rules of \<open>store.go\<close>). Each operation is one transaction
  of PostgreSQL and so one step; the workers of any number of gateways and the administrators
  interleave freely. Time stamps are left out.
\<close>

section \<open>The tables\<close>

record CyberRuleCandidate =
  cc_ID :: int
  cc_Fingerprint :: string
  cc_ProposedCode :: string
  cc_Category :: string
  cc_Pattern :: string
  cc_PatternType :: string
  cc_ProposedAction :: string
  cc_Confidence :: rat
  cc_Model :: string
  cc_RouteSlug :: string
  cc_ProviderErrorClass :: string
  cc_UpstreamStatus :: int
  cc_Reason :: string
  cc_EvidenceCount :: int
  cc_DistinctUsers :: int
  cc_Status :: string
  cc_PromotedRuleID :: "int option"

text \<open>
  The tables of candidates, of the users seen with each, and of rules; the sequences of the two ids.
\<close>

record learn_db =
  db_candidates :: "CyberRuleCandidate list"
  db_users :: "(int \<times> string) list"
  db_rules :: "CyberRule list"
  db_nextCandidate :: int
  db_nextRule :: int

text \<open>PostgreSQL takes a \<open>TEXT\<close> that is valid UTF-8 without a zero byte, and an \<open>INTEGER\<close> of 32 bits.\<close>

definition pg_text :: "string \<Rightarrow> bool" where
  "pg_text s \<longleftrightarrow> valid_utf8 s \<and> CHR 0x00 \<notin> set s"

definition max_int32 :: int where "max_int32 = 2147483647"

definition storable :: "CyberRuleCandidate \<Rightarrow> bool" where
  "storable c \<longleftrightarrow> list_all pg_text [cc_Fingerprint c, cc_ProposedCode c, cc_Category c, cc_Pattern c, cc_PatternType c,
     cc_ProposedAction c, cc_Model c, cc_RouteSlug c, cc_ProviderErrorClass c, cc_Reason c]"

section \<open>Learning a candidate\<close>

definition new_candidate :: "int \<Rightarrow> CyberRuleCandidate \<Rightarrow> CyberRuleCandidate" where
  "new_candidate i c = c\<lparr>cc_ID := i, cc_EvidenceCount := 1, cc_DistinctUsers := 0, cc_Status := ''candidate'',
     cc_PromotedRuleID := None\<rparr>"

definition seen_again :: "CyberRuleCandidate \<Rightarrow> CyberRuleCandidate \<Rightarrow> CyberRuleCandidate" where
  "seen_again c old =
     old\<lparr>cc_Confidence := max (cc_Confidence old) (cc_Confidence c), cc_Model := cc_Model c, cc_RouteSlug := cc_RouteSlug c,
        cc_ProviderErrorClass := cc_ProviderErrorClass c, cc_UpstreamStatus := cc_UpstreamStatus c, cc_Reason := cc_Reason c,
        cc_EvidenceCount := cc_EvidenceCount old + 1,
        cc_Status := (if cc_Status old = ''candidate'' then ''shadow'' else cc_Status old)\<rparr>"

definition update_where :: "('a \<Rightarrow> bool) \<Rightarrow> ('a \<Rightarrow> 'a) \<Rightarrow> 'a list \<Rightarrow> 'a list" where
  "update_where p f = map (\<lambda>x. if p x then f x else x)"

definition users_of :: "int \<Rightarrow> (int \<times> string) list \<Rightarrow> int" where
  "users_of i users = int (length (filter (\<lambda>u. fst u = i) users))"

text \<open>
  The first statement: insert, or on a known fingerprint update. A failed statement rolls the
  transaction back; the sequence moves on either way.
\<close>

definition upsert_row :: "CyberRuleCandidate \<Rightarrow> learn_db \<Rightarrow> (CyberRuleCandidate \<times> learn_db) option" where
  "upsert_row c db =
     (let db' = db\<lparr>db_nextCandidate := db_nextCandidate db + 1\<rparr> in
      if \<not> storable c then None
      else (case find (\<lambda>r. cc_Fingerprint r = cc_Fingerprint c) (db_candidates db) of
              None \<Rightarrow> (let row = new_candidate (db_nextCandidate db) c
                       in Some (row, db'\<lparr>db_candidates := db_candidates db @ [row]\<rparr>))
            | Some old \<Rightarrow>
                if cc_EvidenceCount old + 1 > max_int32 then None
                else (let row = seen_again c old
                      in Some (row, db'\<lparr>db_candidates :=
                           update_where (\<lambda>r. cc_Fingerprint r = cc_Fingerprint c) (seen_again c) (db_candidates db)\<rparr>))))"

definition add_user :: "int \<Rightarrow> string \<Rightarrow> (int \<times> string) list \<Rightarrow> (int \<times> string) list" where
  "add_user i digest users = (if (i, digest) \<in> set users then users else users @ [(i, digest)])"

definition UpsertCyberRuleCandidate ::
    "CyberRuleCandidate \<Rightarrow> string \<Rightarrow> learn_db \<Rightarrow> (CyberRuleCandidate \<times> learn_db) option" where
  "UpsertCyberRuleCandidate c digest db =
     (case upsert_row c db of
        None \<Rightarrow> None
      | Some (row, db1) \<Rightarrow>
          if digest = [] then Some (row, db1)
          else if \<not> pg_text digest then None
          else (let users = add_user (cc_ID row) digest (db_users db1); n = users_of (cc_ID row) users
                in Some (row\<lparr>cc_DistinctUsers := n\<rparr>,
                     db1\<lparr>db_users := users,
                        db_candidates := update_where (\<lambda>r. cc_ID r = cc_ID row) (\<lambda>r. r\<lparr>cc_DistinctUsers := n\<rparr>) (db_candidates db1)\<rparr>)))"

section \<open>The administrators' operations on candidates\<close>

datatype candidate_error = InvalidCandidateStatus | CandidateNotFound

definition SetCyberRuleCandidateStatus :: "int \<Rightarrow> string \<Rightarrow> learn_db \<Rightarrow> candidate_error + learn_db" where
  "SetCyberRuleCandidateStatus i status db =
     (if status \<notin> {''candidate'', ''shadow'', ''rejected''} then Inl InvalidCandidateStatus
      else if \<not> list_ex (\<lambda>r. cc_ID r = i \<and> cc_Status r \<noteq> ''promoted'') (db_candidates db) then Inl CandidateNotFound
      else Inr (db\<lparr>db_candidates :=
             update_where (\<lambda>r. cc_ID r = i \<and> cc_Status r \<noteq> ''promoted'') (\<lambda>r. r\<lparr>cc_Status := status\<rparr>) (db_candidates db)\<rparr>))"

definition normalizeCandidateWorkflowStatus :: "string \<Rightarrow> string option" where
  "normalizeCandidateWorkflowStatus v =
     (let s = to_lower (trim_space v) in if s \<in> {''shadow'', ''rejected''} then Some s else None)"

definition normalizeManualCandidateAction :: "string \<Rightarrow> string option" where
  "normalizeManualCandidateAction v =
     (let s = to_lower (trim_space v) in if s \<in> {DecisionReview, DecisionBlock} then Some s else None)"

definition adaptiveCandidateID :: "string \<Rightarrow> int option" where
  "adaptiveCandidateID v = (case parse_int64 (trim_space v) of Some i \<Rightarrow> if i \<le> 0 then None else Some i | None \<Rightarrow> None)"

text \<open>\<open>ListCyberRuleCandidates\<close>, whose order is by times, up to that order.\<close>

definition list_limit :: "int \<Rightarrow> int" where
  "list_limit limit = min 1000 (if limit \<le> 0 then 200 else limit)"

section \<open>Promotion\<close>

definition promoted_action :: "bool \<Rightarrow> CyberRuleCandidate \<Rightarrow> string" where
  "promoted_action autoBlock c =
     (if autoBlock \<and> cc_Confidence c \<ge> 995 / 1000 \<and> cc_EvidenceCount c \<ge> 10 \<and> cc_DistinctUsers c \<ge> 3
      then DecisionBlock else DecisionReview)"

definition adaptive_rule :: "int \<Rightarrow> string \<Rightarrow> CyberRuleCandidate \<Rightarrow> CyberRule" where
  "adaptive_rule i action c =
     \<lparr>cr_ID = i, cr_Code = cc_ProposedCode c, cr_Name = ''Adaptive: '' @ cc_Category c,
      cr_Description = ''Automatically learned from repeated upstream cyber-policy failures; ''
        @ ''local audit model still reviews matches unless auto-block was explicitly enabled.'',
      cr_Category = cc_Category c, cr_Pattern = cc_Pattern c, cr_PatternType = ''regex'', cr_Action = action,
      cr_Priority = 1200, cr_Enabled = True\<rparr>"

definition overwrite_rule :: "CyberRule \<Rightarrow> CyberRule \<Rightarrow> CyberRule" where
  "overwrite_rule new old =
     old\<lparr>cr_Pattern := cr_Pattern new, cr_Description := cr_Description new, cr_Category := cr_Category new,
        cr_Action := (if cr_Action old = DecisionBlock \<or> cr_Action new = DecisionBlock then DecisionBlock else cr_Action new),
        cr_Enabled := True\<rparr>"

definition PromoteCyberRuleCandidate :: "CyberRuleCandidate \<Rightarrow> bool \<Rightarrow> learn_db \<Rightarrow> CyberRule \<times> learn_db" where
  "PromoteCyberRuleCandidate c autoBlock db =
     (let new = adaptive_rule (db_nextRule db) (promoted_action autoBlock c) c;
          (rule, rules) =
            (case find (\<lambda>r. cr_Code r = cc_ProposedCode c) (db_rules db) of
               None \<Rightarrow> (new, db_rules db @ [new])
             | Some old \<Rightarrow> (overwrite_rule new old,
                 update_where (\<lambda>r. cr_Code r = cc_ProposedCode c) (overwrite_rule new) (db_rules db)))
      in (rule, db\<lparr>db_rules := rules, db_nextRule := db_nextRule db + 1,
                  db_candidates := update_where (\<lambda>r. cc_ID r = cc_ID c)
                    (\<lambda>r. r\<lparr>cc_Status := ''promoted'', cc_PromotedRuleID := Some (cr_ID rule)\<rparr>) (db_candidates db)\<rparr>))"

datatype promote_error = BadPromoteAction | PromoteNotFound | BadPromoteStatus string | InvalidCandidateRule rule_input_error
  | CodeConflict string

definition manual_rule :: "int \<Rightarrow> string \<Rightarrow> CyberRuleCandidate \<Rightarrow> CyberRule" where
  "manual_rule i action c =
     \<lparr>cr_ID = i, cr_Code = cc_ProposedCode c, cr_Name = truncateString (''Adaptive approved: '' @ cc_Category c) 200,
      cr_Description = truncateString (''Manually approved through the Shadow-first workflow. '' @ cc_Reason c) 2000,
      cr_Category = cc_Category c, cr_Pattern = cc_Pattern c, cr_PatternType = cc_PatternType c, cr_Action = action,
      cr_Priority = 1200, cr_Enabled = True\<rparr>"

text \<open>
  The row of the candidate is locked from the first statement to the end of the transaction, so its
  status cannot change in between.
\<close>

definition PromoteCyberRuleCandidateManual ::
    "(string \<Rightarrow> bool) \<Rightarrow> int \<Rightarrow> string \<Rightarrow> learn_db \<Rightarrow> promote_error + (CyberRuleCandidate \<times> CyberRule \<times> learn_db)" where
  "PromoteCyberRuleCandidateManual compiles i requested db =
     (case normalizeManualCandidateAction requested of
        None \<Rightarrow> Inl BadPromoteAction
      | Some action \<Rightarrow>
        (case find (\<lambda>r. cc_ID r = i) (db_candidates db) of
           None \<Rightarrow> Inl PromoteNotFound
         | Some c \<Rightarrow>
           if cc_Status c \<noteq> ''candidate'' \<and> cc_Status c \<noteq> ''shadow'' then Inl (BadPromoteStatus (cc_Status c))
           else (let rule = manual_rule (db_nextRule db) action c in
             case ValidateCyberRule compiles (rule\<lparr>cr_ID := 0\<rparr>) of
               Some e \<Rightarrow> Inl (InvalidCandidateRule e)
             | None \<Rightarrow>
               if list_ex (\<lambda>r. cr_Code r = cr_Code rule) (db_rules db) then Inl (CodeConflict (cc_ProposedCode c))
               else (let promoted = (\<lambda>r. r\<lparr>cc_Status := ''promoted'', cc_ProposedAction := action,
                                              cc_PromotedRuleID := Some (cr_ID rule)\<rparr>)
                     in Inr (promoted c, rule,
                          db\<lparr>db_rules := db_rules db @ [rule], db_nextRule := db_nextRule db + 1,
                             db_candidates := update_where (\<lambda>r. cc_ID r = i) promoted (db_candidates db)\<rparr>)))))"

section \<open>The operators' rules\<close>

text \<open>
  \<open>UpsertCyberRule\<close> and \<open>DeleteCyberRule\<close>; the code of a rule is unique, and deleting a rule clears
  the references of candidates to it.
\<close>

datatype rule_store_error = DuplicateCode | RuleNotFound

definition UpsertCyberRule :: "CyberRule \<Rightarrow> learn_db \<Rightarrow> rule_store_error + (CyberRule \<times> learn_db)" where
  "UpsertCyberRule rule db =
     (if cr_ID rule = 0 then
        (if list_ex (\<lambda>r. cr_Code r = cr_Code rule) (db_rules db) then Inl DuplicateCode
         else (let row = rule\<lparr>cr_ID := db_nextRule db\<rparr>
               in Inr (row, db\<lparr>db_rules := db_rules db @ [row], db_nextRule := db_nextRule db + 1\<rparr>)))
      else if \<not> list_ex (\<lambda>r. cr_ID r = cr_ID rule) (db_rules db) then Inl RuleNotFound
      else if list_ex (\<lambda>r. cr_Code r = cr_Code rule \<and> cr_ID r \<noteq> cr_ID rule) (db_rules db) then Inl DuplicateCode
      else Inr (rule, db\<lparr>db_rules := update_where (\<lambda>r. cr_ID r = cr_ID rule) (\<lambda>_. rule) (db_rules db)\<rparr>))"

definition DeleteCyberRule :: "int \<Rightarrow> learn_db \<Rightarrow> rule_store_error + learn_db" where
  "DeleteCyberRule i db =
     (if \<not> list_ex (\<lambda>r. cr_ID r = i) (db_rules db) then Inl RuleNotFound
      else Inr (db\<lparr>db_rules := filter (\<lambda>r. cr_ID r \<noteq> i) (db_rules db),
                  db_candidates := update_where (\<lambda>r. cc_PromotedRuleID r = Some i) (\<lambda>r. r\<lparr>cc_PromotedRuleID := None\<rparr>)
                    (db_candidates db)\<rparr>))"

definition ListCyberRules :: "bool \<Rightarrow> learn_db \<Rightarrow> CyberRule list" where
  "ListCyberRules enabledOnly db = sort_key rule_key (filter (\<lambda>r. \<not> enabledOnly \<or> cr_Enabled r) (db_rules db))"

section \<open>The learner\<close>

definition adaptiveCategoryAllowlist :: "string list" where
  "adaptiveCategoryAllowlist = [''credential_access'', ''phishing'', ''malware'', ''command_and_control'', ''persistence'',
     ''privilege_escalation'', ''defense_evasion'', ''execution'', ''reconnaissance'', ''lateral_movement'', ''exfiltration'',
     ''impact'', ''supply_chain'', ''ai_defense_evasion'', ''ai_execution'', ''ai_persistence'', ''ai_credential_access'',
     ''ai_exfiltration'', ''ai_supply_chain'', ''ai_impact'']"

text \<open>
  The first half of \<open>processAdaptiveFailure\<close>: what is learned from a classified sample; \<open>digest\<close> is the
  keyed digest of the fingerprint material.
\<close>

definition candidate_of ::
    "indicator_lib \<Rightarrow> (string \<Rightarrow> bool) \<Rightarrow> (string \<Rightarrow> string) \<Rightarrow> AuditProfile \<Rightarrow> adaptiveFailureSample \<Rightarrow> adaptiveModelResult \<Rightarrow>
     CyberRuleCandidate option" where
  "candidate_of lib compiles digest profile x r =
     (if \<not> lr_IsCyber r \<or> lr_Confidence r < 8 / 10 then None
      else (let category = to_lower (trim_space (lr_Category r)) in
        if category \<notin> set adaptiveCategoryAllowlist then None
        else (let is = validateAdaptiveIndicators lib (fs_RequestText x) (lr_Indicators r) in
          if length is < 2 then None
          else (let pat = buildAdaptiveIndicatorPattern compiles is in
            if pat = [] then None
            else (let fingerprint = take 40 (digest (category @ ''|'' @ join ''|'' is));
                      codeCategory = to_upper (map (\<lambda>c. if c = CHR ''-'' then CHR ''_'' else c) category)
              in Some \<lparr>cc_ID = 0, cc_Fingerprint = fingerprint,
                       cc_ProposedCode = ''CYBER_ADAPTIVE_'' @ codeCategory @ ''_'' @ to_upper (take 8 fingerprint),
                       cc_Category = category, cc_Pattern = pat, cc_PatternType = ''regex'', cc_ProposedAction = DecisionReview,
                       cc_Confidence = clampConfidence (lr_Confidence r), cc_Model = truncateString (ap_Model profile) 200,
                       cc_RouteSlug = truncateString (fs_RouteSlug x) 100, cc_ProviderErrorClass = fs_ProviderErrorClass x,
                       cc_UpstreamStatus = fs_UpstreamStatus x, cc_Reason = truncateString (trim_space (lr_Reason r)) 500,
                       cc_EvidenceCount = 0, cc_DistinctUsers = 0, cc_Status = [], cc_PromotedRuleID = None\<rparr>)))))"

text \<open>\<open>profile\<close> is the profile the lookup found, if any.\<close>

definition learn_from ::
    "learn_env \<Rightarrow> indicator_lib \<Rightarrow> (string \<Rightarrow> bool) \<Rightarrow> (string \<Rightarrow> string) \<Rightarrow> AdaptiveRulePolicy \<Rightarrow> AuditProfile option \<Rightarrow>
     adaptiveFailureSample \<Rightarrow> CyberRuleCandidate option" where
  "learn_from e lib compiles digest policy profile x =
     (if \<not> po_Enabled policy then None
      else (case profile of None \<Rightarrow> None
        | Some p \<Rightarrow>
            if \<not> ap_Enabled p then None
            else (case classifyAdaptiveFailure e p x of Inl err \<Rightarrow> None
                  | Inr r \<Rightarrow> candidate_of lib compiles digest p x r)))"

definition promotable :: "AdaptiveRulePolicy \<Rightarrow> CyberRuleCandidate \<Rightarrow> bool" where
  "promotable p c \<longleftrightarrow> po_AutoPromote p \<and> cc_Status c \<noteq> ''rejected'' \<and> po_MinConfidence p \<le> cc_Confidence c
     \<and> po_MinEvidence p \<le> cc_EvidenceCount c \<and> po_MinDistinctUsers p \<le> cc_DistinctUsers c"

text \<open>
  A worker between two transactions: the row it stored, or the row it is about to promote under the
  policy it has read.
\<close>

datatype work = Stored CyberRuleCandidate | Promoting CyberRuleCandidate AdaptiveRulePolicy

record learn_state =
  ls_db :: learn_db
  ls_work :: "work list"

datatype learn_input =
    Learn CyberRuleCandidate string
  | Decide nat AdaptiveRulePolicy
  | Promote nat
  | Abandon nat
  | SetStatus int string
  | PromoteManual int string
  | SaveRule CyberRule
  | DeleteRule int

definition remove_at :: "nat \<Rightarrow> 'a list \<Rightarrow> 'a list" where
  "remove_at i xs = take i xs @ drop (Suc i) xs"

definition work_at :: "nat \<Rightarrow> learn_state \<Rightarrow> work option" where
  "work_at i st = (if i < length (ls_work st) then Some (ls_work st ! i) else None)"

fun learn_step :: "(string \<Rightarrow> bool) \<Rightarrow> learn_input \<Rightarrow> learn_state \<Rightarrow> learn_state" where
  "learn_step compiles (Learn c digest) st =
     (case UpsertCyberRuleCandidate c digest (ls_db st) of
        None \<Rightarrow> st
      | Some (row, db) \<Rightarrow> st\<lparr>ls_db := db, ls_work := ls_work st @ [Stored row]\<rparr>)"
| "learn_step compiles (Decide i p) st =
     (case work_at i st of
        Some (Stored c) \<Rightarrow>
          st\<lparr>ls_work := (if promotable p c then (ls_work st)[i := Promoting c p] else remove_at i (ls_work st))\<rparr>
      | _ \<Rightarrow> st)"
| "learn_step compiles (Promote i) st =
     (case work_at i st of
        Some (Promoting c p) \<Rightarrow>
          st\<lparr>ls_db := snd (PromoteCyberRuleCandidate c (po_AutoBlock p) (ls_db st)), ls_work := remove_at i (ls_work st)\<rparr>
      | _ \<Rightarrow> st)"
| "learn_step compiles (Abandon i) st = st\<lparr>ls_work := remove_at i (ls_work st)\<rparr>"
| "learn_step compiles (SetStatus i status) st =
     (case SetCyberRuleCandidateStatus i status (ls_db st) of Inl e \<Rightarrow> st | Inr db \<Rightarrow> st\<lparr>ls_db := db\<rparr>)"
| "learn_step compiles (PromoteManual i action) st =
     (case PromoteCyberRuleCandidateManual compiles i action (ls_db st) of Inl e \<Rightarrow> st | Inr (c, r, db) \<Rightarrow> st\<lparr>ls_db := db\<rparr>)"
| "learn_step compiles (SaveRule rule) st =
     (case UpsertCyberRule rule (ls_db st) of Inl e \<Rightarrow> st | Inr (r, db) \<Rightarrow> st\<lparr>ls_db := db\<rparr>)"
| "learn_step compiles (DeleteRule i) st =
     (case DeleteCyberRule i (ls_db st) of Inl e \<Rightarrow> st | Inr db \<Rightarrow> st\<lparr>ls_db := db\<rparr>)"

definition learn_run :: "(string \<Rightarrow> bool) \<Rightarrow> learn_input list \<Rightarrow> learn_state \<Rightarrow> learn_state" where
  "learn_run compiles inputs st = foldl (\<lambda>s x. learn_step compiles x s) st inputs"

text \<open>Freshly migrated tables: no candidate, and the rules the installation starts with.\<close>

definition fresh_learning :: "CyberRule list \<Rightarrow> int \<Rightarrow> learn_state" where
  "fresh_learning rules n =
     \<lparr>ls_db = \<lparr>db_candidates = [], db_users = [], db_rules = rules, db_nextCandidate = 1, db_nextRule = n\<rparr>, ls_work = []\<rparr>"

lemma learn_run_snoc [simp]: "learn_run compiles (xs @ [x]) st = learn_step compiles x (learn_run compiles xs st)"
  by (simp add: learn_run_def)

lemma learn_run_Nil [simp]: "learn_run compiles [] st = st"
  by (simp add: learn_run_def)

section \<open>Updating rows\<close>

lemma map_update_where: "(\<And>x. p x \<Longrightarrow> g (f x) = g x) \<Longrightarrow> map g (update_where p f xs) = map g xs"
  by (simp add: update_where_def)

lemma set_update_where: "set (update_where p f xs) = (\<lambda>x. if p x then f x else x) ` set xs"
  by (simp add: update_where_def)

lemma in_update_where: "x \<in> set xs \<Longrightarrow> (if p x then f x else x) \<in> set (update_where p f xs)"
  unfolding set_update_where by (rule imageI)

lemma update_where_none: "\<forall>x \<in> set xs. \<not> p x \<Longrightarrow> update_where p f xs = xs"
  by (induction xs) (simp_all add: update_where_def)

lemma update_where_append [simp]: "update_where p f (xs @ ys) = update_where p f xs @ update_where p f ys"
  by (simp add: update_where_def)

lemma update_where_single [simp]: "update_where p f (x # xs) = (if p x then f x else x) # update_where p f xs"
  by (simp add: update_where_def)

lemma update_where_key:
  assumes "distinct (map key xs)" "xs = us @ x # vs"
  shows "update_where (\<lambda>y. key y = key x) f xs = us @ f x # vs"
proof -
  have "\<forall>y \<in> set us. key y \<noteq> key x" "\<forall>y \<in> set vs. key y \<noteq> key x" using assms by (auto simp: rev_image_eqI)
  with assms(2) show ?thesis by (simp add: update_where_none)
qed

section \<open>What each step keeps of the candidates\<close>

text \<open>What only learning changes of a row.\<close>

definition core :: "CyberRuleCandidate \<Rightarrow> (int \<times> string \<times> string \<times> string \<times> string) \<times> rat \<times> int \<times> int" where
  "core c = ((cc_ID c, cc_Fingerprint c, cc_ProposedCode c, cc_Category c, cc_Pattern c),
     cc_Confidence c, cc_EvidenceCount c, cc_DistinctUsers c)"

definition learns :: "learn_input \<Rightarrow> bool" where
  "learns x \<longleftrightarrow> (\<exists>c d. x = Learn c d)"

lemma quiet_step:
  assumes "\<not> learns x"
  shows "map core (db_candidates (ls_db (learn_step compiles x st))) = map core (db_candidates (ls_db st))"
    "db_users (ls_db (learn_step compiles x st)) = db_users (ls_db st)"
    "db_nextCandidate (ls_db (learn_step compiles x st)) = db_nextCandidate (ls_db st)"
proof -
  have "map core (db_candidates (ls_db (learn_step compiles x st))) = map core (db_candidates (ls_db st))
    \<and> db_users (ls_db (learn_step compiles x st)) = db_users (ls_db st)
    \<and> db_nextCandidate (ls_db (learn_step compiles x st)) = db_nextCandidate (ls_db st)"
    using assms
  proof (cases x)
    case (Promote i)
    then show ?thesis
      by (auto simp: PromoteCyberRuleCandidate_def Let_def map_update_where core_def split: option.splits work.splits prod.splits)
  next
    case (SetStatus i status)
    then show ?thesis
      by (auto simp: SetCyberRuleCandidateStatus_def map_update_where core_def split: sum.splits if_splits)
  next
    case (PromoteManual i action)
    then show ?thesis
      by (auto simp: PromoteCyberRuleCandidateManual_def Let_def map_update_where core_def
          split: sum.splits option.splits if_splits prod.splits)
  next
    case (SaveRule rule)
    then show ?thesis by (auto simp: UpsertCyberRule_def Let_def split: sum.splits if_splits)
  next
    case (DeleteRule i)
    then show ?thesis by (auto simp: DeleteCyberRule_def map_update_where core_def split: sum.splits if_splits)
  qed (auto simp: learns_def split: option.splits work.splits)
  then show "map core (db_candidates (ls_db (learn_step compiles x st))) = map core (db_candidates (ls_db st))"
    "db_users (ls_db (learn_step compiles x st)) = db_users (ls_db st)"
    "db_nextCandidate (ls_db (learn_step compiles x st)) = db_nextCandidate (ls_db st)" by blast+
qed

definition candidates_ok :: "learn_db \<Rightarrow> bool" where
  "candidates_ok db \<longleftrightarrow>
     distinct (map cc_ID (db_candidates db)) \<and> distinct (map cc_Fingerprint (db_candidates db)) \<and> distinct (db_users db)
     \<and> (\<forall>c \<in> set (db_candidates db). 1 \<le> cc_ID c \<and> cc_ID c < db_nextCandidate db
          \<and> cc_DistinctUsers c = users_of (cc_ID c) (db_users db) \<and> cc_DistinctUsers c \<le> cc_EvidenceCount c
          \<and> 1 \<le> cc_EvidenceCount c \<and> cc_EvidenceCount c \<le> max_int32)
     \<and> (\<forall>u \<in> set (db_users db). \<exists>c \<in> set (db_candidates db). cc_ID c = fst u) \<and> 1 \<le> db_nextCandidate db"

lemma users_of_add_user:
  "users_of i (add_user j d users) = users_of i users + (if i = j \<and> (j, d) \<notin> set users then 1 else 0)"
  by (auto simp: users_of_def add_user_def)

lemma distinct_add_user: "distinct users \<Longrightarrow> distinct (add_user i d users)"
  by (simp add: add_user_def)

lemma set_add_user: "set (add_user i d users) = insert (i, d) (set users)"
  by (auto simp: add_user_def)

definition with_user :: "int \<Rightarrow> string \<Rightarrow> (int \<times> string) list \<Rightarrow> (int \<times> string) list" where
  "with_user i d users = (if d = [] then users else add_user i d users)"

lemma upsert_result:
  assumes "UpsertCyberRuleCandidate c d db = Some (row, db')"
  obtains row1 db1 where "upsert_row c db = Some (row1, db1)" "storable c" "d = [] \<or> pg_text d"
    "row = (if d = [] then row1 else row1\<lparr>cc_DistinctUsers := users_of (cc_ID row1) (add_user (cc_ID row1) d (db_users db1))\<rparr>)"
    "db_users db' = with_user (cc_ID row1) d (db_users db1)"
    "db_candidates db' = (if d = [] then db_candidates db1
       else update_where (\<lambda>r. cc_ID r = cc_ID row1)
         (\<lambda>r. r\<lparr>cc_DistinctUsers := users_of (cc_ID row1) (add_user (cc_ID row1) d (db_users db1))\<rparr>) (db_candidates db1))"
    "db_nextCandidate db' = db_nextCandidate db1" "db_rules db' = db_rules db1" "db_nextRule db' = db_nextRule db1"
proof -
  obtain row1 db1 where r: "upsert_row c db = Some (row1, db1)"
    using assms by (auto simp: UpsertCyberRuleCandidate_def split: option.splits)
  have st: "storable c" using r by (auto simp: upsert_row_def Let_def split: if_splits)
  show ?thesis
  proof (cases "d = []")
    case True
    with assms r have "row = row1" "db' = db1" by (simp_all add: UpsertCyberRuleCandidate_def)
    with that [OF r st] True show ?thesis by (simp add: with_user_def)
  next
    case False
    with assms r have p: "pg_text d" by (auto simp: UpsertCyberRuleCandidate_def split: if_splits)
    let ?users = "add_user (cc_ID row1) d (db_users db1)" and ?n = "users_of (cc_ID row1) (add_user (cc_ID row1) d (db_users db1))"
    have "row = row1\<lparr>cc_DistinctUsers := ?n\<rparr>" "db' = db1\<lparr>db_users := ?users,
        db_candidates := update_where (\<lambda>r. cc_ID r = cc_ID row1) (\<lambda>r. r\<lparr>cc_DistinctUsers := ?n\<rparr>) (db_candidates db1)\<rparr>"
      using assms r p False by (simp_all add: UpsertCyberRuleCandidate_def Let_def)
    with that [OF r st] p False show ?thesis by (simp add: with_user_def)
  qed
qed

text \<open>The two ways of storing a learned candidate.\<close>

lemma upsert_cases:
  assumes ok: "candidates_ok db" and u: "UpsertCyberRuleCandidate c d db = Some (row, db')"
  obtains (new) "storable c" "d = [] \<or> pg_text d" "\<forall>r \<in> set (db_candidates db). cc_Fingerprint r \<noteq> cc_Fingerprint c"
      "row = (if d = [] then new_candidate (db_nextCandidate db) c
              else (new_candidate (db_nextCandidate db) c)\<lparr>cc_DistinctUsers := 1\<rparr>)"
      "db_candidates db' = db_candidates db @ [row]" "db_users db' = with_user (db_nextCandidate db) d (db_users db)"
      "db_nextCandidate db' = db_nextCandidate db + 1" "db_rules db' = db_rules db" "db_nextRule db' = db_nextRule db"
      "\<forall>x. (db_nextCandidate db, x) \<notin> set (db_users db)"
  | (again) us old vs where "storable c" "d = [] \<or> pg_text d" "db_candidates db = us @ old # vs"
      "cc_Fingerprint old = cc_Fingerprint c" "cc_EvidenceCount old < max_int32"
      "row = (if d = [] then seen_again c old
              else (seen_again c old)\<lparr>cc_DistinctUsers := users_of (cc_ID old) (add_user (cc_ID old) d (db_users db))\<rparr>)"
      "db_candidates db' = us @ row # vs" "db_users db' = with_user (cc_ID old) d (db_users db)"
      "db_nextCandidate db' = db_nextCandidate db + 1" "db_rules db' = db_rules db" "db_nextRule db' = db_nextRule db"
proof -
  note k = ok [unfolded candidates_ok_def]
  let ?n = "db_nextCandidate db"
  from u obtain row1 db1 where r: "upsert_row c db = Some (row1, db1)" and st: "storable c" "d = [] \<or> pg_text d"
    and res: "row = (if d = [] then row1 else row1\<lparr>cc_DistinctUsers := users_of (cc_ID row1) (add_user (cc_ID row1) d (db_users db1))\<rparr>)"
    "db_users db' = with_user (cc_ID row1) d (db_users db1)"
    "db_candidates db' = (if d = [] then db_candidates db1
       else update_where (\<lambda>r. cc_ID r = cc_ID row1)
         (\<lambda>r. r\<lparr>cc_DistinctUsers := users_of (cc_ID row1) (add_user (cc_ID row1) d (db_users db1))\<rparr>) (db_candidates db1))"
    "db_nextCandidate db' = db_nextCandidate db1" "db_rules db' = db_rules db1" "db_nextRule db' = db_nextRule db1"
    by (rule upsert_result)
  show ?thesis
  proof (cases "find (\<lambda>r. cc_Fingerprint r = cc_Fingerprint c) (db_candidates db)")
    case None
    then have f: "\<forall>r \<in> set (db_candidates db). cc_Fingerprint r \<noteq> cc_Fingerprint c" by (simp add: find_None_iff)
    have "upsert_row c db = Some (new_candidate ?n c, db\<lparr>db_nextCandidate := ?n + 1, db_candidates := db_candidates db @ [new_candidate ?n c]\<rparr>)"
      using None st(1) by (simp add: upsert_row_def Let_def)
    with r have row1: "row1 = new_candidate ?n c" "db_candidates db1 = db_candidates db @ [row1]" "db_users db1 = db_users db"
      "db_nextCandidate db1 = ?n + 1" "db_rules db1 = db_rules db" "db_nextRule db1 = db_nextRule db" by auto
    have none: "\<forall>r \<in> set (db_candidates db). cc_ID r \<noteq> ?n" using k by force
    have u0: "users_of ?n (db_users db) = 0" "\<forall>x. (?n, x) \<notin> set (db_users db)" using k none by (force simp: users_of_def filter_empty_conv)+
    then have n: "users_of ?n (add_user ?n d (db_users db)) = 1" by (simp add: users_of_add_user)
    have id: "cc_ID row1 = ?n" by (simp add: row1 new_candidate_def)
    note res' = res [unfolded id row1(3-6) row1(2), unfolded n]
    show ?thesis
    proof (rule new [OF st f _ _ res'(2) res'(4-6) u0(2)])
      show "row = (if d = [] then new_candidate ?n c else (new_candidate ?n c)\<lparr>cc_DistinctUsers := 1\<rparr>)"
        unfolding res'(1) row1(1) ..
      show "db_candidates db' = db_candidates db @ [row]"
        unfolding res'(3) res'(1) using none id by (simp add: update_where_none)
    qed
  next
    case (Some old)
    then have old: "old \<in> set (db_candidates db)" "cc_Fingerprint old = cc_Fingerprint c" by (auto simp: find_Some_iff)
    from split_list [OF old(1)] obtain us vs where l: "db_candidates db = us @ old # vs" by blast
    have e: "cc_EvidenceCount old < max_int32" using r Some st by (auto simp: upsert_row_def Let_def split: if_splits)
    have "upsert_row c db = Some (seen_again c old, db\<lparr>db_nextCandidate := ?n + 1, db_candidates :=
        update_where (\<lambda>r. cc_Fingerprint r = cc_Fingerprint c) (seen_again c) (db_candidates db)\<rparr>)"
      using Some st(1) e by (simp add: upsert_row_def Let_def)
    with r have row1: "row1 = seen_again c old" "db_users db1 = db_users db"
      "db_nextCandidate db1 = ?n + 1" "db_rules db1 = db_rules db" "db_nextRule db1 = db_nextRule db"
      "db_candidates db1 = update_where (\<lambda>r. cc_Fingerprint r = cc_Fingerprint c) (seen_again c) (db_candidates db)" by auto
    have c1: "db_candidates db1 = us @ row1 # vs"
      unfolding row1(6) row1(1) old(2) [symmetric] by (rule update_where_key) (use k l in auto)
    have id: "cc_ID row1 = cc_ID old" by (simp add: row1 seen_again_def)
    have dist: "distinct (map cc_ID (us @ row1 # vs))" using k l id by simp
    note res' = res [unfolded row1(2-5)]
    show ?thesis
    proof (rule again [OF st l old(2) e _ _ _ res'(4-6)])
      show "row = (if d = [] then seen_again c old
          else (seen_again c old)\<lparr>cc_DistinctUsers := users_of (cc_ID old) (add_user (cc_ID old) d (db_users db))\<rparr>)"
        unfolding res'(1) id unfolding row1(1) ..
      show "db_candidates db' = us @ row # vs"
        unfolding res'(3) res'(1) c1 update_where_key [OF dist refl] by simp
      show "db_users db' = with_user (cc_ID old) d (db_users db)" unfolding res'(2) id ..
    qed
  qed
qed

lemma core_fields:
  "cc_ID c = fst (fst (core c))" "cc_Fingerprint c = fst (snd (fst (core c)))" "cc_ProposedCode c = fst (snd (snd (fst (core c))))"
  "cc_Pattern c = snd (snd (snd (snd (fst (core c)))))"
  "cc_Confidence c = fst (snd (core c))" "cc_EvidenceCount c = fst (snd (snd (core c)))" "cc_DistinctUsers c = snd (snd (snd (core c)))"
  by (simp_all add: core_def)

lemma core_same:
  assumes "map core xs = map core ys" "c \<in> set xs"
  obtains c' where "c' \<in> set ys" "core c' = core c"
proof -
  have "core c \<in> core ` set ys" using assms by (metis image_eqI image_set)
  with that show ?thesis by (metis imageE)
qed

lemma candidates_ok_core:
  assumes "candidates_ok db" "map core (db_candidates db') = map core (db_candidates db)" "db_users db' = db_users db"
    "db_nextCandidate db' = db_nextCandidate db"
  shows "candidates_ok db'"
proof -
  have keys: "map cc_ID (db_candidates db') = map cc_ID (db_candidates db)"
    "map cc_Fingerprint (db_candidates db') = map cc_Fingerprint (db_candidates db)"
    using arg_cong [OF assms(2), of "map (\<lambda>t. fst (fst t))"] arg_cong [OF assms(2), of "map (\<lambda>t. fst (snd (fst t)))"]
    by (simp_all add: o_def core_def)
  have row: "1 \<le> cc_ID c \<and> cc_ID c < db_nextCandidate db \<and> cc_DistinctUsers c = users_of (cc_ID c) (db_users db)
      \<and> cc_DistinctUsers c \<le> cc_EvidenceCount c \<and> 1 \<le> cc_EvidenceCount c \<and> cc_EvidenceCount c \<le> max_int32"
    if "c \<in> set (db_candidates db')" for c
  proof -
    from core_same [OF assms(2) that] obtain c' where "c' \<in> set (db_candidates db)" "core c' = core c" by blast
    with assms(1) show ?thesis unfolding candidates_ok_def core_fields [of c] core_fields [of c'] by (metis core_fields(1,6,7))
  qed
  have user: "\<exists>c \<in> set (db_candidates db'). cc_ID c = fst u" if "u \<in> set (db_users db)" for u
  proof -
    from that assms(1) obtain c where "c \<in> set (db_candidates db)" "cc_ID c = fst u" by (auto simp: candidates_ok_def)
    moreover from core_same [OF assms(2) [symmetric] this(1)] obtain c' where "c' \<in> set (db_candidates db')" "core c' = core c" by blast
    ultimately show ?thesis by (metis core_fields(1))
  qed
  show ?thesis
    unfolding candidates_ok_def keys assms(3,4) using assms(1) [unfolded candidates_ok_def] row user by blast
qed

lemma candidates_ok_learn:
  assumes ok: "candidates_ok db" and u: "UpsertCyberRuleCandidate c d db = Some (row, db')"
  shows "candidates_ok db'"
  using ok u
proof (cases rule: upsert_cases)
  case new
  let ?n = "db_nextCandidate db"
  note k = ok [unfolded candidates_ok_def]
  have none: "users_of ?n (db_users db) = 0" using new(10) by (auto simp: users_of_def filter_empty_conv)
  have other: "users_of (cc_ID r) (db_users db') = users_of (cc_ID r) (db_users db)" if "r \<in> set (db_candidates db)" for r
    using k that new(6) by (auto simp: with_user_def users_of_add_user)
  have row: "cc_ID row = ?n" "cc_Fingerprint row = cc_Fingerprint c" "cc_EvidenceCount row = 1"
    "cc_DistinctUsers row = (if d = [] then 0 else 1)" by (simp_all add: new(4) new_candidate_def)
  have "cc_DistinctUsers row = users_of ?n (db_users db')"
    using new(6,10) none row(4) by (simp add: with_user_def users_of_add_user)
  with k other row new(3) none show ?thesis
    by (auto simp: candidates_ok_def new(5,6,7) with_user_def distinct_add_user set_add_user max_int32_def)
next
  case (again us old vs)
  note k = ok [unfolded candidates_ok_def]
  have old: "old \<in> set (db_candidates db)" using again(3) by simp
  have ko: "1 \<le> cc_ID old" "cc_ID old < db_nextCandidate db" "cc_DistinctUsers old = users_of (cc_ID old) (db_users db)"
    "cc_DistinctUsers old \<le> cc_EvidenceCount old" "1 \<le> cc_EvidenceCount old" using k old by auto
  have row: "cc_ID row = cc_ID old" "cc_Fingerprint row = cc_Fingerprint old" "cc_EvidenceCount row = cc_EvidenceCount old + 1"
    "cc_DistinctUsers row = users_of (cc_ID old) (db_users db')"
    using ko by (simp_all add: again(6,8) seen_again_def with_user_def)
  have users: "users_of i (db_users db') = users_of i (db_users db)" if "i \<noteq> cc_ID old" for i
    using that by (simp add: again(8) with_user_def users_of_add_user)
  have le: "users_of (cc_ID old) (db_users db') \<le> users_of (cc_ID old) (db_users db) + 1"
    by (simp add: again(8) with_user_def users_of_add_user)
  have d: "distinct (db_users db')" using k by (simp add: again(8) with_user_def distinct_add_user)
  have rest: "1 \<le> cc_ID r \<and> cc_ID r < db_nextCandidate db' \<and> cc_DistinctUsers r = users_of (cc_ID r) (db_users db')
      \<and> cc_DistinctUsers r \<le> cc_EvidenceCount r \<and> 1 \<le> cc_EvidenceCount r \<and> cc_EvidenceCount r \<le> max_int32"
    if "r \<in> set us \<union> set vs" for r
  proof -
    have n: "cc_ID r \<noteq> cc_ID old" using k that by (auto simp: again(3) rev_image_eqI)
    have "r \<in> set (db_candidates db)" using that by (auto simp: again(3))
    with k have "1 \<le> cc_ID r \<and> cc_ID r < db_nextCandidate db \<and> cc_DistinctUsers r = users_of (cc_ID r) (db_users db)
      \<and> cc_DistinctUsers r \<le> cc_EvidenceCount r \<and> 1 \<le> cc_EvidenceCount r \<and> cc_EvidenceCount r \<le> max_int32" by blast
    with users [OF n] show ?thesis by (simp add: again(9))
  qed
  have "\<forall>u \<in> set (db_users db'). \<exists>r \<in> set (db_candidates db'). cc_ID r = fst u"
    using k row(1) by (auto simp: again(3,7,8) with_user_def set_add_user)
  moreover have "distinct (map cc_ID (db_candidates db'))" "distinct (map cc_Fingerprint (db_candidates db'))"
    using k row(1,2) by (simp_all add: again(3,7))
  moreover have "1 \<le> db_nextCandidate db'" using k again(9) by simp
  moreover have row_ok: "1 \<le> cc_ID row \<and> cc_ID row < db_nextCandidate db' \<and> cc_DistinctUsers row = users_of (cc_ID row) (db_users db')
      \<and> cc_DistinctUsers row \<le> cc_EvidenceCount row \<and> 1 \<le> cc_EvidenceCount row \<and> cc_EvidenceCount row \<le> max_int32"
    using ko row le again(5,9) by simp
  moreover have "\<forall>r \<in> set (db_candidates db'). 1 \<le> cc_ID r \<and> cc_ID r < db_nextCandidate db'
      \<and> cc_DistinctUsers r = users_of (cc_ID r) (db_users db') \<and> cc_DistinctUsers r \<le> cc_EvidenceCount r
      \<and> 1 \<le> cc_EvidenceCount r \<and> cc_EvidenceCount r \<le> max_int32"
  proof
    fix r assume "r \<in> set (db_candidates db')"
    then have "r = row \<or> r \<in> set us \<union> set vs" by (auto simp: again(7))
    with row_ok rest [of r] show "1 \<le> cc_ID r \<and> cc_ID r < db_nextCandidate db'
      \<and> cc_DistinctUsers r = users_of (cc_ID r) (db_users db') \<and> cc_DistinctUsers r \<le> cc_EvidenceCount r
      \<and> 1 \<le> cc_EvidenceCount r \<and> cc_EvidenceCount r \<le> max_int32" by blast
  qed
  ultimately show ?thesis using d unfolding candidates_ok_def by blast
qed

lemma learn_step_ok: "candidates_ok (ls_db st) \<Longrightarrow> candidates_ok (ls_db (learn_step compiles x st))"
proof (cases "learns x")
  case True
  assume "candidates_ok (ls_db st)"
  with True candidates_ok_learn show ?thesis by (auto simp: learns_def split: option.split)
next
  case False
  assume "candidates_ok (ls_db st)"
  from candidates_ok_core [OF this quiet_step [OF False]] show ?thesis .
qed

lemma fresh_ok: "candidates_ok (ls_db (fresh_learning rules n))"
  by (simp add: candidates_ok_def fresh_learning_def)

lemma learn_run_ok: "candidates_ok (ls_db (learn_run compiles xs (fresh_learning rules n)))"
  by (induction xs rule: rev_induct) (simp_all add: fresh_ok learn_step_ok)

section \<open>Evidence is counted exactly\<close>

text \<open>The learned samples of a fingerprint that the table accepts, in their order.\<close>

definition evidence_for :: "string \<Rightarrow> learn_input list \<Rightarrow> string list" where
  "evidence_for f xs = concat (map (\<lambda>x. case x of
      Learn c d \<Rightarrow> if storable c \<and> cc_Fingerprint c = f \<and> (d = [] \<or> pg_text d) then [d] else [] | _ \<Rightarrow> []) xs)"

definition evidence_counted :: "learn_input list \<Rightarrow> learn_db \<Rightarrow> bool" where
  "evidence_counted xs db \<longleftrightarrow>
     (\<forall>c \<in> set (db_candidates db). cc_EvidenceCount c = int (length (evidence_for (cc_Fingerprint c) xs))
        \<and> {d. (cc_ID c, d) \<in> set (db_users db)} = set (evidence_for (cc_Fingerprint c) xs) - {[]})
     \<and> (\<forall>f. evidence_for f xs \<noteq> [] \<longrightarrow> f \<in> cc_Fingerprint ` set (db_candidates db))"

lemma evidence_for_snoc:
  "evidence_for f (xs @ [x]) = evidence_for f xs @ (case x of
     Learn c d \<Rightarrow> if storable c \<and> cc_Fingerprint c = f \<and> (d = [] \<or> pg_text d) then [d] else [] | _ \<Rightarrow> [])"
  by (simp add: evidence_for_def)

lemma evidence_for_length: "length (evidence_for f xs) \<le> length xs"
  by (induction xs rule: rev_induct) (auto simp: evidence_for_snoc evidence_for_def split: learn_input.split)

lemma upsert_succeeds:
  assumes "candidates_ok db" "storable c" "d = [] \<or> pg_text d"
    "\<forall>r \<in> set (db_candidates db). cc_EvidenceCount r < max_int32"
  shows "UpsertCyberRuleCandidate c d db \<noteq> None"
  using assms by (auto simp: UpsertCyberRuleCandidate_def upsert_row_def Let_def dest!: find_SomeD split: option.splits)

lemma counted_quiet:
  assumes "evidence_counted xs db" "map core (db_candidates db') = map core (db_candidates db)" "db_users db' = db_users db"
    "\<forall>f. evidence_for f xs' = evidence_for f xs"
  shows "evidence_counted xs' db'"
proof -
  have fps: "cc_Fingerprint ` set (db_candidates db') = cc_Fingerprint ` set (db_candidates db)"
    using arg_cong [OF assms(2), of "\<lambda>l. (\<lambda>t. fst (snd (fst t))) ` set l"] by (simp add: image_image core_def)
  have "cc_EvidenceCount c = int (length (evidence_for (cc_Fingerprint c) xs))
      \<and> {d. (cc_ID c, d) \<in> set (db_users db)} = set (evidence_for (cc_Fingerprint c) xs) - {[]}"
    if "c \<in> set (db_candidates db')" for c
  proof -
    from core_same [OF assms(2) that] obtain c' where "c' \<in> set (db_candidates db)" "core c' = core c" by blast
    then have c': "cc_ID c = cc_ID c'" "cc_Fingerprint c = cc_Fingerprint c'" "cc_EvidenceCount c = cc_EvidenceCount c'"
        "c' \<in> set (db_candidates db)" by (simp_all add: core_def)
    from assms(1) c'(4) show ?thesis unfolding c'(1-3) by (simp add: evidence_counted_def)
  qed
  with assms(1,3,4) fps show ?thesis by (simp add: evidence_counted_def)
qed

lemma counted_learn:
  assumes ok: "candidates_ok db" and k: "evidence_counted xs db" and u: "UpsertCyberRuleCandidate c d db = Some (row, db')"
  shows "evidence_counted (xs @ [Learn c d]) db'"
  using ok u
proof (cases rule: upsert_cases)
  case new
  let ?f = "cc_Fingerprint c"
  have none: "evidence_for ?f xs = []" using k new(3) by (force simp: evidence_counted_def)
  have e: "evidence_for f (xs @ [Learn c d]) = (if f = ?f then [d] else evidence_for f xs)" for f
    using new(1,2) none by (auto simp: evidence_for_snoc)
  have row: "cc_ID row = db_nextCandidate db" "cc_Fingerprint row = ?f" "cc_EvidenceCount row = 1"
    by (simp_all add: new(4) new_candidate_def)
  have "{x. (cc_ID row, x) \<in> set (db_users db')} = {d} - {[]}"
    using new(10) by (auto simp: new(6) row with_user_def set_add_user)
  moreover have "{x. (cc_ID r, x) \<in> set (db_users db')} = {x. (cc_ID r, x) \<in> set (db_users db)}"
    if "r \<in> set (db_candidates db)" for r
    using that ok by (force simp: new(6) with_user_def set_add_user candidates_ok_def)
  ultimately show ?thesis using k new(3) row by (auto simp: evidence_counted_def e new(5))
next
  case (again us old vs)
  let ?f = "cc_Fingerprint c"
  have e: "evidence_for f (xs @ [Learn c d]) = evidence_for f xs @ (if f = ?f then [d] else [])" for f
    using again(1,2) by (auto simp: evidence_for_snoc)
  have ids: "cc_ID r \<noteq> cc_ID old" "cc_Fingerprint r \<noteq> ?f" if "r \<in> set us \<union> set vs" for r
    using ok that again(4) by (auto simp: candidates_ok_def again(3) rev_image_eqI)
  have row: "cc_ID row = cc_ID old" "cc_Fingerprint row = ?f" "cc_EvidenceCount row = cc_EvidenceCount old + 1"
    by (simp_all add: again(4,6) seen_again_def)
  have ko: "cc_EvidenceCount old = int (length (evidence_for ?f xs))"
    "{x. (cc_ID old, x) \<in> set (db_users db)} = set (evidence_for ?f xs) - {[]}"
    using k by (auto simp: evidence_counted_def again(3,4))
  have u1: "{x. (cc_ID row, x) \<in> set (db_users db')} = set (evidence_for ?f (xs @ [Learn c d])) - {[]}"
    using ko(2) by (auto simp: row e again(8) with_user_def set_add_user)
  have u2: "{x. (cc_ID r, x) \<in> set (db_users db')} = {x. (cc_ID r, x) \<in> set (db_users db)}" if "r \<in> set us \<union> set vs" for r
    using ids(1) [OF that] by (auto simp: again(8) with_user_def set_add_user)
  have "cc_EvidenceCount r = int (length (evidence_for (cc_Fingerprint r) (xs @ [Learn c d])))
      \<and> {x. (cc_ID r, x) \<in> set (db_users db')} = set (evidence_for (cc_Fingerprint r) (xs @ [Learn c d])) - {[]}"
    if "r \<in> set (db_candidates db')" for r
  proof (cases "r = row")
    case True
    with u1 ko(1) row show ?thesis by (simp add: e)
  next
    case False
    with that have r: "r \<in> set us \<union> set vs" by (auto simp: again(7))
    then have "r \<in> set (db_candidates db)" by (auto simp: again(3))
    with k u2 [OF r] ids(2) [OF r] show ?thesis by (simp add: evidence_counted_def e)
  qed
  moreover have "cc_Fingerprint ` set (db_candidates db') = cc_Fingerprint ` set (db_candidates db)"
    using row(2) again(4) by (auto simp: again(3,7))
  ultimately show ?thesis using k by (auto simp: evidence_counted_def e again(3,4))
qed

lemma counted_run:
  assumes "int (length xs) \<le> max_int32"
  shows "evidence_counted xs (ls_db (learn_run compiles xs (fresh_learning rules n)))"
  using assms
proof (induction xs rule: rev_induct)
  case Nil
  then show ?case by (simp add: evidence_counted_def fresh_learning_def evidence_for_def)
next
  case (snoc x xs)
  let ?st = "learn_run compiles xs (fresh_learning rules n)"
  note ok = learn_run_ok [of compiles xs rules n]
  have k: "evidence_counted xs (ls_db ?st)" using snoc by simp
  show ?case
  proof (cases "learns x")
    case False
    then have "evidence_for f (xs @ [x]) = evidence_for f xs" for f
      by (auto simp: evidence_for_snoc learns_def split: learn_input.split)
    with counted_quiet [OF k quiet_step(1,2) [OF False]] show ?thesis by simp
  next
    case True
    then obtain c d where x: "x = Learn c d" by (auto simp: learns_def)
    show ?thesis
    proof (cases "UpsertCyberRuleCandidate c d (ls_db ?st)")
      case None
      have "cc_EvidenceCount r < max_int32" if "r \<in> set (db_candidates (ls_db ?st))" for r
      proof -
        have "cc_EvidenceCount r = int (length (evidence_for (cc_Fingerprint r) xs))" using k that by (simp add: evidence_counted_def)
        with evidence_for_length [of "cc_Fingerprint r" xs] snoc.prems show ?thesis by simp
      qed
      with upsert_succeeds [OF ok] None have "\<not> (storable c \<and> (d = [] \<or> pg_text d))" by blast
      then have "evidence_for f (xs @ [x]) = evidence_for f xs" for f by (auto simp: evidence_for_snoc x)
      with k None show ?thesis by (simp add: x evidence_counted_def)
    next
      case (Some r)
      with counted_learn [OF ok k] show ?thesis by (cases r) (simp add: x)
    qed
  qed
qed

lemma users_of_card: "distinct users \<Longrightarrow> users_of i users = int (card {d. (i, d) \<in> set users})"
proof -
  assume d: "distinct users"
  have "{d. (i, d) \<in> set users} = snd ` set (filter (\<lambda>u. fst u = i) users)" by force
  moreover have "inj_on snd (set (filter (\<lambda>u. fst u = i) users))" by (auto simp: inj_on_def)
  moreover have "length (filter (\<lambda>u. fst u = i) users) = card (set (filter (\<lambda>u. fst u = i) users))"
    using d by (metis distinct_card distinct_filter)
  ultimately show ?thesis by (simp only: users_of_def card_image)
qed

lemma evidence_exact_run:
  assumes "int (length xs) \<le> max_int32" "c \<in> set (db_candidates (ls_db (learn_run compiles xs (fresh_learning rules n))))"
  shows "cc_EvidenceCount c = int (length (evidence_for (cc_Fingerprint c) xs))"
    "cc_DistinctUsers c = int (card (set (evidence_for (cc_Fingerprint c) xs) - {[]}))"
  using counted_run [OF assms(1), of compiles rules n] learn_run_ok [of compiles xs rules n] assms(2) users_of_card
  by (auto simp: evidence_counted_def candidates_ok_def)

section \<open>Rows only grow\<close>

definition grown :: "CyberRuleCandidate \<Rightarrow> CyberRuleCandidate \<Rightarrow> bool" where
  "grown c c' \<longleftrightarrow> fst (core c) = fst (core c') \<and> cc_Confidence c \<le> cc_Confidence c'
     \<and> cc_EvidenceCount c \<le> cc_EvidenceCount c' \<and> cc_DistinctUsers c \<le> cc_DistinctUsers c'"

lemma grown_refl [simp]: "grown c c"
  by (simp add: grown_def)

lemma grown_trans: "grown a b \<Longrightarrow> grown b c \<Longrightarrow> grown a c"
  by (auto simp: grown_def)

lemma grown_fields: "grown c c' \<Longrightarrow> cc_ID c' = cc_ID c" "grown c c' \<Longrightarrow> cc_ProposedCode c' = cc_ProposedCode c"
  by (auto simp: grown_def core_def)

lemma grown_core: "core c' = core c \<Longrightarrow> grown c c'"
  by (simp add: grown_def core_fields [of c] core_fields [of c'])

lemma learn_grown:
  assumes ok: "candidates_ok db" and u: "UpsertCyberRuleCandidate c d db = Some (row, db')"
  shows "r \<in> set (db_candidates db) \<Longrightarrow> \<exists>r' \<in> set (db_candidates db'). grown r r'" and "row \<in> set (db_candidates db')"
    "db_rules db' = db_rules db"
proof -
  have "(\<forall>r \<in> set (db_candidates db). \<exists>r' \<in> set (db_candidates db'). grown r r') \<and> row \<in> set (db_candidates db')
    \<and> db_rules db' = db_rules db"
    using ok u
  proof (cases rule: upsert_cases)
    case new
    then show ?thesis by (auto intro: grown_refl)
  next
    case (again us old vs)
    have "cc_DistinctUsers old = users_of (cc_ID old) (db_users db)" using ok by (simp add: candidates_ok_def again(3))
    then have "grown old row" by (simp add: again(6) grown_def core_def seen_again_def users_of_add_user)
    with again(3,7,10) show ?thesis by (auto intro: grown_refl)
  qed
  then show "r \<in> set (db_candidates db) \<Longrightarrow> \<exists>r' \<in> set (db_candidates db'). grown r r'" and "row \<in> set (db_candidates db')"
    "db_rules db' = db_rules db" by auto
qed

lemma step_grown:
  assumes "candidates_ok (ls_db st)" "r \<in> set (db_candidates (ls_db st))"
  shows "\<exists>r' \<in> set (db_candidates (ls_db (learn_step compiles x st))). grown r r'"
proof (cases "learns x")
  case True
  then obtain c d where x: "x = Learn c d" by (auto simp: learns_def)
  with assms learn_grown(1) [OF assms(1) _ assms(2), of c d] show ?thesis by (auto split: option.split intro: grown_refl)
next
  case False
  from core_same [OF quiet_step(1) [OF False, symmetric] assms(2)] obtain r' where
    "r' \<in> set (db_candidates (ls_db (learn_step compiles x st)))" "core r' = core r" by blast
  with grown_core show ?thesis by blast
qed

lemma set_remove_at: "set (remove_at i xs) \<subseteq> set xs"
  by (auto simp: remove_at_def dest: in_set_takeD in_set_dropD)

lemma work_at_in: "work_at i st = Some w \<Longrightarrow> w \<in> set (ls_work st)"
  by (metis nth_mem option.distinct(1) option.inject work_at_def)

section \<open>What stands behind a learned rule\<close>

fun work_row :: "work \<Rightarrow> CyberRuleCandidate" where
  "work_row (Stored c) = c"
| "work_row (Promoting c p) = c"

definition policy_used :: "learn_input list \<Rightarrow> AdaptiveRulePolicy \<Rightarrow> bool" where
  "policy_used xs p \<longleftrightarrow> po_AutoPromote p \<and> (\<exists>i. Decide i p \<in> set xs)"

definition work_ok :: "learn_input list \<Rightarrow> learn_state \<Rightarrow> bool" where
  "work_ok xs st \<longleftrightarrow> (\<forall>w \<in> set (ls_work st). (\<exists>r \<in> set (db_candidates (ls_db st)). grown (work_row w) r)
     \<and> (\<forall>c p. w = Promoting c p \<longrightarrow> promotable p c \<and> policy_used xs p))"

text \<open>
  A candidate with this code that meets the thresholds of a policy some worker read, and one that
  meets the fixed thresholds of an automatic block under a policy that allows them.
\<close>

definition evidence_behind :: "learn_input list \<Rightarrow> learn_db \<Rightarrow> string \<Rightarrow> bool" where
  "evidence_behind xs db code \<longleftrightarrow> (\<exists>r \<in> set (db_candidates db). \<exists>p. cc_ProposedCode r = code \<and> policy_used xs p
     \<and> po_MinConfidence p \<le> cc_Confidence r \<and> po_MinEvidence p \<le> cc_EvidenceCount r \<and> po_MinDistinctUsers p \<le> cc_DistinctUsers r)"

definition block_behind :: "learn_input list \<Rightarrow> learn_db \<Rightarrow> string \<Rightarrow> bool" where
  "block_behind xs db code \<longleftrightarrow> (\<exists>r \<in> set (db_candidates db). \<exists>p. cc_ProposedCode r = code \<and> policy_used xs p \<and> po_AutoBlock p
     \<and> 995 / 1000 \<le> cc_Confidence r \<and> 10 \<le> cc_EvidenceCount r \<and> 3 \<le> cc_DistinctUsers r)"

text \<open>A code an administrator has written: by saving a rule or by promoting a candidate by hand.\<close>

definition written_by_hand :: "learn_input list \<Rightarrow> learn_db \<Rightarrow> string \<Rightarrow> bool" where
  "written_by_hand xs db code \<longleftrightarrow> (\<exists>q. SaveRule q \<in> set xs \<and> cr_Code q = code)
     \<or> (\<exists>i a. PromoteManual i a \<in> set xs \<and> (\<exists>r \<in> set (db_candidates db). cc_ID r = i \<and> cc_ProposedCode r = code))"

definition rule_behind :: "learn_input list \<Rightarrow> CyberRule list \<Rightarrow> learn_db \<Rightarrow> CyberRule \<Rightarrow> bool" where
  "rule_behind xs rules0 db r \<longleftrightarrow> cr_Code r \<in> cr_Code ` set rules0 \<or> written_by_hand xs db (cr_Code r)
     \<or> evidence_behind xs db (cr_Code r) \<and> (cr_Action r = DecisionBlock \<longrightarrow> block_behind xs db (cr_Code r))"

lemma policy_used_snoc: "policy_used xs p \<Longrightarrow> policy_used (xs @ [x]) p"
  by (auto simp: policy_used_def)

lemma behind_grows:
  assumes g: "\<And>r. r \<in> set (db_candidates db) \<Longrightarrow> \<exists>r' \<in> set (db_candidates db'). grown r r'"
  shows "evidence_behind xs db code \<Longrightarrow> evidence_behind (xs @ [x]) db' code"
    and "block_behind xs db code \<Longrightarrow> block_behind (xs @ [x]) db' code"
    and "written_by_hand xs db code \<Longrightarrow> written_by_hand (xs @ [x]) db' code"
proof -
  assume "evidence_behind xs db code"
  then obtain r p where r: "r \<in> set (db_candidates db)" "cc_ProposedCode r = code" "policy_used xs p"
    "po_MinConfidence p \<le> cc_Confidence r" "po_MinEvidence p \<le> cc_EvidenceCount r" "po_MinDistinctUsers p \<le> cc_DistinctUsers r"
    unfolding evidence_behind_def by blast
  from g [OF r(1)] obtain r' where r': "r' \<in> set (db_candidates db')" "grown r r'" by blast
  from r r' grown_fields(2) [OF r'(2)] show "evidence_behind (xs @ [x]) db' code"
    unfolding evidence_behind_def grown_def
    by (intro bexI [OF _ r'(1)] exI [of _ p]) (auto intro: policy_used_snoc)
next
  assume "block_behind xs db code"
  then obtain r p where r: "r \<in> set (db_candidates db)" "cc_ProposedCode r = code" "policy_used xs p" "po_AutoBlock p"
    "995 / 1000 \<le> cc_Confidence r" "10 \<le> cc_EvidenceCount r" "3 \<le> cc_DistinctUsers r"
    unfolding block_behind_def by blast
  from g [OF r(1)] obtain r' where r': "r' \<in> set (db_candidates db')" "grown r r'" by blast
  from r r' grown_fields(2) [OF r'(2)] show "block_behind (xs @ [x]) db' code"
    unfolding block_behind_def grown_def
    by (intro bexI [OF _ r'(1)] exI [of _ p]) (auto intro: policy_used_snoc)
next
  assume w: "written_by_hand xs db code"
  show "written_by_hand (xs @ [x]) db' code"
  proof (cases "\<exists>q. SaveRule q \<in> set xs \<and> cr_Code q = code")
    case True
    then show ?thesis by (auto simp: written_by_hand_def)
  next
    case False
    with w obtain i a r where r: "PromoteManual i a \<in> set xs" "r \<in> set (db_candidates db)" "cc_ID r = i" "cc_ProposedCode r = code"
      by (auto simp: written_by_hand_def)
    from g [OF r(2)] obtain r' where "r' \<in> set (db_candidates db')" "grown r r'" by blast
    with r(1,3,4) grown_fields [of r r'] show ?thesis by (auto simp: written_by_hand_def)
  qed
qed

lemma rule_behind_grows:
  assumes "\<And>r. r \<in> set (db_candidates db) \<Longrightarrow> \<exists>r' \<in> set (db_candidates db'). grown r r'" "rule_behind xs rules0 db r"
  shows "rule_behind (xs @ [x]) rules0 db' r"
  using assms(2) behind_grows [OF assms(1)] unfolding rule_behind_def by blast

lemma work_ok_step:
  assumes ok: "candidates_ok (ls_db st)" and w: "work_ok xs st"
  shows "work_ok (xs @ [x]) (learn_step compiles x st)"
proof -
  let ?st = "learn_step compiles x st"
  have old: "(\<exists>r \<in> set (db_candidates (ls_db ?st)). grown (work_row v) r)
      \<and> (\<forall>c p. v = Promoting c p \<longrightarrow> promotable p c \<and> policy_used (xs @ [x]) p)" if v: "v \<in> set (ls_work st)" for v
  proof -
    from w v have k: "\<exists>r \<in> set (db_candidates (ls_db st)). grown (work_row v) r"
        "\<forall>c p. v = Promoting c p \<longrightarrow> promotable p c \<and> policy_used xs p" unfolding work_ok_def by blast+
    then obtain r where r: "r \<in> set (db_candidates (ls_db st))" "grown (work_row v) r" by blast
    from step_grown [OF ok r(1)] grown_trans [OF r(2)] k(2) policy_used_snoc show ?thesis by blast
  qed
  have new: "v \<in> set (ls_work st) \<or> (\<exists>row \<in> set (db_candidates (ls_db ?st)). v = Stored row)
      \<or> (\<exists>i c p. x = Decide i p \<and> promotable p c \<and> v = Promoting c p \<and> Stored c \<in> set (ls_work st))"
    if v: "v \<in> set (ls_work ?st)" for v
  proof (cases x)
    case (Learn c d)
    with v learn_grown(2) [OF ok, of c d] show ?thesis by (auto split: option.splits)
  next
    case (Decide i p)
    show ?thesis
    proof (cases "\<exists>c. work_at i st = Some (Stored c)")
      case True
      then obtain c where c: "work_at i st = Some (Stored c)" by blast
      then have "Stored c \<in> set (ls_work st)" by (rule work_at_in)
      with v Decide c set_update_subset_insert [of "ls_work st" i "Promoting c p", THEN subsetD, of v]
        set_remove_at [of i "ls_work st", THEN subsetD, of v] show ?thesis by (cases "promotable p c") auto
    next
      case False
      with v Decide show ?thesis by (auto split: option.splits work.splits)
    qed
  next
    case (Promote i)
    with v set_remove_at [of i "ls_work st"] show ?thesis by (auto split: option.splits work.splits)
  next
    case (Abandon i)
    with v set_remove_at [of i "ls_work st"] show ?thesis by auto
  qed (use v in \<open>auto split: sum.splits\<close>)
  have "(\<exists>r \<in> set (db_candidates (ls_db ?st)). grown (work_row v) r)
      \<and> (\<forall>c p. v = Promoting c p \<longrightarrow> promotable p c \<and> policy_used (xs @ [x]) p)" if v: "v \<in> set (ls_work ?st)" for v
    using new [OF v]
  proof (elim disjE bexE exE conjE)
    fix i c p assume "x = Decide i p" "promotable p c" "v = Promoting c p" "Stored c \<in> set (ls_work st)"
    with old [of "Stored c"] show ?thesis by (auto simp: policy_used_def promotable_def)
  next
    fix row assume "row \<in> set (db_candidates (ls_db ?st))" "v = Stored row"
    then show ?thesis by (auto intro: grown_refl)
  qed (rule old)
  then show ?thesis by (auto simp: work_ok_def)
qed

lemma PromoteCyberRuleCandidate_rules:
  assumes "r \<in> set (db_rules (snd (PromoteCyberRuleCandidate c autoBlock db)))"
  shows "r \<in> set (db_rules db) \<or> cr_Code r = cc_ProposedCode c \<and> (cr_Action r = DecisionBlock \<longrightarrow>
     promoted_action autoBlock c = DecisionBlock \<or> (\<exists>q \<in> set (db_rules db). cr_Code q = cr_Code r \<and> cr_Action q = DecisionBlock))"
  using assms
  by (auto simp: PromoteCyberRuleCandidate_def Let_def set_update_where adaptive_rule_def overwrite_rule_def
      dest!: find_SomeD split: option.splits if_splits)

lemma rules_behind_run:
  "\<forall>r \<in> set (db_rules (ls_db (learn_run compiles xs (fresh_learning rules n)))).
     rule_behind xs rules (ls_db (learn_run compiles xs (fresh_learning rules n))) r"
  and work_ok_run: "work_ok xs (learn_run compiles xs (fresh_learning rules n))"
proof (induction xs rule: rev_induct)
  case Nil
  { case 1 show ?case by (auto simp: fresh_learning_def rule_behind_def) }
  { case 2 show ?case by (simp add: fresh_learning_def work_ok_def) }
next
  case (snoc x xs)
  let ?st = "learn_run compiles xs (fresh_learning rules n)"
  let ?st' = "learn_step compiles x ?st"
  note ok = learn_run_ok [of compiles xs rules n]
  { case 2 show ?case using work_ok_step [OF ok snoc(2)] by simp }
  { case 1
    note g = step_grown [OF ok, where x = x and compiles = compiles]
    have old: "rule_behind (xs @ [x]) rules (ls_db ?st') r" if "r \<in> set (db_rules (ls_db ?st))" for r
      by (rule rule_behind_grows [OF g]) (use snoc(1) that in auto)
    have "rule_behind (xs @ [x]) rules (ls_db ?st') r" if r: "r \<in> set (db_rules (ls_db ?st'))" for r
    proof (cases x)
      case (Learn c d)
      with r learn_grown(3) [OF ok, of c d] old [of r] show ?thesis by (auto split: option.splits)
    next
      case (Decide i p)
      with r old [of r] show ?thesis by (auto split: option.splits work.splits)
    next
      case (Abandon i)
      with r old [of r] show ?thesis by simp
    next
      case (SetStatus i s)
      with r old [of r] show ?thesis by (auto simp: SetCyberRuleCandidateStatus_def split: sum.splits if_splits)
    next
      case (DeleteRule i)
      with r old [of r] show ?thesis by (auto simp: DeleteCyberRule_def split: sum.splits if_splits)
    next
      case (SaveRule q)
      have "r \<in> set (db_rules (ls_db ?st)) \<or> cr_Code r = cr_Code q"
        using r SaveRule by (auto simp: UpsertCyberRule_def Let_def set_update_where split: sum.splits if_splits)
      with old [of r] SaveRule show ?thesis by (auto simp: rule_behind_def written_by_hand_def)
    next
      case (PromoteManual i a)
      have "r \<in> set (db_rules (ls_db ?st)) \<or> (\<exists>c \<in> set (db_candidates (ls_db ?st)). cc_ID c = i \<and> cr_Code r = cc_ProposedCode c)"
        using r PromoteManual by (auto simp: PromoteCyberRuleCandidateManual_def Let_def manual_rule_def
            dest!: find_SomeD split: sum.splits if_splits option.splits)
      then show ?thesis
      proof
        assume "\<exists>c \<in> set (db_candidates (ls_db ?st)). cc_ID c = i \<and> cr_Code r = cc_ProposedCode c"
        then obtain c where c: "c \<in> set (db_candidates (ls_db ?st))" "cc_ID c = i" "cr_Code r = cc_ProposedCode c" by blast
        from g [OF c(1)] obtain c' where "c' \<in> set (db_candidates (ls_db ?st'))" "grown c c'" by blast
        with c grown_fields [of c c'] PromoteManual show ?thesis by (auto simp: rule_behind_def written_by_hand_def)
      qed (rule old)
    next
      case (Promote i)
      show ?thesis
      proof (cases "\<exists>c p. work_at i ?st = Some (Promoting c p)")
        case True
        then obtain c p where w: "work_at i ?st = Some (Promoting c p)" by blast
        then have "Promoting c p \<in> set (ls_work ?st)" by (rule work_at_in)
        with snoc(2) obtain row where row: "row \<in> set (db_candidates (ls_db ?st))" "grown c row" "promotable p c" "policy_used xs p"
          by (fastforce simp: work_ok_def)
        have code: "cc_ProposedCode row = cc_ProposedCode c" using grown_fields(2) [OF row(2)] .
        have e: "evidence_behind xs (ls_db ?st) (cc_ProposedCode c)"
          unfolding evidence_behind_def using row code
          by (intro bexI [OF _ row(1)] exI [of _ p]) (auto simp: grown_def promotable_def)
        have b: "block_behind xs (ls_db ?st) (cc_ProposedCode c)" if "promoted_action (po_AutoBlock p) c = DecisionBlock"
          unfolding block_behind_def using row code that
          by (intro bexI [OF _ row(1)] exI [of _ p])
            (auto simp: grown_def promoted_action_def DecisionBlock_def DecisionReview_def split: if_splits)
        have "r \<in> set (db_rules (snd (PromoteCyberRuleCandidate c (po_AutoBlock p) (ls_db ?st))))"
          using r Promote w by simp
        from PromoteCyberRuleCandidate_rules [OF this] show ?thesis
        proof
          assume k: "cr_Code r = cc_ProposedCode c \<and> (cr_Action r = DecisionBlock \<longrightarrow>
            promoted_action (po_AutoBlock p) c = DecisionBlock \<or> (\<exists>q \<in> set (db_rules (ls_db ?st)). cr_Code q = cr_Code r \<and> cr_Action q = DecisionBlock))"
          have "rule_behind xs rules (ls_db ?st) r"
          proof (cases "cr_Action r = DecisionBlock \<and> promoted_action (po_AutoBlock p) c \<noteq> DecisionBlock")
            case True
            with k obtain q where "q \<in> set (db_rules (ls_db ?st))" "cr_Code q = cr_Code r" "cr_Action q = DecisionBlock" by blast
            with snoc(1) k e show ?thesis by (fastforce simp: rule_behind_def)
          next
            case False
            with k e b show ?thesis by (auto simp: rule_behind_def)
          qed
          from rule_behind_grows [OF g this] show ?thesis .
        qed (rule old)
      next
        case False
        with r Promote old [of r] show ?thesis by (auto split: option.splits work.splits)
      qed
    qed
    then show ?case by simp }
qed

section \<open>Rejection\<close>

lemma manual_promotion:
  assumes "PromoteCyberRuleCandidateManual compiles i requested db = Inr (c', rule, db')"
  obtains c f where "find (\<lambda>r. cc_ID r = i) (db_candidates db) = Some c" "cc_Status c \<noteq> ''rejected''"
    "db_candidates db' = update_where (\<lambda>r. cc_ID r = i) f (db_candidates db)"
proof -
  obtain action where a: "normalizeManualCandidateAction requested = Some action"
    using assms by (cases "normalizeManualCandidateAction requested") (simp_all add: PromoteCyberRuleCandidateManual_def)
  obtain c where c: "find (\<lambda>r. cc_ID r = i) (db_candidates db) = Some c"
    using assms a by (cases "find (\<lambda>r. cc_ID r = i) (db_candidates db)") (simp_all add: PromoteCyberRuleCandidateManual_def)
  let ?rule = "manual_rule (db_nextRule db) action c"
  have s: "cc_Status c = ''candidate'' \<or> cc_Status c = ''shadow''"
  proof (rule ccontr)
    assume "\<not> (cc_Status c = ''candidate'' \<or> cc_Status c = ''shadow'')"
    then have "cc_Status c \<noteq> ''candidate'' \<and> cc_Status c \<noteq> ''shadow''" by blast
    with a c have "PromoteCyberRuleCandidateManual compiles i requested db = Inl (BadPromoteStatus (cc_Status c))"
      by (simp add: PromoteCyberRuleCandidateManual_def)
    with assms show False by simp
  qed
  then have "\<not> (cc_Status c \<noteq> ''candidate'' \<and> cc_Status c \<noteq> ''shadow'')" by blast
  with assms a c obtain f where "db_candidates db' = update_where (\<lambda>r. cc_ID r = i) f (db_candidates db)"
    unfolding PromoteCyberRuleCandidateManual_def Let_def
    by (cases "ValidateCyberRule compiles (?rule\<lparr>cr_ID := 0\<rparr>)"; cases "list_ex (\<lambda>r. cr_Code r = cr_Code ?rule) (db_rules db)") auto
  moreover have "cc_Status c \<noteq> ''rejected''" using s by auto
  ultimately show ?thesis using that c by blast
qed

definition rejected_at_rest :: "int \<Rightarrow> learn_state \<Rightarrow> bool" where
  "rejected_at_rest i st \<longleftrightarrow>
     (\<exists>r \<in> set (db_candidates (ls_db st)). cc_ID r = i \<and> cc_Status r = ''rejected'')
     \<and> (\<forall>w \<in> set (ls_work st). cc_ID (work_row w) = i \<longrightarrow> (\<exists>c. w = Stored c \<and> cc_Status c = ''rejected''))"

lemma rejected_step:
  assumes ok: "candidates_ok (ls_db st)" and rej: "rejected_at_rest i st"
    and x: "\<forall>s. x = SetStatus i s \<longrightarrow> s = ''rejected''"
  shows "rejected_at_rest i (learn_step compiles x st)"
proof -
  from rej obtain r where r: "r \<in> set (db_candidates (ls_db st))" "cc_ID r = i" "cc_Status r = ''rejected''"
    by (auto simp: rejected_at_rest_def)
  have work: "cc_ID (work_row w) = i \<Longrightarrow> \<exists>c. w = Stored c \<and> cc_Status c = ''rejected''" if "w \<in> set (ls_work st)" for w
    using rej that by (auto simp: rejected_at_rest_def)
  have unique: "q = r" if "q \<in> set (db_candidates (ls_db st))" "cc_ID q = i" for q
  proof -
    have "inj_on cc_ID (set (db_candidates (ls_db st)))" using ok by (simp add: candidates_ok_def distinct_map)
    from inj_onD [OF this _ that(1) r(1)] that(2) r(2) show ?thesis by simp
  qed
  show ?thesis
  proof (cases x)
    case (Learn c d)
    show ?thesis
    proof (cases "UpsertCyberRuleCandidate c d (ls_db st)")
      case None
      with Learn rej show ?thesis by simp
    next
      case (Some p)
      obtain row db' where p: "p = (row, db')" by fastforce
      have rows: "(\<exists>q \<in> set (db_candidates db'). cc_ID q = i \<and> cc_Status q = ''rejected'')
          \<and> (cc_ID row = i \<longrightarrow> cc_Status row = ''rejected'')"
        using ok Some [unfolded p]
      proof (cases rule: upsert_cases)
        case new
        have "cc_ID row = db_nextCandidate (ls_db st)" by (simp add: new(4) new_candidate_def)
        moreover have "i < db_nextCandidate (ls_db st)" using ok r by (auto simp: candidates_ok_def)
        ultimately show ?thesis using r new(5) by auto
      next
        case (again us old vs)
        have id: "cc_ID row = cc_ID old" by (simp add: again(6) seen_again_def)
        have st: "cc_Status row = (if cc_Status old = ''candidate'' then ''shadow'' else cc_Status old)"
          by (simp add: again(6) seen_again_def)
        show ?thesis
        proof (cases "cc_ID old = i")
          case True
          then have "old = r" using unique again(3) by simp
          with r st id again(7) show ?thesis by auto
        next
          case False
          with r have "r \<in> set us \<union> set vs" by (auto simp: again(3))
          with r False id again(7) show ?thesis by auto
        qed
      qed
      with work Learn Some p show ?thesis by (auto simp: rejected_at_rest_def)
    qed
  next
    case (Decide k p)
    show ?thesis
    proof (cases "\<exists>c. work_at k st = Some (Stored c)")
      case True
      then obtain c where c: "work_at k st = Some (Stored c)" by blast
      from work [OF work_at_in [OF c]] have "cc_ID c = i \<Longrightarrow> \<not> promotable p c" by (auto simp: promotable_def)
      with work r Decide c set_update_subset_insert [of "ls_work st" k "Promoting c p"] set_remove_at [of k "ls_work st"]
      show ?thesis by (cases "promotable p c") (auto simp: rejected_at_rest_def)
    next
      case False
      with rej Decide show ?thesis by (auto split: option.splits work.splits)
    qed
  next
    case (Promote k)
    show ?thesis
    proof (cases "\<exists>c p. work_at k st = Some (Promoting c p)")
      case True
      then obtain c p where c: "work_at k st = Some (Promoting c p)" by blast
      from work [OF work_at_in [OF c]] have "cc_ID c \<noteq> i" by auto
      with r have "r \<in> set (db_candidates (snd (PromoteCyberRuleCandidate c (po_AutoBlock p) (ls_db st))))"
        by (auto simp: PromoteCyberRuleCandidate_def Let_def set_update_where split: option.split prod.split intro!: image_eqI)
      with work r Promote c set_remove_at [of k "ls_work st"] show ?thesis by (auto simp: rejected_at_rest_def)
    next
      case False
      with rej Promote show ?thesis by (auto split: option.splits work.splits)
    qed
  next
    case (Abandon k)
    with work r set_remove_at [of k "ls_work st"] show ?thesis by (auto simp: rejected_at_rest_def)
  next
    case (SetStatus j s)
    show ?thesis
    proof (cases "j = i")
      case True
      with x SetStatus have s: "s = ''rejected''" by auto
      have "\<exists>q \<in> set (update_where (\<lambda>q. cc_ID q = i \<and> cc_Status q \<noteq> ''promoted'') (\<lambda>q. q\<lparr>cc_Status := ''rejected''\<rparr>)
          (db_candidates (ls_db st))). cc_ID q = i \<and> cc_Status q = ''rejected''"
        unfolding set_update_where by (rule bexI [OF _ imageI [OF r(1)]]) (use r in simp)
      with work r SetStatus True s show ?thesis
        by (auto simp: rejected_at_rest_def SetCyberRuleCandidateStatus_def)
    next
      case False
      have "r \<in> set (update_where (\<lambda>q. cc_ID q = j \<and> cc_Status q \<noteq> ''promoted'') (\<lambda>q. q\<lparr>cc_Status := s\<rparr>) (db_candidates (ls_db st)))"
        using r False by (auto simp: set_update_where intro!: image_eqI)
      with work r SetStatus show ?thesis by (auto simp: rejected_at_rest_def SetCyberRuleCandidateStatus_def)
    qed
  next
    case (PromoteManual j a)
    show ?thesis
    proof (cases "PromoteCyberRuleCandidateManual compiles j a (ls_db st)")
      case (Inl e)
      with rej PromoteManual show ?thesis by simp
    next
      case (Inr v)
      obtain c rule db where v: "v = (c, rule, db)" by (cases v) auto
      from Inr [unfolded v] obtain c0 f where f: "find (\<lambda>q. cc_ID q = j) (db_candidates (ls_db st)) = Some c0"
        "cc_Status c0 \<noteq> ''rejected''" "db_candidates db = update_where (\<lambda>q. cc_ID q = j) f (db_candidates (ls_db st))"
        by (rule manual_promotion)
      from find_SomeD [OF f(1)] f(2) unique r(3) have "j \<noteq> i" by blast
      moreover have "(if cc_ID r = j then f r else r) \<in> set (db_candidates db)"
        unfolding f(3) by (rule in_update_where [OF r(1)])
      ultimately have "r \<in> set (db_candidates db)" using r(2) by simp
      with work r PromoteManual Inr v show ?thesis by (auto simp: rejected_at_rest_def)
    qed
  next
    case (SaveRule q)
    with work r show ?thesis by (auto simp: rejected_at_rest_def UpsertCyberRule_def Let_def split: sum.splits if_splits)
  next
    case (DeleteRule k)
    have "\<exists>q \<in> set (update_where (\<lambda>q. cc_PromotedRuleID q = Some k) (\<lambda>q. q\<lparr>cc_PromotedRuleID := None\<rparr>) (db_candidates (ls_db st))).
        cc_ID q = i \<and> cc_Status q = ''rejected''"
      unfolding set_update_where by (rule bexI [OF _ imageI [OF r(1)]]) (use r in simp)
    with work r DeleteRule show ?thesis by (auto simp: rejected_at_rest_def DeleteCyberRule_def)
  qed
qed

lemma rejected_run:
  assumes "candidates_ok (ls_db st)" "rejected_at_rest i st" "\<forall>s. SetStatus i s \<in> set xs \<longrightarrow> s = ''rejected''"
  shows "rejected_at_rest i (learn_run compiles xs st)"
proof -
  have "candidates_ok (ls_db (learn_run compiles xs st)) \<and> rejected_at_rest i (learn_run compiles xs st)"
    using assms(3)
  proof (induction xs rule: rev_induct)
    case (snoc x xs)
    then have k: "candidates_ok (ls_db (learn_run compiles xs st))" "rejected_at_rest i (learn_run compiles xs st)"
      and x: "\<forall>s. x = SetStatus i s \<longrightarrow> s = ''rejected''" by auto
    from rejected_step [OF k x] learn_step_ok [OF k(1)] show ?case by simp
  qed (use assms in simp)
  then show ?thesis ..
qed

section \<open>What a promotion writes\<close>

lemma promotion_writes:
  assumes "PromoteCyberRuleCandidate c autoBlock db = (rule, db')"
  shows "\<exists>r \<in> set (db_rules db'). cr_Code r = cc_ProposedCode c \<and> cr_Pattern r = cc_Pattern c \<and> cr_Enabled r
      \<and> (cr_Action r = DecisionBlock \<or> cr_Action r = DecisionReview)"
    and "r \<in> set (db_candidates db') \<Longrightarrow> cc_ID r = cc_ID c \<Longrightarrow> cc_Status r = ''promoted''"
proof -
  let ?new = "adaptive_rule (db_nextRule db) (promoted_action autoBlock c) c"
  have a: "promoted_action autoBlock c = DecisionBlock \<or> promoted_action autoBlock c = DecisionReview"
    by (simp add: promoted_action_def)
  show "\<exists>r \<in> set (db_rules db'). cr_Code r = cc_ProposedCode c \<and> cr_Pattern r = cc_Pattern c \<and> cr_Enabled r
      \<and> (cr_Action r = DecisionBlock \<or> cr_Action r = DecisionReview)"
  proof (cases "find (\<lambda>r. cr_Code r = cc_ProposedCode c) (db_rules db)")
    case None
    with assms a show ?thesis by (auto simp: PromoteCyberRuleCandidate_def Let_def adaptive_rule_def)
  next
    case (Some old)
    then have old: "old \<in> set (db_rules db)" "cr_Code old = cc_ProposedCode c" using find_SomeD [OF Some] by auto
    have "db_rules db' = update_where (\<lambda>r. cr_Code r = cc_ProposedCode c) (overwrite_rule ?new) (db_rules db)"
      using assms Some by (auto simp: PromoteCyberRuleCandidate_def Let_def)
    with in_update_where [OF old(1), of "\<lambda>r. cr_Code r = cc_ProposedCode c" "overwrite_rule ?new"] old(2)
    have "overwrite_rule ?new old \<in> set (db_rules db')" by simp
    with old(2) a show ?thesis by (intro bexI [of _ "overwrite_rule ?new old"]) (auto simp: overwrite_rule_def adaptive_rule_def)
  qed
  show "r \<in> set (db_candidates db') \<Longrightarrow> cc_ID r = cc_ID c \<Longrightarrow> cc_Status r = ''promoted''"
    using assms by (auto simp: PromoteCyberRuleCandidate_def Let_def set_update_where split: option.splits if_splits)
qed

section \<open>What is learned\<close>

lemma strip_keeps:
  assumes "\<forall>e \<in> set encs. \<forall>c \<in> set e. \<not> graphic c" "x \<in> set s" "graphic x"
  shows "x \<in> set (strip_leading encs s)"
  using assms
proof (induction encs s rule: strip_leading.induct)
  case (1 encs s)
  show ?case
  proof (cases "find (\<lambda>e. e \<noteq> [] \<and> is_prefix e s) encs")
    case None
    with 1 show ?thesis by (simp add: strip_leading.simps [of encs s])
  next
    case (Some e)
    then have e: "e \<in> set encs" "is_prefix e s" using find_SomeD [OF Some] by auto
    then obtain t where t: "s = e @ t" by (auto simp: is_prefix_iff)
    with 1(2-4) e(1) have "x \<in> set (drop (length e) s)" by auto
    with 1 Some show ?thesis by (simp add: strip_leading.simps [of encs s])
  qed
qed

lemma trim_space_keeps: "x \<in> set s \<Longrightarrow> graphic x \<Longrightarrow> trim_space s \<noteq> []"
proof -
  assume x: "x \<in> set s" "graphic x"
  have e: "\<forall>e \<in> set space_encodings. \<forall>c \<in> set e. \<not> graphic c" "\<forall>e \<in> set (map rev space_encodings). \<forall>c \<in> set e. \<not> graphic c"
    by (simp_all add: space_encodings_def graphic_def)
  have "x \<in> set (strip_leading (map rev space_encodings) (rev (strip_leading space_encodings s)))"
    by (rule strip_keeps [OF e(2) _ x(2)]) (use strip_keeps [OF e(1) x] in simp)
  then show ?thesis by (auto simp: trim_space_def trim_left_space_def trim_right_space_def)
qed

lemma category_trim: "c \<in> set adaptiveCategoryAllowlist \<Longrightarrow> trim_space c \<noteq> []"
  by (rule trim_space_keeps [of "hd c"]) (auto simp: adaptiveCategoryAllowlist_def graphic_def)

lemma candidateE:
  assumes "candidate_of lib compiles digest profile x r = Some c"
  obtains "is" where "is = validateAdaptiveIndicators lib (fs_RequestText x) (lr_Indicators r)" "2 \<le> length is"
    "lr_IsCyber r" "8 / 10 \<le> lr_Confidence r" "cc_Category c \<in> set adaptiveCategoryAllowlist"
    "cc_Pattern c = indicator_pattern is" "compiles (cc_Pattern c)" "cc_PatternType c = ''regex''" "cc_ProposedAction c = DecisionReview"
    "is_prefix ''CYBER_ADAPTIVE_'' (cc_ProposedCode c)" "cc_Confidence c = clampConfidence (lr_Confidence r)"
    "length (cc_Reason c) \<le> 500"
proof -
  let ?is = "validateAdaptiveIndicators lib (fs_RequestText x) (lr_Indicators r)"
  let ?p = "buildAdaptiveIndicatorPattern compiles ?is"
  have k: "lr_IsCyber r" "\<not> lr_Confidence r < 8 / 10" "to_lower (trim_space (lr_Category r)) \<in> set adaptiveCategoryAllowlist"
    "\<not> length ?is < 2" "?p \<noteq> []"
    using assms by (auto simp: candidate_of_def Let_def split: if_splits)
  have p: "?p = indicator_pattern ?is" "compiles ?p" using k(5) by (auto simp: buildAdaptiveIndicatorPattern_def split: if_splits)
  show ?thesis
    by (rule that [of ?is]) (use assms k p in \<open>auto simp: candidate_of_def Let_def is_prefix_iff truncateString_def\<close>)
qed

lemma pattern_nonempty: "indicator_pattern is \<noteq> []"
  by (simp add: indicator_pattern_def)

lemma candidate_validates:
  assumes "candidate_of lib compiles digest profile x r = Some c" "action = DecisionReview \<or> action = DecisionBlock"
  shows "ValidateCyberRule compiles (manual_rule i action c) = None"
proof -
  from assms(1) obtain "is" where k: "is = validateAdaptiveIndicators lib (fs_RequestText x) (lr_Indicators r)"
    "cc_Category c \<in> set adaptiveCategoryAllowlist" "cc_Pattern c = indicator_pattern is" "compiles (cc_Pattern c)"
    "cc_PatternType c = ''regex''" "is_prefix ''CYBER_ADAPTIVE_'' (cc_ProposedCode c)"
    by (rule candidateE)
  have len: "length (cc_Pattern c) \<le> 8192"
    unfolding k(3) by (rule pattern_fits) (use indicators_sound [OF k(1)] ok_length in blast)+
  obtain t where t: "cc_ProposedCode c = ''CYBER_ADAPTIVE_'' @ t" using k(6) unfolding is_prefix_iff by blast
  have code: "trim_space (cc_ProposedCode c) \<noteq> []"
    by (rule trim_space_keeps [of "CHR ''C''"]) (simp_all add: t graphic_def)
  have name: "trim_space (cr_Name (manual_rule i action c)) \<noteq> []"
    by (rule trim_space_keeps [of "CHR ''A''"]) (simp_all add: manual_rule_def truncateString_def graphic_def)
  have action: "action \<in> {DecisionAllow, DecisionBlock, DecisionReview}" using assms(2) by auto
  show ?thesis
    using code name category_trim [OF k(2)] len pattern_nonempty [of "is"] k(3-5) action
    by (simp add: ValidateCyberRule_def manual_rule_def)
qed

end
