(* ===== verification/Spec2Isabelle.thy ===== *)
theory Spec2Isabelle
  imports Request_Limits Trace_Event Token_Usage Net_Guard Gateway_Http Stream_Proxy Rate_Guard
    Trace_Writer Event_Sink Audit_Pipeline Gateway_Passage Tracking_Requests Audit_Exchange Adaptive_Store
begin

text \<open>
  A verification development of the risk gateway (\<open>ckbkdj/newapi-risk-platform\<close>): a reverse proxy in Go
  that stands between clients and the providers of language models. All paths below are relative to
  \<open>src/internal/platform\<close>.

  \<^bold>\<open>The program.\<close> \<open>Gateway.ServeHTTP\<close> (\<open>gateway.go\<close>) takes a request through route lookup, client
  authentication, two admission channels, rate limit, concurrency slot and body limit, has the audit
  engine judge its text, and forwards it, relaying the answer of the upstream as a stream or as one
  body. \<open>AuditEngine.Audit\<close> (\<open>audit.go\<close>) extracts the text, scans it with the enabled rules, and
  asks audit models, with retries, fallback models, chunking of long requests, repair of answers,
  panels of verifiers and checks of every quote. Redis (\<open>redis.go\<close>) keeps rate buckets, slots and
  nonces, with a local fallback. Every request ends as one trace that \<open>TraceWriter\<close> batches into
  PostgreSQL; \<open>EventSink\<close> publishes events to Kafka through an outbox table. A signed endpoint
  (\<open>http.go\<close>) accepts tracking events of clients.

  \<^bold>\<open>Conventions.\<close> Definitions carry the names of the Go functions and types; record fields carry the
  Go field after a two-letter prefix. A Go \<open>string\<close> or \<open>[]byte\<close> is a \<open>string\<close> (a list of bytes), an
  \<open>int\<close> an \<open>int\<close> with the wrap-around or the bound written out where it matters, a \<open>float64\<close> either a
  \<open>rat\<close> (where only comparisons of finite values occur) or the type with NaN and infinities of
  \<open>Audit_Types\<close>. An error is the left side of a sum. Times are integers of nanoseconds unless a text
  says otherwise. Libraries outside the repository (PostgreSQL, Redis, the HTTP client, regular
  expressions, cryptography, \<open>strconv.ParseFloat\<close>) are parameters; what the code relies on is a named
  hypothesis of the theorem or an assumption of a locale that is interpreted on the model.

  \<^bold>\<open>Theories.\<close>
  \<^item> \<open>Prelude\<close>: bounded integers, lists, reachability, the \<open>named_theorems\<close> collections and the
    locale \<open>refinement\<close> of simulations.
  \<^item> \<open>Go_Text\<close>, \<open>Go_Json\<close>, \<open>Json_Write\<close>: \<open>strings\<close>, UTF-8 and \<open>encoding/json\<close> as the program uses
    them; what is written is read back.
  \<^item> \<open>Request_Limits\<close>, \<open>Net_Guard\<close>, \<open>Gateway_Http\<close>, \<open>Stream_Proxy\<close>, \<open>Token_Usage\<close>: body limits,
    forbidden addresses and the dialer, headers and credentials, the relay as a machine, token counts.
  \<^item> \<open>Rate_Guard\<close>, \<open>Ttl_Cache\<close>, \<open>Security\<close>: the limiter, slots and nonces in Redis and in the fallback;
    the caches with their invalidation; sealed secrets, digests, signatures, sealed payloads.
  \<^item> \<open>Trace_Event\<close>, \<open>Batch_Worker\<close>, \<open>Trace_Writer\<close>, \<open>Event_Sink\<close>, \<open>Diagnostics\<close>: the record of a
    request, the batching goroutines as one generic machine with a conservation law, its two users, the
    outbox, and the reasons a trace states.
  \<^item> \<open>Audit_Types\<close>, \<open>Audit_Verdict\<close>, \<open>Audit_Chunks\<close>, \<open>Audit_Failover\<close>, \<open>Audit_Engine\<close>,
    \<open>Audit_Pipeline\<close>: decisions and diagnostics; from a model's answer to a verdict; long requests;
    retries and fallback models; the rules and the phases of \<open>Audit\<close>; their composition.
  \<^item> \<open>Audit_Json\<close>, \<open>Audit_Answer\<close>, \<open>Audit_Evidence\<close>, \<open>Audit_Call\<close>, \<open>Audit_Reply\<close>,
    \<open>Audit_Exchange\<close>: the bounded reader of answers, the one policy object in an answer, quotes and
    reference spans, the document and the body that are sent, the completion that comes back, and the
    whole HTTP call.
  \<^item> \<open>Adaptive_Rules\<close>, \<open>Adaptive_Store\<close>: the worker that asks a model about failures of the
    upstream (\<open>adaptive_rules.go\<close>): its policy, samples, indicators and the answer it accepts; the
    tables of candidates and rules with every statement that changes them.
  \<^item> \<open>Gateway_Server\<close>, \<open>Gateway_Spec\<close>, \<open>Gateway_Safety\<close>, \<open>Gateway_Vetting\<close>, \<open>Gateway_Passage\<close>:
    \<open>ServeHTTP\<close> as interleaved steps of any number of requests, its abstract life cycle and the
    refinement, its invariants, what a forwarded request has passed, and the run of a request alone.
  \<^item> \<open>Tracking_Ingest\<close>, \<open>Tracking_Requests\<close>: one tracking event, and the signed endpoint with other
    submitters and workers between two events.

  \<^bold>\<open>What the lemmas show.\<close> The properties below are numbered in the manifest's order. Each
  component theory first characterises its operations branch by branch (lemmas named after the
  operation), then proves the invariant or the contract its clients use; clients reach contracts
  through locale interpretations (\<open>batch_flush\<close> for both writers, \<open>token_limiter\<close> and \<open>slot_pool\<close>
  for Redis and for the fallback, \<open>ttl_store\<close> for both caches, \<open>permutation_fold\<close> for token counts,
  \<open>refinement\<close> for the gateway). Every property with a hypothesis
  is applied at a concrete input in the theorem that carries its name and \<open>_witness\<close>.

  \<^bold>\<open>Bounds and fuel.\<close> The readers of JSON take the depth the code itself limits; recursion over a
  text uses its length as fuel, which no reader exhausts, since every call consumes a byte. The
  decoding of wrapped answers recurses at most to the code's own depth limit. Loops over channels and
  timers are step relations, so no fuel bounds them; that a request ends is a theorem.

  \<^bold>\<open>Not modelled.\<close> SQL text and table layout (a table is a list or a map, a statement its documented
  effect); log lines and metrics; the texts of prompts; the regular expressions of the audit, which
  are parameters, so that theories say what follows from a match, not what matches; the extraction of
  the audited text from a request body (\<open>audit_cyber_input.go\<close>, \<open>audit_input_scope.go\<close>), whose result
  is an input of \<open>Audit_Engine\<close>; the policies of the audit that \<open>Audit\<close> never selects; the
  administration API, trace search and the process set-up (\<open>cmd\<close>). The manifest lists each with its
  reason.
\<close>

section \<open>The outbound connection\<close>

text \<open>
  C1. The dialer of the upstream client only connects to an address that resolution returned
  and that is not forbidden: an IPv4 address (IPv4-mapped forms included) outside every
  private, loopback, link-local, shared, test, multicast and reserved block, or an IPv6
  address outside the corresponding IPv6 classes.
\<close>

theorem dial_never_forbidden:
  assumes "DialContext False resolve connect host = Inr a"
  shows "(\<exists>addrs. resolve host = Some addrs \<and> a \<in> set addrs) \<and> connect a
    \<and> (\<forall>x y z w. To4 a = Some [x, y, z, w] \<longrightarrow> \<not> forbidden4 x y z)
    \<and> (To4 a = None \<and> length a = 16 \<longrightarrow> \<not> forbidden6 a)"
proof -
  obtain addrs where addrs: "resolve host = Some addrs" "dial_addresses False connect addrs None = Inr a"
    using assms by (auto simp: DialContext_def split: option.splits)
  from dial_addresses_safe [OF this(2)] addrs(1) show ?thesis
    using isForbiddenIP4 isForbiddenIP6 by auto
qed

theorem dial_never_forbidden_witness:
  "DialContext False (\<lambda>h. Some [[127, 0, 0, 1], [8, 8, 8, 8]]) (\<lambda>a. True) ''up'' = Inr [8, 8, 8, 8]
   \<and> \<not> forbidden4 8 8 8"
proof -
  have d: "DialContext False (\<lambda>h. Some [[127, 0, 0, 1], [8, 8, 8, 8]]) (\<lambda>a. True) ''up'' = Inr [8, 8, 8, 8]"
    by code_simp
  with dial_never_forbidden [OF d] show ?thesis by (simp add: To4_def)
qed


text \<open>A bearer route, and a client that sends its own credentials.\<close>

definition sample_route :: Route where
  "sample_route = \<lparr>rt_ID = 1, rt_Slug = ''r'', rt_Name = ''r'', rt_BaseURL = ''b'', rt_Provider = ''p'',
     rt_AuthMode = ''bearer'', rt_SecretHeader = [], rt_AuditProfileID = None, rt_Enabled = True,
     rt_FailClosed = True, rt_RequestTimeoutMS = 1000, rt_MaxConcurrency = 1, rt_RateLimitRPS = 1,
     rt_RateLimitBurst = 1, rt_UpstreamSecretCiphertext = ''c'', rt_InboundKeyDigest = []\<rparr>"



section \<open>Limits\<close>

text \<open>
  Admission of a request body of known length is exact: a body is refused at the header
  exactly when it is longer than the effective limit, which is the configured soft limit when
  one is set, and otherwise the hard ceiling; the limit in force never exceeds the ceiling.
\<close>

theorem admission_exact:
  assumes "0 \<le> n"
  shows "ExceedsKnownLength (resolveRequestBodyLimit c h n) n \<longleftrightarrow>
    (let hard = (if h \<le> 0 then defaultRequestHardMaxBytes else h)
     in (if 0 < c then min c hard < n else hard < n))"
  using assms
  by (auto simp: ExceedsKnownLength_def resolveRequestBodyLimit_def Let_def)

theorem admission_exact_witness:
  "(0::int) \<le> 100 \<and> ExceedsKnownLength (resolveRequestBodyLimit 64 0 100) 100"
  using admission_exact [of 100 64 0]
  by (simp add: Let_def defaultRequestHardMaxBytes_def)


text \<open>The empty guard, and calls of one client on it.\<close>

definition idle_guard :: RedisGuard where
  "idle_guard = \<lparr>rg_client = None, rg_available = False, rg_buckets = Map.empty,
     rg_semaphores = Map.empty, rg_operations = 0, rg_streamMax = 0\<rparr>"




text \<open>
  A granted Redis slot of a route stays counted until it is released or its expiry: no
  sequence of acquisitions and releases by other requests of the route, under one timeout and
  a clock that does not go back, drops it before.
\<close>

theorem granted_slot_survives:
  assumes "sem_inv ttl t key db" and "0 \<le> ttl" and "(tok, e) \<in> set (entries db key)"
    and "sorted (t # map sem_time calls)"
    and "\<forall>call \<in> set calls. sem_time call < e \<and> sem_token call \<noteq> tok"
  shows "(tok, e) \<in> set (entries (foldl (sem_step ttl key) db calls) key)"
  by (rule slot_survives [OF assms])

theorem granted_slot_survives_witness:
  "(''a'', 150) \<in> set (entries (foldl (sem_step 100 ''r'') [''r'' \<mapsto> ([(''a'', 150)], 1050)]
     [SemAcquire 60 ''b'' 2, SemAcquire 70 ''c'' 2, SemRelease 90 ''b'']) ''r'')"
  by (rule granted_slot_survives [of 100 50]) (simp_all add: sem_inv_def entries_def)

text \<open>
  C5. The concurrency of a route never exceeds its limit, in either implementation: after any
  sequence of acquisitions and releases, of this route and of others, the slots in use stay
  within the limit.
\<close>

theorem slots_within_limit:
  assumes "0 < snd p" and "local_in_use p g \<le> snd p" and "redis_in_use p db \<le> snd p"
    and "\<forall>call \<in> set cs. pool_client call = p \<or> fst p \<noteq> fst (pool_client call)"
    and "\<forall>call \<in> set cs'. pool_client call = p \<or> fst p \<noteq> fst (pool_client call)"
  shows "local_in_use p (foldl (pool_step local_acquire local_release) g cs) \<le> snd p
    \<and> redis_in_use p (foldl (pool_step redis_acquire redis_release) db cs') \<le> snd p"
  using local_pool.within_limit [OF assms(1,2,4)] redis_pool.within_limit [OF assms(1,3,5)] by blast

theorem slots_within_limit_witness:
  "local_in_use (''r'', 1) (foldl (pool_step local_acquire local_release) idle_guard
     [AcquireCall (''r'', 1) (), AcquireCall (''r'', 1) (), ReleaseCall (''r'', 1) ()]) \<le> 1"
  using slots_within_limit [of "(''r'', 1)" idle_guard Map.empty
      "[AcquireCall (''r'', 1) (), AcquireCall (''r'', 1) (), ReleaseCall (''r'', 1) ()]" "[]"]
  by (simp add: local_in_use_def idle_guard_def redis_in_use_def entries_def)

text \<open>
  A nonce is not single-use across a Redis failure: one accepted through Redis is accepted
  again by the PostgreSQL fallback, because neither register knows what the other has seen.
\<close>

theorem nonce_replayed_after_failover:
  assumes "rg_client g = Some db" and "redis_get (rd_nonce db) now (''risk:nonce:'' @ k @ '':'' @ n) = None"
    and "tab (k, n) = None"
  shows "\<exists>s'. UseNonce True True now k n ttl (g, tab) = (s', Inr True)
     \<and> snd (UseNonce False True now' k n ttl s') = Inr True"
  using nonce_forgotten_by_fallback assms by blast

theorem nonce_replayed_after_failover_witness:
  "\<exists>s'. UseNonce True True 0 ''k'' ''n'' 5
      (idle_guard\<lparr>rg_client := Some \<lparr>rd_rate = Map.empty, rd_sem = Map.empty, rd_nonce = Map.empty\<rparr>\<rparr>, Map.empty)
     = (s', Inr True) \<and> snd (UseNonce False True 1 ''k'' ''n'' 5 s') = Inr True"
  using nonce_replayed_after_failover [of "idle_guard\<lparr>rg_client := Some \<lparr>rd_rate = Map.empty, rd_sem = Map.empty,
      rd_nonce = Map.empty\<rparr>\<rparr>" "\<lparr>rd_rate = Map.empty, rd_sem = Map.empty, rd_nonce = Map.empty\<rparr>"
      0 "''k''" "''n''" Map.empty 5 1]
  by (simp add: redis_get_def)

section \<open>The relayed response\<close>


text \<open>A client that stays, and an upstream that answers 200.\<close>

definition sample_env :: sse_env where
  "sample_env = \<lparr>se_StatusCode = 200, se_Headers = [], se_RequestID = ''r1'', se_ErrorHTTPStatus = 555,
     se_Heartbeat = True\<rparr>"

definition staying_client :: response_writer where
  "staying_client = fresh_writer None"




text \<open>
  A held-back event is lost when the stream ends cleanly before anything was committed:
  an event without \<open>data:\<close> or \<open>event:\<close> line followed by the end of the stream leaves the body
  empty, although the loop's other exit, for a closed channel, would have written it.
\<close>

theorem held_event_lost:
  assumes "\<not> isMeaningfulSSEEvent e" and "\<not> isSSEErrorEvent e" and "sseEventSize e < 64 * 1024"
    and "rw_room w = None" and "rw_body w = []"
  shows "rw_body (ss_w (snd (proxySSE env w [NextEvent e, EndOfStream]))) = []
    \<and> rw_body (ss_w (snd (proxySSE env w [NextEvent e, ResultsClosed]))) = render e"
  using held_event_end [OF assms] by blast

theorem held_event_lost_witness:
  "rw_body (ss_w (snd (proxySSE sample_env staying_client [NextEvent [''id: 7'', []], EndOfStream]))) = []"
proof -
  have trim: "trim_space ''id: 7'' = ''id: 7''" "trim_space [] = []" by code_simp+
  have off: "\<not> is_prefix ''data:'' ''id: 7''" "\<not> is_prefix ''event:'' ''id: 7''" "\<not> is_prefix ''data:'' []"
    "\<not> is_prefix ''event:'' []" "\<not> equal_fold ''id: 7'' ''event: error''" "\<not> equal_fold [] ''event: error''"
    by code_simp+
  have e: "\<not> isMeaningfulSSEEvent [''id: 7'', []]" "\<not> isSSEErrorEvent [''id: 7'', []]"
    by (simp_all add: isMeaningfulSSEEvent_def isSSEErrorEvent_def trim off Let_def)
  have s: "sseEventSize [''id: 7'', []] < 64 * 1024" by (simp add: sseEventSize_def)
  have "rw_room staying_client = None" "rw_body staying_client = []"
    by (simp_all add: staying_client_def fresh_writer_def)
  from held_event_lost [OF e s this] show ?thesis by blast
qed

section \<open>Usage and timelines\<close>

text \<open>
  The token counts extracted from an upstream response do not depend on the order in
  which Go's maps are iterated (an order the language leaves open), at any depth, when no
  count reaches \<open>2 ^ 62\<close>.
\<close>

theorem usage_order_independent:
  assumes "reorder v v'" and "moderate r" and "\<forall>u \<in> set (usage_objects v pk). moderate u"
  shows "strip_source (walkUsagePayload v pk r) = strip_source (walkUsagePayload v' pk r)"
  by (rule walk_reordered [OF assms])

theorem usage_order_independent_witness:
  "strip_source (walkUsagePayload (JObj [(''a'', JNull), (''b'', JBool True)]) [] no_usage)
   = strip_source (walkUsagePayload (JObj [(''b'', JBool True), (''a'', JNull)]) [] no_usage)"
  by (rule usage_order_independent)
    (auto intro: reorder_members simp: moderate_def no_usage_def tokenUsageFromMap_def
      hasTokenUsageSignature_def hasAnyUsageKey_def isUsageContainer_def normalizeUsageKey_def)

text \<open>
  Whatever clocks a tracking client reports, the stored timeline is ordered and lies in the
  window the service accepts around the receive time: from 366 days before to five minutes
  after; and the recorded clock offset is exactly the distance it was moved.
\<close>

theorem tracking_timeline_sound:
  "tl_StartedAt (deriveTrackingTimeline clk e r) \<le> tl_CompletedAt (deriveTrackingTimeline clk e r)
   \<and> tl_IngestedAt (deriveTrackingTimeline clk e r) - 366 * 24 * hour
       \<le> tl_CompletedAt (deriveTrackingTimeline clk e r)
   \<and> tl_CompletedAt (deriveTrackingTimeline clk e r)
       \<le> tl_IngestedAt (deriveTrackingTimeline clk e r) + 5 * minute
   \<and> tl_ClockOffset (deriveTrackingTimeline clk e r)
       = tl_IngestedAt (deriveTrackingTimeline clk e r) - tl_CompletedAt (deriveTrackingTimeline clk e r)"
  using tracking_ordered tracking_window tracking_offset_exact by blast

section \<open>Traces and events\<close>














text \<open>
  A Kafka error whose text is longer than 1000 bytes and is cut inside a character loses
  the whole batch: no event of it is delivered and none reaches the outbox, although the
  database is up. (The cut text is not valid UTF-8, so PostgreSQL refuses every insert.)
\<close>

theorem cut_error_loses_batch:
  assumes "1000 < length err" and "\<not> valid_utf8 (take 1000 err)" and "ko_error out = Some err"
  shows "sk_lost (flush_events out batch w) = sk_lost w @ batch
    \<and> sk_delivered (flush_events out batch w) = sk_delivered w
    \<and> sk_outbox (flush_events out batch w) = sk_outbox w"
proof -
  have "sk_lost (box_pending now err ups batch w) = sk_lost w @ batch
    \<and> sk_delivered (box_pending now err ups batch w) = sk_delivered w
    \<and> sk_outbox (box_pending now err ups batch w) = sk_outbox w" for now ups
    using assms(1,2)
    by (induction now err ups batch w rule: box_pending.induct)
      (simp_all add: enqueueOutbox_cut, simp add: enqueueOutbox_def split: prod.split bool.split)
  with assms(3) show ?thesis by (simp add: flush_events_def)
qed

definition long_error :: string where
  "long_error = replicate 999 CHR ''x'' @ [CHR 0xC3, CHR 0xA9]"

definition sample_sink :: sink_world where
  "sample_sink = \<lparr>sk_topic = ''traces'', sk_delivered = [], sk_outbox = [], sk_nextID = 1, sk_boxed = [],
     sk_lost = []\<rparr>"

theorem cut_error_loses_batch_witness:
  "valid_utf8 long_error \<and>
   sk_lost (flush_events \<lparr>ko_error = Some long_error, ko_now = 5, ko_boxes = [True]\<rparr>
     [\<lparr>qk_key = ''req-1'', qk_payload = ''{}''\<rparr>] sample_sink) = [\<lparr>qk_key = ''req-1'', qk_payload = ''{}''\<rparr>]"
proof -
  have x: "byte CHR ''x'' < 128" by code_simp
  have e: "valid_utf8 [CHR 0xC3, CHR 0xA9]" and c: "\<not> valid_utf8 [CHR 0xC3]" by code_simp+
  have v: "valid_utf8 long_error" by (simp add: long_error_def valid_utf8_replicate [OF x] e)
  have len: "1000 < length long_error" by (simp add: long_error_def)
  have "take 1000 long_error = replicate 999 CHR ''x'' @ [CHR 0xC3]" by (simp add: long_error_def)
  with c have cut: "\<not> valid_utf8 (take 1000 long_error)" by (simp add: valid_utf8_replicate [OF x])
  from cut_error_loses_batch [OF len cut, of "\<lparr>ko_error = Some long_error, ko_now = 5, ko_boxes = [True]\<rparr>"] v
  show ?thesis by (simp add: sample_sink_def)
qed

section \<open>Auditing\<close>



text \<open>
  C12. The verdict on a split request is the strictest one among its chunks: a block if any
  chunk is blocked, else an error if any chunk failed, else a review if any is to be reviewed,
  else an allow; in whatever order the answers arrive.
\<close>

theorem chunk_verdict_strictest:
  assumes "length rs = n" and "rs \<noteq> []"
  shows "strictness_of (conclude f n None (foldl (collect f) collector_start rs))
    = Max (strictness_of ` snd ` set rs)"
  by (rule conclude_strictest [OF assms])

theorem chunk_verdict_strictest_witness:
  "strictness_of (conclude id 2 None (foldl (collect id) collector_start
     [(1, Inr (no_decision\<lparr>ad_Decision := DecisionAllow\<rparr>)), (0, Inl audit_error.Canceled)])) = Fails"
proof -
  have "length [(1::nat, Inr (no_decision\<lparr>ad_Decision := DecisionAllow\<rparr>) :: audit_error + AuditDecision),
      (0, Inl audit_error.Canceled)] = 2" by simp
  from chunk_verdict_strictest [OF this, of id] show ?thesis
    by (simp add: less_eq_strictness_def max_def)
qed

text \<open>
  C13. A partial audit never allows. If fewer chunks answered than there are, or the client went
  away, the outcome is an error, unless a chunk was blocked: then it is a block.
\<close>

theorem partial_audit_never_allows:
  assumes "length rs < n \<or> ctxErr \<noteq> None"
  shows "strictness_of (conclude f n ctxErr (foldl (collect f) collector_start rs)) \<in> {Fails, Blocks}
    \<and> (strictness_of (conclude f n ctxErr (foldl (collect f) collector_start rs)) = Blocks
       \<longleftrightarrow> (\<exists>i d. (i, Inr d) \<in> set rs \<and> ad_Decision d = DecisionBlock))"
proof -
  have "Blocks \<in> strictness_of ` snd ` set rs \<longleftrightarrow> (\<exists>i d. (i, Inr d) \<in> set rs \<and> ad_Decision d = DecisionBlock)"
  proof
    assume "Blocks \<in> strictness_of ` snd ` set rs"
    then obtain i r where ir: "(i, r) \<in> set rs" "strictness_of r = Blocks" by force
    then show "\<exists>i d. (i, Inr d) \<in> set rs \<and> ad_Decision d = DecisionBlock"
      by (cases r rule: result_cases) auto
  qed force
  with conclude_partial [OF assms, of f] show ?thesis by blast
qed

theorem partial_audit_never_allows_witness:
  "strictness_of (conclude id 2 None (foldl (collect id) collector_start
     [(1, Inr (no_decision\<lparr>ad_Decision := DecisionAllow\<rparr>))])) \<in> {Fails, Blocks}"
proof -
  have "length [(1::nat, Inr (no_decision\<lparr>ad_Decision := DecisionAllow\<rparr>) :: audit_error + AuditDecision)] < 2
      \<or> (None :: audit_error option) \<noteq> None" by simp
  from partial_audit_never_allows [OF this, of id] show ?thesis by blast
qed

text \<open>
  C14. A plan's budget is enough for its plan. From a state whose calls are within its budgets,
  a re-chunk plan over \<open>n\<close> chunks that is accepted lets the next \<open>8 * n\<close> HTTP calls through (two
  calls for the primary model and each of three verifiers, per chunk), whatever was spent before,
  and no budget overflows a 64-bit integer.
\<close>

theorem plan_never_starves:
  assumes "budget_ok s" and "configureChunkBudget n [] s = Some s'" and "int k < 8 * n"
  shows "snd (reserveHTTP (((\<lambda>s. fst (reserveHTTP s)) ^^ k) s'))
    \<and> ss_httpBudget s' \<le> max_int64 \<and> ss_budgetPlans s' \<le> 120"
proof -
  note c = configure_budget [OF assms(1,2)]
  have b: "ss_httpCalls s' + 8 * n \<le> ss_httpBudget s'" "0 < ss_httpBudget s'"
    using c(2,3,4) assms(1) by (auto simp: budget_ok_def cyberDenyHTTPBudget_def)
  have "ss_httpCalls s' + int k \<le> ss_httpBudget s'" using b(1) assms(3) by simp
  note r = reserve_many [OF this b(2)]
  have "ss_httpCalls s' + int k < ss_httpBudget s'" using b(1) assms(3) by simp
  then have "snd (reserveHTTP (((\<lambda>s. fst (reserveHTTP s)) ^^ k) s'))"
    using r b(2) by (simp add: reserveHTTP_def Let_def)
  moreover have "ss_httpBudget s' \<le> max_int64 \<and> ss_budgetPlans s' \<le> 120"
    using c(1) by (simp add: budget_ok_def maxAuditChunkPlans_def maxAuditTotalAttempts_def auditChunkRetryLimit_def)
  ultimately show ?thesis by blast
qed

theorem plan_never_starves_witness:
  "\<exists>s'. configureChunkBudget 3 [] fresh_semantic_state = Some s'
    \<and> snd (reserveHTTP (((\<lambda>s. fst (reserveHTTP s)) ^^ 23) s'))"
proof -
  obtain s' where s: "configureChunkBudget 3 [] fresh_semantic_state = Some s'"
    by (simp add: configureChunkBudget_def fresh_semantic_state_def max_int64_def Let_def
        cyberDenyHTTPBudget_def maxAuditSemanticCalls_def maxAuditChunkPlans_def maxAuditTotalAttempts_def)
  have "int 23 < 8 * 3" by simp
  from plan_never_starves [OF fresh_budget_ok s this] s show ?thesis by blast
qed


text \<open>A root with one usable fallback whose first model fails and whose second answers.\<close>

definition sample_profile :: "int \<Rightarrow> AuditProfile" where
  "sample_profile i = \<lparr>ap_ID = i, ap_Name = ''p'', ap_Endpoint = ''http://m'', ap_Model = ''guard'',
     ap_SystemPrompt = [], ap_TimeoutMS = 3000, ap_BlockThreshold = 7 / 10, ap_Enabled = True,
     ap_FailClosed = True, ap_IsDefault = i = 1, ap_RetryCount = 0, ap_FallbackProfileIDs = [2, 2, 1, 0],
     ap_Extra = None, ap_APIKeyCiphertext = []\<rparr>"

definition sample_get :: "int \<Rightarrow> AuditProfile option" where
  "sample_get i = (if i = 2 then Some (sample_profile 2) else None)"

definition sample_failover :: failover_env where
  "sample_failover = \<lparr>fe_sanitize = id, fe_cyberDeny = True,
     fe_call = (\<lambda>p attempt fmt cm. (if ap_ID p = 1 then Inl audit_error.DeadlineExceeded
                 else Inr (no_decision\<lparr>ad_Decision := DecisionBlock\<rparr>), empty_call_metadata)),
     fe_beforeProfile = (\<lambda>i. None), fe_beforeAttempt = (\<lambda>i a. None), fe_waiting = (\<lambda>i a. None)\<rparr>"


text \<open>
  C16. Under the cyber-deny policy an audit that no model could answer is an allow, never an
  error; and it blocks only on the answer of the last model called.
\<close>

theorem failover_fails_open:
  assumes "fe_cyberDeny x" and "callModelWithFailover x get r = (res, used, m)"
  shows "\<exists>d. res = Inr d \<and> (ad_Decision d \<noteq> DecisionAllow \<longrightarrow>
    fm_Attempts m \<noteq> [] \<and> at_Success (last (fm_Attempts m)) \<and> at_Decision (last (fm_Attempts m)) = ad_Decision d
    \<and> at_RiskCode (last (fm_Attempts m)) = ad_RiskCode d)"
  using callModelWithFailover_cyber [OF assms] by (auto simp: answered_last_def)

theorem failover_fails_open_witness:
  "\<exists>d. fst (callModelWithFailover sample_failover sample_get (sample_profile 1)) = Inr d"
proof -
  obtain res used m where c: "callModelWithFailover sample_failover sample_get (sample_profile 1) = (res, used, m)"
    by (metis prod_cases3)
  have "fe_cyberDeny sample_failover" by (simp add: sample_failover_def)
  from failover_fails_open [OF this c] c show ?thesis by auto
qed

section \<open>The audit of a request\<close>


text \<open>A review rule before a block rule that match the same text.\<close>

definition sample_rule :: "int \<Rightarrow> string \<Rightarrow> CyberRule" where
  "sample_rule i action = \<lparr>cr_ID = i, cr_Code = ''CYBER_X'', cr_Name = ''n'', cr_Description = [], cr_Category = ''c'', cr_Pattern = ''p'',
     cr_PatternType = ''contains'', cr_Action = action, cr_Priority = 10, cr_Enabled = True\<rparr>"

definition sample_outcome :: rule_outcome where
  "sample_outcome = \<lparr>ro_suppressions = [], ro_error = None, ro_matched = True, ro_unitIndex = 0,
     ro_unitKind = [], ro_indicators = [], ro_matchedText = [], ro_context = []\<rparr>"

definition sample_engine :: AuditEngine where
  "sample_engine = \<lparr>en_rules = [sample_rule 1 DecisionReview, sample_rule 2 DecisionBlock], en_ruleLoadFailed = False\<rparr>"



text \<open>An audit whose only rule blocks what it matches, and one whose model blocks.\<close>

definition sample_matchers :: matchers where
  "sample_matchers = \<lparr>mx_sanitize = id, mx_redact = id, mx_concreteHarm = (\<lambda>s. s = ''steal''), mx_scanCapability = (\<lambda>s. False),
     mx_activeScan = (\<lambda>s. False), mx_passiveScan = (\<lambda>s. False), mx_defensiveAsset = (\<lambda>s. False),
     mx_gitLabel = (\<lambda>s. False), mx_gitOperation = (\<lambda>s. False), mx_gitEvidence = (\<lambda>s. False),
     mx_gitPurpose = (\<lambda>s. False), mx_nonOperational = (\<lambda>d. False)\<rparr>"

definition sample_extraction :: AuditExtraction where
  "sample_extraction = \<lparr>ex_Text = ''steal'', ex_ruleText = ''steal'', ex_CoverageStatus = ''complete'',
     ex_CoverageIssues = [], ex_SerializedToolDocuments = 0, ex_Scope = []\<rparr>"

definition sample_audit :: audit_env where
  "sample_audit = \<lparr>av_x = sample_matchers, av_ctxErr = (\<lambda>_. None), av_extraction = (None, sample_extraction),
     av_hmac = id, av_baseline = [], av_scanErr = (\<lambda>_ _. None),
     av_match = (\<lambda>s r. sample_outcome\<lparr>ro_matched := False\<rparr>), av_profile = Found (sample_profile 1),
     av_get = sample_get, av_walk = (\<lambda>required src. sample_failover)\<rparr>"

definition sample_answer :: grounded_env where
  "sample_answer = \<lparr>ge_first = (no_decision\<lparr>ad_Decision := DecisionBlock, ad_RiskCode := ''CYBER_X'',
       ad_Category := ''cyber'', ad_Evidence := ''steal'', ad_Confidence := 1, ad_Source := ''model''\<rparr>, None),
     ge_second = (no_decision, None), ge_ctxErr = None\<rparr>"



text \<open>
  An audit that no model could complete is recorded as a completed one. When every call of
  every profile fails, \<open>Audit\<close> returns an allow with an empty error class, the trace calls the
  decision finalized, and the allow is entered as the decision of a model; the branch that records
  the failure of the models is never taken.
\<close>

theorem dead_audit_finalized:
  assumes "reaches_models v e p"
    and "\<forall>required src. fe_cyberDeny (av_walk v required src)
      \<and> (\<forall>q a f cm. \<exists>err. fst (fe_call (av_walk v required src) q a f cm) = Inl err)"
  shows "ar_ErrorClass (Audit v err e requested) = [] \<and> audit_decision_finalized (Audit v err e requested)
    \<and> map_option ad_Decision (ar_ModelDecision (Audit v err e requested)) = Some DecisionAllow
    \<and> ad_Source (ar_Decision (Audit v err e requested)) = ''model_error_fail_open_v29''"
proof -
  obtain weak r where a: "Audit v err e requested = audit_model v err weak p r" "ar_ErrorClass r = []"
    using Audit_reaches [OF assms(1)] by blast
  have "never_answers (av_walk v required src)" for required src
    using assms(2) unfolding never_answers_def by blast
  with audit_model_dead [of v weak r err p] assms(2) a show ?thesis by simp
qed

theorem dead_audit_finalized_witness:
  "audit_decision_finalized (Audit (sample_audit\<lparr>av_walk := \<lambda>required src.
       sample_failover\<lparr>fe_call := \<lambda>p a f cm. (Inl audit_error.DeadlineExceeded, empty_call_metadata)\<rparr>\<rparr>) None sample_engine None)"
proof -
  let ?v = "sample_audit\<lparr>av_walk := \<lambda>required src.
       sample_failover\<lparr>fe_call := \<lambda>p a f cm. (Inl audit_error.DeadlineExceeded, empty_call_metadata)\<rparr>\<rparr>"
  have "reaches_models ?v sample_engine (sample_profile 1)"
    by (simp add: reaches_models_def sample_audit_def sample_extraction_def sample_profile_def scan_input_def
        matchCyberDenyRulesContext_def sample_engine_def sample_rule_def sample_outcome_def set_view_def Let_def)
  moreover have "\<forall>required src. fe_cyberDeny (av_walk ?v required src)
      \<and> (\<forall>q a f cm. \<exists>err. fst (fe_call (av_walk ?v required src) q a f cm) = Inl err)"
    by (simp add: sample_failover_def)
  ultimately show ?thesis using dead_audit_finalized by blast
qed

text \<open>
  The uncertainty of a chunk is lost. When all chunks of a long request are allowed, one of
  them only because the audit was uncertain about it, the verdict on the request is a plain allow of
  category \<open>benign\<close> with no review attached: it neither says that it is uncertain nor is it a
  confident one.
\<close>

theorem chunked_uncertainty_lost:
  assumes "length rs = n" and "\<forall>(i, res) \<in> set rs. \<exists>d. res = Inr d \<and> ad_Decision d = DecisionAllow"
    and "(i, Inr d) \<in> set rs" and "declared_uncertain d"
  shows "\<exists>v. conclude f n None (foldl (collect f) collector_start rs) = Inr v \<and> ad_Decision v = DecisionAllow
    \<and> ad_Category v = ''benign'' \<and> ad_SemanticReview v = None \<and> \<not> declared_uncertain v \<and> \<not> clean_allow v"
proof -
  obtain low where low: "conclude f n None (foldl (collect f) collector_start rs) = Inr (all_chunks_allowed low n)"
    "\<forall>(i, res) \<in> set rs. \<forall>d. res = Inr d \<longrightarrow> low \<le> ad_Confidence d"
    using conclude_all_allow [OF assms(1,2)] by blast
  then have "low \<le> 0" using assms(3,4) by (fastforce simp: declared_uncertain_def)
  with low(1) show ?thesis
    by (simp add: all_chunks_allowed_def no_decision_def declared_uncertain_def clean_allow_def auditConfidenceMeets_def)
qed

theorem chunked_uncertainty_lost_witness:
  "declared_uncertain (cyberUncertaintyAllowV29 sample_matchers no_decision [] []) \<and>
   (\<exists>v. conclude id 1 None (foldl (collect id) collector_start
      [(0, Inr (cyberUncertaintyAllowV29 sample_matchers no_decision [] []))]) = Inr v \<and> \<not> declared_uncertain v)"
  using chunked_uncertainty_lost [of "[(0, Inr (cyberUncertaintyAllowV29 sample_matchers no_decision [] []))]" 1 0
      "cyberUncertaintyAllowV29 sample_matchers no_decision [] []" id]
  by auto

text \<open>
  C19. What a verdict of the models rests on. Whatever a model answers first, on a repair, or as a
  verifier, the verdict is a block with confirmed evidence, a confident allow that names neither a
  risk code nor a denied category, or an allow that declares its uncertainty and keeps the candidate
  it did not act on.
\<close>

theorem verdict_sound:
  assumes "callCyberDenyModel x loaded baseline get required profile txt source env panel st = (Inr d, st')"
  shows "confirmedCyberBlockV29 x loaded baseline d
    \<or> ad_Decision d = DecisionAllow \<and> \<not> cyberDeniedCategory (ad_Category d) \<and> ad_RiskCode d = []
      \<and> auditConfidenceMeets d (9 / 10)
    \<or> ad_Decision d = DecisionAllow \<and> ad_Category d = ''audit_uncertainty'' \<and> ad_Confidence d = 0
      \<and> ad_SemanticReview d \<noteq> None"
  using callCyberDenyModel_sound [OF assms] by (auto simp: sound_verdict_def clean_allow_def declared_uncertain_def)

theorem verdict_sound_witness:
  "\<exists>d st'. callCyberDenyModel sample_matchers (en_rules sample_engine) [] sample_get False (sample_profile 1)
     ''steal'' ''steal'' sample_answer (\<lambda>_. sample_answer) (fresh_semantic_state, []) = (Inr d, st')
   \<and> confirmedCyberBlockV29 sample_matchers (en_rules sample_engine) [] d"
proof -
  let ?r = "callCyberDenyModel sample_matchers (en_rules sample_engine) [] sample_get False (sample_profile 1)
     ''steal'' ''steal'' sample_answer (\<lambda>_. sample_answer) (fresh_semantic_state, [])"
  have b: "(case fst ?r of Inl err \<Rightarrow> [] | Inr d \<Rightarrow> ad_Decision d) = DecisionBlock" by code_simp
  then obtain d where "fst ?r = Inr d" by (auto simp: DecisionBlock_def split: sum.splits)
  then obtain st' where r: "?r = (Inr d, st')" by (metis prod.collapse)
  with b have "ad_Decision d \<noteq> DecisionAllow" by (simp add: DecisionBlock_def DecisionAllow_def)
  with verdict_sound [OF r] r show ?thesis by blast
qed

text \<open>
  C20. A panel of verifiers allows only unanimously. When the fusion of a profile ends in an allow,
  its configuration named two or three profiles, no two of them the same model at the same
  endpoint, each judging by the root's own system prompt and threshold, and each of them answered,
  with an allow.
\<close>

theorem fusion_unanimous:
  assumes "extra_get (ap_Extra profile) fusionProfileIDsKey \<noteq> None"
    and "semanticAdjudicateCyberCandidateV25 x get profile txt source env candidate st = ((d, None), st')"
    and "ad_Decision d = DecisionAllow"
  shows "\<exists>ps adjudicator. auditFusionProfiles (mx_sanitize x) get profile = Inr (ps, adjudicator)
    \<and> length ps \<in> {2, 3} \<and> distinct (map model_identity ps)
    \<and> (\<forall>p \<in> set ps. ap_SystemPrompt p = ap_SystemPrompt profile \<and> ap_BlockThreshold p = ap_BlockThreshold profile
         \<and> member_allows x txt source env p)"
proof -
  define c where "c = cyberDenyVerdict x (normalizeCyberOnlyScopeV24 x txt source candidate)"
  have c: "ad_Decision c = DecisionAllow"
    using assms(2,3) by (auto simp: semanticAdjudicateCyberCandidateV25_def c_def [symmetric] Let_def split: if_splits)
  obtain verifier where ver: "semanticVerifierProfile (mx_sanitize x) get profile = Inr verifier"
    using assms(2) c by (auto simp: semanticAdjudicateCyberCandidateV25_def c_def [symmetric] Let_def split: sum.splits)
  obtain ps adj where ps: "auditFusionProfiles (mx_sanitize x) get profile = Inr (ps, adj)"
    using assms(1,2) c ver
    by (cases "auditFusionProfiles (mx_sanitize x) get profile")
      (auto simp: semanticAdjudicateCyberCandidateV25_def c_def [symmetric] Let_def)
  obtain res lastp st1 where loop: "panel_loop x txt source env ps None c None st = (res, lastp, st1)"
    by (metis prod_cases3)
  have "\<exists>a. res = AllAllow a"
    using assms c ver ps loop panel_loop_denied [of x "txt" source env ps None c None st]
    by (cases res) (auto simp: semanticAdjudicateCyberCandidateV25_def c_def [symmetric] Let_def finishSemanticReview_def
        split: option.splits if_splits)
  then have "\<forall>p \<in> set ps. member_allows x txt source env p" using panel_loop_allows loop by blast
  with auditFusionProfiles_panel [OF ps] ps show ?thesis by blast
qed

text \<open>A profile whose panel is itself and one other model, all of which allow.\<close>

definition sample_panel :: AuditProfile where
  "sample_panel = (sample_profile 1)\<lparr>ap_Extra := Some [(fusionProfileIDsKey, JArr [JNum ''1'', JNum ''2''])]\<rparr>"

definition sample_other :: "int \<Rightarrow> AuditProfile option" where
  "sample_other i = (if i = 2 then Some ((sample_profile 2)\<lparr>ap_Model := ''other''\<rparr>) else None)"

definition sample_allow :: AuditDecision where
  "sample_allow = no_decision\<lparr>ad_Decision := DecisionAllow, ad_Category := ''benign'', ad_Confidence := 1,
     ad_Source := ''model''\<rparr>"

definition sample_allowing :: grounded_env where
  "sample_allowing = \<lparr>ge_first = (sample_allow, None), ge_second = (sample_allow, None), ge_ctxErr = None\<rparr>"

theorem fusion_unanimous_witness:
  "\<exists>ps adjudicator. auditFusionProfiles id sample_other sample_panel = Inr (ps, adjudicator) \<and> distinct (map model_identity ps)"
proof -
  let ?r = "semanticAdjudicateCyberCandidateV25 sample_matchers sample_other sample_panel [] [] (\<lambda>_. sample_allowing)
     sample_allow (fresh_semantic_state, [])"
  have a: "ad_Decision (fst (fst ?r)) = DecisionAllow \<and> snd (fst ?r) = None" by code_simp
  have r: "?r = ((fst (fst ?r), None), snd ?r)" using a by (metis prod.collapse)
  have k: "extra_get (ap_Extra sample_panel) fusionProfileIDsKey \<noteq> None" by code_simp
  from fusion_unanimous [OF k r] a show ?thesis by (auto simp: sample_matchers_def)
qed

text \<open>
  A repaired review is recorded as an allow. When a model's first answer cites no operation and
  the repair of it answers \<open>review\<close>, and no verifier is asked for, the request is allowed as uncertain,
  as it should be; but the candidate kept for the trace is not the model's review: it says \<open>allow\<close>.
\<close>

theorem repaired_review_hidden:
  assumes "ge_first env = (d0, None)" and "mx_nonOperational x d0"
    and "ge_second env = (d, None)" and "ad_Decision d = DecisionReview" and "\<not> mx_nonOperational x d"
    and "ge_ctxErr env = None" and "snd (reserveReview (fst st))"
    and "\<not> needs_verification required profile (cyberDenyVerdict x d)"
  shows "\<exists>v st'. callCyberDenyModel x loaded baseline get required profile txt source env panel st = (Inr v, st')
    \<and> map_option (ad_Decision \<circ> sr_Candidate) (ad_SemanticReview v) = Some DecisionAllow"
  using repaired_review [OF assms, of loaded baseline get "txt" source panel] by blast

theorem repaired_review_hidden_witness:
  "\<exists>v st'. callCyberDenyModel (sample_matchers\<lparr>mx_nonOperational := \<lambda>d. ad_Decision d = DecisionBlock\<rparr>) [] [] sample_get
       False (sample_profile 1) [] []
       (sample_answer\<lparr>ge_second := (no_decision\<lparr>ad_Decision := DecisionReview\<rparr>, None)\<rparr>) (\<lambda>_. sample_answer)
       (fresh_semantic_state, []) = (Inr v, st')
     \<and> map_option (ad_Decision \<circ> sr_Candidate) (ad_SemanticReview v) = Some DecisionAllow"
proof -
  let ?x = "sample_matchers\<lparr>mx_nonOperational := \<lambda>d. ad_Decision d = DecisionBlock\<rparr>"
  let ?d = "no_decision\<lparr>ad_Decision := DecisionReview\<rparr>"
  have n: "\<not> needs_verification False (sample_profile 1) (cyberDenyVerdict ?x ?d)" by code_simp
  have r: "snd (reserveReview (fst (fresh_semantic_state, [])))" by code_simp
  show ?thesis
    using repaired_review_hidden [of "sample_answer\<lparr>ge_second := (?d, None)\<rparr>" _ ?x ?d
        "(fresh_semantic_state, [])" False "sample_profile 1" "[]" "[]" sample_get "[]" "[]" "\<lambda>_. sample_answer", OF _ _ _ _ _ _ r n]
    by (simp add: sample_answer_def)
qed

section \<open>Caches\<close>

text \<open>
  C21. How stale a route can be. Whatever reads and invalidations come before, a route served from the
  cache after an invalidation of its slug (or of everything) was stored by a read after that
  invalidation, and that read began less than a time to live ago; the same holds of a profile.
\<close>

theorem cache_staleness:
  assumes "a = [] \<or> a = slug"
    and "cached_route (fold (cache_step (store_route ttl) InvalidateRoute) (before @ Dropped a # after) Map.empty) t slug
      = Some route"
    and "cached_profile (fold (cache_step store_profile (\<lambda>_ :: unit. InvalidateProfiles)) (pre @ Dropped () # post) Map.empty)
      t k = Some profile"
  shows "(\<exists>t0. Fetched t0 slug route \<in> set after \<and> t < t0 + ttl)
    \<and> (\<exists>t0. Fetched t0 k profile \<in> set post \<and> t < t0 + 10000000000)"
  using route_store.fresh_after [OF assms(1,2)] profile_store.fresh_after [OF TrueI assms(3)]
  by (simp add: auditProfileCacheTTL_def)

theorem cache_staleness_witness:
  "\<exists>t0. Fetched t0 ''r'' True \<in> set [Fetched 5 ''r'' True :: (string, bool, string) cache_op] \<and> 9 < t0 + 10"
proof -
  have "cached_route (fold (cache_step (store_route 10) InvalidateRoute) ([Fetched 0 ''r'' False] @ Dropped [] # [Fetched 5 ''r'' True])
      Map.empty) 9 ''r'' = Some True"
    by (simp add: store_route_def InvalidateRoute_def cached_route_def)
  moreover have "cached_profile (fold (cache_step store_profile (\<lambda>_ :: unit. InvalidateProfiles)) ([] @ Dropped () # [Fetched 5 0 ()])
      Map.empty) 9 0 = Some ()"
    by (simp add: store_profile_def InvalidateProfiles_def cached_profile_def auditProfileCacheTTL_def)
  ultimately show ?thesis
    using cache_staleness [of "[]" "''r''" 10 "[Fetched 0 ''r'' False]" "[Fetched 5 ''r'' True]" 9 True "[]" "[Fetched 5 0 ()]" 0 "()"]
    by blast
qed

section \<open>The gateway\<close>

text \<open>A gateway without Redis, a request it forwards, and toy primitives that obey the laws.\<close>

definition sample_crypto :: crypto where
  "sample_crypto = \<lparr>cy_keyOK = (\<lambda>k. True), cy_seal = (\<lambda>k n p ad. p @ replicate 16 CHR 0x00),
     cy_open = (\<lambda>k n ct ad. Some (take (length ct - 16) ct)), cy_hmac = (\<lambda>k s. ''h''), cy_sha256 = id,
     cy_gzip = (\<lambda>b. CHR 0x1F # b), cy_gunzip = (\<lambda>n b. Some (take n (tl b)))\<rparr>"

definition sample_program :: gw_program where
  "sample_program = \<lparr>gc_RequestMaxBytes = 0, gc_RequestHardMaxBytes = 100, gc_LargeRequestThresholdBytes = 10,
     gc_LargeRequestMaxConcurrency = 1, gc_GlobalMaxConcurrency = 2, gc_ErrorHTTPStatus = 555,
     gc_TraceStoreRequestPayload = True, gc_AuditRequestTimeoutMS = 0, gc_RouteCacheTTL = 10,
     gc_ResponseInspectMaxBytes = 100, gc_StreamHeartbeat = False, gl_cy = sample_crypto, gl_masterKey = ''k'',
     gl_parse = (\<lambda>s. Some \<lparr>u_Scheme = ''https'', u_Host = s, u_Path = [], u_RawQuery = []\<rparr>),
     gl_new_request = (\<lambda>m u. True), gl_sanitize = id, gl_format_time = (\<lambda>t. [])\<rparr>"

definition served_route :: Route where
  "served_route = sample_route\<lparr>rt_InboundKeyDigest := ''68'', rt_RateLimitRPS := 0,
     rt_UpstreamSecretCiphertext := [CHR 0x01] @ replicate 12 CHR 0x00 @ ''key'' @ replicate 16 CHR 0x00\<rparr>"

definition served :: "nat \<Rightarrow> req_env" where
  "served k = \<lparr>qe_request = \<lparr>rq_Method = ''POST'', rq_RawQuery = [], rq_Headers = [], rq_RemoteAddr = ''10.0.0.1:1'',
       rq_Route = ''r'', rq_Wildcard = ''v1/x'', rq_ContentLength = 12, rq_Body = ''hello world!'', rq_BodyError = None\<rparr>,
     qe_generated = ''id-1'', qe_started = 0, qe_lookupTime = 0, qe_db = Some served_route, qe_rateUp = False,
     qe_rateMs = 0, qe_rateNs = 0, qe_random = Some (replicate 12 CHR 0x00),
     qe_audit = (\<lambda>route body. (initial_result None id sample_extraction False, 3)), qe_clientGone = False, qe_goneMs = 0,
     qe_acquireUp = False, qe_acquireMs = 0, qe_token = ''t'',
     qe_do = DoAnswered \<lparr>us_StatusCode = 200, us_Headers = [], us_Body = ''{}'', us_BodyError = None, us_Events = []\<rparr>,
     qe_headerMs = 1, qe_releaseUp = False, qe_completed = 2, qe_room = None\<rparr>"

definition empty_gateway :: gateway where
  "empty_gateway = \<lparr>gw_guard = idle_guard, gw_cache = Map.empty, gw_global = 0, gw_large = 0, gw_submitted = [],
     gw_sent = [], gw_observed = []\<rparr>"

definition served_run :: "nat \<Rightarrow> serving" where
  "served_run n = ((serve sample_program 0 (served 0)) ^^ n) (empty_gateway, fresh_handler (served 0))"

lemma empty_gateway_start: "gw_start (empty_gateway, Map.empty)"
  by (simp add: gw_start_def empty_gateway_def)

lemma served_reach:
  "gw_reach sample_program served (fst (served_run n), [0 \<mapsto> snd (served_run n)])"
  by (rule alone_reach [OF empty_gateway_start, where n = n]) (simp add: served_run_def)


lemma served_checks:
  "authorized sample_program (qe_request (served 0)) served_route"
  "announced_ok sample_program (served 0)" "read_whole sample_program (served 0) ''hello world!''"
  by code_simp+

lemma served_built: "\<exists>up. built sample_program (served 0) served_route ''hello world!'' (fst (request_identity (served 0))) = Inr up"
proof -
  have m: "to_lower (rt_AuthMode served_route) = ''bearer''" by code_simp
  have d: "Decrypt sample_crypto ''k'' scope (rt_UpstreamSecretCiphertext served_route) = Inr ''key''" for scope
    by (simp add: Decrypt_def served_route_def sample_crypto_def nonceSize_def tagSize_def numeral_eq_Suc)
  have "rt_UpstreamSecretCiphertext served_route \<noteq> []" by (simp add: served_route_def)
  then show ?thesis
    by (simp add: built_def buildUpstreamRequest_def add_credentials_def Let_def m d sample_program_def)
qed

lemma served_way: "open_way sample_program (served 0) empty_gateway served_route ''hello world!''"
  using served_checks
  by (simp add: open_way_def untraced_def cached_route_def passed_audit_def initial_result_def DecisionAllow_def
      DecisionBlock_def Allow_def Acquire_def acquireLocal_def empty_gateway_def idle_guard_def sample_program_def
      served_route_def sample_route_def served_def no_decision_def)
lemma served_sent:
  obtains up where "gw_sent (fst (served_run 11)) = [(0, up)]" and "hd_phase (snd (served_run 11)) = PAwait"
proof -
  obtain up where "built sample_program (served 0) served_route ''hello world!'' (fst (request_identity (served 0))) = Inr up"
    using served_built by blast
  from passage [OF served_way this, of 0] that show ?thesis by (simp add: served_run_def empty_gateway_def)
qed

lemma served_traced: "\<not> untraced (served 0)"
  by (simp add: untraced_def served_def)

text \<open>
  C22. The gateway refines its life-cycle specification: every step of the machine, whichever
  request, invalidation or foreign use of Redis it serves, is one step of the specification on the
  sets of token holders and the lists of traces and forwarded requests, or leaves those alone; so
  every reachable state of the gateway stands for a reachable state of the specification.
\<close>

theorem gateway_refines_life:
  assumes "gw_reach c env s" and "gw_step c env s s'"
  shows "(life s' = life s \<or> gw_spec c env (life s) (life s'))
    \<and> reachable spec_start (gw_spec c env) (life s')"
proof -
  have "gw_reach c env s'" using assms by (rule reachable_step)
  then show ?thesis using gateway.simulates [OF assms] gateway.refines by blast
qed

theorem gateway_refines_life_witness:
  "gw_spec sample_program served (life (empty_gateway, Map.empty))
     (life (empty_gateway, [0 \<mapsto> fresh_handler (served 0)]))"
proof -
  have s: "gw_step sample_program served (empty_gateway, Map.empty) (empty_gateway, Map.empty(0 \<mapsto> fresh_handler (served 0)))"
    by (rule gw_step.Arrive) simp
  have "stages Map.empty \<noteq> stages [0 \<mapsto> fresh_handler (served 0)]"
    by (auto simp: stages_def fun_eq_iff)
  then have "life (empty_gateway, [0 \<mapsto> fresh_handler (served 0)]) \<noteq> life (empty_gateway, Map.empty)"
    by (auto simp: life_def)
  with gateway_refines_life [OF reachable_start [of gw_start, OF empty_gateway_start] s] show ?thesis by blast
qed

text \<open>
  C23. The two admission channels are exact: in every reachable state the tokens taken from each
  are the requests that hold one, never more than the configured concurrency; every request
  between admission and its end holds a global token, and only such requests hold a large one.
\<close>

theorem tokens_exact:
  assumes "gw_reach c env (g, hs)"
  shows "gw_global g = card (holders hs) \<and> gw_global g \<le> gc_GlobalMaxConcurrency c
    \<and> gw_large g = card (large_holders hs) \<and> gw_large g \<le> gc_LargeRequestMaxConcurrency c
    \<and> large_holders hs \<subseteq> holders hs
    \<and> {k. \<exists>h. hs k = Some h \<and> stage h \<in> {Admitted, Cleared, Forwarded}} \<subseteq> holders hs
    \<and> holders hs \<subseteq> {k. \<exists>h. hs k = Some h \<and> stage h \<notin> {Waiting, Gone}}"
proof -
  have n: "gw_global g = card (holders hs)" "gw_large g = card (large_holders hs)"
    using gateway.invariant [OF assms] by (simp_all add: counted_def)
  have t: "tokens_ok (gc_GlobalMaxConcurrency c) (gc_LargeRequestMaxConcurrency c) (life (g, hs))"
    by (rule gateway_promises(1)) (rule assms)
  have r: "running (life (g, hs)) = {k. \<exists>h. hs k = Some h \<and> stage h \<in> {Admitted, Cleared, Forwarded}}"
    by (auto simp: running_def life_def stages_def)
  from t have "holders hs \<subseteq> {k. \<exists>h. hs k = Some h \<and> stage h \<notin> {Waiting, Gone}}"
    by (auto simp: tokens_ok_def life_def running_def stages_def)
  with t r n show ?thesis by (simp add: tokens_ok_def) (simp add: life_def)
qed

theorem tokens_exact_witness:
  "gw_global (fst (served_run 11)) = 1 \<and> holders [0 \<mapsto> snd (served_run 11)] = {0}"
proof -
  obtain up where "hd_phase (snd (served_run 11)) = PAwait" by (rule served_sent)
  moreover have "{k. \<exists>h. [0 \<mapsto> snd (served_run 11)] k = Some h \<and> stage h \<in> {Admitted, Cleared, Forwarded}}
      \<subseteq> holders [0 \<mapsto> snd (served_run 11)]"
    using tokens_exact [OF served_reach [of 11]] by (elim conjE)
  ultimately have "0 \<in> holders [0 \<mapsto> snd (served_run 11)]" by (auto simp: subset_eq)
  moreover have "holders [0 \<mapsto> h] \<subseteq> {0}" for h by (auto simp: holders_def split: if_splits)
  ultimately have "holders [0 \<mapsto> snd (served_run 11)] = {0}" by blast
  with tokens_exact [OF served_reach [of 11]] show ?thesis by simp
qed

text \<open>
  C24. Exactly one trace per request, and at most one upstream request: in every reachable state a
  request has submitted one trace if it has finished and none before; one that is gone has
  finished, unless its method or path has no route; and it was forwarded at most once, never
  before it was cleared.
\<close>

theorem traced_once:
  assumes "gw_reach c env (g, hs)" and "hs k = Some h"
  shows "length (filter (\<lambda>(j, t). j = k) (gw_submitted g)) = (if hd_finished h then 1 else 0)
    \<and> (hd_finished h \<longleftrightarrow> stage h \<in> {Closing, Gone} \<and> \<not> untraced (env k))
    \<and> length (filter (\<lambda>(j, up). j = k) (gw_sent g)) \<le> (if stage h \<in> {Waiting, Admitted, Cleared} then 0 else 1)"
proof -
  note H = history_facts [OF assms]
  have "k \<notin> set (map fst (gw_sent g))" if "stage h \<in> {Waiting, Admitted, Cleared}"
  proof
    assume "k \<in> set (map fst (gw_sent g))"
    from H(4) [OF this] that show False by auto
  qed
  then have "length (filter (\<lambda>(j, up). j = k) (gw_sent g)) \<le> (if stage h \<in> {Waiting, Admitted, Cleared} then 0 else 1)"
    by (cases "stage h \<in> {Waiting, Admitted, Cleared}") (simp_all add: count_pairs [OF H(2)] del: set_map insert_iff)
  moreover have "length (filter (\<lambda>(j, t). j = k) (gw_submitted g)) = (if hd_finished h then 1 else 0)"
    by (simp only: count_pairs [OF H(1)] H(3))
  ultimately show ?thesis using H(5) by blast
qed

theorem traced_once_witness:
  "length (filter (\<lambda>(j, t). j = 0) (gw_submitted (fst (served_run 11)))) = 0
    \<and> length (filter (\<lambda>(j, up). j = 0) (gw_sent (fst (served_run 11)))) \<le> 1"
proof -
  obtain up where p: "hd_phase (snd (served_run 11)) = PAwait" by (rule served_sent)
  from traced_once [OF served_reach [of 11], where k = 0 and h = "snd (served_run 11)"] p
  show ?thesis by (simp del: One_nat_def)
qed

text \<open>
  C25. No request reaches the upstream unless it passed every check: whatever is sent for request
  \<open>k\<close>, in any reachable state, was built from a route that is enabled and that the database gave
  for this slug, with a credential that route accepts, from a body that is within the limit in
  force, read to its end and not longer than announced, which the audit did not block, for a
  client that had not gone.
\<close>

theorem forwarded_only_if_justified:
  assumes "gw_reach c env (g, hs)" and "(k, up) \<in> set (gw_sent g)"
  shows "\<exists>route body. rt_Enabled route
    \<and> (\<exists>j. qe_db (env j) = Some route \<and> rq_Route (qe_request (env j)) = rq_Route (qe_request (env k)))
    \<and> authorized c (qe_request (env k)) route
    \<and> \<not> ExceedsKnownLength (body_policy c (env k)) (rq_ContentLength (qe_request (env k)))
    \<and> int (length body) \<le> EffectiveLimitBytes (body_policy c (env k))
    \<and> body = rq_Body (qe_request (env k)) \<and> rq_BodyError (qe_request (env k)) = None
    \<and> ad_Decision (ar_Decision (fst (qe_audit (env k) route body))) \<noteq> DecisionBlock
    \<and> \<not> qe_clientGone (env k)
    \<and> built c (env k) route body (fst (request_identity (env k))) = Inr up"
proof -
  have "justified c env k up" using reach_vetted [OF assms(1)] assms(2) by (auto simp: all_vetted_def)
  then show ?thesis
    by (fastforce simp: justified_def Let_def from_db_def announced_ok_def read_whole_def passed_audit_def
        read_body_def split: if_splits option.splits)
qed

theorem forwarded_only_if_justified_witness:
  "\<exists>up. (0, up) \<in> set (gw_sent (fst (served_run 11)))
    \<and> (\<exists>route. authorized sample_program (qe_request (served 0)) route \<and> rt_Enabled route)"
proof -
  obtain up where "gw_sent (fst (served_run 11)) = [(0, up)]" by (rule served_sent)
  then have s: "(0, up) \<in> set (gw_sent (fst (served_run 11)))" by simp
  from forwarded_only_if_justified [OF served_reach s] s show ?thesis by blast
qed



text \<open>
  C27. The state of a request is well typed by its phase, and every step keeps the typing: which
  tokens and slot it holds, whether its trace is out, and that a request without a route to go to
  is only ever at its start or its end.
\<close>

theorem serve_keeps_typing:
  assumes "well_phased q h"
  shows "well_phased q (snd (serve c k q (g, h)))"
  by (rule serve_well_phased) (rule assms)

theorem serve_keeps_typing_witness:
  "well_phased (served 0) (snd (serve sample_program 0 (served 0) (empty_gateway, fresh_handler (served 0))))"
  by (rule serve_keeps_typing) (rule fresh_well_phased)



text \<open>
  C29. A stored request payload can be read back: what \<open>sealTraceRequestPayload\<close> stores for a
  request, \<open>openTraceRequestPayload\<close> gives back whole under the same key and request, when it is
  within the maximum, and refuses as too large otherwise, never cut.
\<close>

theorem sealed_payload_opens:
  assumes "aead_law cy" and "gzip_law cy" and "cy_keyOK cy key" and "length nonce = nonceSize"
    and "requestID \<noteq> []" and "body \<noteq> []"
  shows "\<exists>ct. sealTraceRequestPayload cy key (Some nonce) requestID body = Inr ct \<and> ct \<noteq> []
    \<and> openTraceRequestPayload cy key requestID ct maximum =
        (if int (length body) \<le> (if maximum \<le> 0 then 64 * 1024 * 1024 else maximum) then Inr body
         else Inl PayloadTooLarge)"
  by (rule open_sealed) (fact assms)+

theorem sealed_payload_opens_witness:
  "\<exists>ct. sealTraceRequestPayload sample_crypto ''k'' (Some (replicate 12 CHR 0x00)) ''r'' ''body'' = Inr ct
    \<and> openTraceRequestPayload sample_crypto ''k'' ''r'' ct 0 = Inr ''body''
    \<and> openTraceRequestPayload sample_crypto ''k'' ''r'' ct 4 = Inr ''body''"
proof -
  have laws: "aead_law sample_crypto" "gzip_law sample_crypto"
    by (auto simp: aead_law_def gzip_law_def sample_crypto_def tagSize_def)
  have "cy_keyOK sample_crypto ''k''" by (simp add: sample_crypto_def)
  note s = sealed_payload_opens [OF laws this, of "replicate 12 CHR 0x00" "''r''" "''body''"]
  from s [of 0] s [of 4] show ?thesis by (auto simp: nonceSize_def)
qed

section \<open>Reported traces\<close>

text \<open>A client, its signed request and a service with Redis.\<close>

definition tracking_service :: tracking_config where
  "tracking_service = \<lparr>tg_clockSkew = 5 * minute, tg_nonceTTLms = 601000, tg_capacity = 1, tg_batchSize = 1, tg_key = ''k''\<rparr>"

definition tracked :: "int \<Rightarrow> tracking_env" where
  "tracked t = \<lparr>ie_readFails = False, ie_clock = unix_time 0 + t * second,
     ie_client = (\<lambda>k. Some \<lparr>tc_SecretCiphertext = [], tc_Enabled = True\<rparr>), ie_redisUp = True, ie_dbUp = True,
     ie_nonceMs = t * 1000, ie_envelope = (\<lambda>b. None),
     ie_single = (\<lambda>b. Some \<lparr>tk_EventID = ''e'', tk_RequestID = ''r'', tk_RouteSlug = [], tk_NewAPIRequestID = [],
        tk_ExternalUserID = [], tk_Model = [], tk_Endpoint = [], tk_Decision = '' Block'', tk_RiskCode = [],
        tk_HTTPStatus = 0, tk_UpstreamStatus = 0, tk_LatencyMS = 0, tk_AuditLatencyMS = 0, tk_RequestBytes = 0,
        tk_ResponseBytes = 0, tk_PromptHMAC = [], tk_StartedAt = 0, tk_CompletedAt = 0, tk_OccurredAt = 0,
        tk_Metadata = [(''Password'', MStr ''x''), (''n'', MBool True)]\<rparr>),
     ie_now = unix_time 0 + t * second, ie_fresh = (\<lambda>i. ''id''), ie_up = (\<lambda>i. True), ie_others = (\<lambda>i. []),
     ie_encode = (\<lambda>v. ''{}''), ie_format = (\<lambda>t. ''t'')\<rparr>"

definition tracking_headers :: headers where
  "tracking_headers = [(''X-Risk-Key-Id'', [''k'']), (''X-Risk-Timestamp'', [''0'']), (''X-Risk-Nonce'', [''n'']),
     (''X-Risk-Signature'', [''sha256=68''])]"

definition empty_redis :: RedisGuard where
  "empty_redis = \<lparr>rg_client = Some \<lparr>rd_rate = Map.empty, rd_sem = Map.empty, rd_nonce = Map.empty\<rparr>, rg_available = True,
     rg_buckets = Map.empty, rg_semaphores = Map.empty, rg_operations = 0, rg_streamMax = 1000\<rparr>"

definition fresh_service :: tracking_state where
  "fresh_service = (NewTraceWriter 1 empty_redis, Map.empty)"

lemma tracking_signed: "signed_headers tracking_headers = (''k'', ''0'', ''n'', ''sha256=68'')"
  by code_simp

lemma tracked_passes: "0 \<le> t \<Longrightarrow> t \<le> 300 \<Longrightarrow> passed_checks sample_crypto tracking_service (tracked t) tracking_headers ''body''"
proof -
  assume t: "0 \<le> t" "t \<le> 300"
  have ts: "parse_int64 ''0'' = Some 0" by code_simp
  have s: "hex_decode (trim_space (trim_prefix ''sha256=68'' ''sha256='')) = Some ''h''" by code_simp
  have "time_sub (unix_time 0 + t * second) (unix_time 0) = t * second"
    using t by (auto simp: time_sub_def second_def min_int64_def max_int64_def)
  then show ?thesis
    using t by (simp add: passed_checks_def tracking_signed tracked_def stale_def ts maxTrackingBody_def authentic_def
      VerifyTrackingSignature_iff s sample_crypto_def Decrypt_def duration_abs_def tracking_service_def minute_def second_def)
qed

lemma tracked_accepted:
  assumes "0 \<le> t" and "t \<le> 300"
  shows "\<exists>st' a d. ingestTrackingEvents sample_crypto tracking_service (tracked t) tracking_headers ''body'' fresh_service
      = (st', Accepted a d (ie_now (tracked t)))"
proof -
  obtain st1 where "use_nonce tracking_service (tracked t) ''k'' ''n'' fresh_service = (st1, Inr True)"
    by (auto simp: use_nonce_def fresh_service_def NewTraceWriter_def empty_redis_def UseNonce_def Let_def redis_get_def tracked_def)
  moreover have "\<exists>events. tracking_events (tracked t) ''body'' = Some [events]"
    by (simp add: tracking_events_def tracked_def)
  ultimately show ?thesis
    using ingest_cases [OF tracking_signed, of sample_crypto tracking_service "tracked t" "''body''" fresh_service]
      tracked_passes [OF assms] by (auto simp: ingest_payload_def split: prod.splits)
qed



text \<open>
  C31. A captured tracking request is never accepted a second time while Redis answers, if the nonces
  live longer than twice the clock skew: after the request was accepted, whatever other requests and
  writer steps follow, the same signed headers (with any body) are refused, provided the nonces'
  clock and the service's clock advance together up to \<open>lag\<close>.
\<close>

theorem tracking_replay_refused:
  assumes "ingestTrackingEvents cy cfg env header body st = (st', Accepted a d now)"
    and "ie_redisUp env" and "rg_client (writer_guard st) \<noteq> None"
    and "signed_headers header' = signed_headers header" and "ie_redisUp env'"
    and "0 \<le> tg_clockSkew cfg" and "tg_clockSkew cfg < max_int64"
    and "(ie_nonceMs env' - ie_nonceMs env) * millisecond \<le> ie_clock env' - ie_clock env + lag"
    and "2 * tg_clockSkew cfg + lag < tg_nonceTTLms cfg * millisecond" and "0 \<le> lag"
  shows "\<exists>code kind message.
    snd (ingestTrackingEvents cy cfg env' header' body' (foldl (tracking_step cy cfg) st' inputs)) = ApiError code kind message
      \<and> (code = 401 \<or> code = 409 \<or> code = 413)"
proof -
  let ?s = "foldl (tracking_step cy cfg) st' inputs"
  obtain k t n s where h: "signed_headers header = (k, t, n, s)" "signed_headers header' = (k, t, n, s)"
    using assms(4) by (cases "signed_headers header") auto
  obtain st1 r where u: "use_nonce cfg env k n st = (st1, r)" by fastforce
  with ingest_cases [OF h(1), of cy cfg env body st] assms(1)
  have passed: "passed_checks cy cfg env header body" and r: "r = Inr True"
    and p: "ingest_payload cfg env k body st1 = (st', Accepted a d now)"
    by (auto split: sum.splits bool.splits)
  have ttl: "0 \<le> tg_nonceTTLms cfg"
    using assms(6,9,10) by (simp add: millisecond_def)
  let ?until = "ie_nonceMs env + tg_nonceTTLms cfg"
  have "nonce_until ?until k n (writer_guard st1)"
    using use_nonce_registers u r assms(2,3) by blast
  then have "nonce_until ?until k n (writer_guard st')"
    using nonce_until_cong [OF ingest_payload_client [of cfg env k body st1]] p by simp
  then have kept: "nonce_until ?until k n (writer_guard ?s)" by (rule tracking_run_keeps [OF _ ttl])
  show ?thesis
  proof (cases "passed_checks cy cfg env' header' body'")
    case False
    with ingest_cases [OF h(2), of cy cfg env' body' ?s] show ?thesis by auto
  next
    case True
    obtain ts where "parse_int64 t = Some ts" "\<bar>ie_clock env - unix_time ts\<bar> \<le> tg_clockSkew cfg"
      using passed h(1) not_staleD [OF _ assms(7)] by (force simp: passed_checks_def)
    moreover obtain ts' where "parse_int64 t = Some ts'" "\<bar>ie_clock env' - unix_time ts'\<bar> \<le> tg_clockSkew cfg"
      using True h(2) not_staleD [OF _ assms(7)] by (force simp: passed_checks_def)
    ultimately have "ie_clock env' - ie_clock env \<le> 2 * tg_clockSkew cfg" by simp
    with assms(8,9) have "(ie_nonceMs env' - ie_nonceMs env) * millisecond < tg_nonceTTLms cfg * millisecond" by linarith
    then have "ie_nonceMs env' < ?until" by (simp add: millisecond_def)
    from use_nonce_refuses [OF kept assms(5) this, of cfg] ingest_cases [OF h(2), of cy cfg env' body' ?s] True
    show ?thesis by (cases "use_nonce cfg env' k n ?s") auto
  qed
qed

theorem tracking_replay_refused_witness:
  "\<exists>st' a d code kind message.
     ingestTrackingEvents sample_crypto tracking_service (tracked 0) tracking_headers ''body'' fresh_service
       = (st', Accepted a d (ie_now (tracked 0)))
     \<and> snd (ingestTrackingEvents sample_crypto tracking_service (tracked 300) tracking_headers ''body'' st')
       = ApiError code kind message"
proof -
  obtain st' a d where r: "ingestTrackingEvents sample_crypto tracking_service (tracked 0) tracking_headers ''body'' fresh_service
      = (st', Accepted a d (ie_now (tracked 0)))" using tracked_accepted [of 0] by auto
  have "\<exists>code kind message. snd (ingestTrackingEvents sample_crypto tracking_service (tracked 300) tracking_headers ''body''
      (foldl (tracking_step sample_crypto tracking_service) st' [])) = ApiError code kind message \<and> (code = 401 \<or> code = 409 \<or> code = 413)"
    by (rule tracking_replay_refused [OF r, of tracking_headers "tracked 300" 0])
      (simp_all add: tracked_def tracking_service_def fresh_service_def NewTraceWriter_def empty_redis_def minute_def
        second_def max_int64_def millisecond_def)
  with r show ?thesis by auto
qed

section \<open>The call of an audit model\<close>

text \<open>
  C32. What an audit model is sent is the audited text. A call either stops before the exchange and
  changes nothing, or it takes one of the remaining HTTP calls of the request and sends one body; read as
  JSON, the user message of that body is a document whose request text is the text the quotes are checked
  against, byte for byte, with the anchors of its scope as the context.\<close>

theorem model_reads_request:
  assumes "callModelRawWithEvidenceSource v plan p txt source st = (answer, st')"
  shows "(st' = st \<and> (\<exists>e. answer = (no_decision, Some e)))
    \<or> (\<exists>request. cs_sent st' = cs_sent st @ [request]
         \<and> sent_document (hq_Body request)
             = Some (auditInputContractVersion, source, sc_Anchors (auditScopeFromContext (ry_history (cv_reply v)) (cv_scope v) source))
         \<and> ss_httpCalls (cs_budget st') = ss_httpCalls (cs_budget st) + 1
         \<and> ss_httpCalls (cs_budget st') \<le> (if ss_httpBudget (cs_budget st) = 0 then cyberDenyHTTPBudget else ss_httpBudget (cs_budget st)))"
  using assms
proof (cases rule: call_cases)
  case (sent request st1 d)
  with reserve_call_some [OF sent(1)] show ?thesis by auto
qed blast

definition dq :: string where "dq = [CHR 0x22]"

definition block_body :: string where
  "block_body = ''{'' @ dq @ ''decision'' @ dq @ '':'' @ dq @ ''block'' @ dq @ '','' @ dq @ ''risk_code'' @ dq @ '':'' @ dq @ ''X''
     @ dq @ '','' @ dq @ ''category'' @ dq @ '':'' @ dq @ ''c'' @ dq @ '','' @ dq @ ''confidence'' @ dq @ '':1,'' @ dq @ ''reason''
     @ dq @ '':'' @ dq @ ''r'' @ dq @ '','' @ dq @ ''evidence'' @ dq @ '':'' @ dq @ ''rm'' @ dq @ ''}''"

definition sample_reply_env :: reply_env where
  "sample_reply_env = \<lparr>ry_sanitize = (\<lambda>s. s), ry_redact = (\<lambda>s. s), ry_parse = (\<lambda>l. Some (Finite 1)), ry_counts = (\<lambda>s. (0, 0)),
     ry_lowerBound = (\<lambda>s. False), ry_observed = (\<lambda>s. 0), ry_history = (\<lambda>s. [])\<rparr>"

definition sample_exchange :: call_env where
  "sample_exchange = \<lparr>cv_reply = sample_reply_env, cv_prompts = \<lparr>pr_default = ''d'', pr_cyber = ''c''\<rparr>, cv_outputMaxTokens = 256,
     cv_disableThinking = True, cv_longThreshold = 65536, cv_longTimeout = 60000000000, cv_second = False, cv_repair = [],
     cv_scope = None, cv_originalBytes = 0, cv_crypto = sample_crypto, cv_masterKey = ''k'', cv_slot = None, cv_queueWait = 0,
     cv_request = None,
     cv_exchange = (\<lambda>r. Inr \<lparr>hr_Status = 200, hr_Body = Inr block_body, hr_RequestID = ''x''\<rparr>)\<rparr>"

definition fresh_call :: call_state where
  "fresh_call = \<lparr>cs_budget = fresh_semantic_state, cs_inputs = [],
     cs_output = \<lparr>oa_latest = \<lparr>od_Mode = ''auto'', od_MaxTokens = 256, od_FinishReason = [], od_ResponseContentBytes = 0,
        od_ResponseSource = [], od_ResponsePreview = [], od_ResponseID = [], od_Failed = False\<rparr>, oa_lastFailure = None\<rparr>,
     cs_sent = []\<rparr>"

lemma sample_scope: "auditScopeFromContext (ry_history (cv_reply sample_exchange)) (cv_scope sample_exchange) s
    = \<lparr>sc_Text = s, sc_References = [], sc_Anchors = []\<rparr>"
  by (simp add: auditScopeFromContext_def makeAuditSourceScope_def makeAuditSourceScopeWithReferences_def merge_spans_def
      auditReferenceSpans_def sample_exchange_def sample_reply_env_def map_filter_simps)

lemma sample_ready:
  "valid_utf8 ''rm''" "trim_space ''rm'' \<noteq> []" "cv_slot sample_exchange = None" "cv_request sample_exchange = None"
  "ap_APIKeyCiphertext (sample_profile i) = []" "snd (reserveHTTP (cs_budget fresh_call))"
proof -
  show "valid_utf8 ''rm''" "trim_space ''rm'' \<noteq> []" by code_simp+
qed (simp_all add: sample_exchange_def sample_profile_def fresh_call_def fresh_semantic_state_def reserveHTTP_def cyberDenyHTTPBudget_def)

lemma sample_goes_out:
  assumes "callModelRawWithEvidenceSource sample_exchange plan (sample_profile 1) ''rm'' ''rm'' fresh_call = (answer, st')"
  shows "\<exists>request. cs_sent st' = [request]"
  using call_goes_out [OF assms] sample_ready by (simp add: sample_scope scope_valid_def fresh_call_def)

theorem model_reads_request_witness:
  "\<exists>answer st' request. callModelRawWithEvidenceSource sample_exchange (output_plan 256 (sample_profile 1) 0) (sample_profile 1)
       ''rm'' ''rm'' fresh_call = (answer, st')
     \<and> cs_sent st' = [request] \<and> sent_document (hq_Body request) = Some (auditInputContractVersion, ''rm'', [])"
proof -
  obtain answer st' where a: "callModelRawWithEvidenceSource sample_exchange (output_plan 256 (sample_profile 1) 0) (sample_profile 1)
       ''rm'' ''rm'' fresh_call = (answer, st')" by fastforce
  have "cs_sent fresh_call = []" by (simp add: fresh_call_def)
  with model_reads_request [OF a] sample_goes_out [OF a] a show ?thesis by (auto simp: sample_scope)
qed

text \<open>
  A request that is valid text and not blank is never refused by the check of its own document:
  with a slot, a request that can be built, no API key to open and an HTTP call left, the call goes out.\<close>

theorem request_reaches_model:
  assumes "callModelRawWithEvidenceSource v plan p txt source st = (answer, st')"
    and "valid_utf8 source" and "trim_space source \<noteq> []"
    and "scope_valid (auditScopeFromContext (ry_history (cv_reply v)) (cv_scope v) source)"
    and "cv_slot v = None" and "cv_request v = None" and "ap_APIKeyCiphertext p = []"
    and "snd (reserveHTTP (cs_budget st))"
  shows "\<exists>request. cs_sent st' = cs_sent st @ [request]"
  using assms by (rule call_goes_out)

theorem request_reaches_model_witness:
  "\<exists>answer st' request. callModelRawWithEvidenceSource sample_exchange (output_plan 256 (sample_profile 1) 1) (sample_profile 1)
       ''rm'' ''rm'' fresh_call = (answer, st') \<and> cs_sent st' = [request]"
proof -
  obtain answer st' where a: "callModelRawWithEvidenceSource sample_exchange (output_plan 256 (sample_profile 1) 1) (sample_profile 1)
       ''rm'' ''rm'' fresh_call = (answer, st')" by fastforce
  with request_reaches_model [OF a] sample_ready show ?thesis by (auto simp: sample_scope scope_valid_def fresh_call_def)
qed













text \<open>
  C35. References survive the splitting of a long request. In the scope of a chunk cut at its offset a
  byte is marked as reference exactly when that byte of the request lies in one of the valid spans found or
  given, however these overlap; and a quote that is accepted as lying outside the references of the chunk
  occurs in the request at a place none of whose bytes lies in any of them.\<close>

theorem reference_marks:
  assumes "length offsets = length chunks" and "i < length chunks" and "chunk_offset s (chunks ! i) (offsets ! i)"
    and "scope = auditChunkSourceScopes history (makeAuditSourceScopeWithReferences history s extra) chunks offsets ! i"
  shows "(\<forall>x. 0 \<le> x \<and> x < int (length (chunks ! i)) \<longrightarrow>
      (marked (sc_References scope) x \<longleftrightarrow>
        (\<exists>r \<in> set (auditReferenceSpans history s @ extra). span_valid (int (length s)) r \<and> covers r (offsets ! i + x))))
    \<and> (auditEvidenceOutsideSpans (sc_Text scope) quote (sc_References scope) \<longrightarrow>
        (\<exists>start. take (length (normalizeAuditEvidenceQuote quote)) (drop start s) = normalizeAuditEvidenceQuote quote
           \<and> start + length (normalizeAuditEvidenceQuote quote) \<le> length s
           \<and> (\<forall>x. start \<le> x \<and> x < start + length (normalizeAuditEvidenceQuote quote) \<longrightarrow>
                \<not> (\<exists>r \<in> set (auditReferenceSpans history s @ extra). span_valid (int (length s)) r \<and> covers r (int x)))))"
proof -
  let ?parent = "makeAuditSourceScopeWithReferences history s extra" and ?c = "chunks ! i" and ?o = "offsets ! i"
  let ?q = "normalizeAuditEvidenceQuote quote"
  have parent: "sc_Text ?parent = s" "sc_References ?parent = merge_spans (int (length s)) (auditReferenceSpans history s @ extra)"
    by (simp_all add: makeAuditSourceScopeWithReferences_def Let_def)
  have scope: "sc_Text scope = ?c" "sc_References scope = chunk_references ?parent ?o (int (length ?c))"
    using assms by (simp_all add: auditChunkSourceScopes_def chunk_scope_def parent)
  have m: "marked (sc_References scope) x \<longleftrightarrow>
      (\<exists>r \<in> set (auditReferenceSpans history s @ extra). span_valid (int (length s)) r \<and> covers r (?o + x))"
    if "0 \<le> x" "x < int (length ?c)" for x
    unfolding scope(2) marked_chunk [OF that] parent(2) marked_merge ..
  have place: "0 \<le> ?o" "nat ?o + length ?c \<le> length s" "take (length ?c) (drop (nat ?o) s) = ?c"
    using assms(3) by (auto simp: chunk_offset_def cut_def)
  have "\<exists>start. take (length ?q) (drop start s) = ?q \<and> start + length ?q \<le> length s
      \<and> (\<forall>x. start \<le> x \<and> x < start + length ?q \<longrightarrow>
           \<not> (\<exists>r \<in> set (auditReferenceSpans history s @ extra). span_valid (int (length s)) r \<and> covers r (int x)))"
    if "auditEvidenceOutsideSpans (sc_Text scope) quote (sc_References scope)"
  proof -
    from outside_place [OF that [unfolded auditEvidenceOutsideSpans_def scope(1)]]
    obtain j where j: "j + length ?q \<le> length ?c" "take (length ?q) (drop j ?c) = ?q"
        "\<forall>x. j \<le> x \<and> x < j + length ?q \<longrightarrow> \<not> marked (sc_References scope) (int x)" by blast
    have "take (length ?q) (drop (nat ?o + j) s) = take (length ?q) (drop j (take (length ?c) (drop (nat ?o) s)))"
      using j(1) by (simp add: drop_take add.commute take_take min_absorb1)
    with j(2) place(3) have "take (length ?q) (drop (nat ?o + j) s) = ?q" by simp
    moreover have "\<not> (\<exists>r \<in> set (auditReferenceSpans history s @ extra). span_valid (int (length s)) r \<and> covers r (int x))"
      if "nat ?o + j \<le> x" "x < nat ?o + j + length ?q" for x
    proof -
      have "j \<le> x - nat ?o \<and> x - nat ?o < j + length ?q" using that by linarith
      with j(3) have "\<not> marked (sc_References scope) (int (x - nat ?o))" by blast
      with m [of "int (x - nat ?o)"] that j(1) place(1) show ?thesis by (simp add: of_nat_diff)
    qed
    ultimately show ?thesis using j(1) place(2) by (intro exI [of _ "nat ?o + j"]) auto
  qed
  with m show ?thesis by blast
qed

theorem reference_marks_witness:
  "marked (sc_References (auditChunkSourceScopes (\<lambda>s. []) (makeAuditSourceScopeWithReferences (\<lambda>s. []) ''aXbb''
     [\<lparr>rs_Start = 1, rs_End = 2, rs_Kind = ''k''\<rparr>]) [''Xb''] [1] ! 0)) 0"
proof -
  have "chunk_offset ''aXbb'' ''Xb'' 1" by code_simp
  then show ?thesis
    using reference_marks [of "[1]" "[''Xb'']" 0 "''aXbb''" _ "\<lambda>s. []" "[\<lparr>rs_Start = 1, rs_End = 2, rs_Kind = ''k''\<rparr>]"]
    by (simp add: span_valid_def covers_def)
qed

section \<open>Learning from upstream failures\<close>

text \<open>
  The policy of the learner is read back as it was saved. A policy that
  \<open>SaveAdaptiveRulePolicy\<close> accepts is what \<open>LoadAdaptiveRulePolicy\<close> returns from the rows it wrote, in
  whatever order the query yields them, when the column keeps truth values and integers as they are
  and reading the stored number gives the number back; and whatever the rows hold, a loaded policy
  is one that could have been saved.
\<close>

theorem policy_roundtrip:
  assumes "SaveAdaptiveRulePolicy show_float p = Inr written" and "keeps_text stored show_float parse p"
    and "mset rows = mset (map (\<lambda>(k, v). (k, stored v)) written)"
  shows "LoadAdaptiveRulePolicy parse rows = p
    \<and> (\<forall>parse' rows'. SaveAdaptiveRulePolicy show_float (LoadAdaptiveRulePolicy parse' rows')
         = Inr (policy_rows show_float (LoadAdaptiveRulePolicy parse' rows')))"
  using policy_read_back [OF assms] by (simp add: saved_rows loaded_acceptable)

theorem policy_roundtrip_witness:
  "LoadAdaptiveRulePolicy (\<lambda>l. Some 1) (rev (policy_rows (\<lambda>c. dec_int 1) (defaultAdaptiveRulePolicy\<lparr>po_MinConfidence := 1\<rparr>)))
   = defaultAdaptiveRulePolicy\<lparr>po_MinConfidence := 1\<rparr>"
proof -
  let ?p = "defaultAdaptiveRulePolicy\<lparr>po_MinConfidence := 1\<rparr>"
  have s: "SaveAdaptiveRulePolicy (\<lambda>c. dec_int 1) ?p = Inr (policy_rows (\<lambda>c. dec_int 1) ?p)"
    by (simp add: SaveAdaptiveRulePolicy_def defaultAdaptiveRulePolicy_def)
  have k: "keeps_text (\<lambda>s. s) (\<lambda>c. dec_int 1) (\<lambda>l. Some 1) ?p"
    using unmarshal_small [of 1] by (simp add: keeps_text_def)
  show ?thesis by (rule policy_roundtrip [OF s k, THEN conjunct1]) simp
qed

text \<open>
  C36. What is learned is what the request said. A candidate rule is only made of a failure the
  model classified as cyber with a confidence of at least 0.8 in an allowed category; its pattern
  joins two to four distinct indicators, each contained in the request and none of them looking
  like an address, an identifier or a secret; the pattern never reaches the limit of 8192 bytes, and
  the candidate passes the validation of a promotion by hand.
\<close>

theorem learned_candidate_sound:
  assumes "candidate_of lib compiles digest profile x r = Some c"
  shows "\<exists>is. cc_Pattern c = indicator_pattern is \<and> 2 \<le> length is \<and> length is \<le> 4 \<and> distinct (map (il_lower lib) is)
      \<and> (\<forall>i \<in> set is. contains (il_lower lib (fs_RequestText x)) (il_lower lib i)
           \<and> \<not> adaptiveIndicatorLooksSensitive lib i \<and> length i \<le> 80)
      \<and> length (cc_Pattern c) \<le> 8192
    \<and> lr_IsCyber r \<and> 8 / 10 \<le> lr_Confidence r \<and> cc_Category c \<in> set adaptiveCategoryAllowlist
    \<and> (\<forall>i. ValidateCyberRule compiles (manual_rule i DecisionReview c) = None
         \<and> ValidateCyberRule compiles (manual_rule i DecisionBlock c) = None)"
proof -
  from assms obtain "is" where k: "is = validateAdaptiveIndicators lib (fs_RequestText x) (lr_Indicators r)" "2 \<le> length is"
    "lr_IsCyber r" "8 / 10 \<le> lr_Confidence r" "cc_Category c \<in> set adaptiveCategoryAllowlist" "cc_Pattern c = indicator_pattern is"
    by (rule candidateE)
  note i = indicators_sound [OF k(1)]
  have len: "length (cc_Pattern c) \<le> 8192" unfolding k(6) by (rule pattern_fits) (use i ok_length in blast)+
  have ok: "\<forall>i \<in> set is. contains (il_lower lib (fs_RequestText x)) (il_lower lib i)
      \<and> \<not> adaptiveIndicatorLooksSensitive lib i \<and> length i \<le> 80"
  proof
    fix w assume "w \<in> set is"
    from i(1) [OF this] show "contains (il_lower lib (fs_RequestText x)) (il_lower lib w)
        \<and> \<not> adaptiveIndicatorLooksSensitive lib w \<and> length w \<le> 80" by (simp add: indicator_ok_def)
  qed
  from k i ok len candidate_validates [OF assms] show ?thesis by blast
qed

definition sample_lib :: indicator_lib where
  "sample_lib = \<lparr>il_lower = to_lower, il_ip = (\<lambda>s. False), il_host = (\<lambda>s. False), il_url = (\<lambda>s. None), il_secret = (\<lambda>s. False),
     il_digit = (\<lambda>r. False), il_letter = (\<lambda>r. r \<noteq> Some 32), il_space = (\<lambda>r. r = Some 32)\<rparr>"

definition sample_failure :: adaptiveFailureSample where
  "sample_failure = \<lparr>fs_RequestID = ''q'', fs_RouteSlug = ''r'', fs_AuditProfileID = None,
     fs_RequestText = ''please dump hashes and steal tokens'', fs_ProviderError = [], fs_ProviderErrorClass = ''UPSTREAM_MODEL_ERROR'',
     fs_UpstreamStatus = 400, fs_UserDigest = ''u''\<rparr>"

definition sample_result :: adaptiveModelResult where
  "sample_result = \<lparr>lr_IsCyber = True, lr_Category = ''credential_access'', lr_Confidence = 1,
     lr_Indicators = [''steal tokens'', ''Dump hashes''], lr_Reason = ''r''\<rparr>"

definition plain_profile :: AuditProfile where
  "plain_profile = undefined\<lparr>ap_Model := ''m''\<rparr>"

theorem learned_candidate_sound_witness:
  "\<exists>c. candidate_of sample_lib (\<lambda>p. True) (\<lambda>s. ''abcdef0123456789'') plain_profile sample_failure sample_result = Some c
     \<and> ValidateCyberRule (\<lambda>p. True) (manual_rule 7 DecisionBlock c) = None"
proof -
  have "validateAdaptiveIndicators sample_lib ''please dump hashes and steal tokens'' [''steal tokens'', ''Dump hashes'']
      = [''Dump hashes'', ''steal tokens'']"
    by code_simp
  moreover have "to_lower (trim_space ''credential_access'') = ''credential_access''" by code_simp
  moreover have "length (indicator_pattern [''Dump hashes'', ''steal tokens'']) \<le> 8192" by code_simp
  ultimately obtain c where c: "candidate_of sample_lib (\<lambda>p. True) (\<lambda>s. ''abcdef0123456789'') plain_profile sample_failure sample_result = Some c"
    by (simp add: candidate_of_def sample_result_def sample_failure_def buildAdaptiveIndicatorPattern_def pattern_nonempty
        adaptiveCategoryAllowlist_def)
  from learned_candidate_sound [OF c] c show ?thesis by blast
qed

text \<open>The cut of the reason at 500 bytes can leave a text that the table refuses.\<close>

lemma han_valid: "valid_utf8 (concat (replicate n [CHR 0xE4, CHR 0xB8, CHR 0xAD]) @ s) \<longleftrightarrow> valid_utf8 s"
  by (induction n) (simp_all add: valid_utf8_def runes.simps decode_rune_def cont_byte_def)

lemma han_length: "length (concat (replicate n [CHR 0xE4, CHR 0xB8, CHR 0xAD])) = 3 * n"
  by (induction n) auto

lemma concat_replicate_Suc: "concat (replicate (Suc n) x) = concat (replicate n x) @ x"
  by (induction n) simp_all

theorem reason_cut_unstorable:
  "valid_utf8 (concat (replicate 167 [CHR 0xE4, CHR 0xB8, CHR 0xAD]))
   \<and> \<not> pg_text (truncateString (concat (replicate 167 [CHR 0xE4, CHR 0xB8, CHR 0xAD])) 500)"
proof -
  define r where "r n = concat (replicate n [CHR 0xE4, CHR 0xB8, CHR 0xAD])" for n
  have "Suc 166 = 167" by simp
  with concat_replicate_Suc [of 166 "[CHR 0xE4, CHR 0xB8, CHR 0xAD]"]
  have "r 167 = r 166 @ [CHR 0xE4, CHR 0xB8, CHR 0xAD]" unfolding r_def by metis
  moreover have "length (r 166) = 498" unfolding r_def han_length by simp
  ultimately have "truncateString (r 167) 500 = r 166 @ [CHR 0xE4, CHR 0xB8]" by (simp add: truncateString_def)
  moreover have "\<not> valid_utf8 [CHR 0xE4, CHR 0xB8]" "valid_utf8 []" by code_simp+
  moreover note han_valid [of 166 "[CHR 0xE4, CHR 0xB8]", folded r_def] han_valid [of 167 "[]", folded r_def]
  ultimately show ?thesis unfolding r_def [symmetric] by (simp add: pg_text_def)
qed

text \<open>
  C37. Evidence is counted exactly. Whatever workers and administrators do in between, a candidate's
  evidence is the number of samples of its fingerprint that were accepted, its distinct users the
  number of different user digests among them, and every accepted sample has its candidate
  (up to the 32 bits of the counter).
\<close>

theorem evidence_exact:
  assumes "int (length xs) \<le> max_int32" and "db = ls_db (learn_run compiles xs (fresh_learning rules n))"
  shows "(\<forall>c \<in> set (db_candidates db). cc_EvidenceCount c = int (length (evidence_for (cc_Fingerprint c) xs))
      \<and> cc_DistinctUsers c = int (card (set (evidence_for (cc_Fingerprint c) xs) - {[]})))
    \<and> (\<forall>f. evidence_for f xs \<noteq> [] \<longrightarrow> (\<exists>c \<in> set (db_candidates db). cc_Fingerprint c = f))
    \<and> distinct (map cc_Fingerprint (db_candidates db))"
  using evidence_exact_run [OF assms(1), of _ compiles rules n] counted_run [OF assms(1), of compiles rules n]
    learn_run_ok [of compiles xs rules n] unfolding assms(2) evidence_counted_def candidates_ok_def by blast

definition sample_candidate :: CyberRuleCandidate where
  "sample_candidate = \<lparr>cc_ID = 0, cc_Fingerprint = ''f'', cc_ProposedCode = ''C'', cc_Category = ''malware'', cc_Pattern = ''p'',
     cc_PatternType = ''regex'', cc_ProposedAction = ''review'', cc_Confidence = 1, cc_Model = ''m'', cc_RouteSlug = ''r'',
     cc_ProviderErrorClass = [], cc_UpstreamStatus = 400, cc_Reason = [], cc_EvidenceCount = 0, cc_DistinctUsers = 0,
     cc_Status = [], cc_PromotedRuleID = None\<rparr>"

lemma sample_storable: "storable sample_candidate" "pg_text ''u''" "pg_text ''v''"
  by code_simp+

theorem evidence_exact_witness:
  "\<exists>c \<in> set (db_candidates (ls_db (learn_run (\<lambda>p. True)
       [Learn sample_candidate ''u'', Learn sample_candidate [], Learn sample_candidate ''u'', Learn sample_candidate ''v'']
       (fresh_learning [] 1)))). cc_EvidenceCount c = 4 \<and> cc_DistinctUsers c = 2"
proof -
  let ?xs = "[Learn sample_candidate ''u'', Learn sample_candidate [], Learn sample_candidate ''u'', Learn sample_candidate ''v'']"
  have e: "evidence_for ''f'' ?xs = [''u'', [], ''u'', ''v'']"
    using sample_storable by (simp add: evidence_for_def) (simp add: sample_candidate_def)
  have "int (length ?xs) \<le> max_int32" by (simp add: max_int32_def)
  note k = evidence_exact [OF this refl, of "\<lambda>p. True" "[]" 1]
  from k [THEN conjunct2, THEN conjunct1, rule_format, of "''f''"] e obtain c where "c \<in> set (db_candidates (ls_db (learn_run (\<lambda>p. True) ?xs (fresh_learning [] 1))))" "cc_Fingerprint c = ''f''"
    by auto
  moreover have "set [''u'', [], ''u'', ''v''] - {[]} = {''u'', ''v''}" by auto
  ultimately show ?thesis using k e by (intro bexI [of _ c]) auto
qed

text \<open>
  C38. No rule is enforced on learning alone. Whatever the interleaving, a rule that neither came with the
  installation nor bears a code an administrator has saved or promoted by hand has behind it a stored
  candidate of that code which meets the confidence, evidence and users that some worker's policy
  with automatic promotion asked for; and if it blocks, a candidate of the code with a confidence of
  at least 0.995, ten samples and three users, under a policy with automatic blocks.
\<close>

theorem learned_rules_backed:
  assumes "db = ls_db (learn_run compiles xs (fresh_learning rules n))" and "r \<in> set (db_rules db)"
    and "cr_Code r \<notin> cr_Code ` set rules" and "\<not> written_by_hand xs db (cr_Code r)"
  shows "(\<exists>c \<in> set (db_candidates db). \<exists>i p. Decide i p \<in> set xs \<and> po_AutoPromote p \<and> cc_ProposedCode c = cr_Code r
       \<and> po_MinConfidence p \<le> cc_Confidence c \<and> po_MinEvidence p \<le> cc_EvidenceCount c \<and> po_MinDistinctUsers p \<le> cc_DistinctUsers c)
    \<and> (cr_Action r = DecisionBlock \<longrightarrow>
       (\<exists>c \<in> set (db_candidates db). \<exists>i p. Decide i p \<in> set xs \<and> po_AutoPromote p \<and> po_AutoBlock p \<and> cc_ProposedCode c = cr_Code r
          \<and> 995 / 1000 \<le> cc_Confidence c \<and> 10 \<le> cc_EvidenceCount c \<and> 3 \<le> cc_DistinctUsers c))"
proof -
  have "rule_behind xs rules db r" using rules_behind_run [of compiles xs rules n] assms(1,2) by blast
  with assms(3,4) have k: "evidence_behind xs db (cr_Code r)" "cr_Action r = DecisionBlock \<Longrightarrow> block_behind xs db (cr_Code r)"
    by (auto simp: rule_behind_def)
  from k(1) k(2) show ?thesis unfolding evidence_behind_def block_behind_def policy_used_def by blast
qed

definition eager_policy :: AdaptiveRulePolicy where
  "eager_policy = \<lparr>po_Enabled = True, po_AutoPromote = True, po_MinConfidence = 9 / 10, po_MinEvidence = 1,
     po_MinDistinctUsers = 1, po_AutoBlock = True\<rparr>"

definition promoting_run :: "learn_input list" where
  "promoting_run = [Learn sample_candidate ''u'', Decide 0 eager_policy, Promote 0]"

definition learned_row :: CyberRuleCandidate where
  "learned_row = sample_candidate\<lparr>cc_ID := 1, cc_EvidenceCount := 1, cc_DistinctUsers := 1, cc_Status := ''candidate''\<rparr>"

lemma learned_once: "learn_run (\<lambda>p. True) [Learn sample_candidate ''u''] (fresh_learning [] 1)
    = \<lparr>ls_db = \<lparr>db_candidates = [learned_row], db_users = [(1, ''u'')], db_rules = [], db_nextCandidate = 2, db_nextRule = 1\<rparr>,
       ls_work = [Stored learned_row]\<rparr>"
  using sample_storable
  by (simp add: learn_run_def fresh_learning_def UpsertCyberRuleCandidate_def upsert_row_def Let_def new_candidate_def
      add_user_def users_of_def learned_row_def) (simp add: sample_candidate_def update_where_def)

lemma ready_to_promote: "learn_run (\<lambda>p. True) [Learn sample_candidate ''u'', Decide 0 eager_policy] (fresh_learning [] 1)
    = \<lparr>ls_db = \<lparr>db_candidates = [learned_row], db_users = [(1, ''u'')], db_rules = [], db_nextCandidate = 2, db_nextRule = 1\<rparr>,
       ls_work = [Promoting learned_row eager_policy]\<rparr>"
proof -
  have p: "promotable eager_policy learned_row" by (simp add: promotable_def eager_policy_def learned_row_def sample_candidate_def)
  have "learn_run (\<lambda>p. True) [Learn sample_candidate ''u'', Decide 0 eager_policy] (fresh_learning [] 1)
      = learn_step (\<lambda>p. True) (Decide 0 eager_policy) (learn_run (\<lambda>p. True) [Learn sample_candidate ''u''] (fresh_learning [] 1))"
    by (simp add: learn_run_def)
  with p show ?thesis by (simp add: learned_once work_at_def)
qed

theorem learned_rules_backed_witness:
  "\<exists>r \<in> set (db_rules (ls_db (learn_run (\<lambda>p. True) promoting_run (fresh_learning [] 1)))). cr_Action r = DecisionReview
     \<and> (\<exists>c \<in> set (db_candidates (ls_db (learn_run (\<lambda>p. True) promoting_run (fresh_learning [] 1)))).
          cc_ProposedCode c = cr_Code r \<and> 1 \<le> cc_EvidenceCount c)"
proof -
  let ?r = "adaptive_rule 1 DecisionReview learned_row" and ?db = "ls_db (learn_run (\<lambda>p. True) promoting_run (fresh_learning [] 1))"
  have run: "learn_run (\<lambda>p. True) promoting_run (fresh_learning [] 1) = learn_step (\<lambda>p. True) (Promote 0)
      (learn_run (\<lambda>p. True) [Learn sample_candidate ''u'', Decide 0 eager_policy] (fresh_learning [] 1))"
    by (simp add: learn_run_def promoting_run_def)
  have a: "promoted_action True learned_row = DecisionReview" "po_AutoBlock eager_policy"
    by (simp_all add: promoted_action_def learned_row_def eager_policy_def)
  have rules: "db_rules ?db = [?r]"
    unfolding run ready_to_promote by (simp add: work_at_def PromoteCyberRuleCandidate_def a Let_def)
  have h: "\<not> written_by_hand promoting_run ?db (cr_Code ?r)" by (simp add: written_by_hand_def promoting_run_def)
  have "?r \<in> set (db_rules ?db)" by (simp add: rules)
  from learned_rules_backed [OF refl this _ h] obtain c i p where c: "c \<in> set (db_candidates ?db)" "Decide i p \<in> set promoting_run"
    "cc_ProposedCode c = cr_Code ?r" "po_MinEvidence p \<le> cc_EvidenceCount c" by auto
  then have "1 \<le> cc_EvidenceCount c" by (auto simp: promoting_run_def eager_policy_def)
  with c rules show ?thesis by (auto simp: adaptive_rule_def)
qed

text \<open>
  C39. A rejection lasts. Once a candidate is rejected and no worker holds a row of it, no number of
  further samples, promotions and administrators' actions brings it back, as long as nobody sets
  its status to another one; in particular no worker will promote it.
\<close>

theorem rejection_lasts:
  assumes "st = learn_run compiles xs (fresh_learning rules n)"
    and "c \<in> set (db_candidates (ls_db st))" and "cc_Status c = ''rejected''"
    and "\<forall>w \<in> set (ls_work st). cc_ID (work_row w) \<noteq> cc_ID c"
    and "\<forall>s. SetStatus (cc_ID c) s \<in> set ys \<longrightarrow> s = ''rejected''"
  shows "(\<exists>c' \<in> set (db_candidates (ls_db (learn_run compiles ys st))). cc_ID c' = cc_ID c \<and> cc_Status c' = ''rejected'')
    \<and> (\<forall>c' p. Promoting c' p \<in> set (ls_work (learn_run compiles ys st)) \<longrightarrow> cc_ID c' \<noteq> cc_ID c)"
proof -
  have "rejected_at_rest (cc_ID c) st" using assms(2-4) by (auto simp: rejected_at_rest_def)
  from rejected_run [OF _ this assms(5)] learn_run_ok assms(1)
  have "rejected_at_rest (cc_ID c) (learn_run compiles ys st)" by blast
  then show ?thesis by (auto simp: rejected_at_rest_def)
qed

theorem rejection_lasts_witness:
  "\<exists>c' \<in> set (db_candidates (ls_db (learn_run (\<lambda>p. True) [Learn sample_candidate ''v'', Decide 0 eager_policy, PromoteManual 1 ''block'']
       (learn_run (\<lambda>p. True) [Learn sample_candidate ''u'', SetStatus 1 ''rejected'', Abandon 0] (fresh_learning [] 1))))).
     cc_ID c' = 1 \<and> cc_Status c' = ''rejected''"
proof -
  let ?st = "learn_run (\<lambda>p. True) [Learn sample_candidate ''u'', SetStatus 1 ''rejected'', Abandon 0] (fresh_learning [] 1)"
  let ?c = "learned_row\<lparr>cc_Status := ''rejected''\<rparr>"
  have "?st = learn_step (\<lambda>p. True) (Abandon 0) (learn_step (\<lambda>p. True) (SetStatus 1 ''rejected'')
      (learn_run (\<lambda>p. True) [Learn sample_candidate ''u''] (fresh_learning [] 1)))" by (simp add: learn_run_def)
  then have st: "db_candidates (ls_db ?st) = [?c]" "ls_work ?st = []"
    by (simp_all add: learned_once SetCyberRuleCandidateStatus_def remove_at_def) (simp_all add: learned_row_def update_where_def)
  have id: "cc_ID ?c = 1" by (simp add: learned_row_def)
  show ?thesis
    by (rule rejection_lasts [OF refl, of ?c, THEN conjunct1, unfolded id]) (simp_all add: st)
qed

definition by_administrator :: "learn_input \<Rightarrow> bool" where
  "by_administrator x \<longleftrightarrow> (case x of SetStatus i s \<Rightarrow> True | PromoteManual i a \<Rightarrow> True | SaveRule r \<Rightarrow> True | DeleteRule i \<Rightarrow> True | _ \<Rightarrow> False)"

text \<open>
  C40. An automatic promotion under way looks at nothing any more. Whatever administrators have done to
  the candidate or to the rules since the worker read the row, rejections included, the promotion
  leaves every row of that id promoted and an enabled rule of its code with its pattern.
\<close>

theorem promotion_overrides:
  assumes "work_at k st = Some (Promoting c p)" and "\<forall>x \<in> set ys. by_administrator x"
    and "db = ls_db (learn_run compiles (ys @ [Promote k]) st)"
  shows "(\<forall>c' \<in> set (db_candidates db). cc_ID c' = cc_ID c \<longrightarrow> cc_Status c' = ''promoted'')
    \<and> (\<exists>r \<in> set (db_rules db). cr_Code r = cc_ProposedCode c \<and> cr_Pattern r = cc_Pattern c \<and> cr_Enabled r
         \<and> (cr_Action r = DecisionBlock \<or> cr_Action r = DecisionReview))"
proof -
  have "ls_work (learn_run compiles ys st) = ls_work st" using assms(2)
  proof (induction ys rule: rev_induct)
    case (snoc x xs)
    then show ?case by (cases x) (auto simp: by_administrator_def split: sum.split)
  qed simp
  then have w: "work_at k (learn_run compiles ys st) = Some (Promoting c p)" using assms(1) by (simp add: work_at_def split: if_splits)
  obtain rule db' where d: "PromoteCyberRuleCandidate c (po_AutoBlock p) (ls_db (learn_run compiles ys st)) = (rule, db')" by fastforce
  from d w have "db = db'" using assms(3) by simp
  with promotion_writes [OF d] show ?thesis by blast
qed

theorem promotion_overrides_witness:
  "\<exists>r \<in> set (db_rules (ls_db (learn_run (\<lambda>p. True) ([SetStatus 1 ''rejected''] @ [Promote 0])
       (learn_run (\<lambda>p. True) [Learn sample_candidate ''u'', Decide 0 eager_policy] (fresh_learning [] 1))))).
     cr_Code r = ''C'' \<and> cr_Enabled r"
proof -
  have w: "work_at 0 (learn_run (\<lambda>p. True) [Learn sample_candidate ''u'', Decide 0 eager_policy] (fresh_learning [] 1))
      = Some (Promoting learned_row eager_policy)" by (simp add: ready_to_promote work_at_def)
  have a: "\<forall>x \<in> set [SetStatus 1 ''rejected'']. by_administrator x" by (simp add: by_administrator_def)
  have c: "cc_ProposedCode learned_row = ''C''" by (simp add: learned_row_def sample_candidate_def)
  from promotion_overrides [OF w a refl, of "\<lambda>p. True"] show ?thesis unfolding c by blast
qed

end
